(* ===== verification/Prelude.thy ===== *)
theory Prelude
  imports Main "HOL-Library.Word" "HOL-Library.State_Monad"
begin

text \<open>
  Shared vocabulary of the development: the C integer types, the state monad in which the
  drivers are written, the loop and error idioms the C sources repeat (a counted loop that
  stops at the first non-zero return code, a chain of calls guarded by \<open>if (!ret)\<close>, the
  accumulation \<open>ret |= f()\<close>), byte buffers with checked accesses, and the little-endian
  layout of a 32-bit word.  The generic lemmas about them are proved here once and reach the
  component theories through the simplifier and the collections \<open>keeps_intros\<close> (which calls
  leave which part of the state alone), \<open>preserves_intros\<close> (which calls keep an invariant) and
  \<open>wrap_simps\<close> (removing wrap-around that does not happen).
\<close>

unbundle bit_operations_syntax

section \<open>C types\<close>

type_synonym u8 = "8 word"
type_synonym u16 = "16 word"
type_synonym u32 = "32 word"
type_synonym u64 = "64 word"

named_theorems keeps_intros \<open>computations that keep a component of the state\<close>
named_theorems preserves_intros \<open>computations that keep an invariant\<close>
named_theorems wrap_simps \<open>wrap-around that does not happen\<close>

text \<open>
  Unsigned conversions on \<open>int\<close>, for the arithmetic of the PLL computations: the value is
  kept as a mathematical integer and every C conversion or unsigned operation that can wrap
  is written with the width it wraps at.
\<close>

definition wrap8 :: "int \<Rightarrow> int" where
  "wrap8 n = n mod 256"

definition wrap16 :: "int \<Rightarrow> int" where
  "wrap16 n = n mod 65536"

definition wrap32 :: "int \<Rightarrow> int" where
  "wrap32 n = n mod 4294967296"

definition wrap64 :: "int \<Rightarrow> int" where
  "wrap64 n = n mod 18446744073709551616"

text \<open>The two's complement reading of a 16-bit pattern held in an \<open>int\<close>.\<close>

definition sint16 :: "int \<Rightarrow> int" where
  "sint16 n = (if wrap16 n < 32768 then wrap16 n else wrap16 n - 65536)"

text \<open>C division by a positive number truncates towards zero.\<close>

definition c_quot :: "int \<Rightarrow> int \<Rightarrow> int" where
  "c_quot a b = (if a \<ge> 0 then a div b else - ((- a) div b))"

text \<open>A masked update of a byte.\<close>

definition masked :: "u8 \<Rightarrow> u8 \<Rightarrow> u8 \<Rightarrow> u8" where
  "masked old m v = (old AND NOT m) OR (v AND m)"

section \<open>Running monadic code\<close>

text \<open>Result and final state of a computation.\<close>

abbreviation result_of :: "('s, 'a) state \<Rightarrow> 's \<Rightarrow> 'a" where
  "result_of m s \<equiv> fst (run_state m s)"

abbreviation state_of :: "('s, 'a) state \<Rightarrow> 's \<Rightarrow> 's" where
  "state_of m s \<equiv> snd (run_state m s)"

abbreviation ret :: "'a \<Rightarrow> ('s, 'a) state" where
  "ret \<equiv> State_Monad.return"

text \<open>\<open>for (x in xs) { r = f(x); if (r) break; } return r;\<close>\<close>

primrec for_until :: "('x \<Rightarrow> ('s, int) state) \<Rightarrow> 'x list \<Rightarrow> int \<Rightarrow> ('s, int) state" where
  "for_until f [] r = ret r"
| "for_until f (x # xs) r = do { r' \<leftarrow> f x; if r' \<noteq> 0 then ret r' else for_until f xs r' }"

text \<open>\<open>if (!r) r = m; \<close>\<close>

definition unless_err :: "int \<Rightarrow> ('s, int) state \<Rightarrow> ('s, int) state" where
  "unless_err r m = (if r = 0 then m else ret r)"

text \<open>\<open>ret = m; if (ret) goto exit; n\<close>, and the same after a register read.\<close>

definition and_then :: "('s, int) state \<Rightarrow> ('s, int) state \<Rightarrow> ('s, int) state" where
  "and_then m n = do { r \<leftarrow> m; unless_err r n }"

definition on_read :: "('s, int \<times> 'v) state \<Rightarrow> ('v \<Rightarrow> ('s, int) state) \<Rightarrow> ('s, int) state" where
  "on_read m k = do { (r, v) \<leftarrow> m; unless_err r (k v) }"

text \<open>
  \<open>rc = m; if (rc < 0) return rc; n\<close>, the same after a read, and both inside a function that can stop the program.
\<close>

definition nonneg_then :: "('s, int) state \<Rightarrow> ('s, int) state \<Rightarrow> ('s, int) state" where
  "nonneg_then m n = do { rc \<leftarrow> m; if rc < 0 then ret rc else n }"

definition nonneg_read :: "('s, int \<times> 'v) state \<Rightarrow> ('v \<Rightarrow> ('s, int) state) \<Rightarrow> ('s, int) state" where
  "nonneg_read m k = do { (rc, v) \<leftarrow> m; if rc < 0 then ret rc else k v }"

definition try_then :: "('s, int) state \<Rightarrow> ('s, int option) state \<Rightarrow> ('s, int option) state" where
  "try_then m n = do { rc \<leftarrow> m; if rc < 0 then ret (Some rc) else n }"

definition try_read :: "('s, int \<times> 'v) state \<Rightarrow> ('v \<Rightarrow> ('s, int option) state) \<Rightarrow> ('s, int option) state" where
  "try_read m k = do { (rc, v) \<leftarrow> m; if rc < 0 then ret (Some rc) else k v }"

text \<open>\<open>for (x in xs) f(x);\<close> with the return codes ignored.\<close>

primrec for_each :: "('x \<Rightarrow> ('s, int) state) \<Rightarrow> 'x list \<Rightarrow> ('s, unit) state" where
  "for_each f [] = ret ()"
| "for_each f (x # xs) = do { _ \<leftarrow> f x; for_each f xs }"

text \<open>Lifting a computation on a component of the state, as a call through a struct field does.\<close>

definition zoom :: "('s \<Rightarrow> 'd) \<Rightarrow> ('d \<Rightarrow> 's \<Rightarrow> 's) \<Rightarrow> ('d, 'a) state \<Rightarrow> ('s, 'a) state" where
  "zoom get_d put_d m = State (\<lambda>s. case run_state m (get_d s) of (a, d) \<Rightarrow> (a, put_d d s))"

text \<open>
  A computation that keeps \<open>ok\<close> and changes what \<open>vw\<close> observes by \<open>f\<close>, whatever its result.
\<close>

definition effect :: "('s \<Rightarrow> bool) \<Rightarrow> ('s \<Rightarrow> 'v) \<Rightarrow> ('s, 'a) state \<Rightarrow> ('v \<Rightarrow> 'v) \<Rightarrow> bool" where
  "effect ok vw m f \<longleftrightarrow> (\<forall>s. ok s \<longrightarrow> ok (state_of m s) \<and> vw (state_of m s) = f (vw s))"

text \<open>A computation that leaves the component \<open>f\<close> of the state alone.\<close>

definition keeps :: "('s \<Rightarrow> 'v) \<Rightarrow> ('s, 'a) state \<Rightarrow> bool" where
  "keeps f m \<longleftrightarrow> (\<forall>s. f (state_of m s) = f s)"

text \<open>A computation that keeps an invariant of the state.\<close>

definition preserves :: "('s \<Rightarrow> bool) \<Rightarrow> ('s, 'a) state \<Rightarrow> bool" where
  "preserves I m \<longleftrightarrow> (\<forall>s. I s \<longrightarrow> I (state_of m s))"

section \<open>Byte buffers\<close>

text \<open>
  A C buffer is the list of its bytes.  An access past its end is undefined behaviour and is
  the value \<open>None\<close>, so that a theorem that a call returns \<open>Some\<close> says in particular that it
  stays inside the buffer.
\<close>

definition mem_write :: "u8 list \<Rightarrow> nat \<Rightarrow> u8 list \<Rightarrow> u8 list option" where
  "mem_write buf off bs =
     (if off + length bs \<le> length buf
      then Some (take off buf @ bs @ drop (off + length bs) buf) else None)"

definition mem_read :: "u8 list \<Rightarrow> nat \<Rightarrow> nat \<Rightarrow> u8 list option" where
  "mem_read buf off n = (if off + n \<le> length buf then Some (take n (drop off buf)) else None)"

definition u32_bytes :: "u32 \<Rightarrow> u8 list" where
  "u32_bytes w = [ucast w, ucast (drop_bit 8 w), ucast (drop_bit 16 w), ucast (drop_bit 24 w)]"

definition bytes_u32 :: "u8 list \<Rightarrow> u32" where
  "bytes_u32 bs =
     (case bs of
        [b0, b1, b2, b3] \<Rightarrow>
          ucast b0 OR push_bit 8 (ucast b1) OR push_bit 16 (ucast b2) OR push_bit 24 (ucast b3)
      | _ \<Rightarrow> 0)"

section \<open>Lemmas\<close>

lemma wrap_ids [wrap_simps]:
  "0 \<le> n \<Longrightarrow> n < 256 \<Longrightarrow> wrap8 n = n"
  "0 \<le> n \<Longrightarrow> n < 65536 \<Longrightarrow> wrap16 n = n"
  "0 \<le> n \<Longrightarrow> n < 4294967296 \<Longrightarrow> wrap32 n = n"
  "0 \<le> n \<Longrightarrow> n < 18446744073709551616 \<Longrightarrow> wrap64 n = n"
  by (simp_all add: wrap8_def wrap16_def wrap32_def wrap64_def)

lemma wrap_bounds [simp]:
  "0 \<le> wrap8 n" "wrap8 n < 256" "0 \<le> wrap16 n" "wrap16 n < 65536"
  "0 \<le> wrap32 n" "wrap32 n < 4294967296" "0 \<le> wrap64 n" "wrap64 n < 18446744073709551616"
  by (simp_all add: wrap8_def wrap16_def wrap32_def wrap64_def)

text \<open>Comparing an integer quotient with a bound.\<close>

lemma zle_div_iff: "n \<le> a div k \<longleftrightarrow> n * k \<le> a" if "0 < k" for a k n :: int
proof
  assume "n \<le> a div k"
  then have "n * k \<le> a div k * k" using that by (simp add: mult_right_mono)
  also have "\<dots> \<le> a" using div_mult_mod_eq [of a k] pos_mod_sign [OF that, of a] by linarith
  finally show "n * k \<le> a" .
next
  assume "n * k \<le> a"
  then have "n * k div k \<le> a div k" using that by (intro zdiv_mono1)
  then show "n \<le> a div k" using that by simp
qed

lemma zdiv_less_iff: "a div k < n \<longleftrightarrow> a < n * k" if "0 < k" for a k n :: int
  using zle_div_iff [OF that, of n a] by linarith

lemma sint16_small: "0 \<le> n \<Longrightarrow> n < 32768 \<Longrightarrow> sint16 n = n"
  by (simp add: sint16_def wrap16_def)

lemma sint16_large: "32768 \<le> n \<Longrightarrow> n < 65536 \<Longrightarrow> sint16 n = n - 65536"
  by (simp add: sint16_def wrap16_def)

text \<open>Masking the low bits of an integer.\<close>

lemma and_low_bits:
  "(n :: int) AND 0x0f = n mod 16" "n AND 0x3f = n mod 64" "n AND 0xff = n mod 256"
  using take_bit_eq_mask [of 4 n] take_bit_eq_mask [of 6 n] take_bit_eq_mask [of 8 n]
  by (simp_all add: take_bit_eq_mod mask_eq_exp_minus_1)

lemma uint_less_u32 [simp]: "uint (w :: u32) < 4294967296"
  using uint_bounded [of w] by simp

lemma uint_less_u8 [simp]: "uint (w :: u8) < 256"
  using uint_bounded [of w] by simp

lemma masked_simps:
  "masked old m v AND m = v AND m"
  "masked old m v AND NOT m = old AND NOT m"
  "masked old m v AND k = (if k AND m = 0 then old AND k else masked old m v AND k)"
  by (auto simp: masked_def bit_eq_iff bit_simps)

subsection \<open>Monadic code\<close>

declare State_Monad.run_state_bind [simp del]

lemma run_bind [simp]:
  "run_state (State_Monad.bind m f) s = run_state (f (result_of m s)) (state_of m s)"
  by (simp add: State_Monad.run_state_bind split_beta)

lemma run_update [simp]: "run_state (State_Monad.update f) s = ((), f s)"
  by (simp add: State_Monad.update_def State_Monad.run_state_bind)

lemma run_if [simp]:
  "run_state (if b then m else n) s = (if b then run_state m s else run_state n s)"
  by simp

lemma run_zoom [simp]:
  "run_state (zoom g p m) s = (result_of m (g s), p (state_of m (g s)) s)"
  by (simp add: zoom_def split_beta)

lemma run_unless_err [simp]:
  "run_state (unless_err r m) s = (if r = 0 then run_state m s else (r, s))"
  by (simp add: unless_err_def)

lemma run_and_then [simp]:
  "run_state (and_then m n) s =
     (if result_of m s = 0 then run_state n (state_of m s) else run_state m s)"
  by (cases "run_state m s") (simp add: and_then_def)

lemma run_on_read [simp]:
  "run_state (on_read m k) s =
     (if fst (result_of m s) = 0 then run_state (k (snd (result_of m s))) (state_of m s)
      else (fst (result_of m s), state_of m s))"
  by (simp add: on_read_def split_beta)

lemma nonneg_run [simp]:
  "run_state (nonneg_then m n) s =
     (if result_of m s < 0 then run_state m s else run_state n (state_of m s))"
  "run_state (nonneg_read rd k) s =
     (if fst (result_of rd s) < 0 then (fst (result_of rd s), state_of rd s)
      else run_state (k (snd (result_of rd s))) (state_of rd s))"
  "run_state (try_then m n') s =
     (if result_of m s < 0 then (Some (result_of m s), state_of m s) else run_state n' (state_of m s))"
  "run_state (try_read rd k') s =
     (if fst (result_of rd s) < 0 then (Some (fst (result_of rd s)), state_of rd s)
      else run_state (k' (snd (result_of rd s))) (state_of rd s))"
  by (cases "run_state m s"; simp add: nonneg_then_def try_then_def)
     (simp_all add: nonneg_read_def try_read_def try_then_def split_beta)

lemma for_until_append:
  "run_state (for_until f (xs @ ys) r) s =
     (if result_of (for_until f xs r) s = 0 \<or> xs = []
      then run_state (for_until f ys (result_of (for_until f xs r) s)) (state_of (for_until f xs r) s)
      else run_state (for_until f xs r) s)"
  by (induction xs arbitrary: r s) (auto split: if_splits)

lemma for_until_all_ok:
  assumes "\<And>x s. x \<in> set xs \<Longrightarrow> I s \<Longrightarrow> result_of (f x) s = 0 \<and> I (state_of (f x) s)"
    and "I s"
  shows "result_of (for_until f xs 0) s = 0 \<and> I (state_of (for_until f xs 0) s)
    \<and> state_of (for_until f xs 0) s = state_of (for_each f xs) s"
  using assms
proof (induction xs arbitrary: s)
  case Nil
  then show ?case by simp
next
  case (Cons x xs)
  have x: "result_of (f x) s = 0" "I (state_of (f x) s)"
    using Cons.prems by auto
  show ?case
    using Cons.IH [of "state_of (f x) s"] Cons.prems x by auto
qed

lemma effect_ret: "effect ok vw (ret x) id"
  by (simp add: effect_def)

lemma effect_bind:
  "effect ok vw m f \<Longrightarrow> (\<And>r. effect ok vw (n r) g) \<Longrightarrow> effect ok vw (State_Monad.bind m n) (g \<circ> f)"
  by (simp add: effect_def)

lemma effect_for_each:
  "(\<And>x. effect ok vw (h x) (g x)) \<Longrightarrow> effect ok vw (for_each h xs) (fold g xs)"
  by (induction xs) (simp_all add: effect_def)

lemma keeps_basic [keeps_intros]:
  "keeps f (ret x)" "keeps f State_Monad.get"
  by (simp_all add: keeps_def)

lemma keeps_bind [keeps_intros]:
  "keeps f m \<Longrightarrow> (\<And>r. keeps f (n r)) \<Longrightarrow> keeps f (State_Monad.bind m n)"
  by (simp add: keeps_def)

lemma keeps_control [keeps_intros]:
  "(b \<Longrightarrow> keeps f m) \<Longrightarrow> (\<not> b \<Longrightarrow> keeps f n) \<Longrightarrow> keeps f (if b then m else n)"
  "keeps f m' \<Longrightarrow> keeps f (unless_err r m')"
  "keeps f m' \<Longrightarrow> keeps f n' \<Longrightarrow> keeps f (and_then m' n')"
  "keeps f rd \<Longrightarrow> (\<And>v. keeps f (k v)) \<Longrightarrow> keeps f (on_read rd k)"
  "(\<And>a b. keeps f (g a b)) \<Longrightarrow> keeps f (case p of (a, b) \<Rightarrow> g a b)"
  "keeps f u \<Longrightarrow> (\<And>y. keeps f (w y)) \<Longrightarrow> keeps f (case opt of None \<Rightarrow> u | Some y \<Rightarrow> w y)"
  "(\<And>y. keeps f (l y)) \<Longrightarrow> (\<And>z. keeps f (rr z)) \<Longrightarrow> keeps f (case sm of Inl y \<Rightarrow> l y | Inr z \<Rightarrow> rr z)"
  "(\<And>y. keeps f (h y)) \<Longrightarrow> keeps f (let y = e in h y)"
  by (auto simp: keeps_def unless_err_def and_then_def on_read_def split_beta split: option.splits sum.splits)

lemma keeps_loops [keeps_intros]:
  "(\<And>x. keeps f (g x)) \<Longrightarrow> keeps f (for_until g xs r)"
  "(\<And>x. keeps f (g x)) \<Longrightarrow> keeps f (for_each g xs)"
  by (induction xs arbitrary: r) (auto simp: keeps_def)

lemma keeps_zoom:
  "keeps f m \<Longrightarrow> (\<And>d s. f (get_d (put_d d s)) = f d) \<Longrightarrow> keeps (\<lambda>s. f (get_d s)) (zoom get_d put_d m)"
  by (simp add: keeps_def)

lemma keeps_update: "(\<And>s. f (g s) = f s) \<Longrightarrow> keeps f (State_Monad.update g)"
  by (simp add: keeps_def)

lemma preserves_basic [preserves_intros]:
  "preserves I (ret x)" "preserves I State_Monad.get"
  by (simp_all add: preserves_def)

lemma preserves_bind [preserves_intros]:
  "preserves I m \<Longrightarrow> (\<And>r. preserves I (n r)) \<Longrightarrow> preserves I (State_Monad.bind m n)"
  by (simp add: preserves_def)

lemma preserves_control [preserves_intros]:
  "(b \<Longrightarrow> preserves I m) \<Longrightarrow> (\<not> b \<Longrightarrow> preserves I n) \<Longrightarrow> preserves I (if b then m else n)"
  "preserves I m' \<Longrightarrow> preserves I n' \<Longrightarrow> preserves I (nonneg_then m' n')"
  "preserves I rd \<Longrightarrow> (\<And>v. preserves I (k v)) \<Longrightarrow> preserves I (nonneg_read rd k)"
  "preserves I m' \<Longrightarrow> preserves I n'' \<Longrightarrow> preserves I (try_then m' n'')"
  "preserves I rd \<Longrightarrow> (\<And>v. preserves I (k' v)) \<Longrightarrow> preserves I (try_read rd k')"
  "(\<And>a b. preserves I (g a b)) \<Longrightarrow> preserves I (case p of (a, b) \<Rightarrow> g a b)"
  "preserves I u \<Longrightarrow> (\<And>y. preserves I (w y)) \<Longrightarrow> preserves I (case opt of None \<Rightarrow> u | Some y \<Rightarrow> w y)"
  "(\<And>y. preserves I (l y)) \<Longrightarrow> (\<And>z. preserves I (rr z)) \<Longrightarrow> preserves I (case sm of Inl y \<Rightarrow> l y | Inr z \<Rightarrow> rr z)"
  "(\<And>y. preserves I (h y)) \<Longrightarrow> preserves I (let y = e in h y)"
  by (auto simp: preserves_def split_beta split: option.splits sum.splits)

lemma preserves_update: "(\<And>s. I s \<Longrightarrow> I (f s)) \<Longrightarrow> preserves I (State_Monad.update f)"
  by (simp add: preserves_def)

subsection \<open>Buffers\<close>

lemma mem_write_length: "mem_write buf off bs = Some buf' \<Longrightarrow> length buf' = length buf"
  by (auto simp: mem_write_def split: if_splits)

lemma mem_write_Some [simp]:
  "off + length bs \<le> length buf \<Longrightarrow>
     mem_write buf off bs = Some (take off buf @ bs @ drop (off + length bs) buf)"
  by (simp add: mem_write_def)

lemma mem_read_Some [simp]:
  "off + n \<le> length buf \<Longrightarrow> mem_read buf off n = Some (take n (drop off buf))"
  by (simp add: mem_read_def)

lemma bit_255: "bit (255 :: int) n \<longleftrightarrow> n < 8"
proof -
  have "(255 :: int) = mask 8"
    by (simp add: mask_eq_exp_minus_1)
  then show ?thesis by (simp only: bit_mask_iff) simp
qed

lemma u16_bytes: "256 * uint (ucast (drop_bit 8 x) :: u8) + uint (ucast x :: u8) = uint (x :: u16)"
proof -
  have "take_bit 8 (uint x div 256) = uint x div 256" "take_bit 16 (uint x) = uint x"
    using uint_bounded [of x]
    by (intro take_bit_int_eq_self; simp add: zdiv_less_iff pos_imp_zdiv_nonneg_iff)+
  then have "uint (ucast (drop_bit 8 x) :: u8) = uint x div 256"
    using drop_bit_eq_div [of 8 "uint x"] by (simp add: unsigned_ucast_eq unsigned_drop_bit_eq)
  moreover have "uint (ucast x :: u8) = uint x mod 256"
    by (simp add: unsigned_ucast_eq take_bit_eq_mod)
  ultimately show ?thesis by simp
qed

lemma length_u32_bytes [simp]: "length (u32_bytes w) = 4"
  by (simp add: u32_bytes_def)

lemma bytes_u32_u32_bytes [simp]: "bytes_u32 (u32_bytes w) = w"
proof (rule bit_word_eqI)
  fix n
  assume n: "n < LENGTH(32)"
  then consider "n < 8" | "8 \<le> n" "n < 16" | "16 \<le> n" "n < 24" | "24 \<le> n" "n < 32"
    by fastforce
  then show "bit (bytes_u32 (u32_bytes w)) n \<longleftrightarrow> bit w n"
    by cases (auto simp: bytes_u32_def u32_bytes_def bit_simps)
qed

end
