(* ===== verification/Rpc_Msg.thy ===== *)
theory Rpc_Msg
  imports Prelude
begin

text \<open>
  The message buffer of the RPC transport, \<^verbatim>\<open>src/librtlsdr/src/rtlsdr_rpc_msg.c\<close>.  A message
  is a heap buffer \<open>fmt\<close> of \<open>msize\<close> bytes and a cursor \<open>off\<close>; the first ten bytes are the
  packed header \<open>size:4 op:1 id:1 err:4\<close> and the payload starts behind them.  \<open>size_t\<close> is 64
  bits wide and its additions wrap.  \<open>malloc\<close> is a parameter: it may fail, and what it returns
  holds indeterminate bytes.  An access outside the buffer is undefined behaviour, the value
  \<open>None\<close>.  The lemmas show that no operation leaves the buffer of a well-formed message, that
  what is pushed is popped back in order, and how the header fields interfere.
\<close>

section \<open>Model\<close>

record rpc_msg =
  off :: nat
  msize :: nat
  fmt :: "u8 list"

text \<open>\<open>malloc n\<close>: \<open>None\<close> is the null pointer.\<close>

type_synonym allocator = "nat \<Rightarrow> u8 list option"

text \<open>\<open>offsetof(rtlsdr_rpc_fmt_t, \<dots>)\<close> of the packed header.\<close>

definition fmt_size_off :: nat where "fmt_size_off = 0"
definition fmt_op_off :: nat where "fmt_op_off = 4"
definition fmt_id_off :: nat where "fmt_id_off = 5"
definition fmt_err_off :: nat where "fmt_err_off = 6"
definition fmt_data_off :: nat where "fmt_data_off = 10"

lemmas fmt_offs = fmt_size_off_def fmt_op_off_def fmt_id_off_def fmt_err_off_def fmt_data_off_def

definition size_wrap :: "nat \<Rightarrow> nat" where
  "size_wrap n = n mod 2 ^ 64"

definition rtlsdr_rpc_msg_init :: "allocator \<Rightarrow> rpc_msg \<Rightarrow> nat \<Rightarrow> int \<times> rpc_msg" where
  "rtlsdr_rpc_msg_init malloc msg data_size =
     (let data_size = (if data_size = 0 then 64 else data_size);
          fmt_size = size_wrap (fmt_data_off + data_size)
      in case malloc fmt_size of
           None \<Rightarrow> (-1, msg)
         | Some p \<Rightarrow> (0, msg\<lparr>fmt := p, off := fmt_data_off, msize := fmt_size\<rparr>))"

definition rtlsdr_rpc_msg_reset :: "rpc_msg \<Rightarrow> rpc_msg" where
  "rtlsdr_rpc_msg_reset msg = msg\<lparr>off := fmt_data_off\<rparr>"

text \<open>\<open>memcpy(new_fmt, msg->fmt, msg->off)\<close> into a fresh block, which replaces the old one.\<close>

definition move_to :: "rpc_msg \<Rightarrow> u8 list \<Rightarrow> nat \<Rightarrow> (int \<times> rpc_msg) option" where
  "move_to msg new_fmt sz = do {
     kept \<leftarrow> mem_read (fmt msg) 0 (off msg);
     new_fmt' \<leftarrow> mem_write new_fmt 0 kept;
     Some (0, msg\<lparr>fmt := new_fmt', msize := sz\<rparr>) }"

definition rtlsdr_rpc_msg_realloc :: "allocator \<Rightarrow> rpc_msg \<Rightarrow> nat \<Rightarrow> (int \<times> rpc_msg) option" where
  "rtlsdr_rpc_msg_realloc malloc msg sz =
     (if msize msg \<ge> sz then Some (0, msg)
      else case malloc sz of
             None \<Rightarrow> Some (-1, msg)
           | Some new_fmt \<Rightarrow> move_to msg new_fmt sz)"

definition check_size :: "rpc_msg \<Rightarrow> nat \<Rightarrow> int" where
  "check_size msg sz = (if size_wrap (off msg + sz) > msize msg then -1 else 0)"

text \<open>\<open>(n + 256) & ~(256 - 1)\<close>\<close>

definition round_256 :: "nat \<Rightarrow> nat" where
  "round_256 n = size_wrap (n + 256) div 256 * 256"

definition check_size_or_realloc :: "allocator \<Rightarrow> rpc_msg \<Rightarrow> nat \<Rightarrow> (int \<times> rpc_msg) option" where
  "check_size_or_realloc malloc msg sz =
     (if check_size msg sz = 0 then Some (0, msg)
      else let new_size = round_256 (off msg + sz)
           in case malloc new_size of
                None \<Rightarrow> Some (-1, msg)
              | Some new_fmt \<Rightarrow> move_to msg new_fmt new_size)"

definition pop_uint32 :: "rpc_msg \<Rightarrow> ((int \<times> u32) \<times> rpc_msg) option" where
  "pop_uint32 msg =
     (if check_size msg 4 \<noteq> 0 then Some ((-1, 0), msg)
      else do {
        bs \<leftarrow> mem_read (fmt msg) (off msg) 4;
        Some ((0, bytes_u32 bs), msg\<lparr>off := size_wrap (off msg + 4)\<rparr>) })"

definition push_mem_safe :: "rpc_msg \<Rightarrow> u8 list \<Rightarrow> rpc_msg option" where
  "push_mem_safe msg x = do {
     fmt' \<leftarrow> mem_write (fmt msg) (off msg) x;
     Some (msg\<lparr>fmt := fmt', off := size_wrap (off msg + length x)\<rparr>) }"

definition push_uint32_safe :: "rpc_msg \<Rightarrow> u32 \<Rightarrow> rpc_msg option" where
  "push_uint32_safe msg x = push_mem_safe msg (u32_bytes x)"

text \<open>The shape shared by the checked pushes: grow, give up with -1, or write.\<close>

definition rtlsdr_rpc_msg_push_uint32 :: "allocator \<Rightarrow> rpc_msg \<Rightarrow> u32 \<Rightarrow> (int \<times> rpc_msg) option" where
  "rtlsdr_rpc_msg_push_uint32 malloc msg x = do {
     (r, msg) \<leftarrow> check_size_or_realloc malloc msg 4;
     if r \<noteq> 0 then Some (-1, msg) else map_option (Pair 0) (push_uint32_safe msg x) }"

definition rtlsdr_rpc_msg_push_int32 :: "allocator \<Rightarrow> rpc_msg \<Rightarrow> int \<Rightarrow> (int \<times> rpc_msg) option" where
  "rtlsdr_rpc_msg_push_int32 malloc msg x = do {
     (r, msg) \<leftarrow> check_size_or_realloc malloc msg 4;
     if r \<noteq> 0 then Some (-1, msg) else map_option (Pair 0) (push_uint32_safe msg (word_of_int x)) }"

text \<open>A C string is the list of its characters, none of them NUL, and its terminator.\<close>

definition c_string :: "u8 list \<Rightarrow> u8 list" where
  "c_string s = s @ [0]"

definition rtlsdr_rpc_msg_push_str :: "allocator \<Rightarrow> rpc_msg \<Rightarrow> u8 list \<Rightarrow> (int \<times> rpc_msg) option" where
  "rtlsdr_rpc_msg_push_str malloc msg s = do {
     (r, msg) \<leftarrow> check_size_or_realloc malloc msg (length s + 1);
     if r \<noteq> 0 then Some (-1, msg) else map_option (Pair 0) (push_mem_safe msg (c_string s)) }"

definition rtlsdr_rpc_msg_push_buf :: "allocator \<Rightarrow> rpc_msg \<Rightarrow> u8 list \<Rightarrow> (int \<times> rpc_msg) option" where
  "rtlsdr_rpc_msg_push_buf malloc msg buf = do {
     (r, msg) \<leftarrow> check_size_or_realloc malloc msg (size_wrap (4 + length buf));
     if r \<noteq> 0 then Some (-1, msg)
     else do {
       msg \<leftarrow> push_uint32_safe msg (of_nat (length buf));
       map_option (Pair 0) (push_mem_safe msg buf) } }"

definition rtlsdr_rpc_msg_skip_safe :: "rpc_msg \<Rightarrow> nat \<Rightarrow> rpc_msg" where
  "rtlsdr_rpc_msg_skip_safe msg sz = msg\<lparr>off := size_wrap (off msg + sz)\<rparr>"

definition rtlsdr_rpc_msg_pop_uint32 :: "rpc_msg \<Rightarrow> ((int \<times> u32) \<times> rpc_msg) option" where
  "rtlsdr_rpc_msg_pop_uint32 msg = pop_uint32 msg"

definition rtlsdr_rpc_msg_pop_int32 :: "rpc_msg \<Rightarrow> ((int \<times> int) \<times> rpc_msg) option" where
  "rtlsdr_rpc_msg_pop_int32 msg = map_option (\<lambda>((r, w), m). ((r, sint w), m)) (pop_uint32 msg)"

text \<open>
  \<open>for (i = msg->off; i != msg->size; ++i)\<close>: the index of the terminator, \<open>None\<close> inside when
  the loop runs to the end, \<open>None\<close> outside when it reads past the buffer.  The fuel is the
  number of bytes left, \<open>msize - off\<close>.
\<close>

fun scan_nul :: "u8 list \<Rightarrow> nat \<Rightarrow> nat \<Rightarrow> nat option option" where
  "scan_nul buf i 0 = Some None"
| "scan_nul buf i (Suc n) =
     (if i < length buf then (if buf ! i = 0 then Some (Some i) else scan_nul buf (Suc i) n)
      else None)"

definition rtlsdr_rpc_msg_pop_str :: "rpc_msg \<Rightarrow> ((int \<times> u8 list) \<times> rpc_msg) option" where
  "rtlsdr_rpc_msg_pop_str msg =
     (if off msg > msize msg then None
      else do {
        found \<leftarrow> scan_nul (fmt msg) (off msg) (msize msg - off msg);
        case found of
          None \<Rightarrow> Some ((-1, []), msg)
        | Some i \<Rightarrow> Some ((0, take (i - off msg) (drop (off msg) (fmt msg))), msg\<lparr>off := i + 1\<rparr>) })"

definition rtlsdr_rpc_msg_pop_buf :: "rpc_msg \<Rightarrow> ((int \<times> u8 list) \<times> rpc_msg) option" where
  "rtlsdr_rpc_msg_pop_buf msg = do {
     ((r, x), msg) \<leftarrow> pop_uint32 msg;
     if r \<noteq> 0 then Some ((-1, []), msg)
     else if size_wrap (off msg + unat x) > msize msg then Some ((-1, []), msg)
     else do {
       buf \<leftarrow> mem_read (fmt msg) (off msg) (unat x);
       Some ((0, buf), msg\<lparr>off := size_wrap (off msg + unat x)\<rparr>) } }"

subsection \<open>Header fields\<close>

definition put_uint8 :: "rpc_msg \<Rightarrow> nat \<Rightarrow> u8 \<Rightarrow> rpc_msg option" where
  "put_uint8 msg p x = map_option (\<lambda>b. msg\<lparr>fmt := b\<rparr>) (mem_write (fmt msg) p [x])"

definition put_uint16 :: "rpc_msg \<Rightarrow> nat \<Rightarrow> u16 \<Rightarrow> rpc_msg option" where
  "put_uint16 msg p x =
     map_option (\<lambda>b. msg\<lparr>fmt := b\<rparr>) (mem_write (fmt msg) p [ucast x, ucast (drop_bit 8 x)])"

definition put_uint32 :: "rpc_msg \<Rightarrow> nat \<Rightarrow> u32 \<Rightarrow> rpc_msg option" where
  "put_uint32 msg p x = map_option (\<lambda>b. msg\<lparr>fmt := b\<rparr>) (mem_write (fmt msg) p (u32_bytes x))"

definition get_uint8 :: "rpc_msg \<Rightarrow> nat \<Rightarrow> u8 option" where
  "get_uint8 msg p = map_option hd (mem_read (fmt msg) p 1)"

definition get_uint32 :: "rpc_msg \<Rightarrow> nat \<Rightarrow> u32 option" where
  "get_uint32 msg p = map_option bytes_u32 (mem_read (fmt msg) p 4)"

definition rtlsdr_rpc_msg_set_size :: "rpc_msg \<Rightarrow> nat \<Rightarrow> rpc_msg option" where
  "rtlsdr_rpc_msg_set_size msg sz = put_uint32 msg fmt_size_off (of_nat sz)"

definition rtlsdr_rpc_msg_get_size :: "rpc_msg \<Rightarrow> nat option" where
  "rtlsdr_rpc_msg_get_size msg = map_option unat (get_uint32 msg fmt_size_off)"

definition rtlsdr_rpc_msg_set_op :: "rpc_msg \<Rightarrow> nat \<Rightarrow> rpc_msg option" where
  "rtlsdr_rpc_msg_set_op msg op = put_uint8 msg fmt_op_off (of_nat op)"

definition rtlsdr_rpc_msg_get_op :: "rpc_msg \<Rightarrow> nat option" where
  "rtlsdr_rpc_msg_get_op msg = map_option unat (get_uint8 msg fmt_op_off)"

text \<open>The identifier is one byte wide in the header but is stored with \<open>put_uint16\<close>.\<close>

definition rtlsdr_rpc_msg_set_id :: "rpc_msg \<Rightarrow> u8 \<Rightarrow> rpc_msg option" where
  "rtlsdr_rpc_msg_set_id msg i = put_uint16 msg fmt_id_off (ucast i)"

definition rtlsdr_rpc_msg_get_id :: "rpc_msg \<Rightarrow> u8 option" where
  "rtlsdr_rpc_msg_get_id msg = get_uint8 msg fmt_id_off"

definition rtlsdr_rpc_msg_set_err :: "rpc_msg \<Rightarrow> int \<Rightarrow> rpc_msg option" where
  "rtlsdr_rpc_msg_set_err msg err = put_uint32 msg fmt_err_off (word_of_int err)"

definition rtlsdr_rpc_msg_get_err :: "rpc_msg \<Rightarrow> int option" where
  "rtlsdr_rpc_msg_get_err msg = map_option sint (get_uint32 msg fmt_err_off)"

section \<open>Well-formed messages\<close>

text \<open>
  The buffer has the size the message records, holds at least the header, and the cursor is
  in the payload.  Sizes stay far enough below \<open>2 ^ 64\<close> that no addition of the code wraps.
\<close>

definition wf_msg :: "rpc_msg \<Rightarrow> bool" where
  "wf_msg msg \<longleftrightarrow> length (fmt msg) = msize msg \<and> fmt_data_off \<le> off msg \<and> off msg \<le> msize msg
     \<and> msize msg < 2 ^ 63"

text \<open>An allocator that hands out blocks of the size asked for.\<close>

definition alloc_ok :: "allocator \<Rightarrow> bool" where
  "alloc_ok malloc \<longleftrightarrow> (\<forall>n b. malloc n = Some b \<longrightarrow> length b = n)"

text \<open>The payload written so far.\<close>

definition written :: "rpc_msg \<Rightarrow> u8 list" where
  "written msg = drop fmt_data_off (take (off msg) (fmt msg))"

text \<open>The bytes behind the cursor.\<close>

definition unread :: "rpc_msg \<Rightarrow> u8 list" where
  "unread msg = drop (off msg) (fmt msg)"


section \<open>Messages as queues of items\<close>

text \<open>The items a caller pushes and pops, their encoding, and a whole sequence of pushes or pops.\<close>

datatype rpc_item = I32 int | U32 u32 | Str "u8 list" | Buf "u8 list"

fun item_bytes :: "rpc_item \<Rightarrow> u8 list" where
  "item_bytes (I32 x) = u32_bytes (word_of_int x)"
| "item_bytes (U32 w) = u32_bytes w"
| "item_bytes (Str s) = c_string s"
| "item_bytes (Buf b) = u32_bytes (of_nat (length b)) @ b"

text \<open>What the wire format can carry: 32-bit integers, strings without NUL, buffers below 4 GiB.\<close>

fun item_ok :: "rpc_item \<Rightarrow> bool" where
  "item_ok (I32 x) = (- (2 ^ 31) \<le> x \<and> x < 2 ^ 31)"
| "item_ok (U32 w) = True"
| "item_ok (Str s) = (0 \<notin> set s)"
| "item_ok (Buf b) = (length b < 2 ^ 32)"

fun push_item :: "allocator \<Rightarrow> rpc_msg \<Rightarrow> rpc_item \<Rightarrow> (int \<times> rpc_msg) option" where
  "push_item malloc msg (I32 x) = rtlsdr_rpc_msg_push_int32 malloc msg x"
| "push_item malloc msg (U32 w) = rtlsdr_rpc_msg_push_uint32 malloc msg w"
| "push_item malloc msg (Str s) = rtlsdr_rpc_msg_push_str malloc msg s"
| "push_item malloc msg (Buf b) = rtlsdr_rpc_msg_push_buf malloc msg b"

text \<open>Pop an item of the same shape as the one given.\<close>

fun pop_like :: "rpc_msg \<Rightarrow> rpc_item \<Rightarrow> ((int \<times> rpc_item) \<times> rpc_msg) option" where
  "pop_like msg (I32 _) = map_option (\<lambda>((r, x), m). ((r, I32 x), m)) (rtlsdr_rpc_msg_pop_int32 msg)"
| "pop_like msg (U32 _) = map_option (\<lambda>((r, x), m). ((r, U32 x), m)) (rtlsdr_rpc_msg_pop_uint32 msg)"
| "pop_like msg (Str _) = map_option (\<lambda>((r, x), m). ((r, Str x), m)) (rtlsdr_rpc_msg_pop_str msg)"
| "pop_like msg (Buf _) = map_option (\<lambda>((r, x), m). ((r, Buf x), m)) (rtlsdr_rpc_msg_pop_buf msg)"

fun push_all :: "allocator \<Rightarrow> rpc_msg \<Rightarrow> rpc_item list \<Rightarrow> (int \<times> rpc_msg) option" where
  "push_all malloc msg [] = Some (0, msg)"
| "push_all malloc msg (x # xs) = do {
     (r, msg) \<leftarrow> push_item malloc msg x;
     if r \<noteq> 0 then Some (r, msg) else push_all malloc msg xs }"

fun pop_all :: "rpc_msg \<Rightarrow> rpc_item list \<Rightarrow> ((int \<times> rpc_item list) \<times> rpc_msg) option" where
  "pop_all msg [] = Some ((0, []), msg)"
| "pop_all msg (x # xs) = do {
     ((r, y), msg) \<leftarrow> pop_like msg x;
     if r \<noteq> 0 then Some ((r, []), msg)
     else do { ((r, ys), msg) \<leftarrow> pop_all msg xs; Some ((r, y # ys), msg) } }"

definition total_bytes :: "rpc_item list \<Rightarrow> nat" where
  "total_bytes xs = length (concat (map item_bytes xs))"

section \<open>Lemmas\<close>

lemma size_wrap_small [simp]: "n < 2 ^ 64 \<Longrightarrow> size_wrap n = n"
  by (simp add: size_wrap_def)

lemma round_256_bounds: "n + 256 < 2 ^ 64 \<Longrightarrow> n < round_256 n \<and> round_256 n \<le> n + 256"
  by (simp add: round_256_def)

lemma length_c_string [simp]: "length (c_string s) = length s + 1"
  by (simp add: c_string_def)

lemma wf_msg_bounds:
  "wf_msg m \<Longrightarrow> length (fmt m) = msize m"
  "wf_msg m \<Longrightarrow> 10 \<le> off m"
  "wf_msg m \<Longrightarrow> off m \<le> msize m"
  "wf_msg m \<Longrightarrow> msize m < 2 ^ 63"
  by (simp_all add: wf_msg_def fmt_offs)

text \<open>Making room keeps everything in front of the cursor.\<close>

lemma check_size_or_realloc_spec:
  assumes wf: "wf_msg m" and ok: "alloc_ok malloc" and n: "off m + n + 256 < 2 ^ 63"
  obtains m' where "check_size_or_realloc malloc m n = Some (0, m')" "wf_msg m'" "off m' = off m"
      "off m + n \<le> msize m'" "take (off m) (fmt m') = take (off m) (fmt m)"
    | k where "check_size_or_realloc malloc m n = Some (-1, m)" "malloc k = None"
proof (cases "check_size m n = 0")
  case True
  then have "off m + n \<le> msize m"
    using n by (simp add: check_size_def split: if_splits)
  with True wf that(1) show ?thesis
    by (simp add: check_size_or_realloc_def)
next
  case False
  let ?k = "round_256 (off m + n)"
  have k: "off m + n < ?k" "?k \<le> off m + n + 256"
    using round_256_bounds [of "off m + n"] n by simp_all
  show ?thesis
  proof (cases "malloc ?k")
    case None
    with False that(2) show ?thesis by (simp add: check_size_or_realloc_def)
  next
    case (Some p)
    then have p: "length p = ?k" using ok by (auto simp: alloc_ok_def)
    let ?m = "m\<lparr>fmt := take (off m) (fmt m) @ drop (off m) p, msize := ?k\<rparr>"
    have "check_size_or_realloc malloc m n = Some (0, ?m)"
      using False Some p k wf_msg_bounds [OF wf]
      by (simp add: check_size_or_realloc_def move_to_def)
    moreover have "wf_msg ?m"
      using p k n wf_msg_bounds [OF wf] by (simp add: wf_msg_def fmt_offs)
    ultimately show ?thesis
      using that(1) [of ?m] k p wf_msg_bounds [OF wf] by simp
  qed
qed

lemma push_mem_safe_spec:
  assumes "wf_msg m" "off m + length bs \<le> msize m"
  shows "\<exists>m'. push_mem_safe m bs = Some m' \<and> wf_msg m' \<and> written m' = written m @ bs
    \<and> off m' = off m + length bs \<and> msize m' = msize m \<and> take 10 (fmt m') = take 10 (fmt m)"
  using assms wf_msg_bounds [OF assms(1)]
  by (simp add: push_mem_safe_def written_def wf_msg_def fmt_offs)

lemma push_mem_safe_append:
  assumes "wf_msg m" "off m + length (bs @ cs) \<le> msize m"
  shows "Option.bind (push_mem_safe m bs) (\<lambda>m. push_mem_safe m cs) = push_mem_safe m (bs @ cs)"
  using assms wf_msg_bounds [OF assms(1)] by (simp add: push_mem_safe_def ac_simps)

text \<open>Every push writes the encoding of its item, or reports -1 and changes nothing.\<close>

lemma push_item_as_mem:
  assumes "wf_msg m" "alloc_ok malloc" "off m + length (item_bytes x) + 256 < 2 ^ 63"
  shows "push_item malloc m x =
    Option.bind (check_size_or_realloc malloc m (length (item_bytes x)))
      (\<lambda>(r, m). if r \<noteq> 0 then Some (-1, m) else map_option (Pair 0) (push_mem_safe m (item_bytes x)))"
proof (cases x)
  case (Buf b)
  have n: "size_wrap (4 + length b) = length (item_bytes x)"
    using assms(3) Buf by simp
  from assms show ?thesis
  proof (cases rule: check_size_or_realloc_spec)
    case (1 m')
    then have "Option.bind (push_mem_safe m' (u32_bytes (of_nat (length b)))) (\<lambda>m. push_mem_safe m b)
        = push_mem_safe m' (item_bytes x)"
      using Buf by (simp add: push_mem_safe_append)
    then show ?thesis
      using 1 Buf n
      by (cases "push_mem_safe m' (u32_bytes (of_nat (length b)))")
        (simp_all add: rtlsdr_rpc_msg_push_buf_def push_uint32_safe_def)
  next
    case 2
    then show ?thesis using Buf n by (simp add: rtlsdr_rpc_msg_push_buf_def)
  qed
qed (auto simp: rtlsdr_rpc_msg_push_int32_def rtlsdr_rpc_msg_push_uint32_def
    rtlsdr_rpc_msg_push_str_def push_uint32_safe_def cong: if_cong)

lemma push_item_spec:
  assumes "wf_msg m" "alloc_ok malloc" "off m + length (item_bytes x) + 256 < 2 ^ 63"
  shows "(\<exists>m'. push_item malloc m x = Some (0, m') \<and> wf_msg m' \<and> written m' = written m @ item_bytes x
      \<and> off m' = off m + length (item_bytes x) \<and> take 10 (fmt m') = take 10 (fmt m))
    \<or> push_item malloc m x = Some (-1, m) \<and> (\<exists>k. malloc k = None)"
  using assms
proof (cases rule: check_size_or_realloc_spec)
  case (1 m')
  then obtain m'' where m'': "push_mem_safe m' (item_bytes x) = Some m''" "wf_msg m''"
      "written m'' = written m' @ item_bytes x" "off m'' = off m + length (item_bytes x)"
      "take 10 (fmt m'') = take 10 (fmt m')"
    using push_mem_safe_spec [of m' "item_bytes x"] by auto
  have "take 10 (fmt m') = take 10 (fmt m)"
    using arg_cong [OF 1(5), of "take 10"] wf_msg_bounds(2) [OF assms(1)] by (simp add: min_def)
  moreover have "written m' = written m"
    using 1 by (simp add: written_def)
  ultimately show ?thesis
    using m'' 1 by (simp add: push_item_as_mem [OF assms])
next
  case (2 k)
  then show ?thesis by (auto simp: push_item_as_mem [OF assms])
qed

lemma push_all_spec:
  assumes "wf_msg m" "alloc_ok malloc" "off m + total_bytes xs + 256 < 2 ^ 63"
  shows "\<exists>r m'. push_all malloc m xs = Some (r, m') \<and> wf_msg m'
    \<and> (r = 0 \<or> r = -1 \<and> (\<exists>k. malloc k = None))
    \<and> take 10 (fmt m') = take 10 (fmt m)
    \<and> (r = 0 \<longrightarrow> written m' = written m @ concat (map item_bytes xs)
          \<and> off m' = off m + total_bytes xs)"
  using assms
proof (induction xs arbitrary: m)
  case Nil
  then show ?case by (simp add: total_bytes_def)
next
  case (Cons x xs)
  have len: "off m + length (item_bytes x) + 256 < 2 ^ 63"
    using Cons.prems(3) by (simp add: total_bytes_def)
  consider m' where "push_item malloc m x = Some (0, m')" "wf_msg m'"
      "written m' = written m @ item_bytes x" "off m' = off m + length (item_bytes x)"
      "take 10 (fmt m') = take 10 (fmt m)"
    | "push_item malloc m x = Some (-1, m)" "\<exists>k. malloc k = None"
    using push_item_spec [OF Cons.prems(1,2) len] by blast
  then show ?case
  proof cases
    case (1 m')
    then show ?thesis
      using Cons.IH [of m'] Cons.prems by (auto simp: total_bytes_def)
  next
    case 2
    then show ?thesis using Cons.prems by simp
  qed
qed

subsection \<open>Popping\<close>

lemma pop_uint32_unread:
  assumes "wf_msg m" "unread m = u32_bytes w @ rest"
  shows "\<exists>m'. pop_uint32 m = Some ((0, w), m') \<and> wf_msg m' \<and> unread m' = rest
    \<and> off m' = off m + 4 \<and> fmt m' = fmt m \<and> msize m' = msize m"
proof -
  have len: "off m + 4 + length rest = msize m"
    using arg_cong [OF assms(2), of length] wf_msg_bounds [OF assms(1)]
    by (simp add: unread_def)
  have "take 4 (drop (off m) (fmt m)) = u32_bytes w" "drop 4 (drop (off m) (fmt m)) = rest"
    using assms(2) by (simp_all add: unread_def)
  with len show ?thesis
    using wf_msg_bounds [OF assms(1)]
    by (simp add: pop_uint32_def check_size_def wf_msg_def fmt_offs unread_def add.commute)
qed

lemma scan_nul_found:
  assumes "drop i buf = s @ 0 # rest" "0 \<notin> set s" "length s < n"
  shows "scan_nul buf i n = Some (Some (i + length s))"
  using assms
proof (induction s arbitrary: i n)
  case Nil
  then show ?case
    by (cases n) (auto simp: nth_via_drop dest: arg_cong [of _ _ length])
next
  case (Cons c s)
  then obtain k where k: "n = Suc k" by (cases n) auto
  have "drop (Suc i) buf = tl (drop i buf)"
    by (simp add: drop_Suc tl_drop)
  then have i: "i < length buf" "buf ! i = c" "drop (Suc i) buf = s @ 0 # rest"
    using Cons.prems(1) by (auto simp: nth_via_drop dest: arg_cong [of _ _ length])
  show ?case using Cons.IH [of "Suc i" k] Cons.prems k i by simp
qed

lemma pop_like_unread:
  assumes wf: "wf_msg m" and ok: "item_ok x" and u: "unread m = item_bytes x @ rest"
  shows "\<exists>m'. pop_like m x = Some ((0, x), m') \<and> wf_msg m' \<and> unread m' = rest
    \<and> off m' = off m + length (item_bytes x) \<and> fmt m' = fmt m"
proof (cases x)
  case (I32 i)
  have "sint (word_of_int i :: u32) = i"
    using ok I32 by (simp add: sint_sbintrunc' signed_take_bit_int_eq_self)
  then show ?thesis
    using pop_uint32_unread [OF wf, of "word_of_int i"] I32 u
    by (auto simp: rtlsdr_rpc_msg_pop_int32_def)
next
  case (U32 w)
  then show ?thesis
    using pop_uint32_unread [OF wf] u by (auto simp: rtlsdr_rpc_msg_pop_uint32_def)
next
  case (Str s)
  have d: "drop (off m) (fmt m) = s @ 0 # rest"
    using u Str by (simp add: unread_def c_string_def)
  have "length (drop (off m) (fmt m)) = length s + 1 + length rest"
    by (simp only: d) simp
  then have len: "off m + length s + 1 + length rest = msize m"
    using wf_msg_bounds [OF wf] by simp
  have "scan_nul (fmt m) (off m) (msize m - off m) = Some (Some (off m + length s))"
    using scan_nul_found [OF d] ok Str len by simp
  moreover have "drop (Suc (off m + length s)) (fmt m) = rest"
    using arg_cong [OF d, of "drop (length s + 1)"] by (simp add: add.commute)
  ultimately show ?thesis
    using Str d len wf_msg_bounds [OF wf]
    by (simp add: rtlsdr_rpc_msg_pop_str_def wf_msg_def fmt_offs unread_def)
next
  case (Buf b)
  then obtain m1 where m1: "pop_uint32 m = Some ((0, of_nat (length b)), m1)" "wf_msg m1"
      "unread m1 = b @ rest" "off m1 = off m + 4" "fmt m1 = fmt m"
    using pop_uint32_unread [OF wf] u by auto
  have len: "off m1 + length b + length rest = msize m1"
    using arg_cong [OF m1(3), of length] wf_msg_bounds [OF m1(2)] by (simp add: unread_def)
  have "unat (of_nat (length b) :: u32) = length b"
    using ok Buf by (simp add: unat_of_nat)
  moreover have "take (length b) (drop (off m1) (fmt m1)) = b"
      "drop (off m1 + length b) (fmt m1) = rest"
    using m1(3) by (simp_all add: unread_def add.commute flip: drop_drop)
  ultimately show ?thesis
    using Buf m1 len wf_msg_bounds [OF m1(2)]
    by (simp add: rtlsdr_rpc_msg_pop_buf_def wf_msg_def fmt_offs unread_def)
qed

lemma pop_all_unread:
  assumes "wf_msg m" "\<forall>x \<in> set xs. item_ok x" "unread m = concat (map item_bytes xs) @ rest"
  shows "\<exists>m'. pop_all m xs = Some ((0, xs), m') \<and> wf_msg m' \<and> unread m' = rest
    \<and> off m' = off m + total_bytes xs"
  using assms
proof (induction xs arbitrary: m)
  case Nil
  then show ?case by (simp add: total_bytes_def)
next
  case (Cons x xs)
  then obtain m' where "pop_like m x = Some ((0, x), m')" "wf_msg m'"
      "unread m' = concat (map item_bytes xs) @ rest" "off m' = off m + length (item_bytes x)"
    using pop_like_unread [OF Cons.prems(1), of x "concat (map item_bytes xs) @ rest"] by auto
  then show ?case
    using Cons.IH [of m'] Cons.prems by (auto simp: total_bytes_def)
qed

lemma unread_reset: "wf_msg m \<Longrightarrow> unread (rtlsdr_rpc_msg_reset m) = written m @ unread m"
  using wf_msg_bounds [of m]
  by (simp add: unread_def written_def rtlsdr_rpc_msg_reset_def fmt_offs)
    (metis append_take_drop_id drop_append diff_is_0_eq drop_0 length_take min.absorb2)

lemma wf_reset: "wf_msg m \<Longrightarrow> wf_msg (rtlsdr_rpc_msg_reset m)"
  by (simp add: wf_msg_def rtlsdr_rpc_msg_reset_def)

lemma pop_uint32_safe:
  assumes "wf_msg m"
  shows "pop_uint32 m = Some ((-1, 0), m)
    \<or> (\<exists>w. pop_uint32 m = Some ((0, w), m\<lparr>off := off m + 4\<rparr>) \<and> off m + 4 \<le> msize m)"
  using wf_msg_bounds [OF assms] by (simp add: pop_uint32_def check_size_def)

lemma scan_nul_safe:
  "i + n \<le> length buf \<Longrightarrow>
     scan_nul buf i n = Some None \<or> (\<exists>k. scan_nul buf i n = Some (Some k) \<and> i \<le> k \<and> k < i + n)"
proof (induction n arbitrary: i)
  case 0
  then show ?case by simp
next
  case (Suc n)
  show ?case
  proof (cases "buf ! i = 0")
    case False
    with Suc.IH [of "Suc i"] Suc.prems show ?thesis by auto
  qed (use Suc.prems in simp)
qed

subsection \<open>Header\<close>

lemma wf_msg_header:
  assumes "wf_msg m"
  obtains b0 b1 b2 b3 p i e0 e1 e2 e3 t where "fmt m = b0 # b1 # b2 # b3 # p # i # e0 # e1 # e2 # e3 # t"
proof -
  have "10 \<le> length (fmt m)" using wf_msg_bounds [OF assms] by simp
  then obtain h t where ht: "fmt m = h @ t" "length h = 10"
    by (metis append_take_drop_id length_take min.absorb2)
  then show thesis using that by (auto simp: length_Suc_conv numeral_eq_Suc)
qed

lemmas header_defs = rtlsdr_rpc_msg_set_size_def rtlsdr_rpc_msg_get_size_def
  rtlsdr_rpc_msg_set_op_def rtlsdr_rpc_msg_get_op_def rtlsdr_rpc_msg_set_id_def
  rtlsdr_rpc_msg_get_id_def rtlsdr_rpc_msg_set_err_def rtlsdr_rpc_msg_get_err_def
  put_uint8_def put_uint16_def put_uint32_def get_uint8_def get_uint32_def
  mem_write_def mem_read_def fmt_offs

text \<open>Rewriting the header in place keeps the message well formed and its payload.\<close>

lemma header_write_frame:
  assumes "wf_msg m" "mem_write (fmt m) p bs = Some b" "p + length bs \<le> 10"
  shows "wf_msg (m\<lparr>fmt := b\<rparr>)" "written (m\<lparr>fmt := b\<rparr>) = written m"
proof -
  have b: "b = take p (fmt m) @ bs @ drop (p + length bs) (fmt m)"
    using assms(2) by (auto simp: mem_write_def split: if_splits)
  show "wf_msg (m\<lparr>fmt := b\<rparr>)"
    using assms(1) mem_write_length [OF assms(2)] by (simp add: wf_msg_def)
  have "drop 10 b = drop 10 (fmt m)"
    using assms(3) wf_msg_bounds [OF assms(1)] b by (simp add: drop_take)
  then show "written (m\<lparr>fmt := b\<rparr>) = written m"
    by (simp add: written_def fmt_offs drop_take)
qed

section \<open>Properties\<close>

text \<open>
  C1.  Round trip of the message format: items pushed into a fresh message without an error come
  back, unchanged and in order, from the popping operations after \<open>rtlsdr_rpc_msg_reset\<close>, and
  the cursor ends where the writer left it.
\<close>

theorem rpc_msg_roundtrip:
  assumes "wf_msg m" "alloc_ok malloc" "off m = fmt_data_off"
    and "\<forall>x \<in> set xs. item_ok x" "off m + total_bytes xs + 256 < 2 ^ 63"
    and "push_all malloc m xs = Some (0, m1)"
  shows "\<exists>m2. pop_all (rtlsdr_rpc_msg_reset m1) xs = Some ((0, xs), m2) \<and> off m2 = off m1"
proof -
  have m1: "wf_msg m1" "written m1 = concat (map item_bytes xs)" "off m1 = off m + total_bytes xs"
    using push_all_spec [OF assms(1,2,5)] assms(3,6) by (auto simp: written_def)
  then show ?thesis
    using pop_all_unread [OF wf_reset [OF m1(1)] assms(4)] unread_reset [OF m1(1)] assms(3)
    by (auto simp: rtlsdr_rpc_msg_reset_def)
qed

text \<open>The witness: an allocator of zeroed blocks, a fresh message, one item of every kind.\<close>

theorem rpc_msg_roundtrip_witness:
  "\<exists>m1 m2. push_all (\<lambda>n. Some (replicate n 0)) \<lparr>off = 10, msize = 18, fmt = replicate 18 7\<rparr>
       [I32 (-5), Str [65, 66], Buf [1, 0, 3], U32 4000000000] = Some (0, m1)
     \<and> pop_all (rtlsdr_rpc_msg_reset m1) [I32 (-5), Str [65, 66], Buf [1, 0, 3], U32 4000000000]
       = Some ((0, [I32 (-5), Str [65, 66], Buf [1, 0, 3], U32 4000000000]), m2) \<and> off m2 = off m1"
proof -
  let ?m = "\<lparr>off = 10, msize = 18, fmt = replicate 18 7\<rparr>"
  let ?xs = "[I32 (-5), Str [65, 66], Buf [1, 0, 3], U32 4000000000]"
  let ?malloc = "\<lambda>n. Some (replicate n 0)"
  have wf: "wf_msg ?m" by (simp add: wf_msg_def fmt_offs)
  have al: "alloc_ok ?malloc" by (simp add: alloc_ok_def)
  have len: "off ?m + total_bytes ?xs + 256 < 2 ^ 63" by (simp add: total_bytes_def)
  obtain m1 where m1: "push_all ?malloc ?m ?xs = Some (0, m1)"
    using push_all_spec [OF wf al len] by auto
  then show ?thesis
    using rpc_msg_roundtrip [OF wf al _ _ len m1] by (simp add: fmt_offs)
qed

text \<open>
  C35.  Memory safety of the pushes: on a well-formed message a sequence of pushes never leaves the
  buffer, returns 0, or -1 when the allocator can fail, keeps the message well formed and the
  header bytes as they were; on 0 the payload grew by exactly the encodings of the items.
\<close>

theorem rpc_msg_push_safe:
  assumes "wf_msg m" "alloc_ok malloc" "off m + total_bytes xs + 256 < 2 ^ 63"
  shows "\<exists>r m'. push_all malloc m xs = Some (r, m') \<and> wf_msg m'
    \<and> (r = 0 \<or> r = -1 \<and> (\<exists>k. malloc k = None)) \<and> take 10 (fmt m') = take 10 (fmt m)
    \<and> (r = 0 \<longrightarrow> written m' = written m @ concat (map item_bytes xs))"
  using push_all_spec [OF assms] by blast

theorem rpc_msg_push_safe_witness:
  "\<exists>r m'. push_all (\<lambda>n. None) \<lparr>off = 10, msize = 12, fmt = replicate 12 0\<rparr> [U32 1] = Some (r, m')
    \<and> wf_msg m' \<and> (r = 0 \<or> r = -1) \<and> take 10 (fmt m') = replicate 10 0"
proof -
  let ?m = "\<lparr>off = 10, msize = 12, fmt = replicate 12 0\<rparr>"
  have "wf_msg ?m" by (simp add: wf_msg_def fmt_offs)
  moreover have "alloc_ok (\<lambda>n. None)" by (simp add: alloc_ok_def)
  moreover have "off ?m + total_bytes [U32 1] + 256 < 2 ^ 63" by (simp add: total_bytes_def)
  ultimately show ?thesis
    using rpc_msg_push_safe [of ?m "\<lambda>n. None" "[U32 1]"] by fastforce
qed

text \<open>
  C36.  Memory safety of the pops: whatever bytes a well-formed message holds, popping an item of
  any kind reads only inside the buffer, returns 0 or -1, leaves the bytes alone and the message
  well formed; on -1 an integer or a string leaves the message as it was, and of a buffer its length word may have been
  consumed, nothing else.
\<close>

theorem rpc_msg_pop_safe:
  assumes "wf_msg m"
  shows "\<exists>r y m'. pop_like m x = Some ((r, y), m') \<and> (r = 0 \<or> r = -1) \<and> wf_msg m'
    \<and> fmt m' = fmt m \<and> msize m' = msize m \<and> off m \<le> off m' \<and> (r = -1 \<longrightarrow> m' = m \<or> (\<exists>b. x = Buf b) \<and> m' = m\<lparr>off := off m + 4\<rparr>)"
proof (cases x)
  case (Str s)
  then show ?thesis
    using scan_nul_safe [of "off m" "msize m - off m" "fmt m"] assms wf_msg_bounds [OF assms]
    by (fastforce simp: rtlsdr_rpc_msg_pop_str_def wf_msg_def fmt_offs split: option.splits)
next
  case (Buf b)
  from pop_uint32_safe [OF assms] show ?thesis
  proof
    assume "pop_uint32 m = Some ((-1, 0), m)"
    then show ?thesis using Buf assms by (simp add: rtlsdr_rpc_msg_pop_buf_def)
  next
    assume "\<exists>w. pop_uint32 m = Some ((0, w), m\<lparr>off := off m + 4\<rparr>) \<and> off m + 4 \<le> msize m"
    then obtain w where w: "pop_uint32 m = Some ((0, w), m\<lparr>off := off m + 4\<rparr>)" "off m + 4 \<le> msize m"
      by blast
    have "off m + 4 + unat w < 2 ^ 64"
      using w(2) wf_msg_bounds [OF assms] unsigned_less [of w, where 'a = nat] by simp
    then show ?thesis
      using Buf w assms wf_msg_bounds [OF assms]
      by (auto simp: rtlsdr_rpc_msg_pop_buf_def wf_msg_def fmt_offs)
  qed
qed (use pop_uint32_safe [OF assms] assms in
    \<open>auto simp: rtlsdr_rpc_msg_pop_int32_def rtlsdr_rpc_msg_pop_uint32_def wf_msg_def fmt_offs\<close>)

theorem rpc_msg_pop_safe_witness:
  "\<exists>r y m'. pop_like \<lparr>off = 10, msize = 14, fmt = replicate 14 255\<rparr> (Buf []) = Some ((r, y), m')
    \<and> (r = 0 \<or> r = -1) \<and> wf_msg m'"
proof -
  have "wf_msg \<lparr>off = 10, msize = 14, fmt = replicate 14 255\<rparr>"
    by (simp add: wf_msg_def fmt_offs)
  from rpc_msg_pop_safe [OF this, of "Buf []"] show ?thesis by blast
qed

text \<open>
  The header: in a well-formed message each field reads back what was stored in it (the size
  modulo \<open>2 ^ 32\<close>, the operation modulo 256), the payload is untouched, but storing the
  one-byte identifier also clears the low byte of the error field that follows it.
\<close>

theorem rpc_msg_header:
  assumes "wf_msg m" "- (2 ^ 31) \<le> e" "e < 2 ^ 31"
  shows "Option.bind (rtlsdr_rpc_msg_set_size m n) rtlsdr_rpc_msg_get_size = Some (n mod 2 ^ 32)
    \<and> Option.bind (rtlsdr_rpc_msg_set_op m p) rtlsdr_rpc_msg_get_op = Some (p mod 256)
    \<and> Option.bind (rtlsdr_rpc_msg_set_id m i) rtlsdr_rpc_msg_get_id = Some i
    \<and> Option.bind (rtlsdr_rpc_msg_set_err m e) rtlsdr_rpc_msg_get_err = Some e
    \<and> (\<exists>m'. rtlsdr_rpc_msg_set_id m i = Some m' \<and> wf_msg m' \<and> written m' = written m
      \<and> get_uint32 m' fmt_err_off = map_option (\<lambda>w. w AND NOT 255) (get_uint32 m fmt_err_off))"
proof -
  obtain b0 b1 b2 b3 q j e0 e1 e2 e3 t where
    f: "fmt m = b0 # b1 # b2 # b3 # q # j # e0 # e1 # e2 # e3 # t"
    using wf_msg_header [OF assms(1)] .
  have lo: "ucast (ucast i :: u16) = i" and hi: "ucast (drop_bit 8 (ucast i :: u16)) = (0 :: u8)"
    by (rule bit_word_eqI; auto simp: bit_simps dest: bit_imp_le_length)+
  have err: "bytes_u32 [0, e1, e2, e3] = bytes_u32 [e0, e1, e2, e3] AND NOT 255"
    by (rule bit_word_eqI) (auto simp: bytes_u32_def bit_simps bit_255 dest: bit_imp_le_length)
  show ?thesis
    using assms header_write_frame [OF assms(1), of 5 "[i, 0]"]
    by (simp add: header_defs f lo hi err unat_of_nat sint_sbintrunc' signed_take_bit_int_eq_self)
qed

theorem rpc_msg_header_witness:
  "\<exists>m'. rtlsdr_rpc_msg_set_id \<lparr>off = 10, msize = 10, fmt = [0, 0, 0, 0, 0, 0, 1, 2, 3, 4]\<rparr> 3 = Some m'
    \<and> get_uint32 m' fmt_err_off = Some 0x04030200"
proof -
  have "wf_msg \<lparr>off = 10, msize = 10, fmt = [0, 0, 0, 0, 0, 0, 1, 2, 3, 4]\<rparr>"
    by (simp add: wf_msg_def fmt_offs)
  from rpc_msg_header [OF this, of "-1" 0 0 3]
  obtain m' where m': "rtlsdr_rpc_msg_set_id \<lparr>off = 10, msize = 10, fmt = [0, 0, 0, 0, 0, 0, 1, 2, 3, 4]\<rparr> 3
      = Some m'"
    "get_uint32 m' fmt_err_off = map_option (\<lambda>w. w AND NOT 255)
       (get_uint32 \<lparr>off = 10, msize = 10, fmt = [0, 0, 0, 0, 0, 0, 1, 2, 3, 4]\<rparr> fmt_err_off)"
    by auto
  have "get_uint32 \<lparr>off = 10, msize = 10, fmt = [0, 0, 0, 0, 0, 0, 1, 2, 3, 4]\<rparr> fmt_err_off
      = Some 0x04030201"
    by (simp add: get_uint32_def mem_read_def fmt_offs bytes_u32_def)
  with m' show ?thesis by simp
qed

end
