(* ===== verification/I2c_Bus.thy ===== *)
theory I2c_Bus
  imports Prelude
begin

text \<open>
  The interface between the tuner drivers and the dongle, \<^verbatim>\<open>src/librtlsdr/include/rtlsdr_i2c.h\<close>:
  writing bytes to a chip address, reading bytes into a buffer, and the tuner clock.  The
  drivers of this development take the three operations as the record \<open>i2c_ops\<close>; the dongle
  behind them is an arbitrary state type \<open>'d\<close>.

  The locale \<open>i2c_chip\<close> is what a driver relies on when a register chip with address \<open>addr\<close>
  answers: a two-byte write stores a register, a one-byte write selects the register the next
  one-byte read returns.  Status bits a chip changes on its own are left out of the contract by
  the mask \<open>rw\<close>: \<open>view d r\<close> is the content of the writable bits of register \<open>r\<close>.
\<close>

section \<open>Model\<close>

record 'd i2c_ops =
  i2c_write :: "u8 \<Rightarrow> u8 list \<Rightarrow> ('d, int) state"
  i2c_read :: "u8 \<Rightarrow> u8 list \<Rightarrow> ('d, int \<times> u8 list) state"
  tuner_clock :: "'d \<Rightarrow> u32"

section \<open>The contract of a register chip\<close>

locale i2c_chip =
  fixes io :: "'d i2c_ops"
    and addr :: u8
    and up :: "'d \<Rightarrow> bool"
    and rw :: "u8 \<Rightarrow> u8"
    and view :: "'d \<Rightarrow> u8 \<Rightarrow> u8"
  assumes write_ack: "up d \<Longrightarrow> result_of (i2c_write io addr [r, v]) d = 2"
    and write_up: "up d \<Longrightarrow> up (state_of (i2c_write io addr [r, v]) d)"
    and write_view: "up d \<Longrightarrow> view (state_of (i2c_write io addr [r, v]) d) = (view d)(r := v AND rw r)"
    and select_ack: "up d \<Longrightarrow> result_of (i2c_write io addr [r]) d = 1"
    and read_ack: "up d \<Longrightarrow>
      \<exists>v. result_of (i2c_read io addr [b]) (state_of (i2c_write io addr [r]) d) = (1, [v])
        \<and> v AND rw r = view d r"
    and read_up: "up d \<Longrightarrow> up (state_of (i2c_read io addr [b]) (state_of (i2c_write io addr [r]) d))"
    and read_view: "up d \<Longrightarrow>
      view (state_of (i2c_read io addr [b]) (state_of (i2c_write io addr [r]) d)) = view d"
    and clock_write: "tuner_clock io (state_of (i2c_write io addr bs) d) = tuner_clock io d"
    and clock_read: "tuner_clock io (state_of (i2c_read io addr bs) d) = tuner_clock io d"
begin

lemmas chip_simps = write_ack write_up write_view select_ack read_up read_view clock_write clock_read

text \<open>The byte a selected register reads as.\<close>

lemma read_result:
  assumes "up d"
  obtains v where
    "result_of (i2c_read io addr [b]) (state_of (i2c_write io addr [r]) d) = (1, [v])"
    "v AND rw r = view d r"
  using read_ack [OF assms] by blast

end

section \<open>The contract of a driver's register accessors\<close>

text \<open>
  Each driver wraps the bus in its own pair of accessors, returning 0 for success.  What the rest
  of a driver needs from the pair is stated once; every driver proves it from \<open>i2c_chip\<close>.
\<close>

locale reg_file =
  fixes wr :: "u8 \<Rightarrow> u8 \<Rightarrow> ('d, int) state"
    and rd :: "u8 \<Rightarrow> u8 \<Rightarrow> ('d, int \<times> u8) state"
    and up :: "'d \<Rightarrow> bool"
    and rw :: "u8 \<Rightarrow> u8"
    and view :: "'d \<Rightarrow> u8 \<Rightarrow> u8"
  assumes wr_ok: "up d \<Longrightarrow> result_of (wr r v) d = 0"
    and wr_up: "up d \<Longrightarrow> up (state_of (wr r v) d)"
    and wr_view: "up d \<Longrightarrow> view (state_of (wr r v) d) = (view d)(r := v AND rw r)"
    and rd_ok: "up d \<Longrightarrow> fst (result_of (rd r b) d) = 0"
    and rd_val: "up d \<Longrightarrow> snd (result_of (rd r b) d) AND rw r = view d r"
    and rd_up: "up d \<Longrightarrow> up (state_of (rd r b) d)"
    and rd_view: "up d \<Longrightarrow> view (state_of (rd r b) d) = view d"
begin

lemmas reg_simps = wr_ok wr_up wr_view rd_ok rd_val rd_up rd_view

text \<open>\<open>for (i in is) wr(i, tab[i])\<close> stores the table.\<close>

lemma write_table:
  assumes "up d" "\<forall>i \<in> set is. i < 256"
  shows "result_of (for_until (\<lambda>i. wr (of_nat i) (tab ! i)) is 0) d = 0
    \<and> up (state_of (for_until (\<lambda>i. wr (of_nat i) (tab ! i)) is 0) d)
    \<and> (\<forall>r. view (state_of (for_until (\<lambda>i. wr (of_nat i) (tab ! i)) is 0) d) r =
          (if unat r \<in> set is then tab ! unat r AND rw r else view d r))"
  using assms
proof (induction "is" arbitrary: d)
  case Nil
  then show ?case by simp
next
  case (Cons i "is")
  have i: "r = of_nat i \<longleftrightarrow> unat r = i" for r :: u8
    using Cons.prems(2) by (auto simp: unat_of_nat)
  show ?case
    using Cons.IH [of "state_of (wr (of_nat i) (tab ! i)) d"] Cons.prems
    by (auto simp: reg_simps i)
qed

text \<open>A read-modify-write of the bits \<open>m\<close> of a plain register.\<close>

lemma read_value: "up d \<Longrightarrow> rw r = -1 \<Longrightarrow> snd (result_of (rd r b) d) = view d r"
  using rd_val [of d r b] by simp

end

section \<open>A register chip\<close>

text \<open>
  A memory-like chip with an auto-incrementing register pointer, the behaviour data sheets give
  for plain registers.  It shows that the contract can hold and is the device the witnesses run on.
\<close>

record sim_chip =
  sim_ptr :: u8
  sim_regs :: "u8 \<Rightarrow> u8"
  sim_clock :: u32

primrec sim_store :: "u8 list \<Rightarrow> sim_chip \<Rightarrow> sim_chip" where
  "sim_store [] d = d"
| "sim_store (v # vs) d =
     sim_store vs (d\<lparr>sim_regs := (sim_regs d)(sim_ptr d := v), sim_ptr := sim_ptr d + 1\<rparr>)"

primrec sim_fetch :: "u8 list \<Rightarrow> sim_chip \<Rightarrow> u8 list \<times> sim_chip" where
  "sim_fetch [] d = ([], d)"
| "sim_fetch (_ # bs) d =
     (let (vs, d') = sim_fetch bs (d\<lparr>sim_ptr := sim_ptr d + 1\<rparr>) in (sim_regs d (sim_ptr d) # vs, d'))"

definition sim_write :: "u8 \<Rightarrow> u8 list \<Rightarrow> (sim_chip, int) state" where
  "sim_write a bs = State (\<lambda>d.
     (int (length bs), case bs of [] \<Rightarrow> d | r # vs \<Rightarrow> sim_store vs (d\<lparr>sim_ptr := r\<rparr>)))"

definition sim_read :: "u8 \<Rightarrow> u8 list \<Rightarrow> (sim_chip, int \<times> u8 list) state" where
  "sim_read a bs = State (\<lambda>d. let (vs, d') = sim_fetch bs d in ((int (length bs), vs), d'))"

definition sim_io :: "sim_chip i2c_ops" where
  "sim_io = \<lparr>i2c_write = sim_write, i2c_read = sim_read, tuner_clock = sim_clock\<rparr>"

definition sim0 :: sim_chip where
  "sim0 = \<lparr>sim_ptr = 0, sim_regs = (\<lambda>_. 0), sim_clock = 28800000\<rparr>"

lemma sim_store_clock [simp]: "sim_clock (sim_store vs d) = sim_clock d"
  by (induction vs arbitrary: d) simp_all

lemma sim_fetch_clock [simp]: "sim_clock (snd (sim_fetch bs d)) = sim_clock d"
  by (induction bs arbitrary: d) (simp_all add: split_beta)

interpretation sim: i2c_chip sim_io addr "\<lambda>_. True" "\<lambda>_. -1" sim_regs
  by unfold_locales (auto simp: sim_io_def sim_write_def sim_read_def split_beta split: list.splits)

end
