(* ===== verification/E4k.thy ===== *)
theory E4k
  imports I2c_Bus
begin

text \<open>
  The Elonics E4000 tuner driver, \<^verbatim>\<open>src/librtlsdr/src/tuner_e4k.c\<close> and
  \<^verbatim>\<open>src/librtlsdr/include/tuner_e4k.h\<close>.  Its state \<open>e4k_state\<close> keeps the chip address, the band, the
  PLL parameters in force and the dongle.  Most calls ignore the codes of their register accesses,
  as the C code does.  The lemmas show that the nearest-entry search is an argmin, that filter
  bandwidths and stage gains read back as set, how close the synthesiser comes to a request and
  which registers tuning and initialisation leave behind.  An argument of an enumeration type is one
  of its enumerators, so the range checks on such arguments have no counterpart.
\<close>

section \<open>Model\<close>

subsection \<open>Data\<close>

datatype e4k_band = E4K_BAND_VHF2 | E4K_BAND_VHF3 | E4K_BAND_UHF | E4K_BAND_L

primrec e4k_band_code :: "e4k_band \<Rightarrow> u8" where
  "e4k_band_code E4K_BAND_VHF2 = 0"
| "e4k_band_code E4K_BAND_VHF3 = 1"
| "e4k_band_code E4K_BAND_UHF = 2"
| "e4k_band_code E4K_BAND_L = 3"

datatype e4k_if_filter = E4K_IF_FILTER_MIX | E4K_IF_FILTER_CHAN | E4K_IF_FILTER_RC

record e4k_pll_params =
  pll_fosc :: u32
  pll_intended_flo :: u32
  pll_flo :: u32
  pll_x :: u16
  pll_z :: u8
  pll_r :: u8
  pll_r_idx :: u8
  pll_threephase :: u8

record 'd e4k_state =
  e4k_i2c_addr :: u8
  e4k_cur_band :: e4k_band
  e4k_vco :: e4k_pll_params
  e4k_rtl_dev :: 'd

text \<open>A bit field: register, shift and width.\<close>

record reg_field =
  fld_reg :: u8
  fld_shift :: nat
  fld_width :: nat

definition E4K_I2C_ADDR :: u8 where
  "E4K_I2C_ADDR = 0xc8"

definition E4K_EINVAL :: int where
  "E4K_EINVAL = 22"

definition unsigned_delta :: "u32 \<Rightarrow> u32 \<Rightarrow> u32" where
  "unsigned_delta a b = (if a > b then a - b else b - a)"

definition width2mask :: "u8 list" where
  "width2mask = [0, 1, 3, 7, 0xf, 0x1f, 0x3f, 0x7f, 0xff]"

subsection \<open>Register access\<close>

abbreviation on_dev :: "('d, 'a) state \<Rightarrow> ('d e4k_state, 'a) state" where
  "on_dev \<equiv> zoom e4k_rtl_dev (\<lambda>d e. e\<lparr>e4k_rtl_dev := d\<rparr>)"

definition e4k_reg_write :: "'d i2c_ops \<Rightarrow> u8 \<Rightarrow> u8 \<Rightarrow> ('d e4k_state, int) state" where
  "e4k_reg_write io reg val = do {
     e \<leftarrow> State_Monad.get;
     r \<leftarrow> on_dev (i2c_write io (e4k_i2c_addr e) [reg, val]);
     ret (if r = 2 then 0 else -1) }"

definition e4k_reg_read :: "'d i2c_ops \<Rightarrow> u8 \<Rightarrow> ('d e4k_state, int) state" where
  "e4k_reg_read io reg = do {
     e \<leftarrow> State_Monad.get;
     r \<leftarrow> on_dev (i2c_write io (e4k_i2c_addr e) [reg]);
     if r < 1 then ret (-1)
     else do {
       (r, data) \<leftarrow> on_dev (i2c_read io (e4k_i2c_addr e) [reg]);
       if r < 1 then ret (-1) else ret (uint (hd data)) } }"

text \<open>A failed read is the byte \<open>0xff\<close> here: \<open>-1\<close> converted to \<open>uint8_t\<close>.\<close>

definition e4k_reg_set_mask :: "'d i2c_ops \<Rightarrow> u8 \<Rightarrow> u8 \<Rightarrow> u8 \<Rightarrow> ('d e4k_state, int) state" where
  "e4k_reg_set_mask io reg msk val = do {
     rc \<leftarrow> e4k_reg_read io reg;
     let tmp = (word_of_int rc :: u8);
     if tmp AND msk = val then ret 0
     else e4k_reg_write io reg ((tmp AND NOT msk) OR (val AND msk)) }"

definition fld_mask :: "reg_field \<Rightarrow> u8" where
  "fld_mask field = push_bit (fld_shift field) (width2mask ! fld_width field)"

definition e4k_field_write :: "'d i2c_ops \<Rightarrow> reg_field \<Rightarrow> u8 \<Rightarrow> ('d e4k_state, int) state" where
  "e4k_field_write io field val = do {
     rc \<leftarrow> e4k_reg_read io (fld_reg field);
     if rc < 0 then ret rc
     else e4k_reg_set_mask io (fld_reg field) (fld_mask field) (push_bit (fld_shift field) val) }"

definition e4k_field_read :: "'d i2c_ops \<Rightarrow> reg_field \<Rightarrow> ('d e4k_state, int) state" where
  "e4k_field_read io field = do {
     rc \<leftarrow> e4k_reg_read io (fld_reg field);
     if rc < 0 then ret rc
     else ret (drop_bit (fld_shift field) rc AND uint (width2mask ! fld_width field)) }"

subsection \<open>Filters\<close>

definition rf_filt_center_uhf :: "u32 list" where
  "rf_filt_center_uhf =
     [360000000, 380000000, 405000000, 425000000, 450000000, 475000000, 505000000, 540000000,
      575000000, 615000000, 670000000, 720000000, 760000000, 840000000, 890000000, 970000000]"

definition rf_filt_center_l :: "u32 list" where
  "rf_filt_center_l =
     [1300000000, 1320000000, 1360000000, 1410000000, 1445000000, 1460000000, 1490000000, 1530000000,
      1560000000, 1590000000, 1640000000, 1660000000, 1680000000, 1700000000, 1720000000, 1750000000]"

text \<open>The loop of \<open>closest_arr_idx\<close>: \<open>i\<close> runs over the array, \<open>bi\<close> and \<open>best_delta\<close> as in the code.\<close>

primrec closest_loop :: "u32 list \<Rightarrow> u32 \<Rightarrow> nat \<Rightarrow> nat \<Rightarrow> u32 \<Rightarrow> nat" where
  "closest_loop [] freq i bi best_delta = bi"
| "closest_loop (a # arr) freq i bi best_delta =
     (let delta = unsigned_delta freq a
      in if delta < best_delta then closest_loop arr freq (Suc i) i delta
         else closest_loop arr freq (Suc i) bi best_delta)"

definition closest_arr_idx :: "u32 list \<Rightarrow> u32 \<Rightarrow> nat" where
  "closest_arr_idx arr freq = closest_loop arr freq 0 0 0xffffffff"

fun choose_rf_filter :: "e4k_band \<Rightarrow> u32 \<Rightarrow> nat" where
  "choose_rf_filter E4K_BAND_VHF2 freq = 0"
| "choose_rf_filter E4K_BAND_VHF3 freq = 0"
| "choose_rf_filter E4K_BAND_UHF freq = closest_arr_idx rf_filt_center_uhf freq"
| "choose_rf_filter E4K_BAND_L freq = closest_arr_idx rf_filt_center_l freq"

definition e4k_rf_filter_set :: "'d i2c_ops \<Rightarrow> ('d e4k_state, int) state" where
  "e4k_rf_filter_set io = do {
     e \<leftarrow> State_Monad.get;
     e4k_reg_set_mask io 0x10 0xF (of_nat (choose_rf_filter (e4k_cur_band e) (pll_flo (e4k_vco e)))) }"

definition mix_filter_bw :: "u32 list" where
  "mix_filter_bw =
     [27000000, 27000000, 27000000, 27000000, 27000000, 27000000, 27000000, 27000000,
      4600000, 4200000, 3800000, 3400000, 3300000, 2700000, 2300000, 1900000]"

definition ifrc_filter_bw :: "u32 list" where
  "ifrc_filter_bw =
     [21400000, 21000000, 17600000, 14700000, 12400000, 10600000, 9000000, 7700000,
      6400000, 5300000, 4400000, 3400000, 2600000, 1800000, 1200000, 1000000]"

definition ifch_filter_bw :: "u32 list" where
  "ifch_filter_bw =
     [5500000, 5300000, 5000000, 4800000, 4600000, 4400000, 4300000, 4100000,
      3900000, 3800000, 3700000, 3600000, 3400000, 3300000, 3200000, 3100000,
      3000000, 2950000, 2900000, 2800000, 2750000, 2700000, 2600000, 2550000,
      2500000, 2450000, 2400000, 2300000, 2280000, 2240000, 2200000, 2150000]"

primrec if_filter_bw :: "e4k_if_filter \<Rightarrow> u32 list" where
  "if_filter_bw E4K_IF_FILTER_MIX = mix_filter_bw"
| "if_filter_bw E4K_IF_FILTER_CHAN = ifch_filter_bw"
| "if_filter_bw E4K_IF_FILTER_RC = ifrc_filter_bw"

primrec if_filter_fields :: "e4k_if_filter \<Rightarrow> reg_field" where
  "if_filter_fields E4K_IF_FILTER_MIX = \<lparr>fld_reg = 0x11, fld_shift = 4, fld_width = 4\<rparr>"
| "if_filter_fields E4K_IF_FILTER_CHAN = \<lparr>fld_reg = 0x12, fld_shift = 0, fld_width = 5\<rparr>"
| "if_filter_fields E4K_IF_FILTER_RC = \<lparr>fld_reg = 0x11, fld_shift = 0, fld_width = 4\<rparr>"

definition find_if_bw :: "e4k_if_filter \<Rightarrow> u32 \<Rightarrow> nat" where
  "find_if_bw flt bw = closest_arr_idx (if_filter_bw flt) bw"

definition e4k_if_filter_bw_set :: "'d i2c_ops \<Rightarrow> e4k_if_filter \<Rightarrow> u32 \<Rightarrow> ('d e4k_state, int) state" where
  "e4k_if_filter_bw_set io flt bandwidth =
     e4k_field_write io (if_filter_fields flt) (of_nat (find_if_bw flt bandwidth))"

definition e4k_if_filter_chan_enable :: "'d i2c_ops \<Rightarrow> int \<Rightarrow> ('d e4k_state, int) state" where
  "e4k_if_filter_chan_enable io on = e4k_reg_set_mask io 0x12 0x20 (if on \<noteq> 0 then 0 else 0x20)"

definition e4k_if_filter_bw_get :: "'d i2c_ops \<Rightarrow> e4k_if_filter \<Rightarrow> ('d e4k_state, int) state" where
  "e4k_if_filter_bw_get io flt = do {
     rc \<leftarrow> e4k_field_read io (if_filter_fields flt);
     if rc < 0 then ret rc else ret (uint (if_filter_bw flt ! nat rc)) }"

subsection \<open>Frequency\<close>

record pll_settings =
  pll_freq :: int
  pll_reg_synth7 :: u8
  pll_mult :: int

definition pll_vars :: "pll_settings list" where
  "pll_vars =
     [\<lparr>pll_freq = 72400000, pll_reg_synth7 = 0x0f, pll_mult = 48\<rparr>,
      \<lparr>pll_freq = 81200000, pll_reg_synth7 = 0x0e, pll_mult = 40\<rparr>,
      \<lparr>pll_freq = 108300000, pll_reg_synth7 = 0x0d, pll_mult = 32\<rparr>,
      \<lparr>pll_freq = 162500000, pll_reg_synth7 = 0x0c, pll_mult = 24\<rparr>,
      \<lparr>pll_freq = 216600000, pll_reg_synth7 = 0x0b, pll_mult = 16\<rparr>,
      \<lparr>pll_freq = 325000000, pll_reg_synth7 = 0x0a, pll_mult = 12\<rparr>,
      \<lparr>pll_freq = 350000000, pll_reg_synth7 = 0x09, pll_mult = 8\<rparr>,
      \<lparr>pll_freq = 432000000, pll_reg_synth7 = 0x03, pll_mult = 8\<rparr>,
      \<lparr>pll_freq = 667000000, pll_reg_synth7 = 0x02, pll_mult = 6\<rparr>,
      \<lparr>pll_freq = 1200000000, pll_reg_synth7 = 0x01, pll_mult = 4\<rparr>]"

definition is_fosc_valid :: "int \<Rightarrow> bool" where
  "is_fosc_valid fosc \<longleftrightarrow> \<not> (fosc < 16000000 \<or> fosc > 30000000)"

text \<open>\<open>z\<close> and \<open>x\<close> arrive as \<open>uint8_t\<close> and \<open>uint16_t\<close>.\<close>

definition compute_fvco :: "int \<Rightarrow> int \<Rightarrow> int \<Rightarrow> int" where
  "compute_fvco f_osc z x = wrap64 (wrap64 (f_osc * wrap8 z) + wrap64 (f_osc * wrap16 x) div 65536)"

definition compute_flo :: "int \<Rightarrow> int \<Rightarrow> int \<Rightarrow> int \<Rightarrow> int" where
  "compute_flo f_osc z x r =
     (let fvco = compute_fvco f_osc z x
      in if fvco = 0 then wrap32 (- E4K_EINVAL) else wrap32 (fvco div r))"

text \<open>The three-phase flag, \<open>r_idx\<close> and the multiplier for a frequency.\<close>

definition e4k_pll_divider :: "int \<Rightarrow> u8 \<times> u8 \<times> int" where
  "e4k_pll_divider intended_flo =
     (case find (\<lambda>s. intended_flo < pll_freq s) pll_vars of
        Some s \<Rightarrow> (if pll_reg_synth7 s AND 0x08 \<noteq> 0 then 1 else 0, pll_reg_synth7 s, pll_mult s)
      | None \<Rightarrow> (0, 0, 2))"

definition e4k_compute_pll_params ::
  "e4k_pll_params \<Rightarrow> u32 \<Rightarrow> u32 \<Rightarrow> u32 \<times> e4k_pll_params" where
  "e4k_compute_pll_params oscp fosc intended_flo =
     (if \<not> is_fosc_valid (uint fosc) then (0, oscp\<lparr>pll_r_idx := 0\<rparr>)
      else let (three_phase_mixing, r_idx, r) = e4k_pll_divider (uint intended_flo);
               intended_fvco = wrap64 (uint intended_flo * r);
               z = intended_fvco div uint fosc;
               remainder = wrap64 (intended_fvco - wrap64 (uint fosc * z));
               x = wrap32 (wrap64 (remainder * 65536) div uint fosc);
               flo = word_of_int (compute_flo (uint fosc) z x r)
           in (flo, oscp\<lparr>pll_fosc := fosc, pll_flo := flo, pll_intended_flo := intended_flo,
                          pll_r := word_of_int r, pll_r_idx := r_idx,
                          pll_threephase := three_phase_mixing,
                          pll_x := word_of_int x, pll_z := word_of_int z\<rparr>))"

definition e4k_band_set :: "'d i2c_ops \<Rightarrow> e4k_band \<Rightarrow> ('d e4k_state, int) state" where
  "e4k_band_set io band = do {
     _ \<leftarrow> e4k_reg_write io 0x78 (if band = E4K_BAND_L then 0 else 3);
     _ \<leftarrow> e4k_reg_set_mask io 0x07 0x06 0;
     rc \<leftarrow> e4k_reg_set_mask io 0x07 0x06 (push_bit 1 (e4k_band_code band));
     _ \<leftarrow> (if rc \<ge> 0 then State_Monad.update (\<lambda>e. e\<lparr>e4k_cur_band := band\<rparr>) else ret ());
     ret rc }"

definition e4k_flo_band :: "int \<Rightarrow> e4k_band" where
  "e4k_flo_band flo =
     (if flo < 140000000 then E4K_BAND_VHF2
      else if flo < 350000000 then E4K_BAND_VHF3
      else if flo < 1135000000 then E4K_BAND_UHF else E4K_BAND_L)"

text \<open>The \<open>int\<close> result is the frequency read as a signed number.\<close>

definition e4k_tune_params :: "'d i2c_ops \<Rightarrow> e4k_pll_params \<Rightarrow> ('d e4k_state, int) state" where
  "e4k_tune_params io p = do {
     _ \<leftarrow> e4k_reg_write io 0x0d (pll_r_idx p);
     _ \<leftarrow> e4k_reg_write io 0x09 (pll_z p);
     _ \<leftarrow> e4k_reg_write io 0x0a (ucast (pll_x p AND 0xff));
     _ \<leftarrow> e4k_reg_write io 0x0b (ucast (drop_bit 8 (pll_x p)));
     _ \<leftarrow> State_Monad.update (\<lambda>e. e\<lparr>e4k_vco := p\<rparr>);
     _ \<leftarrow> e4k_band_set io (e4k_flo_band (uint (pll_flo p)));
     _ \<leftarrow> e4k_rf_filter_set io;
     ret (sint (pll_flo p)) }"

text \<open>
  \<open>p0\<close> is the content of the uninitialised local variable \<open>p\<close>; every field of it is assigned
  before it is used.
\<close>

definition e4k_tune_freq :: "'d i2c_ops \<Rightarrow> e4k_pll_params \<Rightarrow> u32 \<Rightarrow> ('d e4k_state, int) state" where
  "e4k_tune_freq io p0 freq = do {
     e \<leftarrow> State_Monad.get;
     let (rc, p) = e4k_compute_pll_params p0 (pll_fosc (e4k_vco e)) freq;
     if rc = 0 then ret (- E4K_EINVAL)
     else do {
       _ \<leftarrow> e4k_tune_params io p;
       rc \<leftarrow> e4k_reg_read io 0x07;
       if rc AND 0x01 = 0 then ret (-1) else ret 0 } }"

subsection \<open>Gain\<close>

definition if_stage_gain :: "int list list" where
  "if_stage_gain =
     [[], [-3, 6], [0, 3, 6, 9], [0, 3, 6, 9], [0, 1, 2, 2],
      [3, 6, 9, 12, 15, 15, 15, 15], [3, 6, 9, 12, 15, 15, 15, 15]]"

definition if_stage_gain_regs :: "reg_field list" where
  "if_stage_gain_regs =
     [\<lparr>fld_reg = 0, fld_shift = 0, fld_width = 0\<rparr>,
      \<lparr>fld_reg = 0x16, fld_shift = 0, fld_width = 1\<rparr>,
      \<lparr>fld_reg = 0x16, fld_shift = 1, fld_width = 2\<rparr>,
      \<lparr>fld_reg = 0x16, fld_shift = 3, fld_width = 2\<rparr>,
      \<lparr>fld_reg = 0x16, fld_shift = 5, fld_width = 2\<rparr>,
      \<lparr>fld_reg = 0x17, fld_shift = 0, fld_width = 3\<rparr>,
      \<lparr>fld_reg = 0x17, fld_shift = 3, fld_width = 3\<rparr>]"

definition lnagain :: "(int \<times> u8) list" where
  "lnagain =
     [(-50, 0), (-25, 1), (0, 4), (25, 5), (50, 6), (75, 7), (100, 8), (125, 9), (150, 10),
      (175, 11), (200, 12), (250, 13), (300, 14)]"

definition enhgain :: "int list" where
  "enhgain = [10, 30, 50, 70]"

text \<open>\<open>for (i = 0; i < n; ++i) if (arr[i] == val) \<dots> i \<dots>\<close>\<close>

primrec find_index :: "int list \<Rightarrow> int \<Rightarrow> nat \<Rightarrow> nat option" where
  "find_index [] v i = None"
| "find_index (a # as) v i = (if a = v then Some i else find_index as v (Suc i))"

definition e4k_set_lna_gain :: "'d i2c_ops \<Rightarrow> int \<Rightarrow> ('d e4k_state, int) state" where
  "e4k_set_lna_gain io gain =
     (case map_of lnagain gain of
        Some v \<Rightarrow> do { _ \<leftarrow> e4k_reg_set_mask io 0x14 0xf v; ret gain }
      | None \<Rightarrow> ret (- E4K_EINVAL))"

definition e4k_set_enh_gain :: "'d i2c_ops \<Rightarrow> int \<Rightarrow> ('d e4k_state, int) state" where
  "e4k_set_enh_gain io gain =
     (case find_index enhgain gain 0 of
        Some i \<Rightarrow> do { _ \<leftarrow> e4k_reg_set_mask io 0x24 0x7 (1 OR push_bit 1 (of_nat i)); ret gain }
      | None \<Rightarrow> do {
          _ \<leftarrow> e4k_reg_set_mask io 0x24 0x7 0;
          ret (if gain = 0 then 0 else - E4K_EINVAL) })"

definition e4k_enable_manual_gain :: "'d i2c_ops \<Rightarrow> u8 \<Rightarrow> ('d e4k_state, int) state" where
  "e4k_enable_manual_gain io manual =
     (if manual \<noteq> 0 then do {
        _ \<leftarrow> e4k_reg_set_mask io 0x1a 0xF 0x0;
        _ \<leftarrow> e4k_reg_set_mask io 0x20 0x1 0;
        ret 0 }
      else do {
        _ \<leftarrow> e4k_reg_set_mask io 0x1a 0xF 0x9;
        _ \<leftarrow> e4k_reg_set_mask io 0x20 0x1 1;
        _ \<leftarrow> e4k_reg_set_mask io 0x24 0x7 0;
        ret 0 })"

definition find_stage_gain :: "u8 \<Rightarrow> int \<Rightarrow> int" where
  "find_stage_gain stage val =
     (if unat stage \<ge> length if_stage_gain then - E4K_EINVAL
      else case find_index (if_stage_gain ! unat stage) val 0 of
             Some i \<Rightarrow> int i | None \<Rightarrow> - E4K_EINVAL)"

definition e4k_if_gain_set :: "'d i2c_ops \<Rightarrow> u8 \<Rightarrow> int \<Rightarrow> ('d e4k_state, int) state" where
  "e4k_if_gain_set io stage value = (
     let rc = find_stage_gain stage value
     in if rc < 0 then ret rc
        else let field = if_stage_gain_regs ! unat stage
             in e4k_reg_set_mask io (fld_reg field) (fld_mask field)
                  (word_of_int (push_bit (fld_shift field) rc)))"

definition e4k_mixer_gain_set :: "'d i2c_ops \<Rightarrow> int \<Rightarrow> ('d e4k_state, int) state" where
  "e4k_mixer_gain_set io value =
     (if value = 4 then e4k_reg_set_mask io 0x15 1 0
      else if value = 12 then e4k_reg_set_mask io 0x15 1 1
      else ret (- E4K_EINVAL))"

definition e4k_commonmode_set :: "'d i2c_ops \<Rightarrow> int \<Rightarrow> ('d e4k_state, int) state" where
  "e4k_commonmode_set io value =
     (if value < 0 then ret (- E4K_EINVAL)
      else if value > 7 then ret (- E4K_EINVAL)
      else e4k_reg_set_mask io 0x2f 7 (word_of_int value))"

subsection \<open>DC offset\<close>

definition e4k_manual_dc_offset ::
  "'d i2c_ops \<Rightarrow> int \<Rightarrow> int \<Rightarrow> int \<Rightarrow> int \<Rightarrow> ('d e4k_state, int) state" where
  "e4k_manual_dc_offset io iofs irange qofs qrange =
     (if iofs < 0 \<or> iofs > 0x3f then ret (- E4K_EINVAL)
      else if irange < 0 \<or> irange > 0x03 then ret (- E4K_EINVAL)
      else if qofs < 0 \<or> qofs > 0x3f then ret (- E4K_EINVAL)
      else if qrange < 0 \<or> qrange > 0x03 then ret (- E4K_EINVAL)
      else do {
        res \<leftarrow> e4k_reg_set_mask io 0x2a 0x3f (word_of_int iofs);
        if res < 0 then ret res
        else do {
          res \<leftarrow> e4k_reg_set_mask io 0x2b 0x3f (word_of_int qofs);
          if res < 0 then ret res
          else e4k_reg_set_mask io 0x2c 0x33 (word_of_int (push_bit 4 qrange OR irange)) } })"

definition e4k_dc_offset_calibrate :: "'d i2c_ops \<Rightarrow> ('d e4k_state, int) state" where
  "e4k_dc_offset_calibrate io = do {
     _ \<leftarrow> e4k_reg_set_mask io 0x2d 0x04 0x04;
     e4k_reg_write io 0x29 0x01 }"

definition if_gains_max :: "int list" where
  "if_gains_max = [0, 6, 9, 9, 2, 15, 15]"

definition dc_gain_comb :: "(int \<times> int \<times> u8) list" where
  "dc_gain_comb = [(4, -3, 0x50), (4, 6, 0x51), (12, -3, 0x52), (12, 6, 0x53)]"

definition TO_LUT :: "u8 \<Rightarrow> u8 \<Rightarrow> u8" where
  "TO_LUT offset rng = offset OR push_bit 6 rng"

text \<open>One round of the loop over the mixer and first-stage gains.\<close>

definition e4k_dc_lut_entry :: "'d i2c_ops \<Rightarrow> int \<times> int \<times> u8 \<Rightarrow> ('d e4k_state, int) state" where
  "e4k_dc_lut_entry io comb = (case comb of (mixer_gain, if1_gain, reg) \<Rightarrow> do {
     _ \<leftarrow> e4k_mixer_gain_set io mixer_gain;
     _ \<leftarrow> e4k_if_gain_set io 1 if1_gain;
     _ \<leftarrow> e4k_dc_offset_calibrate io;
     offs_i \<leftarrow> e4k_reg_read io 0x2a;
     offs_q \<leftarrow> e4k_reg_read io 0x2b;
     rng \<leftarrow> e4k_reg_read io 0x2c;
     let offs_i = word_of_int offs_i AND 0x3f;
     let offs_q = word_of_int offs_q AND 0x3f;
     let range_i = word_of_int rng AND 0x3;
     let range_q = drop_bit 4 (word_of_int rng) AND 0x3;
     _ \<leftarrow> e4k_reg_write io reg (TO_LUT offs_q range_q);
     e4k_reg_write io (reg + 0x10) (TO_LUT offs_i range_i) })"

definition e4k_dc_offset_gen_table :: "'d i2c_ops \<Rightarrow> ('d e4k_state, int) state" where
  "e4k_dc_offset_gen_table io = do {
     _ \<leftarrow> e4k_reg_set_mask io 0x20 0x1 0;
     _ \<leftarrow> e4k_reg_set_mask io 0x1a 0xF 0x0;
     _ \<leftarrow> for_each (\<lambda>i. e4k_if_gain_set io (of_nat i) (if_gains_max ! i)) [2, 3, 4, 5, 6];
     _ \<leftarrow> for_each (e4k_dc_lut_entry io) dc_gain_comb;
     ret 0 }"

subsection \<open>Standby and initialisation\<close>

definition e4k_standby :: "'d i2c_ops \<Rightarrow> int \<Rightarrow> ('d e4k_state, int) state" where
  "e4k_standby io enable = do {
     _ \<leftarrow> e4k_reg_set_mask io 0x00 0x02 (if enable \<noteq> 0 then 0 else 0x02);
     ret 0 }"

definition magic_init :: "'d i2c_ops \<Rightarrow> ('d e4k_state, int) state" where
  "magic_init io = do {
     _ \<leftarrow> for_each (\<lambda>(reg, val). e4k_reg_write io reg val)
       [(0x7e, 0x01), (0x7f, 0xfe), (0x82, 0x00), (0x86, 0x50), (0x87, 0x20), (0x88, 0x01),
        (0x9f, 0x7f), (0xa0, 0x07)];
     ret 0 }"

definition e4k_init :: "'d i2c_ops \<Rightarrow> ('d e4k_state, int) state" where
  "e4k_init io = do {
     _ \<leftarrow> e4k_reg_read io 0;
     _ \<leftarrow> e4k_reg_write io 0x00 (0x01 OR 0x02 OR 0x04);
     _ \<leftarrow> e4k_reg_write io 0x05 0x00;
     _ \<leftarrow> e4k_reg_write io 0x06 0x00;
     _ \<leftarrow> e4k_reg_write io 0x7a 0x96;
     _ \<leftarrow> magic_init io;
     _ \<leftarrow> e4k_reg_write io 0x1d 0x10;
     _ \<leftarrow> e4k_reg_write io 0x1e 0x04;
     _ \<leftarrow> e4k_reg_write io 0x1f 0x1a;
     _ \<leftarrow> e4k_reg_set_mask io 0x1a 0xF 0x0;
     _ \<leftarrow> e4k_reg_set_mask io 0x20 0x1 0;
     _ \<leftarrow> e4k_enable_manual_gain io 0;
     _ \<leftarrow> e4k_if_gain_set io 1 6;
     _ \<leftarrow> e4k_if_gain_set io 2 0;
     _ \<leftarrow> e4k_if_gain_set io 3 0;
     _ \<leftarrow> e4k_if_gain_set io 4 0;
     _ \<leftarrow> e4k_if_gain_set io 5 9;
     _ \<leftarrow> e4k_if_gain_set io 6 9;
     _ \<leftarrow> e4k_if_filter_bw_set io E4K_IF_FILTER_MIX 1900000;
     _ \<leftarrow> e4k_if_filter_bw_set io E4K_IF_FILTER_RC 1000000;
     _ \<leftarrow> e4k_if_filter_bw_set io E4K_IF_FILTER_CHAN 2150000;
     _ \<leftarrow> e4k_if_filter_chan_enable io 1;
     _ \<leftarrow> e4k_reg_set_mask io 0x2d 0x03 0;
     _ \<leftarrow> e4k_reg_set_mask io 0x70 0x03 0;
     _ \<leftarrow> e4k_reg_set_mask io 0x71 0x03 0;
     ret 0 }"


section \<open>Nearest entry of a table\<close>

lemma closest_loop_spec:
  "(closest_loop arr freq i bi best = bi \<and> (\<forall>a \<in> set arr. best \<le> unsigned_delta freq a))
   \<or> (\<exists>j < length arr. closest_loop arr freq i bi best = i + j \<and> unsigned_delta freq (arr ! j) < best
        \<and> (\<forall>a \<in> set arr. unsigned_delta freq (arr ! j) \<le> unsigned_delta freq a))"
proof (induction arr arbitrary: i bi best)
  case Nil
  then show ?case by simp
next
  case (Cons a arr)
  show ?case
  proof (cases "unsigned_delta freq a < best")
    case True
    then show ?thesis
      using Cons.IH [of "Suc i" i "unsigned_delta freq a"]
      by (auto simp: Let_def intro: exI [of _ 0] exI [of _ "Suc _"] less_trans)
  next
    case False
    then show ?thesis
      using Cons.IH [of "Suc i" bi best]
      by (auto simp: Let_def not_less intro!: exI [of _ "Suc _"] dest: less_le_trans)
  qed
qed

lemma closest_arr_idx_argmin:
  assumes "arr \<noteq> []"
  shows "closest_arr_idx arr freq < length arr"
    and "\<forall>a \<in> set arr. unsigned_delta freq (arr ! closest_arr_idx arr freq) \<le> unsigned_delta freq a"
proof -
  have "uint w \<le> 4294967295" for w :: u32
    using uint_less_u32 [of w] by linarith
  then have top: "w \<le> 0xffffffff" for w :: u32
    by (simp add: word_le_def)
  show "closest_arr_idx arr freq < length arr"
    using closest_loop_spec [of arr freq 0 0 "0xffffffff"] assms by (auto simp: closest_arr_idx_def)
  show "\<forall>a \<in> set arr. unsigned_delta freq (arr ! closest_arr_idx arr freq) \<le> unsigned_delta freq a"
    using closest_loop_spec [of arr freq 0 0 "0xffffffff"] top
    by (auto simp: closest_arr_idx_def intro: order_trans)
qed

lemma uint_unsigned_delta: "uint (unsigned_delta a b) = \<bar>uint a - uint b\<bar>"
  by (auto simp: unsigned_delta_def word_less_def uint_sub_if' not_less)

section \<open>The driver on a chip that answers\<close>

text \<open>The driver state is ready when its chip address is set and the dongle behind it answers.\<close>

definition e4k_ready :: "('d \<Rightarrow> bool) \<Rightarrow> 'd e4k_state \<Rightarrow> bool" where
  "e4k_ready up e \<longleftrightarrow> e4k_i2c_addr e = E4K_I2C_ADDR \<and> up (e4k_rtl_dev e)"

definition e4k_view :: "('d \<Rightarrow> u8 \<Rightarrow> u8) \<Rightarrow> 'd e4k_state \<Rightarrow> u8 \<Rightarrow> u8" where
  "e4k_view view e = view (e4k_rtl_dev e)"

lemma masked_id: "old AND m = v \<Longrightarrow> masked old m v = old"
  by (auto simp: masked_def bit_eq_iff bit_simps)

lemma masked_rw:
  "m AND rw = m \<Longrightarrow> tmp AND rw = old \<Longrightarrow> ((tmp AND NOT m) OR (v AND m)) AND rw = masked old m v"
  by (simp add: masked_def bit_eq_iff bit_simps) metis

lemma masked_read: "m AND rw = m \<Longrightarrow> tmp AND rw = old \<Longrightarrow> tmp AND m = old AND m"
  by (simp add: bit_eq_iff bit_simps) metis

text \<open>The content of a bit field of a byte.\<close>

definition fld_get :: "reg_field \<Rightarrow> u8 \<Rightarrow> u8" where
  "fld_get f v = drop_bit (fld_shift f) v AND width2mask ! fld_width f"

definition fld_wf :: "reg_field \<Rightarrow> bool" where
  "fld_wf f \<longleftrightarrow> drop_bit (fld_shift f) (fld_mask f) = width2mask ! fld_width f"

lemma bit_fld:
  assumes "fld_wf f"
  shows "bit (fld_mask f) (fld_shift f + n) \<longleftrightarrow> bit (width2mask ! fld_width f) n"
  using assms by (metis fld_wf_def bit_drop_bit_eq comp_apply)

lemma fld_get_masked:
  assumes "fld_wf f"
  shows "fld_get f (masked old (fld_mask f) (push_bit (fld_shift f) v)) = v AND width2mask ! fld_width f"
proof (rule bit_word_eqI)
  fix n assume "n < LENGTH(8)"
  have "fld_shift f + n < 8" if "bit (width2mask ! fld_width f) n"
    using that bit_imp_le_length [of "fld_mask f" "fld_shift f + n"] by (simp add: bit_fld [OF assms])
  then show "bit (fld_get f (masked old (fld_mask f) (push_bit (fld_shift f) v))) n =
      bit (v AND width2mask ! fld_width f) n"
    by (auto simp: fld_get_def masked_def bit_simps bit_fld [OF assms])
qed

lemma fld_get_same:
  assumes "fld_wf f" "m = fld_mask f"
  shows "fld_get f (masked old m w) = fld_get f w"
  by (rule bit_word_eqI) (auto simp: assms(2) fld_get_def masked_def bit_simps bit_fld [OF assms(1)] dest: bit_imp_le_length)

lemma fld_get_other:
  assumes "fld_wf g" "m AND fld_mask g = 0"
  shows "fld_get g (masked old m w) = fld_get g old"
proof (rule bit_word_eqI)
  fix n assume "n < LENGTH(8)"
  have "\<not> (bit m (fld_shift g + n) \<and> bit (fld_mask g) (fld_shift g + n))"
    using assms(2) by (metis bit_0_eq bit_and_iff bot_apply bot_bool_def)
  then show "bit (fld_get g (masked old m w)) n = bit (fld_get g old) n"
    by (auto simp: fld_get_def masked_def bit_simps bit_fld [OF assms(1)] dest: bit_imp_le_length)
qed

lemma filter_fields_wf: "fld_wf (if_filter_fields f)"
  by (cases f) (simp_all add: fld_wf_def fld_mask_def width2mask_def)

lemma filter_fields_disjoint:
  "f \<noteq> g \<Longrightarrow> fld_reg (if_filter_fields f) \<noteq> fld_reg (if_filter_fields g)
    \<or> fld_mask (if_filter_fields f) AND fld_mask (if_filter_fields g) = 0"
  by (cases f; cases g) (simp_all add: fld_mask_def width2mask_def)

lemma filter_index_fits:
  "of_nat (find_if_bw f bw) AND width2mask ! fld_width (if_filter_fields f) = (of_nat (find_if_bw f bw) :: u8)"
  "find_if_bw f bw < length (if_filter_bw f)" "length (if_filter_bw f) \<le> 32"
proof -
  have ne: "if_filter_bw f \<noteq> []" "length (if_filter_bw f) \<le> 32"
    "length (if_filter_bw f) = 2 ^ fld_width (if_filter_fields f)"
    "width2mask ! fld_width (if_filter_fields f) = mask (fld_width (if_filter_fields f))"
    by (cases f; simp add: mix_filter_bw_def ifch_filter_bw_def ifrc_filter_bw_def width2mask_def mask_eq_exp_minus_1)+
  then show "find_if_bw f bw < length (if_filter_bw f)" "length (if_filter_bw f) \<le> 32"
    using closest_arr_idx_argmin(1) [OF ne(1), of bw] by (simp_all add: find_if_bw_def)
  then have "take_bit (fld_width (if_filter_fields f)) (of_nat (find_if_bw f bw)) = (of_nat (find_if_bw f bw) :: u8)"
    using ne by (simp add: unsigned_take_bit_eq take_bit_of_nat take_bit_nat_eq_self)
  then show "of_nat (find_if_bw f bw) AND width2mask ! fld_width (if_filter_fields f) = (of_nat (find_if_bw f bw) :: u8)"
    by (simp add: ne(4) take_bit_eq_mask)
qed

locale e4k_chip = i2c_chip io E4K_I2C_ADDR up rw view
  for io :: "'d i2c_ops" and up :: "'d \<Rightarrow> bool" and rw :: "u8 \<Rightarrow> u8" and view :: "'d \<Rightarrow> u8 \<Rightarrow> u8"
begin

lemma reg_write_simps:
  "e4k_ready up e \<Longrightarrow> result_of (e4k_reg_write io r v) e = 0"
  "e4k_ready up e \<Longrightarrow> e4k_ready up (state_of (e4k_reg_write io r v) e)"
  "e4k_ready up e \<Longrightarrow> e4k_view view (state_of (e4k_reg_write io r v) e) = (e4k_view view e)(r := v AND rw r)"
  by (simp_all add: e4k_reg_write_def e4k_ready_def e4k_view_def chip_simps fun_eq_iff)

lemma reg_read_result:
  assumes "e4k_ready up e"
  shows "result_of (e4k_reg_read io r) e \<ge> 0"
    and "word_of_int (result_of (e4k_reg_read io r) e) AND rw r = e4k_view view e r"
  using assms by (auto simp: e4k_reg_read_def e4k_ready_def e4k_view_def chip_simps split_beta
      elim!: read_result [of "e4k_rtl_dev e" r r])

lemma reg_read_byte: "e4k_ready up e \<Longrightarrow> \<exists>b :: u8. result_of (e4k_reg_read io r) e = uint b"
  by (auto simp: e4k_reg_read_def e4k_ready_def chip_simps split_beta elim!: read_result [of "e4k_rtl_dev e" r r])

lemma reg_read_simps:
  "e4k_ready up e \<Longrightarrow> e4k_ready up (state_of (e4k_reg_read io r) e)"
  "e4k_ready up e \<Longrightarrow> e4k_view view (state_of (e4k_reg_read io r) e) = e4k_view view e"
  by (auto simp: e4k_reg_read_def e4k_ready_def e4k_view_def chip_simps split_beta
      elim!: read_result [of "e4k_rtl_dev e" r r])

text \<open>Both branches of the masked write have the same effect.\<close>

lemma set_mask_simps:
  assumes "e4k_ready up e"
  shows "result_of (e4k_reg_set_mask io r m v) e = 0"
    and "e4k_ready up (state_of (e4k_reg_set_mask io r m v) e)"
    and "m AND rw r = m \<Longrightarrow>
      e4k_view view (state_of (e4k_reg_set_mask io r m v) e) = (e4k_view view e)(r := masked (e4k_view view e r) m v)"
proof -
  note rr = reg_read_result(2) [OF assms, of r]
  show "result_of (e4k_reg_set_mask io r m v) e = 0" "e4k_ready up (state_of (e4k_reg_set_mask io r m v) e)"
    using assms by (simp_all add: e4k_reg_set_mask_def Let_def reg_write_simps reg_read_simps)
  assume m: "m AND rw r = m"
  show "e4k_view view (state_of (e4k_reg_set_mask io r m v) e) = (e4k_view view e)(r := masked (e4k_view view e r) m v)"
    using assms masked_rw [OF m rr] masked_read [OF m rr] masked_id [of "e4k_view view e r" m v]
    by (auto simp: e4k_reg_set_mask_def Let_def reg_write_simps reg_read_simps)
qed

lemma field_write_simps:
  assumes "e4k_ready up e"
  shows "result_of (e4k_field_write io f v) e = 0"
    and "e4k_ready up (state_of (e4k_field_write io f v) e)"
    and "fld_mask f AND rw (fld_reg f) = fld_mask f \<Longrightarrow>
      e4k_view view (state_of (e4k_field_write io f v) e) =
        (e4k_view view e)(fld_reg f := masked (e4k_view view e (fld_reg f)) (fld_mask f) (push_bit (fld_shift f) v))"
  using assms reg_read_result(1) [OF assms]
  by (simp_all add: e4k_field_write_def set_mask_simps reg_read_simps leD)

text \<open>What the driver keeps of its own fields during a register access.\<close>

lemma keeps_fields:
  "e4k_vco (state_of (e4k_reg_write io r v) e) = e4k_vco e"
  "e4k_cur_band (state_of (e4k_reg_write io r v) e) = e4k_cur_band e"
  "e4k_vco (state_of (e4k_reg_read io r) e) = e4k_vco e"
  "e4k_cur_band (state_of (e4k_reg_read io r) e) = e4k_cur_band e"
  "e4k_vco (state_of (e4k_reg_set_mask io r m v) e) = e4k_vco e"
  "e4k_cur_band (state_of (e4k_reg_set_mask io r m v) e) = e4k_cur_band e"
  by (simp_all add: e4k_reg_write_def e4k_reg_read_def e4k_reg_set_mask_def Let_def split_beta)

lemma ready_upd [simp]:
  "e4k_ready up (e\<lparr>e4k_cur_band := b\<rparr>) = e4k_ready up e"
  "e4k_ready up (e\<lparr>e4k_vco := p\<rparr>) = e4k_ready up e"
  "e4k_view view (e\<lparr>e4k_cur_band := b\<rparr>) = e4k_view view e"
  "e4k_view view (e\<lparr>e4k_vco := p\<rparr>) = e4k_view view e"
  by (simp_all add: e4k_ready_def e4k_view_def)

end

interpretation sime4k: e4k_chip sim_io "\<lambda>_. True" "\<lambda>_. -1" sim_regs
  by unfold_locales

subsection \<open>Filters and gains read back as set\<close>

context e4k_chip
begin

lemma field_read_simps:
  assumes "e4k_ready up e" "rw (fld_reg f) = -1"
  shows "result_of (e4k_field_read io f) e = uint (fld_get f (e4k_view view e (fld_reg f)))"
    and "e4k_ready up (state_of (e4k_field_read io f) e)"
    and "e4k_view view (state_of (e4k_field_read io f) e) = e4k_view view e"
proof -
  have tb: "take_bit 8 (uint v) = uint v" for v :: u8
    by (simp add: take_bit_int_eq_self)
  have rd: "result_of (e4k_reg_read io (fld_reg f)) e = uint (e4k_view view e (fld_reg f))"
    using assms by (auto simp: e4k_reg_read_def e4k_ready_def e4k_view_def chip_simps split_beta
      elim!: read_result [of "e4k_rtl_dev e" "fld_reg f" "fld_reg f"])
  show "result_of (e4k_field_read io f) e = uint (fld_get f (e4k_view view e (fld_reg f)))"
    "e4k_ready up (state_of (e4k_field_read io f) e)"
    "e4k_view view (state_of (e4k_field_read io f) e) = e4k_view view e"
    using assms by (simp_all add: e4k_field_read_def rd reg_read_simps leD fld_get_def uint_and
        unsigned_drop_bit_eq tb)
qed

lemma filter_get:
  assumes "e4k_ready up e" "\<forall>r \<in> {0x11, 0x12}. rw r = -1"
  shows "result_of (e4k_if_filter_bw_get io f) e =
    uint (if_filter_bw f ! unat (fld_get (if_filter_fields f) (e4k_view view e (fld_reg (if_filter_fields f)))))"
proof -
  have "rw (fld_reg (if_filter_fields f)) = -1"
    using assms(2) by (cases f) simp_all
  then show ?thesis
    using assms(1) by (simp add: e4k_if_filter_bw_get_def field_read_simps leD)
qed

lemma filter_set:
  assumes "e4k_ready up e" "\<forall>r \<in> {0x11, 0x12}. rw r = -1"
  shows "result_of (e4k_if_filter_bw_set io f bw) e = 0"
    and "e4k_ready up (state_of (e4k_if_filter_bw_set io f bw) e)"
    and "fld_get (if_filter_fields g) (e4k_view view (state_of (e4k_if_filter_bw_set io f bw) e) (fld_reg (if_filter_fields g))) =
      (if g = f then of_nat (find_if_bw f bw)
       else fld_get (if_filter_fields g) (e4k_view view e (fld_reg (if_filter_fields g))))"
proof -
  have rw: "rw (fld_reg (if_filter_fields f)) = -1"
    using assms(2) by (cases f) simp_all
  note fw = field_write_simps [OF assms(1), of "if_filter_fields f" "of_nat (find_if_bw f bw)"]
  show "result_of (e4k_if_filter_bw_set io f bw) e = 0" "e4k_ready up (state_of (e4k_if_filter_bw_set io f bw) e)"
    using fw by (simp_all add: e4k_if_filter_bw_set_def)
  show "fld_get (if_filter_fields g) (e4k_view view (state_of (e4k_if_filter_bw_set io f bw) e) (fld_reg (if_filter_fields g))) =
      (if g = f then of_nat (find_if_bw f bw)
       else fld_get (if_filter_fields g) (e4k_view view e (fld_reg (if_filter_fields g))))"
    using fw(3) rw filter_fields_disjoint [of f g]
    by (auto simp: e4k_if_filter_bw_set_def fld_get_masked filter_fields_wf filter_index_fits fld_get_other)
qed

end

text \<open>The gain in dB a stage is programmed to.\<close>

definition e4k_stage_gain :: "(u8 \<Rightarrow> u8) \<Rightarrow> nat \<Rightarrow> int" where
  "e4k_stage_gain regs stage =
     if_stage_gain ! stage ! unat (fld_get (if_stage_gain_regs ! stage) (regs (fld_reg (if_stage_gain_regs ! stage))))"

lemma find_index_Some:
  "find_index xs v i = Some j \<Longrightarrow> i \<le> j \<and> j < i + length xs \<and> xs ! (j - i) = v"
proof (induction xs arbitrary: i)
  case (Cons a xs)
  then show ?case
    using Cons.IH [of "Suc i"] by (auto simp: nth_Cons' not_le Suc_le_eq split: if_splits)
qed simp

lemma find_index_None: "find_index xs v i = None \<longleftrightarrow> v \<notin> set xs"
  by (induction xs arbitrary: i) auto

lemma find_stage_gain_cases:
  "if stage \<in> {1..6} \<and> v \<in> set (if_stage_gain ! unat stage)
   then \<exists>j. find_stage_gain stage v = int j \<and> j < length (if_stage_gain ! unat stage) \<and> if_stage_gain ! unat stage ! j = v
   else find_stage_gain stage v = - E4K_EINVAL"
proof (cases "unat stage < 7")
  case True
  then have "stage \<in> {1..6} \<longleftrightarrow> unat stage \<noteq> 0"
    by (auto simp: word_le_nat_alt)
  moreover have "if_stage_gain ! 0 = []" by (simp add: if_stage_gain_def)
  ultimately show ?thesis
    using True find_index_Some [of "if_stage_gain ! unat stage" v 0] find_index_None [of "if_stage_gain ! unat stage" v 0]
    by (auto simp: find_stage_gain_def if_stage_gain_def split: option.splits)
next
  case False
  then have "stage \<notin> {1..6}" by (auto simp: word_le_nat_alt)
  then show ?thesis using False by (simp add: find_stage_gain_def if_stage_gain_def del: atLeastAtMost_iff)
qed

lemma stage_cases: "(s :: nat) < 7 \<Longrightarrow> s = 0 \<or> s = 1 \<or> s = 2 \<or> s = 3 \<or> s = 4 \<or> s = 5 \<or> s = 6"
  by linarith

lemma stage_fields_wf:
  assumes "stage < 7"
  shows "fld_wf (if_stage_gain_regs ! stage)"
  using stage_cases [OF assms]
  by (elim disjE) (simp_all add: if_stage_gain_regs_def fld_wf_def fld_mask_def width2mask_def)

lemma stage_fields_disjoint:
  assumes "s < 7" "t < 7" "s \<noteq> t"
  shows "fld_reg (if_stage_gain_regs ! s) \<noteq> fld_reg (if_stage_gain_regs ! t)
    \<or> fld_mask (if_stage_gain_regs ! s) AND fld_mask (if_stage_gain_regs ! t) = 0"
  using stage_cases [OF assms(1)] stage_cases [OF assms(2)] assms(3)
  by (elim disjE) (simp_all add: if_stage_gain_regs_def fld_mask_def width2mask_def)

lemma stage_index_fits:
  assumes "s < 7" "j < length (if_stage_gain ! s)"
  shows "of_nat j AND width2mask ! fld_width (if_stage_gain_regs ! s) = (of_nat j :: u8)" "j < 8"
proof -
  let ?w = "fld_width (if_stage_gain_regs ! s)"
  have w: "length (if_stage_gain ! s) \<le> 2 ^ ?w \<and> ?w \<le> 3 \<and> width2mask ! ?w = mask ?w"
    using stage_cases [OF assms(1)]
    by (elim disjE) (simp_all add: if_stage_gain_regs_def if_stage_gain_def width2mask_def mask_eq_exp_minus_1)
  then have "(2 :: nat) ^ ?w \<le> 2 ^ 3"
    by (intro power_increasing) simp_all
  then show "j < 8" using w assms(2) by simp
  have "j < 2 ^ ?w" using w assms(2) by linarith
  then show "of_nat j AND width2mask ! ?w = (of_nat j :: u8)"
    using w by (simp add: take_bit_of_nat take_bit_nat_eq_self flip: take_bit_eq_mask)
qed

context e4k_chip
begin

lemma if_gain_set_ok:
  assumes "e4k_ready up e" "\<forall>r \<in> {0x16, 0x17}. rw r = -1"
    and "stage \<in> {1..6}" "v \<in> set (if_stage_gain ! unat stage)"
  shows "result_of (e4k_if_gain_set io stage v) e = 0"
    and "e4k_ready up (state_of (e4k_if_gain_set io stage v) e)"
    and "\<forall>t \<in> {1..6}. e4k_stage_gain (e4k_view view (state_of (e4k_if_gain_set io stage v) e)) t =
      (if t = unat stage then v else e4k_stage_gain (e4k_view view e) t)"
proof -
  let ?f = "if_stage_gain_regs ! unat stage"
  obtain j where j: "find_stage_gain stage v = int j" "j < length (if_stage_gain ! unat stage)"
      "if_stage_gain ! unat stage ! j = v"
    using find_stage_gain_cases [of stage v] assms(3,4) by auto
  have s: "unat stage < 7" "unat stage \<noteq> 0" using assms(3) by (auto simp: word_le_nat_alt)
  have rw: "rw (fld_reg ?f) = -1"
    using stage_cases [OF s(1)] s(2) assms(2) by (elim disjE) (simp_all add: if_stage_gain_regs_def)
  note fits = stage_index_fits [OF s(1) j(2)]
  have push: "word_of_int (push_bit n (int j)) = push_bit n (of_nat j :: u8)" for n
    by (simp add: push_bit_eq_mult)
  note sm = set_mask_simps [OF assms(1), where r = "fld_reg ?f" and m = "fld_mask ?f" and v = "push_bit (fld_shift ?f) (of_nat j)"]
  have eq: "e4k_if_gain_set io stage v = e4k_reg_set_mask io (fld_reg ?f) (fld_mask ?f) (push_bit (fld_shift ?f) (of_nat j))"
    using j(1) by (simp add: e4k_if_gain_set_def Let_def push)
  show "result_of (e4k_if_gain_set io stage v) e = 0" "e4k_ready up (state_of (e4k_if_gain_set io stage v) e)"
    unfolding eq using sm by simp_all
  have "e4k_stage_gain (e4k_view view (state_of (e4k_if_gain_set io stage v) e)) t =
      (if t = unat stage then v else e4k_stage_gain (e4k_view view e) t)" if "t \<in> {1..6}" for t
  proof -
    have t: "t < 7" using that by simp
    have view: "e4k_view view (state_of (e4k_if_gain_set io stage v) e) =
        (e4k_view view e)(fld_reg ?f := masked (e4k_view view e (fld_reg ?f)) (fld_mask ?f) (push_bit (fld_shift ?f) (of_nat j)))"
      unfolding eq using sm(3) rw by simp
    have "unat (of_nat j :: u8) = j" using fits(2) by (simp add: unat_of_nat)
    then show ?thesis
      using fits(1) j(3) stage_fields_disjoint [OF s(1) t] stage_fields_wf [OF t] stage_fields_wf [OF s(1)]
      by (auto simp: e4k_stage_gain_def view fld_get_masked fld_get_other)
  qed
  then show "\<forall>t \<in> {1..6}. e4k_stage_gain (e4k_view view (state_of (e4k_if_gain_set io stage v) e)) t =
      (if t = unat stage then v else e4k_stage_gain (e4k_view view e) t)" by blast
qed

end

section \<open>The synthesiser\<close>

lemma e4k_pll_divider_range:
  "\<exists>tp idx r. e4k_pll_divider f = (tp, idx, r) \<and> 2 \<le> r \<and> r \<le> 48"
  by (auto simp: e4k_pll_divider_def pll_vars_def)

text \<open>The multiplier \<open>R\<close> the driver chooses for a frequency.\<close>

definition e4k_mult :: "int \<Rightarrow> int" where
  "e4k_mult f = snd (snd (e4k_pll_divider f))"

text \<open>A request the PLL arithmetic is meant for: a valid clock, an 8-bit integer part.\<close>

definition e4k_in_range :: "u32 \<Rightarrow> u32 \<Rightarrow> bool" where
  "e4k_in_range fosc flo \<longleftrightarrow>
     is_fosc_valid (uint fosc) \<and> 1000 \<le> uint flo \<and> uint flo * e4k_mult (uint flo) < 256 * uint fosc"

text \<open>The numbers behind the parameters, without wrap-around.\<close>

lemma fraction_bounds:
  fixes V F :: int
  assumes "0 < F" "0 \<le> V"
  defines "z \<equiv> V div F" and "x \<equiv> (V mod F) * 65536 div F"
  shows "0 \<le> z" "0 \<le> x" "x < 65536" "F * (65536 * z + x) \<le> 65536 * V" "65536 * V < F * (65536 * z + x) + F"
proof -
  have m: "0 \<le> V mod F" "V mod F < F" "V = F * z + V mod F"
    using assms(1) by (simp_all add: z_def)
  show "0 \<le> z" "0 \<le> x" "x < 65536"
    using assms m by (simp_all add: z_def x_def pos_imp_zdiv_nonneg_iff zdiv_less_iff)
  have "F * x \<le> V mod F * 65536" "V mod F * 65536 < F * x + F"
    using div_mult_mod_eq [of "V mod F * 65536" F] assms(1) pos_mod_bound [OF assms(1), of "V mod F * 65536"]
      pos_mod_sign [OF assms(1), of "V mod F * 65536"]
    unfolding x_def mult.commute [of F] by linarith+
  moreover have "F * (65536 * z + x) = 65536 * (F * z) + F * x" "65536 * V = 65536 * (F * z) + V mod F * 65536"
    using m(3) by (simp_all add: algebra_simps)
  ultimately show "F * (65536 * z + x) \<le> 65536 * V" "65536 * V < F * (65536 * z + x) + F"
    by linarith+
qed

lemma compute_flo_spec:
  fixes F z x r :: int
  assumes "16000000 \<le> F" "F \<le> 30000000" "0 \<le> z" "z < 256" "0 \<le> x" "x < 65536" "2 \<le> r" "r \<le> 48"
    and "2000 * 65536 \<le> F * (65536 * z + x) + F"
  defines "v \<equiv> F * z + F * x div 65536"
  shows "compute_flo F z x r = wrap32 (v div r)" "65536 * v \<le> F * (65536 * z + x)" "F * (65536 * z + x) < 65536 * v + 65536"
    "1000 < v"
proof -
  have fz: "0 \<le> F * z" "F * z \<le> 30000000 * 255" and fx: "0 \<le> F * x" "F * x \<le> 30000000 * 65535"
    using assms(1-6) mult_mono [of F 30000000 z 255] mult_mono [of F 30000000 x 65535] by simp_all
  then have "0 \<le> F * x div 65536" "F * x div 65536 \<le> 30000000"
    by (simp_all add: pos_imp_zdiv_nonneg_iff)
  then have fvco: "compute_fvco F z x = v"
    using fz fx assms by (simp add: compute_fvco_def wrap_ids(1,2) v_def wrap64_def)
  have eq: "F * (65536 * z + x) = 65536 * (F * z) + F * x" by (simp add: algebra_simps)
  show b: "65536 * v \<le> F * (65536 * z + x)" "F * (65536 * z + x) < 65536 * v + 65536"
    unfolding eq v_def using div_mult_mod_eq [of "F * x" 65536] pos_mod_bound [of 65536 "F * x"]
      pos_mod_sign [of 65536 "F * x"] by (simp_all add: distrib_left)
  show "1000 < v" using b assms(2,9) by linarith
  then show "compute_flo F z x r = wrap32 (v div r)"
    by (simp add: compute_flo_def fvco)
qed


lemma compute_pll_spec:
  assumes ok: "e4k_in_range fosc flo"
    and p: "e4k_compute_pll_params p0 fosc flo = (rc, p)"
  defines "F \<equiv> uint fosc" and "L \<equiv> uint flo" and "r \<equiv> e4k_mult (uint flo)"
  shows "pll_fosc p = fosc \<and> pll_intended_flo p = flo \<and> pll_flo p = rc \<and> rc \<noteq> 0
    \<and> uint (pll_r p) = r \<and> pll_r_idx p = fst (snd (e4k_pll_divider L))"
    and "F * (65536 * uint (pll_z p) + uint (pll_x p)) \<le> 65536 * (L * r)"
    and "65536 * (L * r) < F * (65536 * uint (pll_z p) + uint (pll_x p)) + F"
    and "r * uint (pll_flo p) \<le> L * r"
    and "65536 * (L * r - r * uint (pll_flo p)) < F + 65536 * r"
proof -
  obtain tp idx where div: "e4k_pll_divider L = (tp, idx, r)" and r: "2 \<le> r" "r \<le> 48"
    using e4k_pll_divider_range [of L] by (auto simp: r_def L_def e4k_mult_def)
  have F: "16000000 \<le> F" "F \<le> 30000000" "0 < F"
    using ok by (simp_all add: e4k_in_range_def is_fosc_valid_def F_def)
  have L: "1000 \<le> L" "L < 4294967296" "L * r < 256 * F" "0 \<le> L * r"
    using ok r by (simp_all add: e4k_in_range_def F_def L_def r_def)
  define z x where "z = L * r div F" and "x = (L * r mod F) * 65536 div F"
  note fr = fraction_bounds [OF F(3) L(4), folded z_def x_def]
  have "z < 256" using L(3) F(3) by (simp add: z_def zdiv_less_iff)
  have m: "0 \<le> L * r mod F" "L * r mod F < F" "L * r - F * z = L * r mod F" "0 \<le> F * z" "F * z \<le> L * r"
    using F(3) fr(1) mult_div_mod_eq [of F "L * r"] pos_mod_sign [OF F(3), of "L * r"] pos_mod_bound [OF F(3), of "L * r"]
    unfolding z_def by (simp, simp, linarith, simp, linarith)
  have w: "wrap64 (L * r) = L * r" "wrap64 (F * z) = F * z" "wrap64 (L * r mod F) = L * r mod F"
    "wrap64 (L * r mod F * 65536) = L * r mod F * 65536" "wrap32 x = x"
    using m F(2) L(3,4) fr(2,3) by (intro wrap_ids; simp)+
  have "2000 \<le> L * r" using L(1) r(1) mult_mono [of 1000 L 2 r] by simp
  then have big: "2000 * 65536 \<le> F * (65536 * z + x) + F"
    using fr(5) by linarith
  note flo = compute_flo_spec [OF F(1,2) fr(1) \<open>z < 256\<close> fr(2,3) r big]
  define v where "v = F * z + F * x div 65536"
  have v: "v \<le> L * r" "1000 < v" "65536 * (L * r) < 65536 * v + 65536 + F"
    using flo(2-4) [folded v_def] fr(4,5) by linarith+
  define q where "q = v div r"
  have q: "r * q \<le> v" "v < r * q + r" "0 < q" "q \<le> L" "q < 4294967296"
  proof -
    show b: "r * q \<le> v" "v < r * q + r"
      using r(1) div_mult_mod_eq [of v r] pos_mod_sign [of r v] pos_mod_bound [of r v]
      unfolding q_def mult.commute [of r] by linarith+
    show "0 < q" using r v(2) by (simp add: q_def pos_imp_zdiv_pos_iff)
    have "r * q \<le> r * L" using b(1) v(1) by (simp add: mult.commute)
    then show "q \<le> L" using r(1) by simp
    then show "q < 4294967296" using L(2) by linarith
  qed
  have p_eq: "p = p0\<lparr>pll_fosc := fosc, pll_flo := word_of_int q, pll_intended_flo := flo,
      pll_r := word_of_int r, pll_r_idx := idx, pll_threephase := tp,
      pll_x := word_of_int x, pll_z := word_of_int z\<rparr>" "rc = word_of_int q"
    using p ok wrap_ids(3) [OF less_imp_le [OF q(3)] q(5)] div flo(1) w m(3)
    unfolding e4k_compute_pll_params_def e4k_in_range_def
    by (auto simp: Let_def simp flip: F_def L_def x_def z_def v_def q_def)
  have u: "uint (pll_z p) = z" "uint (pll_x p) = x" "uint (pll_flo p) = q" "uint (pll_r p) = r"
    using fr \<open>z < 256\<close> q r by (simp_all add: p_eq uint_word_of_int)
  have "rc \<noteq> 0" using u(3) q(3) by (auto simp: p_eq)
  then show "pll_fosc p = fosc \<and> pll_intended_flo p = flo \<and> pll_flo p = rc \<and> rc \<noteq> 0
    \<and> uint (pll_r p) = r \<and> pll_r_idx p = fst (snd (e4k_pll_divider L))"
    using u(4) by (simp add: p_eq div)
  show "F * (65536 * uint (pll_z p) + uint (pll_x p)) \<le> 65536 * (L * r)"
    "65536 * (L * r) < F * (65536 * uint (pll_z p) + uint (pll_x p)) + F"
    unfolding u by (fact fr)+
  have "v + 1 \<le> r * q + r" using q(2) by linarith
  then show "r * uint (pll_flo p) \<le> L * r" "65536 * (L * r - r * uint (pll_flo p)) < F + 65536 * r"
    unfolding u right_diff_distrib using q(1) v(1,3) by linarith+
qed

subsection \<open>Tuning\<close>

context e4k_chip
begin

lemma band_set_simps:
  fixes band :: e4k_band
  assumes "e4k_ready up e" "0x06 AND rw 0x07 = 0x06"
  defines "e' \<equiv> state_of (e4k_band_set io band) e"
  shows "e4k_ready up e'" "e4k_cur_band e' = band" "e4k_vco e' = e4k_vco e"
    and "e4k_view view e' = (e4k_view view e)(0x78 := (if band = E4K_BAND_L then 0 else 3) AND rw 0x78,
      0x07 := masked (e4k_view view e 0x07) 0x06 (push_bit 1 (e4k_band_code band)))"
proof -
  have m: "masked (masked old 0x06 0) 0x06 v = masked old 0x06 v" for old v
    by (auto simp: masked_def bit_eq_iff bit_simps)
  show "e4k_ready up e'" "e4k_cur_band e' = band" "e4k_vco e' = e4k_vco e"
    using assms(1,2) by (simp_all add: e'_def e4k_band_set_def reg_write_simps set_mask_simps keeps_fields)
  show "e4k_view view e' = (e4k_view view e)(0x78 := (if band = E4K_BAND_L then 0 else 3) AND rw 0x78,
      0x07 := masked (e4k_view view e 0x07) 0x06 (push_bit 1 (e4k_band_code band)))"
    using assms(1,2) by (simp add: e'_def e4k_band_set_def reg_write_simps set_mask_simps m)
qed

lemma tune_params_regs:
  fixes p :: e4k_pll_params
  assumes "e4k_ready up e" "0x06 AND rw 0x07 = 0x06" "0xF AND rw 0x10 = 0xF"
    and "\<forall>r \<in> {0x09, 0x0a, 0x0b, 0x0d}. rw r = -1"
  defines "e' \<equiv> state_of (e4k_tune_params io p) e" and "band \<equiv> e4k_flo_band (uint (pll_flo p))"
  shows "e4k_ready up e'" "e4k_cur_band e' = band" "e4k_vco e' = p"
    and "e4k_view view e' 0x0d = pll_r_idx p" "e4k_view view e' 0x09 = pll_z p"
      "e4k_view view e' 0x0a = ucast (pll_x p)" "e4k_view view e' 0x0b = ucast (drop_bit 8 (pll_x p))"
    and "e4k_view view e' 0x07 AND 0x06 = push_bit 1 (e4k_band_code band)"
    and "e4k_view view e' 0x10 AND 0xF = of_nat (choose_rf_filter band (pll_flo p)) AND 0xF"
proof -
  define e1 where "e1 = state_of (e4k_reg_write io 0x0b (ucast (drop_bit 8 (pll_x p))))
    (state_of (e4k_reg_write io 0x0a (ucast (pll_x p AND 0xff)))
      (state_of (e4k_reg_write io 0x09 (pll_z p)) (state_of (e4k_reg_write io 0x0d (pll_r_idx p)) e)))"
  define e2 where "e2 = state_of (e4k_band_set io band) (e1\<lparr>e4k_vco := p\<rparr>)"
  have u: "ucast (pll_x p AND 0xff) = (ucast (pll_x p) :: u8)"
    by (rule bit_word_eqI) (auto simp: bit_simps bit_255 simp flip: bit_of_int_iff)
  have e1: "e4k_ready up e1" "e4k_view view e1 = (e4k_view view e)(0x0d := pll_r_idx p, 0x09 := pll_z p,
      0x0a := ucast (pll_x p), 0x0b := ucast (drop_bit 8 (pll_x p)))"
    using assms(1,4) by (simp_all add: e1_def reg_write_simps u)
  note bs = band_set_simps [of "e1\<lparr>e4k_vco := p\<rparr>" band, folded e2_def]
  have e2: "e4k_ready up e2" "e4k_cur_band e2 = band" "e4k_vco e2 = p"
    using bs(1-3) e1 assms(2) by simp_all
  have e': "e' = state_of (e4k_rf_filter_set io) e2"
    by (simp add: e'_def e4k_tune_params_def e1_def e2_def band_def)
  show "e4k_ready up e'" "e4k_cur_band e' = band" "e4k_vco e' = p"
    using e2 by (simp_all add: e' e4k_rf_filter_set_def set_mask_simps keeps_fields)
  have view: "e4k_view view e' = (e4k_view view e2)(0x10 :=
      masked (e4k_view view e2 0x10) 0xF (of_nat (choose_rf_filter band (pll_flo p))))"
    using e2 assms(3) by (simp add: e' e4k_rf_filter_set_def set_mask_simps)
  show "e4k_view view e' 0x0d = pll_r_idx p" "e4k_view view e' 0x09 = pll_z p"
      "e4k_view view e' 0x0a = ucast (pll_x p)" "e4k_view view e' 0x0b = ucast (drop_bit 8 (pll_x p))"
    using bs(4) e1 assms(2) by (simp_all add: view)
  have "push_bit 1 (e4k_band_code band) AND 0x06 = push_bit 1 (e4k_band_code band)"
    by (cases band) simp_all
  then show "e4k_view view e' 0x07 AND 0x06 = push_bit 1 (e4k_band_code band)"
    using bs(4) e1 assms(2) by (simp add: view masked_simps(1))
  show "e4k_view view e' 0x10 AND 0xF = of_nat (choose_rf_filter band (pll_flo p)) AND 0xF"
    by (simp add: view masked_simps(1))
qed

end

subsection \<open>Initialisation\<close>

text \<open>A list of masked register updates.\<close>

definition reg_updates :: "(u8 \<times> u8 \<times> u8) list \<Rightarrow> (u8 \<Rightarrow> u8) \<Rightarrow> u8 \<Rightarrow> u8" where
  "reg_updates ops f = fold (\<lambda>(r, m, v) f. f(r := masked (f r) m v)) ops f"

lemma reg_updates_append: "reg_updates (xs @ ys) = reg_updates ys \<circ> reg_updates xs"
  by (simp add: fun_eq_iff reg_updates_def)

lemma masked_all: "masked old 0xff v = v"
proof -
  have "(0xff :: u8) = -1" by simp
  then show ?thesis by (simp only: masked_def) simp
qed

text \<open>The updates of \<open>e4k_init\<close>, in order.\<close>

definition e4k_init_updates :: "(u8 \<times> u8 \<times> u8) list" where
  "e4k_init_updates =
     [(0x00, 0xff, 0x07), (0x05, 0xff, 0x00), (0x06, 0xff, 0x00), (0x7a, 0xff, 0x96),
      (0x7e, 0xff, 0x01), (0x7f, 0xff, 0xfe), (0x82, 0xff, 0x00), (0x86, 0xff, 0x50), (0x87, 0xff, 0x20),
      (0x88, 0xff, 0x01), (0x9f, 0xff, 0x7f), (0xa0, 0xff, 0x07),
      (0x1d, 0xff, 0x10), (0x1e, 0xff, 0x04), (0x1f, 0xff, 0x1a), (0x1a, 0x0f, 0x00), (0x20, 0x01, 0x00),
      (0x1a, 0x0f, 0x09), (0x20, 0x01, 0x01), (0x24, 0x07, 0x00),
      (0x16, 0x01, 0x01), (0x16, 0x06, 0x00), (0x16, 0x18, 0x00), (0x16, 0x60, 0x00),
      (0x17, 0x07, 0x02), (0x17, 0x38, 0x10),
      (0x11, 0xf0, 0xf0), (0x11, 0x0f, 0x0f), (0x12, 0x1f, 0x1f), (0x12, 0x20, 0x00),
      (0x2d, 0x03, 0x00), (0x70, 0x03, 0x00), (0x71, 0x03, 0x00)]"

lemma e4k_init_calls:
  "e4k_if_gain_set io 1 6 = e4k_reg_set_mask io 0x16 0x01 0x01"
  "e4k_if_gain_set io 2 0 = e4k_reg_set_mask io 0x16 0x06 0x00"
  "e4k_if_gain_set io 3 0 = e4k_reg_set_mask io 0x16 0x18 0x00"
  "e4k_if_gain_set io 4 0 = e4k_reg_set_mask io 0x16 0x60 0x00"
  "e4k_if_gain_set io 5 9 = e4k_reg_set_mask io 0x17 0x07 0x02"
  "e4k_if_gain_set io 6 9 = e4k_reg_set_mask io 0x17 0x38 0x10"
  by (simp_all add: e4k_if_gain_set_def find_stage_gain_def if_stage_gain_def if_stage_gain_regs_def Let_def
      fld_mask_def width2mask_def)

lemma e4k_auto_gain:
  "e4k_enable_manual_gain io 0 = do {
     _ \<leftarrow> e4k_reg_set_mask io 0x1a 0xF 0x9;
     _ \<leftarrow> e4k_reg_set_mask io 0x20 0x1 1;
     _ \<leftarrow> e4k_reg_set_mask io 0x24 0x7 0;
     ret 0 }"
  by (simp add: e4k_enable_manual_gain_def)

lemma e4k_init_filters:
  "find_if_bw E4K_IF_FILTER_MIX 1900000 = 15"
  "find_if_bw E4K_IF_FILTER_RC 1000000 = 15"
  "find_if_bw E4K_IF_FILTER_CHAN 2150000 = 31"
  by (simp_all add: find_if_bw_def closest_arr_idx_def mix_filter_bw_def ifrc_filter_bw_def ifch_filter_bw_def
      unsigned_delta_def)

context e4k_chip
begin

lemma effect_updates_bind:
  "effect ok vw m (reg_updates xs) \<Longrightarrow> (\<And>r. effect ok vw (n r) (reg_updates ys)) \<Longrightarrow>
     effect ok vw (State_Monad.bind m n) (reg_updates (xs @ ys))"
  unfolding reg_updates_append by (rule effect_bind)

lemma effect_updates_ret: "effect ok vw (ret x) (reg_updates [])"
  using effect_ret by (simp add: effect_def reg_updates_def)

lemma effect_updates_for_each:
  "(\<And>x. effect ok vw (h x) (reg_updates (g x))) \<Longrightarrow> effect ok vw (for_each h xs) (reg_updates (concat (map g xs)))"
proof (induction xs)
  case (Cons x xs)
  then show ?case by (simp add: effect_updates_bind)
qed (simp add: effect_updates_ret)

lemma init_effect:
  assumes rw: "\<And>r. r \<noteq> 0x07 \<Longrightarrow> rw r = -1"
  shows "effect (e4k_ready up) (e4k_view view) (e4k_init io) (reg_updates e4k_init_updates)"
proof -
  let ?eff = "effect (e4k_ready up) (e4k_view view)"
  have w: "?eff (e4k_reg_write io r v) (reg_updates [(r, 0xff, v)])" if "r \<noteq> 0x07" for r v
    using rw [OF that] by (simp add: effect_def reg_write_simps reg_updates_def masked_all)
  have m: "?eff (e4k_reg_set_mask io r k v) (reg_updates [(r, k, v)])" if "r \<noteq> 0x07" for r k v
    using rw [OF that] by (simp add: effect_def set_mask_simps reg_updates_def)
  have rd: "?eff (e4k_reg_read io r) (reg_updates [])" for r
    by (simp add: effect_def reg_read_simps reg_updates_def)
  have f: "?eff (e4k_if_filter_bw_set io g bw) (reg_updates [(fld_reg (if_filter_fields g), fld_mask (if_filter_fields g),
      push_bit (fld_shift (if_filter_fields g)) (of_nat (find_if_bw g bw)))])" for g bw
    using rw [of "fld_reg (if_filter_fields g)"]
    by (cases g) (simp_all add: effect_def e4k_if_filter_bw_set_def field_write_simps reg_updates_def)
  note steps = effect_updates_bind effect_updates_ret w m rd f
  define magic :: "(u8 \<times> u8 \<times> u8) list" where
    "magic = [(0x7e, 0xff, 0x01)] @ [(0x7f, 0xff, 0xfe)] @ [(0x82, 0xff, 0x00)] @ [(0x86, 0xff, 0x50)] @
      [(0x87, 0xff, 0x20)] @ [(0x88, 0xff, 0x01)] @ [(0x9f, 0xff, 0x7f)] @ [(0xa0, 0xff, 0x07)] @ []"
  have "?eff (magic_init io) (reg_updates (magic @ []))"
    unfolding magic_init_def magic_def for_each.simps prod.case by (intro steps) simp_all
  moreover define gain :: "(u8 \<times> u8 \<times> u8) list" where
    "gain = [(0x1a, 0x0f, 0x09)] @ [(0x20, 0x01, 0x01)] @ [(0x24, 0x07, 0x00)] @ []"
  moreover have "?eff (e4k_enable_manual_gain io 0) (reg_updates gain)"
    unfolding e4k_auto_gain gain_def by (intro steps) simp_all
  moreover have chan: "?eff (e4k_if_filter_chan_enable io 1) (reg_updates [(0x12, 0x20, 0x00)])"
    using m [of "0x12" "0x20" 0] by (simp add: e4k_if_filter_chan_enable_def)
  ultimately have "?eff (e4k_init io) (reg_updates ([] @ [(0x00, 0xff, 0x01 OR 0x02 OR 0x04)] @ [(0x05, 0xff, 0x00)] @
      [(0x06, 0xff, 0x00)] @ [(0x7a, 0xff, 0x96)] @ (magic @ []) @
      [(0x1d, 0xff, 0x10)] @ [(0x1e, 0xff, 0x04)] @ [(0x1f, 0xff, 0x1a)] @ [(0x1a, 0x0f, 0x00)] @ [(0x20, 0x01, 0x00)] @ gain @
      [(0x16, 0x01, 0x01)] @ [(0x16, 0x06, 0x00)] @ [(0x16, 0x18, 0x00)] @ [(0x16, 0x60, 0x00)] @ [(0x17, 0x07, 0x02)] @
      [(0x17, 0x38, 0x10)] @
      [(fld_reg (if_filter_fields E4K_IF_FILTER_MIX), fld_mask (if_filter_fields E4K_IF_FILTER_MIX),
        push_bit (fld_shift (if_filter_fields E4K_IF_FILTER_MIX)) (of_nat (find_if_bw E4K_IF_FILTER_MIX 1900000)))] @
      [(fld_reg (if_filter_fields E4K_IF_FILTER_RC), fld_mask (if_filter_fields E4K_IF_FILTER_RC),
        push_bit (fld_shift (if_filter_fields E4K_IF_FILTER_RC)) (of_nat (find_if_bw E4K_IF_FILTER_RC 1000000)))] @
      [(fld_reg (if_filter_fields E4K_IF_FILTER_CHAN), fld_mask (if_filter_fields E4K_IF_FILTER_CHAN),
        push_bit (fld_shift (if_filter_fields E4K_IF_FILTER_CHAN)) (of_nat (find_if_bw E4K_IF_FILTER_CHAN 2150000)))] @
      [(0x12, 0x20, 0x00)] @ [(0x2d, 0x03, 0x00)] @ [(0x70, 0x03, 0x00)] @ [(0x71, 0x03, 0x00)] @ []))"
    unfolding e4k_init_def e4k_init_calls by (intro steps) simp_all
  then show ?thesis
    by (simp add: e4k_init_updates_def magic_def gain_def e4k_init_filters fld_mask_def width2mask_def)
qed

end

section \<open>Properties\<close>

text \<open>
  C5.  Tuning: for a request in range, on a chip that answers, the last transfer of the call reads
  register SYNTH1, when everything is programmed, and the call returns 0 if the lock bit (bit 0) of the byte it gets is set
  and -1 if it is not; in both cases the integer and fraction registers stand for the requested VCO frequency
  rounded down to the next multiple of the clock divided by 65536, register SYNTH7 holds the code of
  the multiplier, the frequency kept in the state is within two steps below the request, and the
  band and the RF filter follow that frequency.
\<close>

theorem e4k_tune_freq_accuracy:
  assumes chip: "e4k_chip io up rw view" and ready: "e4k_ready up e"
    and rw: "\<forall>r \<in> {0x09, 0x0a, 0x0b, 0x0d}. rw r = -1" "0x06 AND rw 0x07 = 0x06" "0xF AND rw 0x10 = 0xF"
    and range: "e4k_in_range (pll_fosc (e4k_vco e)) freq"
    and run: "run_state (e4k_tune_freq io p0 freq) e = (res, e')"
  shows "(\<exists>e1 b :: u8. run_state (e4k_reg_read io 0x07) e1 = (uint b, e') \<and> e4k_view view e1 = e4k_view view e'
        \<and> e4k_ready up e1 \<and> res = (if bit b 0 then 0 else -1))
    \<and> e4k_ready up e'
    \<and> (let F = uint (pll_fosc (e4k_vco e)); r = e4k_mult (uint freq); v = e4k_view view e';
           n = 65536 * uint (v 0x09) + 256 * uint (v 0x0b) + uint (v 0x0a); p = e4k_vco e';
           band = e4k_flo_band (uint (pll_flo p))
       in F * n \<le> 65536 * (uint freq * r) \<and> 65536 * (uint freq * r) < F * n + F
        \<and> v 0x0d = fst (snd (e4k_pll_divider (uint freq)))
        \<and> r * uint (pll_flo p) \<le> uint freq * r \<and> 65536 * (uint freq * r - r * uint (pll_flo p)) < F + 65536 * r
        \<and> e4k_cur_band e' = band \<and> v 0x07 AND 0x06 = push_bit 1 (e4k_band_code band)
        \<and> v 0x10 AND 0xF = of_nat (choose_rf_filter band (pll_flo p)) AND 0xF)"
proof -
  obtain rc p where p: "e4k_compute_pll_params p0 (pll_fosc (e4k_vco e)) freq = (rc, p)" by fastforce
  note spec = compute_pll_spec [OF range p]
  define e1 where "e1 = state_of (e4k_tune_params io p) e"
  note regs = e4k_chip.tune_params_regs [OF chip ready rw(2,3,1), of p, folded e1_def]
  obtain b :: u8 where b: "result_of (e4k_reg_read io 0x07) e1 = uint b"
    using e4k_chip.reg_read_byte [OF chip regs(1)] by blast
  have e': "e' = state_of (e4k_reg_read io 0x07) e1" and res: "res = (if uint b AND 1 = 0 then -1 else 0)"
    using run spec(1) b by (auto simp: e4k_tune_freq_def p e1_def split: if_splits)
  have "bit (uint b) 0 \<longleftrightarrow> bit b 0" by (simp only: bit_unsigned_iff) simp
  then have word_even_uint: "even b \<longleftrightarrow> uint b mod 2 = 0" by (auto simp: bit_0 even_iff_mod_2_eq_zero [symmetric])
  then have lock: "run_state (e4k_reg_read io 0x07) e1 = (uint b, e')" "res = (if bit b 0 then 0 else -1)"
    using b e' res by (simp_all add: prod_eq_iff and_one_eq bit_0 word_even_uint)
  have keep: "e4k_ready up e'" "e4k_view view e' = e4k_view view e1" "e4k_vco e' = p" "e4k_cur_band e' = e4k_cur_band e1"
    using regs(1,3) by (simp_all add: e' e4k_chip.reg_read_simps [OF chip] e4k_chip.keeps_fields [OF chip])
  have n: "65536 * uint (pll_z p) + 256 * uint (ucast (drop_bit 8 (pll_x p)) :: u8) + uint (ucast (pll_x p) :: u8) =
      65536 * uint (pll_z p) + uint (pll_x p)"
    using u16_bytes [of "pll_x p"] by simp
  show ?thesis
    using lock keep regs spec by (simp add: Let_def n) blast
qed

theorem e4k_tune_freq_accuracy_witness:
  "\<exists>e. e4k_ready (\<lambda>_. True) e \<and> pll_fosc (e4k_vco e) = 28800000
    \<and> result_of (e4k_tune_freq sim_io (e4k_vco e) 100000000) e \<in> {0, -1}"
proof -
  define p where "p = \<lparr>pll_fosc = 28800000, pll_intended_flo = 0, pll_flo = 0, pll_x = 0, pll_z = 0, pll_r = 0,
    pll_r_idx = 0, pll_threephase = 0\<rparr>"
  define e where "e = \<lparr>e4k_i2c_addr = E4K_I2C_ADDR, e4k_cur_band = E4K_BAND_VHF2, e4k_vco = p, e4k_rtl_dev = sim0\<rparr>"
  have e: "e4k_ready (\<lambda>_. True) e" "pll_fosc (e4k_vco e) = 28800000" "e4k_in_range (pll_fosc (e4k_vco e)) 100000000"
    by (simp_all add: e4k_ready_def e_def p_def e4k_in_range_def is_fosc_valid_def e4k_mult_def
        e4k_pll_divider_def pll_vars_def)
  obtain res e' where run: "run_state (e4k_tune_freq sim_io (e4k_vco e) 100000000) e = (res, e')" by fastforce
  have "res \<in> {0, -1}"
    using e4k_tune_freq_accuracy [OF sime4k.e4k_chip_axioms e(1) _ _ _ e(3) run] by (auto split: if_splits)
  then show ?thesis using e run by (intro exI [of _ e]) simp
qed

text \<open>
  Tuning on a dead bus reports success: when every transfer fails, the read of the lock bit
  yields \<open>-1\<close>, whose lowest bit is set, and the call returns 0.
\<close>

theorem e4k_tune_freq_dead_bus:
  assumes dead: "\<And>a bs d. result_of (i2c_write io a bs) d < 1"
    and range: "e4k_in_range (pll_fosc (e4k_vco e)) freq"
  shows "result_of (e4k_tune_freq io p0 freq) e = 0"
proof -
  obtain rc p where p: "e4k_compute_pll_params p0 (pll_fosc (e4k_vco e)) freq = (rc, p)" by fastforce
  have "result_of (e4k_reg_read io r) s = -1" for r s
    using dead by (simp add: e4k_reg_read_def)
  then show ?thesis
    using compute_pll_spec(1) [OF range p] by (simp add: e4k_tune_freq_def p)
qed

theorem e4k_tune_freq_dead_bus_witness:
  "\<exists>io e. result_of (e4k_tune_freq (io :: unit i2c_ops) (e4k_vco e) 100000000) e = 0"
proof -
  define p where "p = \<lparr>pll_fosc = 28800000, pll_intended_flo = 0, pll_flo = 0, pll_x = 0, pll_z = 0, pll_r = 0,
    pll_r_idx = 0, pll_threephase = 0\<rparr>"
  define e where "e = \<lparr>e4k_i2c_addr = E4K_I2C_ADDR, e4k_cur_band = E4K_BAND_VHF2, e4k_vco = p, e4k_rtl_dev = ()\<rparr>"
  define io :: "unit i2c_ops" where
    "io = \<lparr>i2c_write = (\<lambda>_ _. ret (-1)), i2c_read = (\<lambda>_ bs. ret (-1, bs)), tuner_clock = (\<lambda>_. 28800000)\<rparr>"
  have "e4k_in_range (pll_fosc (e4k_vco e)) 100000000"
    by (simp add: e_def p_def e4k_in_range_def is_fosc_valid_def e4k_mult_def e4k_pll_divider_def pll_vars_def)
  then have "result_of (e4k_tune_freq io (e4k_vco e) 100000000) e = 0"
    by (intro e4k_tune_freq_dead_bus) (simp_all add: io_def)
  then show ?thesis by blast
qed

text \<open>
  A request for 0 Hz is not refused: the error value of \<open>compute_flo\<close> is \<open>-EINVAL\<close>, not the 0
  that \<open>e4k_tune_freq\<close> tests for, and is taken as a frequency of 4294967274 Hz in the L band.
\<close>

theorem e4k_compute_pll_zero:
  assumes "is_fosc_valid (uint fosc)" "e4k_compute_pll_params p0 fosc 0 = (rc, p)"
  shows "rc \<noteq> 0 \<and> uint rc = 4294967274 \<and> pll_flo p = rc \<and> pll_z p = 0 \<and> pll_x p = 0
    \<and> e4k_flo_band (uint (pll_flo p)) = E4K_BAND_L"
proof -
  have "compute_flo (uint fosc) 0 0 48 = 4294967274"
    by (simp add: compute_flo_def compute_fvco_def wrap8_def wrap16_def wrap32_def wrap64_def E4K_EINVAL_def)
  moreover have "e4k_pll_divider 0 = (1, 0x0f, 48)"
    by (simp add: e4k_pll_divider_def pll_vars_def)
  moreover have "wrap64 0 = 0" "wrap32 0 = 0"
    by (simp_all add: wrap64_def wrap32_def)
  ultimately have "rc = word_of_int 4294967274" "pll_flo p = rc" "pll_z p = 0" "pll_x p = 0"
    using assms by (auto simp: e4k_compute_pll_params_def Let_def)
  then show ?thesis by (simp add: e4k_flo_band_def)
qed

theorem e4k_compute_pll_zero_witness:
  "fst (e4k_compute_pll_params (undefined :: e4k_pll_params) 28800000 0) \<noteq> 0"
proof -
  obtain rc p where p: "e4k_compute_pll_params undefined 28800000 0 = (rc, p)" by fastforce
  show ?thesis
    using e4k_compute_pll_zero [OF _ p] p by (simp add: is_fosc_valid_def)
qed

text \<open>
  C40.  IF filter bandwidths read back: after setting a filter, reading it returns an entry of its
  table that is as close to the requested bandwidth as any, and the other filters read as before.
\<close>

theorem e4k_filter_roundtrip:
  assumes chip: "e4k_chip io up rw view" and ready: "e4k_ready up e"
    and rw: "\<forall>r \<in> {0x11, 0x12}. rw r = -1"
    and run: "run_state (e4k_if_filter_bw_set io f bw) e = (res, e')"
    and bws: "\<And>g e. got g e = result_of (e4k_if_filter_bw_get io g) e"
  shows "res = 0 \<and> got f e' \<in> uint ` set (if_filter_bw f)
    \<and> (\<forall>b \<in> set (if_filter_bw f). \<bar>uint bw - got f e'\<bar> \<le> \<bar>uint bw - uint b\<bar>)
    \<and> (\<forall>g. g \<noteq> f \<longrightarrow> got g e' = got g e)"
proof -
  have e': "e' = state_of (e4k_if_filter_bw_set io f bw) e" and res: "res = 0" "e4k_ready up e'"
    using run e4k_chip.filter_set(1,2) [OF chip ready rw, where f = f and bw = bw] by auto
  let ?i = "find_if_bw f bw"
  have i: "?i < length (if_filter_bw f)" "unat (of_nat ?i :: u8) = ?i"
    using filter_index_fits(2) [where f = f and bw = bw] filter_index_fits(3) [where f = f] by (simp_all add: unat_of_nat)
  have sel: "got g e' = (if g = f then uint (if_filter_bw f ! ?i) else got g e)" for g
    using e4k_chip.filter_get [OF chip res(2) rw, where f = g] e4k_chip.filter_get [OF chip ready rw, where f = g]
      e4k_chip.filter_set(3) [OF chip ready rw, where g = g and f = f and bw = bw] i(2)
    by (simp add: bws e')
  have ne: "if_filter_bw f \<noteq> []" using i(1) by auto
  have "\<bar>uint bw - uint (if_filter_bw f ! ?i)\<bar> \<le> \<bar>uint bw - uint b\<bar>" if "b \<in> set (if_filter_bw f)" for b
    using closest_arr_idx_argmin(2) [OF ne, of bw] that
    by (simp add: find_if_bw_def word_le_def flip: uint_unsigned_delta)
  then show ?thesis
    using res(1) sel i(1) by auto
qed

theorem e4k_filter_roundtrip_witness:
  "\<exists>e e'. run_state (e4k_if_filter_bw_set sim_io E4K_IF_FILTER_CHAN 2420000) e = (0, e')
    \<and> \<bar>2420000 - result_of (e4k_if_filter_bw_get sim_io E4K_IF_FILTER_CHAN) e'\<bar> \<le> 20000"
proof -
  define e where "e = (undefined :: sim_chip e4k_state)\<lparr>e4k_i2c_addr := E4K_I2C_ADDR\<rparr>"
  have e: "e4k_ready (\<lambda>_. True) e" by (simp add: e4k_ready_def e_def)
  obtain res e' where run: "run_state (e4k_if_filter_bw_set sim_io E4K_IF_FILTER_CHAN 2420000) e = (res, e')" by fastforce
  have "res = 0" "\<forall>b \<in> set (if_filter_bw E4K_IF_FILTER_CHAN).
      \<bar>uint (2420000 :: u32) - result_of (e4k_if_filter_bw_get sim_io E4K_IF_FILTER_CHAN) e'\<bar> \<le> \<bar>uint (2420000 :: u32) - uint b\<bar>"
    using e4k_filter_roundtrip [OF sime4k.e4k_chip_axioms e _ run refl] by auto
  then show ?thesis
    using run by (intro exI [of _ e] exI [of _ e']) (simp add: ifch_filter_bw_def)
qed

text \<open>
  IF gain stages: for stages 1 to 6 and a gain in the table of the stage the call succeeds, the
  stage is programmed to that gain and every other stage keeps its own; any other stage or gain is
  refused with \<open>-EINVAL\<close> and nothing is written.
\<close>

theorem e4k_if_gain_set_correct:
  assumes chip: "e4k_chip io up rw view" and ready: "e4k_ready up e"
    and rw: "\<forall>r \<in> {0x16, 0x17}. rw r = -1"
    and run: "run_state (e4k_if_gain_set io stage v) e = (res, e')"
  shows "if stage \<in> {1..6} \<and> v \<in> set (if_stage_gain ! unat stage)
    then res = 0 \<and> (\<forall>t \<in> {1..6}. e4k_stage_gain (e4k_view view e') t =
      (if t = unat stage then v else e4k_stage_gain (e4k_view view e) t))
    else res = - 22 \<and> e' = e"
proof (cases "stage \<in> {1..6} \<and> v \<in> set (if_stage_gain ! unat stage)")
  case True
  then show ?thesis
    using e4k_chip.if_gain_set_ok [OF chip ready rw, of stage v] run by simp
next
  case False
  then have "find_stage_gain stage v = - E4K_EINVAL"
    using find_stage_gain_cases [of stage v] by (simp only: if_False)
  with False run show ?thesis
    by (auto simp: e4k_if_gain_set_def E4K_EINVAL_def)
qed

theorem e4k_if_gain_set_correct_witness:
  "\<exists>e e'. run_state (e4k_if_gain_set sim_io 4 2) e = (0, e')
    \<and> e4k_stage_gain (e4k_view sim_regs e') 4 = 2
    \<and> e4k_stage_gain (e4k_view sim_regs e') 5 = e4k_stage_gain (e4k_view sim_regs e) 5"
proof -
  define e where "e = (undefined :: sim_chip e4k_state)\<lparr>e4k_i2c_addr := E4K_I2C_ADDR\<rparr>"
  have e: "e4k_ready (\<lambda>_. True) e" by (simp add: e4k_ready_def e_def)
  obtain res e' where run: "run_state (e4k_if_gain_set sim_io 4 2) e = (res, e')" by fastforce
  show ?thesis
    using e4k_if_gain_set_correct [OF sime4k.e4k_chip_axioms e _ run] run
    by (intro exI [of _ e] exI [of _ e']) (simp add: if_stage_gain_def)
qed

text \<open>
  Initialisation: on a chip whose registers other than SYNTH1 are plain, \<open>e4k_init\<close> returns 0 and
  leaves the LNA and the mixer in automatic gain, the IF stages at 6, 0, 0, 0, 9 and 9 dB, every IF
  filter at its narrowest bandwidth with the channel filter enabled, and SYNTH1 untouched.
\<close>

theorem e4k_init_state:
  assumes chip: "e4k_chip io up rw view" and ready: "e4k_ready up e"
    and rw: "\<And>r. r \<noteq> 0x07 \<Longrightarrow> rw r = -1"
    and run: "run_state (e4k_init io) e = (res, e')"
  shows "res = 0 \<and> e4k_ready up e'
    \<and> map (e4k_stage_gain (e4k_view view e')) [1, 2, 3, 4, 5, 6] = [6, 0, 0, 0, 9, 9]
    \<and> (\<forall>f. if_filter_bw f ! unat (fld_get (if_filter_fields f) (e4k_view view e' (fld_reg (if_filter_fields f)))) =
          Min (set (if_filter_bw f)))
    \<and> e4k_view view e' 0x12 AND 0x20 = 0
    \<and> e4k_view view e' 0x1a AND 0x0f = 0x09 \<and> e4k_view view e' 0x20 AND 0x01 = 1
    \<and> e4k_view view e' 0x07 = e4k_view view e 0x07"
proof -
  have res: "res = 0" using run by (simp add: e4k_init_def)
  have eff: "e4k_ready up e'" "e4k_view view e' = reg_updates e4k_init_updates (e4k_view view e)"
    using e4k_chip.init_effect [OF chip rw] ready run by (auto simp: effect_def)
  define v where "v = e4k_view view e"
  have v': "e4k_view view e' 0x16 = masked (masked (masked (masked (v 0x16) 0x01 0x01) 0x06 0) 0x18 0) 0x60 0"
    "e4k_view view e' 0x17 = masked (masked (v 0x17) 0x07 0x02) 0x38 0x10"
    "e4k_view view e' 0x11 = masked (masked (v 0x11) 0xf0 0xf0) 0x0f 0x0f"
    "e4k_view view e' 0x12 = masked (masked (v 0x12) 0x1f 0x1f) 0x20 0x00"
    "e4k_view view e' 0x1a = masked (masked (v 0x1a) 0x0f 0x00) 0x0f 0x09"
    "e4k_view view e' 0x20 = masked (masked (v 0x20) 0x01 0x00) 0x01 0x01"
    "e4k_view view e' 0x07 = v 0x07"
    by (simp_all add: eff(2) v_def reg_updates_def e4k_init_updates_def)
  note flds = e4k_stage_gain_def v' if_stage_gain_regs_def fld_get_other fld_get_same fld_wf_def fld_mask_def width2mask_def
  have "e4k_stage_gain (e4k_view view e') 1 = 6" "e4k_stage_gain (e4k_view view e') 2 = 0"
    "e4k_stage_gain (e4k_view view e') 3 = 0" "e4k_stage_gain (e4k_view view e') 4 = 0"
    "e4k_stage_gain (e4k_view view e') 5 = 9" "e4k_stage_gain (e4k_view view e') 6 = 9"
    by (simp_all add: flds) (simp_all add: fld_get_def if_stage_gain_def width2mask_def)
  moreover have "if_filter_bw f ! unat (fld_get (if_filter_fields f) (e4k_view view e' (fld_reg (if_filter_fields f)))) =
      Min (set (if_filter_bw f))" for f
  proof -
    have "unat (fld_get (if_filter_fields f) (e4k_view view e' (fld_reg (if_filter_fields f)))) = length (if_filter_bw f) - 1"
      by (cases f; simp add: flds)
        (simp_all add: fld_get_def width2mask_def mix_filter_bw_def ifch_filter_bw_def ifrc_filter_bw_def)
    then show ?thesis
      by (cases f) (simp_all add: mix_filter_bw_def ifch_filter_bw_def ifrc_filter_bw_def)
  qed
  moreover have "e4k_view view e' 0x12 AND 0x20 = 0" "e4k_view view e' 0x1a AND 0x0f = 0x09"
    "e4k_view view e' 0x20 AND 0x01 = 1" "e4k_view view e' 0x07 = e4k_view view e 0x07"
    by (simp_all add: v' masked_simps(1)) (simp add: v_def)
  ultimately show ?thesis
    using res eff(1) by simp
qed

theorem e4k_init_state_witness:
  "\<exists>e e'. run_state (e4k_init sim_io) e = (0, e') \<and> e4k_stage_gain (e4k_view sim_regs e') 5 = 9"
proof -
  define e where "e = (undefined :: sim_chip e4k_state)\<lparr>e4k_i2c_addr := E4K_I2C_ADDR\<rparr>"
  have e: "e4k_ready (\<lambda>_. True) e" by (simp add: e4k_ready_def e_def)
  obtain res e' where run: "run_state (e4k_init sim_io) e = (res, e')" by fastforce
  show ?thesis
    using e4k_init_state [OF sime4k.e4k_chip_axioms e refl run] run by (intro exI [of _ e] exI [of _ e']) simp
qed

end
