(* ===== verification/R82xx.thy ===== *)
theory R82xx
  imports I2c_Bus
begin

text \<open>
  The Rafael Micro R820T/R828D tuner driver, \<^verbatim>\<open>src/librtlsdr/src/tuner_r82xx.c\<close>, in the configuration
  it is compiled with (\<open>WITH_ASYM_FILTER\<close> and \<open>USE_R82XX_ENV_VARS\<close> are 0).  Most registers of the chip cannot be
  read back, so the driver keeps a shadow of registers 5 to 36, changes single bits in the shadow, and
  sends whole bytes; a user can force bits of a register by an override that is mixed in when
  a byte is sent.  The state is \<open>struct r82xx_priv\<close> with the configuration it points to
  and the dongle behind \<open>rtl_dev\<close>.

  A division by zero (a crystal frequency of 0 or 2 GHz) and a harmonic beyond the table of sidebands stop the
  program: the functions that can reach one return \<open>None\<close> there.
\<close>

section \<open>Model\<close>

subsection \<open>Data\<close>

datatype r82xx_chip = CHIP_R820T | CHIP_R620D | CHIP_R828D | CHIP_R828 | CHIP_R828S | CHIP_R820C

datatype r82xx_tuner_type = TUNER_RADIO | TUNER_ANALOG_TV | TUNER_DIGITAL_TV

datatype r82xx_xtal_cap_value =
  XTAL_LOW_CAP_30P | XTAL_LOW_CAP_20P | XTAL_LOW_CAP_10P | XTAL_LOW_CAP_0P | XTAL_HIGH_CAP_0P

definition REG_SHADOW_START :: int where
  "REG_SHADOW_START = 5"

definition NUM_REGS :: int where
  "NUM_REGS = 32"

definition DEFAULT_IF_VGA_VAL :: int where
  "DEFAULT_IF_VGA_VAL = 11"

definition DEFAULT_HARMONIC :: int where
  "DEFAULT_HARMONIC = 5"

text \<open>The only value the library gives to \<open>max_i2c_msg_len\<close>.\<close>

definition max_i2c_msg_len :: nat where
  "max_i2c_msg_len = 8"

record r82xx_config =
  c_i2c_addr :: u8
  c_vco_curr_min :: u8
  c_vco_curr_max :: u8
  c_vco_algo :: u8
  c_harmonic :: int
  c_xtal :: u32
  c_rafael_chip :: r82xx_chip
  c_use_predetect :: bool

text \<open>
  \<open>r_beyond\<close> is the memory an index outside \<open>override_mask\<close> and \<open>override_data\<close> hits, as the pair of the two bytes.
  \<open>r_type\<close> is \<open>None\<close> for a value that is no constant of the enumeration, such as the \<open>-1\<close> stored by the
  standby.
\<close>

record r82xx_priv =
  r_cfg :: r82xx_config
  r_regs :: "u8 list"
  r_buf :: "u8 list"
  r_override_data :: "u8 list"
  r_override_mask :: "u8 list"
  r_beyond :: "int \<Rightarrow> u8 \<times> u8"
  r_xtal_cap_sel :: r82xx_xtal_cap_value
  r_rf_freq :: u64
  r_int_freq :: u32
  r_if_band_center_freq :: int
  r_fil_cal_code :: u8
  r_input :: u8
  r_last_vco_curr :: u8
  r_has_lock :: bool
  r_tuner_pll_set :: bool
  r_tuner_harmonic :: int
  r_init_done :: bool
  r_sideband :: int
  r_disable_dither :: bool
  r_delsys :: u32
  r_type :: "r82xx_tuner_type option"
  r_bw :: u32
  r_last_if_mode :: int
  r_last_manual_gain :: int
  r_last_extended_mode :: int
  r_last_LNA_value :: int
  r_last_Mixer_value :: int
  r_last_VGA_value :: int

record 'd r82xx_state = r82xx_priv +
  r_rtl_dev :: 'd

abbreviation on_rtl :: "('d, 'a) state \<Rightarrow> ('d r82xx_state, 'a) state" where
  "on_rtl \<equiv> zoom r_rtl_dev (\<lambda>d p. p\<lparr>r_rtl_dev := d\<rparr>)"

definition r82xx_init_array :: "u8 list" where
  "r82xx_init_array =
     [0x80, 0x13, 0x70, 0xc0, 0x40, 0xdb, 0x6b, 0xeb, 0x53, 0x75, 0x68, 0x6c, 0xbb, 0x80, 0x31,
      0x0f, 0x00, 0xc0, 0x30, 0x48, 0xec, 0x60, 0x00, 0x24, 0xdd, 0x0e, 0x40]"

record r82xx_freq_range =
  fr_freq :: int
  fr_open_d :: u8
  fr_rf_mux_ploy :: u8
  fr_tf_c :: u8
  fr_xtal_cap20p :: u8
  fr_xtal_cap10p :: u8
  fr_xtal_cap0p :: u8

definition freq_ranges :: "r82xx_freq_range list" where
  "freq_ranges = map (\<lambda>(f, o_d, mux, tf, c20, c10, c0).
       \<lparr>fr_freq = f, fr_open_d = o_d, fr_rf_mux_ploy = mux, fr_tf_c = tf,
        fr_xtal_cap20p = c20, fr_xtal_cap10p = c10, fr_xtal_cap0p = c0\<rparr>)
     [(0, 0x08, 0x02, 0xdf, 0x02, 0x01, 0x00),
      (50, 0x08, 0x02, 0xbe, 0x02, 0x01, 0x00),
      (55, 0x08, 0x02, 0x8b, 0x02, 0x01, 0x00),
      (60, 0x08, 0x02, 0x7b, 0x02, 0x01, 0x00),
      (65, 0x08, 0x02, 0x69, 0x02, 0x01, 0x00),
      (70, 0x08, 0x02, 0x58, 0x02, 0x01, 0x00),
      (75, 0x00, 0x02, 0x44, 0x02, 0x01, 0x00),
      (80, 0x00, 0x02, 0x44, 0x02, 0x01, 0x00),
      (90, 0x00, 0x02, 0x34, 0x01, 0x01, 0x00),
      (100, 0x00, 0x02, 0x34, 0x01, 0x01, 0x00),
      (110, 0x00, 0x02, 0x24, 0x01, 0x01, 0x00),
      (120, 0x00, 0x02, 0x24, 0x01, 0x01, 0x00),
      (140, 0x00, 0x02, 0x14, 0x01, 0x01, 0x00),
      (180, 0x00, 0x02, 0x13, 0x00, 0x00, 0x00),
      (220, 0x00, 0x02, 0x13, 0x00, 0x00, 0x00),
      (250, 0x00, 0x02, 0x11, 0x00, 0x00, 0x00),
      (280, 0x00, 0x02, 0x00, 0x00, 0x00, 0x00),
      (310, 0x00, 0x41, 0x00, 0x00, 0x00, 0x00),
      (450, 0x00, 0x41, 0x00, 0x00, 0x00, 0x00),
      (588, 0x00, 0x40, 0x00, 0x00, 0x00, 0x00),
      (650, 0x00, 0x40, 0x00, 0x00, 0x00, 0x00)]"

subsection \<open>Shadow registers and the bus\<close>

text \<open>
  The register passed to \<open>shadow_store\<close> and \<open>r82xx_write_arr\<close> is at most 36: constants below 32, or a register
  \<open>r82xx_write_reg_mask\<close> found in the shadow.
\<close>

definition shadow_store :: "u8 \<Rightarrow> u8 list \<Rightarrow> ('d r82xx_state, unit) state" where
  "shadow_store reg val = State_Monad.update (\<lambda>p.
     let r = uint reg - REG_SHADOW_START;
         (len, r) = (if r < 0 then (int (length val) + r, 0) else (int (length val), r));
         len = (if len > NUM_REGS - r then NUM_REGS - r else len)
     in if len \<le> 0 then p
        else p\<lparr>r_regs := take (nat r) (r_regs p) @ take (nat len) val @ drop (nat (r + len)) (r_regs p)\<rparr>)"

definition override_at :: "'z r82xx_priv_scheme \<Rightarrow> int \<Rightarrow> u8 \<times> u8" where
  "override_at p i =
     (if 0 \<le> i \<and> i < NUM_REGS then (r_override_mask p ! nat i, r_override_data p ! nat i)
      else r_beyond p i)"

definition override_byte :: "u8 \<times> u8 \<Rightarrow> u8 \<Rightarrow> u8" where
  "override_byte md b = (if fst md \<noteq> 0 then (b AND NOT (fst md)) OR (fst md AND snd md) else b)"

text \<open>The bytes of one message: \<open>regIdx\<close> is counted from \<open>reg\<close>, which has moved by \<open>pos\<close> already, plus \<open>pos\<close>.\<close>

definition override_bytes :: "'z r82xx_priv_scheme \<Rightarrow> u8 \<Rightarrow> nat \<Rightarrow> u8 list \<Rightarrow> u8 list" where
  "override_bytes p reg pos bs =
     map (\<lambda>k. override_byte (override_at p (uint reg - REG_SHADOW_START + int (pos + k))) (bs ! k))
       [0..<length bs]"

function r82xx_write_from :: "'d i2c_ops \<Rightarrow> u8 \<Rightarrow> nat \<Rightarrow> u8 list \<Rightarrow> ('d r82xx_state, int) state" where
  "r82xx_write_from io reg pos val = do {
     let size = (if length val > max_i2c_msg_len - 1 then max_i2c_msg_len - 1 else length val);
     p \<leftarrow> State_Monad.get;
     let msg = reg # override_bytes p reg pos (take size val);
     _ \<leftarrow> State_Monad.update (\<lambda>p. p\<lparr>r_buf := msg @ drop (size + 1) (r_buf p)\<rparr>);
     rc \<leftarrow> on_rtl (i2c_write io (c_i2c_addr (r_cfg p)) msg);
     if rc \<noteq> int (size + 1) then ret (if rc < 0 then rc else -1)
     else if length val > size then r82xx_write_from io (reg + of_nat size) (pos + size) (drop size val)
     else ret 0 }"
  by pat_completeness auto
termination
  by (relation "measure (\<lambda>(io, reg, pos, val). length val)") (auto simp: max_i2c_msg_len_def)

definition r82xx_write_arr :: "'d i2c_ops \<Rightarrow> u8 \<Rightarrow> u8 list \<Rightarrow> ('d r82xx_state, int) state" where
  "r82xx_write_arr io reg val = do { _ \<leftarrow> shadow_store reg val; r82xx_write_from io reg 0 val }"

definition r82xx_write_reg :: "'d i2c_ops \<Rightarrow> u8 \<Rightarrow> u8 \<Rightarrow> ('d r82xx_state, int) state" where
  "r82xx_write_reg io reg val = r82xx_write_arr io reg [val]"

definition r82xx_read_cache_reg :: "'z r82xx_priv_scheme \<Rightarrow> int \<Rightarrow> int" where
  "r82xx_read_cache_reg p reg =
     (let r = reg - REG_SHADOW_START
      in if 0 \<le> r \<and> r < NUM_REGS then uint (r_regs p ! nat r) else -1)"

definition r82xx_write_reg_mask :: "'d i2c_ops \<Rightarrow> u8 \<Rightarrow> u8 \<Rightarrow> u8 \<Rightarrow> ('d r82xx_state, int) state" where
  "r82xx_write_reg_mask io reg val bit_mask = do {
     p \<leftarrow> State_Monad.get;
     let rc = r82xx_read_cache_reg p (uint reg);
     if rc < 0 then ret rc
     else r82xx_write_arr io reg [(word_of_int rc AND NOT bit_mask) OR (val AND bit_mask)] }"

definition r82xx_write_reg_mask_ext :: "'d i2c_ops \<Rightarrow> u8 \<Rightarrow> u8 \<Rightarrow> u8 \<Rightarrow> ('d r82xx_state, int) state" where
  "r82xx_write_reg_mask_ext io reg val bit_mask = r82xx_write_reg_mask io reg val bit_mask"

definition r82xx_bitrev :: "u8 \<Rightarrow> u8" where
  "r82xx_bitrev byte =
     (let lut = [0x0, 0x8, 0x4, 0xc, 0x2, 0xa, 0x6, 0xe, 0x1, 0x9, 0x5, 0xd, 0x3, 0xb, 0x7, 0xf]
      in push_bit 4 (lut ! unat (byte AND 0xf)) OR lut ! unat (drop_bit 4 byte))"

text \<open>A read always starts at register 0; the register in the buffer is not sent.\<close>

definition r82xx_read :: "'d i2c_ops \<Rightarrow> u8 \<Rightarrow> nat \<Rightarrow> ('d r82xx_state, int \<times> u8 list) state" where
  "r82xx_read io reg len = do {
     p \<leftarrow> State_Monad.get;
     (rc, bs) \<leftarrow> on_rtl (i2c_read io (c_i2c_addr (r_cfg p)) (take len (drop 1 (r_buf p))));
     _ \<leftarrow> State_Monad.update (\<lambda>p. p\<lparr>r_buf := reg # bs @ drop (len + 1) (r_buf p)\<rparr>);
     if rc \<noteq> int len then ret (if rc < 0 then rc else -1, [])
     else ret (0, map r82xx_bitrev bs) }"

subsection \<open>Tuning\<close>

fun choose_range :: "int \<Rightarrow> r82xx_freq_range \<Rightarrow> r82xx_freq_range list \<Rightarrow> r82xx_freq_range" where
  "choose_range freq r [] = r"
| "choose_range freq r (r' # rs) = (if freq < fr_freq r' then r else choose_range freq r' rs)"

definition xtal_cap_bits :: "r82xx_xtal_cap_value \<Rightarrow> r82xx_freq_range \<Rightarrow> u8" where
  "xtal_cap_bits cap rg =
     (case cap of
        XTAL_LOW_CAP_30P \<Rightarrow> fr_xtal_cap20p rg OR 0x08
      | XTAL_LOW_CAP_20P \<Rightarrow> fr_xtal_cap20p rg OR 0x08
      | XTAL_LOW_CAP_10P \<Rightarrow> fr_xtal_cap10p rg OR 0x08
      | XTAL_HIGH_CAP_0P \<Rightarrow> fr_xtal_cap0p rg OR 0x00
      | XTAL_LOW_CAP_0P \<Rightarrow> fr_xtal_cap0p rg OR 0x08)"

definition r82xx_set_mux :: "'d i2c_ops \<Rightarrow> u64 \<Rightarrow> ('d r82xx_state, int) state" where
  "r82xx_set_mux io freq = do {
     p \<leftarrow> State_Monad.get;
     let rg = choose_range (uint freq div 1000000) (hd freq_ranges) (tl freq_ranges);
     nonneg_then (r82xx_write_reg_mask io 0x17 (fr_open_d rg) 0x08)
       (nonneg_then (r82xx_write_reg_mask io 0x1a (fr_rf_mux_ploy rg) 0xc3)
         (nonneg_then (r82xx_write_reg io 0x1b (fr_tf_c rg))
           (r82xx_write_reg_mask io 0x10 (xtal_cap_bits (r_xtal_cap_sel p) rg) 0x0b))) }"

text \<open>The divider of the second algorithm: VCO between 1770 and 3900 MHz, in 32-bit arithmetic.\<close>

function yc_div_num :: "int \<Rightarrow> nat \<Rightarrow> nat" where
  "yc_div_num freq div_num =
     (if div_num < 5 then
        let vco_exact = wrap32 (freq * 2 ^ (div_num + 1))
        in if 1770000000 \<le> vco_exact \<and> vco_exact \<le> 3900000000 then div_num
           else yc_div_num freq (div_num + 1)
      else div_num)"
  by pat_completeness auto
termination
  by (relation "measure (\<lambda>(freq, div_num). 5 - div_num)") auto

function yc_sdm :: "int \<Rightarrow> nat \<Rightarrow> int \<Rightarrow> int \<Rightarrow> int" where
  "yc_sdm pll_ref n_sdm sdm vco_frac =
     (if n_sdm < 16 then
        let con_frac = pll_ref div 2 ^ n_sdm
        in if vco_frac \<ge> con_frac then
             let sdm = sdm OR 32768 div 2 ^ n_sdm; vco_frac = vco_frac - con_frac
             in if vco_frac = 0 then sdm else yc_sdm pll_ref (n_sdm + 1) sdm vco_frac
           else yc_sdm pll_ref (n_sdm + 1) sdm vco_frac
      else sdm)"
  by pat_completeness auto
termination
  by (relation "measure (\<lambda>(pll_ref, n_sdm, sdm, vco_frac). 16 - n_sdm)") auto

declare r82xx_write_from.simps [simp del] yc_div_num.simps [simp del] yc_sdm.simps [simp del]

definition mark_pll :: "bool \<Rightarrow> ('d r82xx_state, unit) state" where
  "mark_pll b = State_Monad.update (\<lambda>p. p\<lparr>r_tuner_pll_set := b\<rparr>)"

definition mark_lock :: "bool \<Rightarrow> ('d r82xx_state, unit) state" where
  "mark_lock b = State_Monad.update (\<lambda>p. p\<lparr>r_has_lock := b\<rparr>)"

text \<open>The integer part, the fraction and the register content of the second algorithm.\<close>

definition yc_nint :: "int \<Rightarrow> int \<Rightarrow> int" where
  "yc_nint pll_ref vco_exact = wrap8 (wrap32 (vco_exact + pll_ref div 65536) div wrap32 (pll_ref * 2))"

definition yc_frac :: "int \<Rightarrow> int \<Rightarrow> int" where
  "yc_frac pll_ref vco_exact = wrap32 (vco_exact - wrap32 (wrap32 (pll_ref * 2) * yc_nint pll_ref vco_exact))"

definition yc_reg_14 :: "int \<Rightarrow> u8" where
  "yc_reg_14 nint =
     (let nint = wrap8 (nint - 13); ni = nint div 4; si = wrap8 (nint - ni * 4)
      in word_of_int (ni + si * 64))"

definition yc_fraction :: "'d i2c_ops \<Rightarrow> int \<Rightarrow> int \<Rightarrow> ('d r82xx_state, int) state" where
  "yc_fraction io pll_ref vco_frac =
     (if vco_frac = 0 then r82xx_write_reg_mask io 0x12 0x08 0x08
      else let sdm = yc_sdm pll_ref 0 0 (wrap32 (vco_frac + pll_ref div 65536))
           in nonneg_then (r82xx_write_reg io 0x15 (word_of_int (sdm AND 0xff)))
                (nonneg_then (r82xx_write_reg io 0x16 (word_of_int (sdm div 256)))
                  (r82xx_write_reg_mask io 0x12 0x00 0x08)))"

definition yc_lock :: "'d i2c_ops \<Rightarrow> ('d r82xx_state, int) state" where
  "yc_lock io = do {
     _ \<leftarrow> mark_pll True;
     nonneg_read (r82xx_read io 0x00 3) (\<lambda>data.
       if data ! 2 AND 0x40 = 0 then do { _ \<leftarrow> mark_lock False; ret (-1) }
       else do { _ \<leftarrow> mark_lock True; ret 0 }) }"

definition r82xx_set_pll_yc :: "'d i2c_ops \<Rightarrow> u32 \<Rightarrow> ('d r82xx_state, int option) state" where
  "r82xx_set_pll_yc io freq = do {
     p \<leftarrow> State_Monad.get;
     let pll_ref = uint (c_xtal (r_cfg p));
     let div_num = yc_div_num (uint freq) 0;
     let vco_exact = wrap32 (uint freq * 2 ^ (div_num + 1));
     if wrap32 (pll_ref * 2) = 0 then ret None
     else try_then (r82xx_write_reg_mask io 0x10 (word_of_int (int div_num * 32)) 0xe0)
       (try_then (r82xx_write_reg_mask io 0x12 (if r_disable_dither p then 0x10 else 0x00) 0x18)
         (try_then (r82xx_write_reg io 0x14 (yc_reg_14 (yc_nint pll_ref vco_exact)))
           (try_then (yc_fraction io pll_ref (yc_frac pll_ref vco_exact))
             (do { rc \<leftarrow> yc_lock io; ret (Some rc) })))) }"

text \<open>The divider of the first algorithm, on the rounded frequency in kHz.\<close>

fun halvings :: "nat \<Rightarrow> u8" where
  "halvings div_buf = (if div_buf > 2 then halvings (div_buf div 2) + 1 else 0)"

function mix_div_loop :: "int \<Rightarrow> int \<Rightarrow> nat \<Rightarrow> nat \<times> u8" where
  "mix_div_loop freq_khz vco_max e =
     (let mix_div = 2 ^ e
      in if e \<le> 6 then
           if wrap32 (freq_khz * int mix_div) \<ge> 1770000 \<and> wrap32 (freq_khz * int mix_div) < vco_max
           then (mix_div, halvings mix_div)
           else mix_div_loop freq_khz vco_max (e + 1)
         else (mix_div, 0))"
  by pat_completeness auto
termination
  by (relation "measure (\<lambda>(freq_khz, vco_max, e). 7 - e)") auto

declare halvings.simps [simp del] mix_div_loop.simps [simp del]

definition r82xx_mix_div :: "u8 \<Rightarrow> int \<Rightarrow> nat \<times> u8" where
  "r82xx_mix_div vco_algo freq =
     mix_div_loop (wrap32 (freq + 500) div 1000) (if vco_algo = 0 then 1770000 * 2 else 3900000) 1"

definition vco_power_ref :: "r82xx_chip \<Rightarrow> int" where
  "vco_power_ref chip = (if chip = CHIP_R828D then 1 else 2)"

definition adjust_div_num :: "int \<Rightarrow> u8 \<Rightarrow> u8 \<Rightarrow> u8" where
  "adjust_div_num power_ref status div_num =
     (let vco_fine_tune = uint (drop_bit 4 (status AND 0x30))
      in if vco_fine_tune > power_ref then div_num - 1
         else if vco_fine_tune < power_ref then div_num + 1 else div_num)"

definition r82xx_vco_div :: "int \<Rightarrow> int \<Rightarrow> nat \<Rightarrow> int" where
  "r82xx_vco_div pll_ref freq mix_div =
     wrap64 (pll_ref + wrap64 (65536 * wrap64 (freq * int mix_div))) div wrap32 (2 * pll_ref)"

definition r82xx_reg_14 :: "int \<Rightarrow> u8" where
  "r82xx_reg_14 nint =
     (let ni = wrap8 (c_quot (nint - 13) 4); si = wrap8 (nint - 4 * ni - 13)
      in word_of_int (ni + si * 64))"

definition vco_current :: "'d i2c_ops \<Rightarrow> u8 \<Rightarrow> ('d r82xx_state, int) state" where
  "vco_current io vcur = do {
     p \<leftarrow> State_Monad.get;
     if r_last_vco_curr p \<noteq> vcur then
       nonneg_then (r82xx_write_reg_mask io 0x12 vcur 0xe0)
         (do { _ \<leftarrow> State_Monad.update (\<lambda>p. p\<lparr>r_last_vco_curr := vcur\<rparr>); ret 0 })
     else ret 0 }"

text \<open>The registers of the divider value; the lock is checked twice, with more VCO current the second time.\<close>

definition write_vco_div :: "'d i2c_ops \<Rightarrow> int \<Rightarrow> int \<Rightarrow> ('d r82xx_state, int) state" where
  "write_vco_div io nint sdm =
     nonneg_then (r82xx_write_reg io 0x14 (r82xx_reg_14 nint))
       (do {
         p \<leftarrow> State_Monad.get;
         let val = (if sdm = 0 then 0x08 else 0x00);
         let val = (if r_disable_dither p then val OR 0x10 else val);
         nonneg_then (r82xx_write_reg_mask io 0x12 val 0x18)
           (nonneg_then (r82xx_write_reg io 0x16 (word_of_int (sdm div 256)))
             (r82xx_write_reg io 0x15 (word_of_int (sdm AND 0xff)))) })"

definition check_lock :: "'d i2c_ops \<Rightarrow> u8 \<Rightarrow> u8 \<Rightarrow> ('d r82xx_state, int \<times> u8 list) state" where
  "check_lock io vco_curr_min vco_curr_max = do {
     (rc, data) \<leftarrow> r82xx_read io 0x00 3;
     if rc < 0 then ret (rc, data)
     else if data ! 2 AND 0x40 \<noteq> 0 \<or> vco_curr_max = vco_curr_min then ret (0, data)
     else do {
       rc \<leftarrow> vco_current io vco_curr_max;
       if rc < 0 then ret (rc, data) else r82xx_read io 0x00 3 } }"

definition finish_pll :: "'d i2c_ops \<Rightarrow> u8 \<Rightarrow> u8 \<Rightarrow> ('d r82xx_state, int) state" where
  "finish_pll io vco_curr_min vco_curr_max = do {
     _ \<leftarrow> mark_pll True;
     nonneg_read (check_lock io vco_curr_min vco_curr_max) (\<lambda>data.
       if data ! 2 AND 0x40 = 0 then do { _ \<leftarrow> mark_lock False; ret (-1) }
       else do { _ \<leftarrow> mark_lock True; r82xx_write_reg_mask io 0x1a 0x08 0x08 }) }"

definition vco_curr_bits :: "u8 \<Rightarrow> u8 \<Rightarrow> u8" where
  "vco_curr_bits dflt c = (if c = 0xff then dflt else push_bit 5 c)"

definition r82xx_set_pll :: "'d i2c_ops \<Rightarrow> u32 \<Rightarrow> ('d r82xx_state, int option) state" where
  "r82xx_set_pll io freq = do {
     p \<leftarrow> State_Monad.get;
     let cfg = r_cfg p;
     let vco_curr_min = vco_curr_bits 0x80 (c_vco_curr_min cfg);
     let vco_curr_max = vco_curr_bits 0x60 (c_vco_curr_max cfg);
     _ \<leftarrow> mark_pll False;
     if c_vco_algo cfg = 2 then try_then (vco_current io vco_curr_max) (r82xx_set_pll_yc io freq)
     else try_then (r82xx_write_reg_mask io 0x10 0x00 0x10)
       (try_then (r82xx_write_reg_mask io 0x1a 0x00 0x0c)
         (try_then (vco_current io vco_curr_min)
           (try_read (r82xx_read io 0x00 5) (\<lambda>data. do {
             let (mix_div, div_num) = r82xx_mix_div (c_vco_algo cfg) (uint freq);
             let power_ref = vco_power_ref (c_rafael_chip cfg);
             let div_num = adjust_div_num power_ref (data ! 4) div_num;
             try_then (r82xx_write_reg_mask io 0x10 (push_bit 5 div_num) 0xe0)
               (if wrap32 (2 * uint (c_xtal cfg)) = 0 then ret None
                else do {
                  let vco_div = r82xx_vco_div (uint (c_xtal cfg)) (uint freq) mix_div;
                  let nint = wrap8 (vco_div div 65536);
                  let sdm = vco_div mod 65536;
                  if nint > 128 div power_ref - 1 then ret (Some (-1))
                  else try_then (write_vco_div io nint sdm)
                    (do { rc \<leftarrow> finish_pll io vco_curr_min vco_curr_max; ret (Some rc) }) }) })))) }"

definition r82xx_is_tuner_locked :: "'d i2c_ops \<Rightarrow> ('d r82xx_state, int) state" where
  "r82xx_is_tuner_locked io = do {
     p \<leftarrow> State_Monad.get;
     if \<not> r_tuner_pll_set p then ret 1
     else do {
       (rc, data) \<leftarrow> r82xx_read io 0x00 5;
       if rc < 0 then ret (-3) else ret (if data ! 2 AND 0x40 = 0 then 1 else 0) } }"

subsection \<open>Standards\<close>

definition seq_masks :: "'d i2c_ops \<Rightarrow> (u8 \<times> u8 \<times> u8) list \<Rightarrow> ('d r82xx_state, int) state" where
  "seq_masks io ws = foldr (\<lambda>(reg, val, mask). nonneg_then (r82xx_write_reg_mask io reg val mask)) ws (ret 0)"

definition r82xx_sysfreq_sel :: "'d i2c_ops \<Rightarrow> r82xx_tuner_type \<Rightarrow> ('d r82xx_state, int) state" where
  "r82xx_sysfreq_sel io typ = do {
     p \<leftarrow> State_Monad.get;
     nonneg_then (if c_use_predetect (r_cfg p) then r82xx_write_reg_mask io 0x06 0x40 0x40 else ret 0)
       (do {
         _ \<leftarrow> State_Monad.update (\<lambda>p. p\<lparr>r_input := 0x00\<rparr>);
         nonneg_then (seq_masks io [(0x05, 0x00, 0x60), (0x06, 0x00, 0x08)])
           (if typ \<noteq> TUNER_ANALOG_TV then
              seq_masks io [(0x1d, 0x00, 0x38), (0x06, 0x00, 0x40), (0x1a, 0x30, 0x30),
                            (0x1d, 0x18, 0x38), (0x1a, 0x20, 0x30)]
            else
              seq_masks io [(0x06, 0x00, 0x40), (0x1d, 0xe5, 0x38), (0x1a, 0x00, 0x30), (0x10, 0x00, 0x04)]) }) }"

text \<open>
  One round of the filter calibration.  The result is \<open>Inl\<close> when the function returns, with its value.
\<close>

definition calibration_round :: "'d i2c_ops \<Rightarrow> ('d r82xx_state, int option + u8) state" where
  "calibration_round io = do {
     rc \<leftarrow> r82xx_write_reg_mask io 0x0f 0x04 0x04;
     if rc < 0 then ret (Inl (Some rc))
     else do {
       _ \<leftarrow> mark_pll False;
       p \<leftarrow> State_Monad.get;
       rc \<leftarrow> r82xx_set_pll io (ucast (r_rf_freq p));
       case rc of None \<Rightarrow> ret (Inl None)
       | Some rc \<Rightarrow> do {
           p \<leftarrow> State_Monad.get;
           if rc < 0 \<or> \<not> r_has_lock p then ret (Inl (Some rc))
           else do {
             rc \<leftarrow> nonneg_then (r82xx_write_reg_mask_ext io 0x0b 0x10 0x10)
                    (nonneg_then (r82xx_write_reg_mask_ext io 0x0b 0x00 0x10)
                      (r82xx_write_reg_mask io 0x0f 0x00 0x04));
             if rc < 0 then ret (Inl (Some rc))
             else do {
               (rc, data) \<leftarrow> r82xx_read io 0x00 5;
               if rc < 0 then ret (Inl (Some rc))
               else do {
                 _ \<leftarrow> State_Monad.update (\<lambda>p. p\<lparr>r_fil_cal_code := data ! 4 AND 0x0f\<rparr>);
                 ret (Inr (data ! 4 AND 0x0f)) } } } } } }"

definition r82xx_calibrate :: "'d i2c_ops \<Rightarrow> ('d r82xx_state, int option + u8) state" where
  "r82xx_calibrate io = do {
     r \<leftarrow> calibration_round io;
     r \<leftarrow> (case r of Inl rc \<Rightarrow> ret (Inl rc)
          | Inr code \<Rightarrow> if code \<noteq> 0 \<and> code \<noteq> 0x0f then ret (Inr code) else calibration_round io);
     case r of Inl rc \<Rightarrow> ret (Inl rc)
     | Inr code \<Rightarrow> do {
         let code = (if code = 0x0f then 0 else code);
         _ \<leftarrow> State_Monad.update (\<lambda>p. p\<lparr>r_fil_cal_code := code\<rparr>);
         ret (Inr code) } }"

definition r82xx_set_tv_standard ::
    "'d i2c_ops \<Rightarrow> r82xx_tuner_type \<Rightarrow> u32 \<Rightarrow> ('d r82xx_state, int option) state" where
  "r82xx_set_tv_standard io typ delsys =
     try_then (if typ \<noteq> TUNER_ANALOG_TV then r82xx_write_reg_mask io 0x1d 0x00 0x38 else ret 0)
       (do {
         _ \<leftarrow> State_Monad.update (\<lambda>p. p\<lparr>r_rf_freq := 56000000, r_if_band_center_freq := 0,
                r_int_freq := 3570000, r_sideband := 0\<rparr>);
         r \<leftarrow> r82xx_calibrate io;
         case r of Inl rc \<Rightarrow> ret rc
         | Inr code \<Rightarrow>
             try_then (r82xx_write_reg_mask_ext io 0x0a (0x10 OR code) 0x1f)
               (do {
                 _ \<leftarrow> State_Monad.update (\<lambda>p. p\<lparr>r_delsys := delsys, r_type := Some typ, r_bw := 3\<rparr>);
                 ret (Some 0) }) })"

subsection \<open>Gains\<close>

definition VGA_BASE_GAIN :: int where
  "VGA_BASE_GAIN = -47"

definition r82xx_vga_gain_steps :: "int list" where
  "r82xx_vga_gain_steps = [0, 26, 26, 30, 42, 35, 24, 13, 14, 32, 36, 34, 35, 37, 35, 36]"

definition r82xx_lna_gain_steps :: "int list" where
  "r82xx_lna_gain_steps = [0, 9, 13, 40, 38, 13, 31, 22, 26, 31, 26, 14, 19, 5, 35, 13]"

definition r82xx_mixer_gain_steps :: "int list" where
  "r82xx_mixer_gain_steps = [0, 5, 10, 10, 19, 9, 10, 25, 17, 10, 8, 16, 13, 6, 3, -8]"

text \<open>\<open>n\<close> rounds are left.\<close>

primrec rf_gain_loop :: "int \<Rightarrow> nat \<Rightarrow> int \<Rightarrow> nat \<Rightarrow> nat \<Rightarrow> nat \<times> nat" where
  "rf_gain_loop gain 0 total_gain lna_index mix_index = (lna_index, mix_index)"
| "rf_gain_loop gain (Suc n) total_gain lna_index mix_index =
     (if total_gain \<ge> gain then (lna_index, mix_index)
      else let lna_index = lna_index + 1; total_gain = total_gain + r82xx_lna_gain_steps ! lna_index
           in if total_gain \<ge> gain then (lna_index, mix_index)
              else let mix_index = mix_index + 1
                   in rf_gain_loop gain n (total_gain + r82xx_mixer_gain_steps ! mix_index) lna_index mix_index)"

definition r82xx_get_rf_gain_index :: "int \<Rightarrow> nat \<times> nat" where
  "r82xx_get_rf_gain_index gain = rf_gain_loop gain 15 0 0 0"

function if_gain_loop :: "int \<Rightarrow> nat \<Rightarrow> int \<Rightarrow> nat" where
  "if_gain_loop gain vga_index total_gain =
     (if vga_index < 15 then
        if total_gain \<ge> gain then vga_index
        else let vga_index = vga_index + 1; total_gain = total_gain + r82xx_vga_gain_steps ! vga_index
             in if_gain_loop gain (vga_index + 1) total_gain
      else vga_index)"
  by pat_completeness auto
termination
  by (relation "measure (\<lambda>(gain, vga_index, total_gain). 15 - vga_index)") auto

definition r82xx_get_if_gain_index :: "int \<Rightarrow> nat" where
  "r82xx_get_if_gain_index gain = if_gain_loop gain 0 VGA_BASE_GAIN"

definition gain_from_index :: "int list \<Rightarrow> int \<Rightarrow> int \<Rightarrow> int" where
  "gain_from_index steps base i =
     (if i < 0 \<or> i > 15 then 0 else foldl (+) base (take (nat i + 1) steps))"

definition r82xx_get_lna_gain_from_index :: "int \<Rightarrow> int" where
  "r82xx_get_lna_gain_from_index lna_index = gain_from_index r82xx_lna_gain_steps 0 lna_index"

definition r82xx_get_mixer_gain_from_index :: "int \<Rightarrow> int" where
  "r82xx_get_mixer_gain_from_index mixer_index = gain_from_index r82xx_mixer_gain_steps 0 mixer_index"

definition r82xx_get_vga_gain_from_index :: "int \<Rightarrow> int" where
  "r82xx_get_vga_gain_from_index vga_index = gain_from_index r82xx_vga_gain_steps VGA_BASE_GAIN vga_index"

text \<open>The mode stored and the VGA index of a requested IF mode.\<close>

definition if_mode_index :: "int \<Rightarrow> int \<times> int" where
  "if_mode_index if_mode =
     (if if_mode = 0 \<or> if_mode = 10016 then (if_mode, 0x10)
      else if -2500 \<le> if_mode \<and> if_mode \<le> 2500 then (if_mode, int (r82xx_get_if_gain_index if_mode))
      else if 2500 < if_mode \<and> if_mode < 10000 then (if_mode, int (r82xx_get_if_gain_index (if_mode - 5000)))
      else if 10000 \<le> if_mode \<and> if_mode \<le> 10016 + 15 then (if_mode, if_mode - 10000)
      else (10000 + DEFAULT_IF_VGA_VAL, DEFAULT_IF_VGA_VAL))"

text \<open>The second result is what the function stores behind \<open>rtl_vga_control\<close>.\<close>

definition r82xx_set_if_mode :: "'d i2c_ops \<Rightarrow> int \<Rightarrow> ('d r82xx_state, int \<times> int) state" where
  "r82xx_set_if_mode io if_mode = do {
     let (if_mode, vga_gain_idx) = if_mode_index if_mode;
     rc \<leftarrow> r82xx_write_reg_mask io 0x0c (word_of_int vga_gain_idx) 0x1f;
     if rc < 0 then ret (rc, 0)
     else do {
       _ \<leftarrow> State_Monad.update (\<lambda>p. p\<lparr>r_last_if_mode := if_mode, r_last_VGA_value := vga_gain_idx\<rparr>);
       ret (rc, if vga_gain_idx AND 0x10 \<noteq> 0 then 1 else 0) } }"

text \<open>\<open>vga0\<close> is the caller's value of \<open>*rtl_vga_control\<close>, kept when the function returns early.\<close>

definition r82xx_set_gain ::
    "'d i2c_ops \<Rightarrow> int \<Rightarrow> int \<Rightarrow> int \<Rightarrow> int \<Rightarrow> int \<Rightarrow> int \<Rightarrow> int \<Rightarrow> ('d r82xx_state, int \<times> int) state" where
  "r82xx_set_gain io set_manual_gain gain extended_mode lna_gain_idx mixer_gain_idx vga_gain_idx vga0 = do {
     p \<leftarrow> State_Monad.get;
     let new_if_mode = r_last_if_mode p;
     if extended_mode \<noteq> 0 \<or> set_manual_gain \<noteq> 0 then do {
       let (lna_gain_idx, mixer_gain_idx) =
         (if set_manual_gain \<noteq> 0 then map_prod int int (r82xx_get_rf_gain_index gain)
          else (lna_gain_idx, mixer_gain_idx));
       rc \<leftarrow> nonneg_then (seq_masks io [(0x05, 0x10, 0x10), (0x07, 0x00, 0x10)])
              (nonneg_read (r82xx_read io 0x00 4) (\<lambda>_.
                seq_masks io [(0x05, word_of_int lna_gain_idx, 0x0f), (0x07, word_of_int mixer_gain_idx, 0x0f)]));
       if rc < 0 then ret (rc, vga0)
       else do {
         _ \<leftarrow> State_Monad.update (\<lambda>p. p\<lparr>r_last_manual_gain := set_manual_gain,
                r_last_extended_mode := extended_mode, r_last_LNA_value := lna_gain_idx,
                r_last_Mixer_value := mixer_gain_idx\<rparr>);
         r82xx_set_if_mode io (if extended_mode \<noteq> 0 then vga_gain_idx + 10000 else new_if_mode) } }
     else do {
       rc \<leftarrow> seq_masks io [(0x05, 0x00, 0x10), (0x07, 0x10, 0x10)];
       if rc < 0 then ret (rc, vga0)
       else do {
         _ \<leftarrow> State_Monad.update (\<lambda>p. p\<lparr>r_last_manual_gain := set_manual_gain,
                r_last_extended_mode := extended_mode\<rparr>);
         r82xx_set_if_mode io new_if_mode } } }"

definition r82xx_get_rf_gain :: "'z r82xx_priv_scheme \<Rightarrow> int" where
  "r82xx_get_rf_gain p =
     r82xx_get_lna_gain_from_index (r_last_LNA_value p) + r82xx_get_mixer_gain_from_index (r_last_Mixer_value p)"

definition r82xx_get_if_gain :: "'z r82xx_priv_scheme \<Rightarrow> int" where
  "r82xx_get_if_gain p = r82xx_get_vga_gain_from_index (r_last_VGA_value p)"

subsection \<open>Register access for users\<close>

definition r82xx_set_i2c_register :: "'d i2c_ops \<Rightarrow> u32 \<Rightarrow> u32 \<Rightarrow> u32 \<Rightarrow> ('d r82xx_state, int) state" where
  "r82xx_set_i2c_register io i2c_register data msk =
     r82xx_write_reg_mask io (ucast i2c_register) (ucast data) (ucast msk)"

definition r82xx_get_i2c_register :: "'d i2c_ops \<Rightarrow> nat \<Rightarrow> ('d r82xx_state, int \<times> u8 list) state" where
  "r82xx_get_i2c_register io len = do {
     (rc, data) \<leftarrow> r82xx_read io 0x00 (if len < 5 then len else 5);
     if rc < 0 then ret (rc, data)
     else do {
       p \<leftarrow> State_Monad.get;
       ret (0, data @ map (\<lambda>i. word_of_int (r82xx_read_cache_reg p (int i))) [5..<len]) } }"

text \<open>Data beyond a byte removes the mask from the override, a byte adds it.\<close>

definition r82xx_set_i2c_override :: "'d i2c_ops \<Rightarrow> u32 \<Rightarrow> u32 \<Rightarrow> u32 \<Rightarrow> ('d r82xx_state, int) state" where
  "r82xx_set_i2c_override io i2c_register data msk = do {
     let reg = (ucast i2c_register :: u8);
     let reg_mask = (ucast msk :: u8);
     let reg_val = (ucast data :: u8);
     let i = nat (uint reg - REG_SHADOW_START);
     if REG_SHADOW_START \<le> uint reg \<and> uint reg < REG_SHADOW_START + NUM_REGS then do {
       _ \<leftarrow> State_Monad.update (\<lambda>p.
         if data AND NOT 0xff \<noteq> 0 then
           p\<lparr>r_override_mask := (r_override_mask p)[i := r_override_mask p ! i AND NOT reg_mask],
             r_override_data := (r_override_data p)[i := r_override_data p ! i AND NOT reg_mask]\<rparr>
         else
           p\<lparr>r_override_mask := (r_override_mask p)[i := r_override_mask p ! i OR reg_mask],
             r_override_data := (r_override_data p)[i := (r_override_data p ! i AND NOT reg_mask)
                                                        OR (reg_mask AND reg_val)]\<rparr>);
       r82xx_write_reg_mask_ext io reg 0 0 }
     else ret (-1) }"

subsection \<open>Bandwidth\<close>

record IFinfo =
  if_sharpCorner :: int
  if_bw :: int
  if_fif :: int
  if_fc :: int
  if_reg10Lo :: u8
  if_reg11 :: u8
  if_reg30Hi :: u8

definition IFi :: "IFinfo list" where
  "IFi = map (\<lambda>(sc, bw, fif, fc, r10, r11, r30).
       \<lparr>if_sharpCorner = sc, if_bw = bw, if_fif = fif, if_fc = fc,
        if_reg10Lo = r10, if_reg11 = r11, if_reg30Hi = r30\<rparr>)
     [(3, 290, 1950, -25, 0x0f, 0xe7, 0x00),
      (3, 375, 1870, -13, 0x0f, 0xe8, 0x00),
      (3, 420, 2100, 21, 0x0f, 0xd7, 0x00),
      (3, 470, 1800, -12, 0x0f, 0xe9, 0x00),
      (3, 600, 1700, 6, 0x0f, 0xea, 0x00),
      (3, 860, 1550, 8, 0x0f, 0xeb, 0x00),
      (3, 950, 2200, 5, 0x0f, 0x88, 0x00),
      (3, 1100, 2100, 25, 0x0f, 0x89, 0x00),
      (3, 1200, 1350, 0, 0x0f, 0xee, 0x00),
      (3, 1300, 2050, -7, 0x0f, 0x8a, 0x00),
      (3, 1500 + 3, 1300, -24, 0x0f, 0xef, 0x60),
      (3, 1600, 1900, 0, 0x0f, 0x8b, 0x00),
      (3, 1750 + 3, 1400, 12, 0x0f, 0xcf, 0x60),
      (3, 1800, 1400, 0, 0x0f, 0xaf, 0x00),
      (3, 1950 + 3, 1500, 30, 0x0f, 0x8f, 0x60),
      (3, 2200, 1600, 0, 0x0f, 0x8f, 0x00),
      (3, 3000, 2000, 0, 0x04, 0x8f, 0x00),
      (3, 5000, 3570, 0, 0x0b, 0x6b, 0x00)]"

definition if_edge :: "IFinfo \<Rightarrow> int" where
  "if_edge i = if_bw i * 1000 + (if if_sharpCorner i = 2 then 400 else 0)"

fun choose_if :: "int \<Rightarrow> IFinfo \<Rightarrow> IFinfo list \<Rightarrow> IFinfo" where
  "choose_if bw i [] = i"
| "choose_if bw i (i' # is) = (if bw < (if_edge i' + if_edge i) div 2 then i else choose_if bw i' is)"

text \<open>The applied bandwidth, the three registers and the intermediate frequency.\<close>

definition r82xx_bandwidth :: "int \<Rightarrow> u32 \<times> u8 \<times> u8 \<times> u8 \<times> u32" where
  "r82xx_bandwidth bw =
     (if bw > 7000000 then (8000000, 0x10, 0x0b, 0x60, 4570000)
      else if bw > 6000000 then (7000000, 0x10, 0x2a, 0x60, 4570000)
      else if bw > 4500000 then (6000000, 0x10, 0x6b, 0x60, 3570000)
      else let i = choose_if bw (hd IFi) (tl IFi)
           in (word_of_int (if_bw i * 1000), if_reg10Lo i, if_reg11 i, if_reg30Hi i,
               word_of_int ((if_fif i + if_fc i) * 1000)))"

text \<open>The second result is \<open>*applied_bw\<close>.  The argument \<open>rate\<close> of the function is not used.\<close>

definition r82xx_set_bandwidth :: "'d i2c_ops \<Rightarrow> int \<Rightarrow> int \<Rightarrow> ('d r82xx_state, int \<times> u32) state" where
  "r82xx_set_bandwidth io bw app = do {
     let (applied_bw, reg_0a, reg_0b, reg_1e, int_freq) = r82xx_bandwidth bw;
     if app = 0 then ret (0, applied_bw)
     else do {
       _ \<leftarrow> State_Monad.update (\<lambda>p. p\<lparr>r_int_freq := int_freq\<rparr>);
       rc \<leftarrow> nonneg_then (r82xx_write_reg_mask_ext io 0x0a reg_0a 0x0f)
               (r82xx_write_reg_mask_ext io 0x0b reg_0b 0xef);
       if rc < 0 then ret (rc, applied_bw)
       else do {
         _ \<leftarrow> r82xx_write_reg_mask_ext io 0x1e reg_1e 0x40;
         p \<leftarrow> State_Monad.get;
         ret (sint (r_int_freq p), applied_bw) } } }"

definition r82xx_set_bw_center :: "int \<Rightarrow> ('d r82xx_state, int) state" where
  "r82xx_set_bw_center if_band_center_freq = do {
     _ \<leftarrow> State_Monad.update (\<lambda>p. p\<lparr>r_if_band_center_freq := if_band_center_freq\<rparr>);
     p \<leftarrow> State_Monad.get;
     ret (sint (r_int_freq p)) }"

subsection \<open>Frequency\<close>

definition r82xx_set_sideband :: "'d i2c_ops \<Rightarrow> int \<Rightarrow> ('d r82xx_state, int) state" where
  "r82xx_set_sideband io sideband = do {
     _ \<leftarrow> State_Monad.update (\<lambda>p. p\<lparr>r_sideband := sideband\<rparr>);
     nonneg_then (r82xx_write_reg_mask io 0x07 (push_bit 7 (word_of_int sideband) AND 0x80) 0x80) (ret 0) }"

definition r82xx_get_sideband :: "'z r82xx_priv_scheme \<Rightarrow> int" where
  "r82xx_get_sideband p = r_sideband p"

definition harm_sideband_xor :: "int list" where
  "harm_sideband_xor = [0, 0, 0, 1, 0, 0, 0, 1, 0, 0, 0, 1, 0, 0, 0, 1, 0]"

definition harm_sideband :: "int \<Rightarrow> int option" where
  "harm_sideband h = (if 0 \<le> h \<and> h < 17 then Some (harm_sideband_xor ! nat h) else None)"

definition r82xx_flip_rtl_sideband :: "'z r82xx_priv_scheme \<Rightarrow> int option" where
  "r82xx_flip_rtl_sideband p = harm_sideband (r_tuner_harmonic p)"

text \<open>The local oscillator for an RF frequency, above or below it by the intermediate frequency.\<close>

definition r82xx_lo_freq :: "'z r82xx_priv_scheme \<Rightarrow> int \<Rightarrow> u64 \<Rightarrow> u64" where
  "r82xx_lo_freq p flip freq =
     (if r_sideband p XOR flip \<noteq> 0
      then freq - ucast (r_int_freq p) + word_of_int (r_if_band_center_freq p)
      else freq + ucast (r_int_freq p) + word_of_int (r_if_band_center_freq p))"

definition r82xx_harmonic :: "r82xx_config \<Rightarrow> int" where
  "r82xx_harmonic cfg = (if c_harmonic cfg \<le> 0 then DEFAULT_HARMONIC else c_harmonic cfg)"

text \<open>
  One round of the loop over \<open>nth_harm\<close>: \<open>Inl\<close> when the multiplexer could not be set, otherwise what the PLL
  returned and the frequency of the local oscillator.
\<close>

definition r82xx_tune :: "'d i2c_ops \<Rightarrow> bool \<Rightarrow> u64 \<Rightarrow> ('d r82xx_state, int + int option \<times> u64) state" where
  "r82xx_tune io nth_harm freq = do {
     p \<leftarrow> State_Monad.get;
     let harm = r82xx_harmonic (r_cfg p);
     let tuner_harmonic = (if nth_harm then harm else 0);
     _ \<leftarrow> mark_pll False;
     _ \<leftarrow> State_Monad.update (\<lambda>p. p\<lparr>r_tuner_harmonic := tuner_harmonic, r_rf_freq := freq\<rparr>);
     case harm_sideband tuner_harmonic of
       None \<Rightarrow> ret (Inr (None, 0))
     | Some flip \<Rightarrow> do {
         let lo_freq = r82xx_lo_freq p flip freq;
         let lo_freqHarm = (if nth_harm then word_of_int (uint lo_freq div harm) else ucast lo_freq :: u32);
         rc \<leftarrow> r82xx_set_mux io lo_freq;
         if rc < 0 then ret (Inl rc)
         else do {
           rc \<leftarrow> r82xx_set_pll io lo_freqHarm;
           ret (Inr (rc, lo_freq)) } } }"

text \<open>\<open>rc < 0 || !priv->has_lock\<close> after the PLL.\<close>

definition pll_failed :: "'z r82xx_priv_scheme \<Rightarrow> int \<Rightarrow> bool" where
  "pll_failed p rc \<longleftrightarrow> rc < 0 \<or> \<not> r_has_lock p"

definition r82xx_select_input :: "'d i2c_ops \<Rightarrow> u64 \<Rightarrow> int \<Rightarrow> ('d r82xx_state, int) state" where
  "r82xx_select_input io freq rc = do {
     p \<leftarrow> State_Monad.get;
     let air_cable1_in = (if freq > 345000000 then 0x00 else 0x60);
     if c_rafael_chip (r_cfg p) = CHIP_R828D \<and> air_cable1_in \<noteq> r_input p then do {
       _ \<leftarrow> State_Monad.update (\<lambda>p. p\<lparr>r_input := air_cable1_in\<rparr>);
       r82xx_write_reg_mask io 0x05 air_cable1_in 0x60 }
     else ret rc }"

text \<open>A frequency of zero keeps the last one.\<close>

definition r82xx_set_freq64 :: "'d i2c_ops \<Rightarrow> u64 \<Rightarrow> ('d r82xx_state, int option) state" where
  "r82xx_set_freq64 io freq0 = do {
     p \<leftarrow> State_Monad.get;
     let nth_harm = freq0 > 1770000000;
     let freq = (if freq0 = 0 then r_rf_freq p else freq0);
     r \<leftarrow> r82xx_tune io nth_harm freq;
     p \<leftarrow> State_Monad.get;
     r \<leftarrow> (case r of
            Inr (Some rc, lo_freq) \<Rightarrow>
              if pll_failed p rc \<and> \<not> nth_harm \<and> lo_freq > 1760000000 then r82xx_tune io True freq
              else ret r
          | _ \<Rightarrow> ret r);
     p \<leftarrow> State_Monad.get;
     case r of
       Inl rc \<Rightarrow> ret (Some rc)
     | Inr (None, _) \<Rightarrow> ret None
     | Inr (Some rc, _) \<Rightarrow>
         if pll_failed p rc then ret (Some rc)
         else do { rc \<leftarrow> r82xx_select_input io freq rc; ret (Some rc) } }"

definition r82xx_set_freq :: "'d i2c_ops \<Rightarrow> u32 \<Rightarrow> ('d r82xx_state, int option) state" where
  "r82xx_set_freq io freq = r82xx_set_freq64 io (ucast freq)"

definition r82xx_set_dither :: "int \<Rightarrow> ('d r82xx_state, int) state" where
  "r82xx_set_dither dither = do {
     _ \<leftarrow> State_Monad.update (\<lambda>p. p\<lparr>r_disable_dither := (dither = 0)\<rparr>);
     ret 0 }"

subsection \<open>Standby and initialisation\<close>

definition r82xx_standby :: "'d i2c_ops \<Rightarrow> ('d r82xx_state, int) state" where
  "r82xx_standby io = do {
     p \<leftarrow> State_Monad.get;
     if \<not> r_init_done p then ret 0
     else foldr (\<lambda>(reg, val). nonneg_then (r82xx_write_reg io reg val))
            [(0x06, 0xb1), (0x05, 0xa0), (0x07, 0x3a), (0x08, 0x40), (0x09, 0xc0), (0x0a, 0x36),
             (0x0c, 0x35), (0x0f, 0x68), (0x11, 0x03), (0x17, 0xf4)]
            (do {
              rc \<leftarrow> r82xx_write_reg io 0x19 0x0c;
              _ \<leftarrow> State_Monad.update (\<lambda>p. p\<lparr>r_type := None\<rparr>);
              ret rc }) }"

definition r82xx_reset :: "'d r82xx_state \<Rightarrow> 'd r82xx_state" where
  "r82xx_reset p =
     p\<lparr>r_xtal_cap_sel := XTAL_HIGH_CAP_0P, r_rf_freq := 0, r_if_band_center_freq := 0,
       r_last_if_mode := 0, r_last_manual_gain := 0, r_last_extended_mode := 0,
       r_last_LNA_value := 0, r_last_Mixer_value := 0, r_last_VGA_value := DEFAULT_IF_VGA_VAL,
       r_last_vco_curr := 0xff,
       r_override_data := replicate (nat NUM_REGS) 0, r_override_mask := replicate (nat NUM_REGS) 0\<rparr>"

definition r82xx_init :: "'d i2c_ops \<Rightarrow> ('d r82xx_state, int option) state" where
  "r82xx_init io = do {
     _ \<leftarrow> State_Monad.update r82xx_reset;
     _ \<leftarrow> r82xx_write_arr io 0x05 r82xx_init_array;
     _ \<leftarrow> State_Monad.update (\<lambda>p. p\<lparr>r_last_vco_curr := r82xx_init_array ! (0x12 - 0x05) AND 0xe0\<rparr>);
     rc \<leftarrow> r82xx_set_tv_standard io TUNER_DIGITAL_TV 0;
     case rc of None \<Rightarrow> ret None
     | Some rc \<Rightarrow>
         if rc < 0 then ret (Some rc)
         else do {
           rc \<leftarrow> r82xx_sysfreq_sel io TUNER_DIGITAL_TV;
           _ \<leftarrow> State_Monad.update (\<lambda>p. p\<lparr>r_init_done := True\<rparr>);
           ret (Some rc) } }"

section \<open>The chip\<close>

text \<open>
  A message stores bytes in consecutive registers.  The contract of a chip that answers: messages of up to eight
  bytes are stored, and reading, which always starts at register 0, changes no writable register.
\<close>

primrec burst :: "u8 \<Rightarrow> u8 list \<Rightarrow> (u8 \<Rightarrow> u8) \<Rightarrow> u8 \<Rightarrow> u8" where
  "burst r [] f = f"
| "burst r (v # vs) f = burst (r + 1) vs (f(r := v))"

locale rafael_chip =
  fixes io :: "'d i2c_ops"
    and addr :: u8
    and up :: "'d \<Rightarrow> bool"
    and view :: "'d \<Rightarrow> u8 \<Rightarrow> u8"
  assumes burst_ack: "up d \<Longrightarrow> length vs \<le> 7 \<Longrightarrow>
      result_of (i2c_write io addr (r # vs)) d = int (length vs) + 1"
    and burst_up: "up d \<Longrightarrow> length vs \<le> 7 \<Longrightarrow> up (state_of (i2c_write io addr (r # vs)) d)"
    and burst_view: "up d \<Longrightarrow> length vs \<le> 7 \<Longrightarrow>
      view (state_of (i2c_write io addr (r # vs)) d) = burst r vs (view d)"
    and status_ack: "up d \<Longrightarrow> length bs \<le> 5 \<Longrightarrow>
      fst (result_of (i2c_read io addr bs) d) = int (length bs)
      \<and> length (snd (result_of (i2c_read io addr bs) d)) = length bs"
    and status_up: "up d \<Longrightarrow> length bs \<le> 5 \<Longrightarrow> up (state_of (i2c_read io addr bs) d)"
    and status_view: "up d \<Longrightarrow> length bs \<le> 5 \<Longrightarrow> view (state_of (i2c_read io addr bs) d) = view d"

text \<open>A chip whose PLL locks at every frequency.\<close>

locale locking_chip = rafael_chip +
  assumes status_lock: "up d \<Longrightarrow> 3 \<le> length bs \<Longrightarrow> length bs \<le> 5 \<Longrightarrow>
    r82xx_bitrev (snd (result_of (i2c_read io addr bs) d) ! 2) AND 0x40 \<noteq> 0"

section \<open>The shadow\<close>

text \<open>
  \<open>bus_ok\<close>: the driver has the right chip, arrays of their declared length, and zeros behind the override arrays.
  \<open>shadow_ok\<close>: moreover every register of the chip holds the shadow with the override mixed in.
\<close>

definition bus_ok :: "u8 \<Rightarrow> ('d \<Rightarrow> bool) \<Rightarrow> 'd r82xx_state \<Rightarrow> bool" where
  "bus_ok addr up p \<longleftrightarrow>
     up (r_rtl_dev p) \<and> c_i2c_addr (r_cfg p) = addr \<and> length (r_regs p) = 32 \<and> length (r_buf p) = 33
     \<and> (\<forall>i. fst (r_beyond p i) = 0)"

definition chip_byte :: "'z r82xx_priv_scheme \<Rightarrow> nat \<Rightarrow> u8" where
  "chip_byte p i = override_byte (r_override_mask p ! i, r_override_data p ! i) (r_regs p ! i)"

definition shadow_ok :: "u8 \<Rightarrow> ('d \<Rightarrow> bool) \<Rightarrow> ('d \<Rightarrow> u8 \<Rightarrow> u8) \<Rightarrow> 'd r82xx_state \<Rightarrow> bool" where
  "shadow_ok addr up view p \<longleftrightarrow>
     bus_ok addr up p \<and> length (r_override_mask p) = 32 \<and> length (r_override_data p) = 32
     \<and> (\<forall>i < 27. view (r_rtl_dev p) (of_nat (i + 5)) = chip_byte p i)"

text \<open>What the driver knows, without the transfer buffer and the dongle.\<close>

definition drv :: "'d r82xx_state \<Rightarrow> r82xx_priv" where
  "drv p = (r82xx_priv.truncate p)\<lparr>r_buf := []\<rparr>"

lemma drv_sel [simp]:
  "r_cfg (drv p) = r_cfg p" "r_regs (drv p) = r_regs p" "r_buf (drv p) = []"
  "r_override_data (drv p) = r_override_data p" "r_override_mask (drv p) = r_override_mask p"
  "r_beyond (drv p) = r_beyond p"
  by (simp_all add: drv_def r82xx_priv.truncate_def)

lemma drv_buf [simp]: "drv (p\<lparr>r_buf := b\<rparr>) = drv p" "drv (p\<lparr>r_rtl_dev := d\<rparr>) = drv p"
  by (simp_all add: drv_def r82xx_priv.truncate_def)

lemma drv_regs [simp]: "drv (p\<lparr>r_regs := b\<rparr>) = (drv p)\<lparr>r_regs := b\<rparr>"
  by (simp add: drv_def r82xx_priv.truncate_def)

lemma shadow_store_run:
  "5 \<le> uint reg \<Longrightarrow> uint reg < 37 \<Longrightarrow> length (r_regs p) = 32 \<Longrightarrow>
     run_state (shadow_store reg [v]) p = ((), p\<lparr>r_regs := (r_regs p)[nat (uint reg - 5) := v]\<rparr>)"
  by (simp add: shadow_store_def REG_SHADOW_START_def NUM_REGS_def Let_def upd_conv_take_nth_drop nat_add_distrib Suc_nat_eq_nat_zadd1)


lemma override_byte_zero [simp]: "fst md = 0 \<Longrightarrow> override_byte md b = b"
  by (simp add: override_byte_def)

lemma override_one:
  "5 \<le> uint reg \<Longrightarrow> uint reg < 37 \<Longrightarrow>
     override_bytes p reg 0 [v] =
       [override_byte (r_override_mask p ! nat (uint reg - 5), r_override_data p ! nat (uint reg - 5)) v]"
  by (simp add: override_bytes_def override_at_def REG_SHADOW_START_def NUM_REGS_def)

lemma write_one:
  "r82xx_write_from io reg 0 [v] = do {
     p \<leftarrow> State_Monad.get;
     let msg = reg # override_bytes p reg 0 [v];
     _ \<leftarrow> State_Monad.update (\<lambda>p. p\<lparr>r_buf := msg @ drop 2 (r_buf p)\<rparr>);
     rc \<leftarrow> on_rtl (i2c_write io (c_i2c_addr (r_cfg p)) msg);
     if rc \<noteq> 2 then ret (if rc < 0 then rc else -1) else ret 0 }"
  by (subst r82xx_write_from.simps) (simp add: max_i2c_msg_len_def numeral_2_eq_2)

lemma uint_reg [simp]: "i < 27 \<Longrightarrow> uint (word_of_nat i + 5 :: u8) = int i + 5"
proof -
  assume "i < 27"
  then have "uint (word_of_nat (i + 5) :: u8) = int i + 5"
    by (simp only: uint_nat unat_of_nat) simp
  then show ?thesis by simp
qed

lemma reg_index_eq:
  "i < 27 \<Longrightarrow> 5 \<le> uint reg \<Longrightarrow> word_of_nat i + 5 = reg \<longleftrightarrow> i = nat (uint reg - 5)" for reg :: u8
  using uint_reg [of i] by (auto simp del: uint_reg simp: word_uint_eq_iff)

context rafael_chip
begin

abbreviation "ok \<equiv> shadow_ok addr up view"

text \<open>A single write makes its register agree with the shadow, whatever the register held before.\<close>

lemma write_arr_resync:
  assumes "bus_ok addr up p" "length (r_override_mask p) = 32" "length (r_override_data p) = 32"
    and "\<And>i. i < 27 \<Longrightarrow> i \<noteq> nat (uint reg - 5) \<Longrightarrow> view (r_rtl_dev p) (of_nat (i + 5)) = chip_byte p i"
    and "5 \<le> uint reg" "uint reg < 37"
  shows "result_of (r82xx_write_arr io reg [v]) p = 0"
    and "ok (state_of (r82xx_write_arr io reg [v]) p)"
    and "drv (state_of (r82xx_write_arr io reg [v]) p) = (drv p)\<lparr>r_regs := (r_regs p)[nat (uint reg - 5) := v]\<rparr>"
  using assms
  by (simp_all add: bus_ok_def r82xx_write_arr_def shadow_store_run write_one override_one burst_ack)
     (simp_all add: r82xx_write_arr_def shadow_store_run write_one override_one burst_ack shadow_ok_def bus_ok_def
        burst_up burst_view chip_byte_def nth_list_update reg_index_eq)

lemma write_arr_one:
  assumes "ok p" "5 \<le> uint reg" "uint reg < 37"
  shows "result_of (r82xx_write_arr io reg [v]) p = 0"
    and "ok (state_of (r82xx_write_arr io reg [v]) p)"
    and "drv (state_of (r82xx_write_arr io reg [v]) p) = (drv p)\<lparr>r_regs := (r_regs p)[nat (uint reg - 5) := v]\<rparr>"
  using write_arr_resync [of p reg v] assms by (simp_all add: shadow_ok_def)

end

lemma shadow_ok_set [simp]:
  "shadow_ok addr up view (p\<lparr>r_cfg := c\<rparr>) \<longleftrightarrow> shadow_ok addr up view p" if "c_i2c_addr c = c_i2c_addr (r_cfg p)"
  using that by (simp add: shadow_ok_def bus_ok_def chip_byte_def)

lemma shadow_ok_fields [simp]:
  "shadow_ok addr up view (p\<lparr>r_xtal_cap_sel := a1\<rparr>) \<longleftrightarrow> shadow_ok addr up view p"
  "shadow_ok addr up view (p\<lparr>r_rf_freq := a2\<rparr>) \<longleftrightarrow> shadow_ok addr up view p"
  "shadow_ok addr up view (p\<lparr>r_int_freq := a3\<rparr>) \<longleftrightarrow> shadow_ok addr up view p"
  "shadow_ok addr up view (p\<lparr>r_if_band_center_freq := a4\<rparr>) \<longleftrightarrow> shadow_ok addr up view p"
  "shadow_ok addr up view (p\<lparr>r_fil_cal_code := a5\<rparr>) \<longleftrightarrow> shadow_ok addr up view p"
  "shadow_ok addr up view (p\<lparr>r_input := a6\<rparr>) \<longleftrightarrow> shadow_ok addr up view p"
  "shadow_ok addr up view (p\<lparr>r_last_vco_curr := a6\<rparr>) \<longleftrightarrow> shadow_ok addr up view p"
  "shadow_ok addr up view (p\<lparr>r_has_lock := a7\<rparr>) \<longleftrightarrow> shadow_ok addr up view p"
  "shadow_ok addr up view (p\<lparr>r_tuner_pll_set := a7\<rparr>) \<longleftrightarrow> shadow_ok addr up view p"
  "shadow_ok addr up view (p\<lparr>r_tuner_harmonic := a4\<rparr>) \<longleftrightarrow> shadow_ok addr up view p"
  "shadow_ok addr up view (p\<lparr>r_init_done := a7\<rparr>) \<longleftrightarrow> shadow_ok addr up view p"
  "shadow_ok addr up view (p\<lparr>r_sideband := a4\<rparr>) \<longleftrightarrow> shadow_ok addr up view p"
  "shadow_ok addr up view (p\<lparr>r_disable_dither := a7\<rparr>) \<longleftrightarrow> shadow_ok addr up view p"
  "shadow_ok addr up view (p\<lparr>r_delsys := a3\<rparr>) \<longleftrightarrow> shadow_ok addr up view p"
  "shadow_ok addr up view (p\<lparr>r_type := a8\<rparr>) \<longleftrightarrow> shadow_ok addr up view p"
  "shadow_ok addr up view (p\<lparr>r_bw := a3\<rparr>) \<longleftrightarrow> shadow_ok addr up view p"
  "shadow_ok addr up view (p\<lparr>r_last_if_mode := a4\<rparr>) \<longleftrightarrow> shadow_ok addr up view p"
  "shadow_ok addr up view (p\<lparr>r_last_manual_gain := a4\<rparr>) \<longleftrightarrow> shadow_ok addr up view p"
  "shadow_ok addr up view (p\<lparr>r_last_extended_mode := a4\<rparr>) \<longleftrightarrow> shadow_ok addr up view p"
  "shadow_ok addr up view (p\<lparr>r_last_LNA_value := a4\<rparr>) \<longleftrightarrow> shadow_ok addr up view p"
  "shadow_ok addr up view (p\<lparr>r_last_Mixer_value := a4\<rparr>) \<longleftrightarrow> shadow_ok addr up view p"
  "shadow_ok addr up view (p\<lparr>r_last_VGA_value := a4\<rparr>) \<longleftrightarrow> shadow_ok addr up view p"
  by (simp_all add: shadow_ok_def bus_ok_def chip_byte_def)

context rafael_chip
begin

lemma write_reg:
  assumes "ok p" "5 \<le> uint reg" "uint reg < 37"
  shows "result_of (r82xx_write_reg io reg v) p = 0"
    and "ok (state_of (r82xx_write_reg io reg v) p)"
    and "drv (state_of (r82xx_write_reg io reg v) p) = (drv p)\<lparr>r_regs := (r_regs p)[nat (uint reg - 5) := v]\<rparr>"
  using write_arr_one [OF assms] by (simp_all add: r82xx_write_reg_def)

lemma write_reg_mask:
  assumes "ok p" "5 \<le> uint reg" "uint reg < 37"
  shows "result_of (r82xx_write_reg_mask io reg v m) p = 0"
    and "ok (state_of (r82xx_write_reg_mask io reg v m) p)"
    and "drv (state_of (r82xx_write_reg_mask io reg v m) p) =
      (drv p)\<lparr>r_regs := (r_regs p)[nat (uint reg - 5) := masked (r_regs p ! nat (uint reg - 5)) m v]\<rparr>"
  using write_arr_one [OF assms] assms(2,3)
  by (simp_all add: r82xx_write_reg_mask_def r82xx_read_cache_reg_def REG_SHADOW_START_def NUM_REGS_def
      Let_def masked_def)

lemma status_read:
  assumes "ok p" "n \<le> 5"
  shows "fst (result_of (r82xx_read io reg n) p) = 0"
    and "length (snd (result_of (r82xx_read io reg n) p)) = n"
    and "ok (state_of (r82xx_read io reg n) p)"
    and "drv (state_of (r82xx_read io reg n) p) = drv p"
  using assms status_ack [of "r_rtl_dev p" "take n (drop 1 (r_buf p))"]
    status_up [of "r_rtl_dev p" "take n (drop 1 (r_buf p))"]
    status_view [of "r_rtl_dev p" "take n (drop 1 (r_buf p))"]
  by (simp_all add: r82xx_read_def shadow_ok_def bus_ok_def split_beta chip_byte_def)

lemma preserves_regs [preserves_intros]:
  "5 \<le> uint reg \<Longrightarrow> uint reg < 37 \<Longrightarrow> preserves ok (r82xx_write_reg io reg v)"
  "preserves ok (r82xx_write_reg_mask io reg v m)"
  "preserves ok (r82xx_write_reg_mask_ext io reg v m)"
  "n \<le> 5 \<Longrightarrow> preserves ok (r82xx_read io reg' n)"
proof -
  show m: "preserves ok (r82xx_write_reg_mask io reg v m)"
    using write_reg_mask(2) [of _ reg v m]
    by (cases "5 \<le> uint reg \<and> uint reg < 37")
       (auto simp: preserves_def r82xx_write_reg_mask_def r82xx_read_cache_reg_def REG_SHADOW_START_def
          NUM_REGS_def Let_def)
  show "preserves ok (r82xx_write_reg_mask_ext io reg v m)"
    using m by (simp add: r82xx_write_reg_mask_ext_def)
qed (simp_all add: preserves_def write_reg status_read)

lemma preserves_marks [preserves_intros]:
  "preserves ok (mark_pll b)" "preserves ok (mark_lock b)"
  by (simp_all add: preserves_def mark_pll_def mark_lock_def)

lemma preserves_tuning [preserves_intros]:
  "preserves ok (r82xx_set_mux io f)"
  "preserves ok (yc_fraction io ref frac)"
  "preserves ok (yc_lock io)"
  "preserves ok (vco_current io c)"
  "preserves ok (write_vco_div io nint sdm)"
  unfolding r82xx_set_mux_def yc_fraction_def yc_lock_def vco_current_def write_vco_div_def
  by (intro preserves_intros preserves_update; simp)+

lemma preserves_lock [preserves_intros]:
  "preserves ok (check_lock io c0 c1)"
  "preserves ok (finish_pll io c0 c1)"
  "preserves ok (r82xx_set_pll_yc io freq)"
  unfolding finish_pll_def check_lock_def r82xx_set_pll_yc_def
  by (intro preserves_intros preserves_update; simp)+

lemma preserves_pll [preserves_intros]: "preserves ok (r82xx_set_pll io freq)"
  unfolding r82xx_set_pll_def
  by (intro preserves_intros preserves_update; simp)

lemma preserves_seq [preserves_intros]: "preserves ok (seq_masks io ws)"
  unfolding seq_masks_def
  by (induction ws) (auto intro!: preserves_intros simp: split_beta)

lemma preserves_calibration [preserves_intros]:
  "preserves ok (calibration_round io)"
  unfolding calibration_round_def
  by (intro preserves_intros preserves_update; simp)

lemma preserves_standard [preserves_intros]:
  "preserves ok (r82xx_calibrate io)"
  "preserves ok (r82xx_set_tv_standard io typ delsys)"
  "preserves ok (r82xx_sysfreq_sel io typ)"
  unfolding r82xx_set_tv_standard_def r82xx_calibrate_def r82xx_sysfreq_sel_def
  by (intro preserves_intros preserves_update; simp)+

lemma preserves_gain [preserves_intros]:
  "preserves ok (r82xx_set_if_mode io mode)"
  "preserves ok (r82xx_set_gain io man g ext lna mix vga vga0)"
  unfolding r82xx_set_gain_def r82xx_set_if_mode_def
  by (intro preserves_intros preserves_update; simp)+

lemma preserves_bandwidth [preserves_intros]:
  "preserves ok (r82xx_set_bandwidth io bw app)"
  "preserves ok (r82xx_set_bw_center c)"
  "preserves ok (r82xx_set_sideband io sb)"
  "preserves ok (r82xx_set_dither di)"
  "preserves ok (r82xx_set_i2c_register io a b c')"
  unfolding r82xx_set_bandwidth_def r82xx_set_bw_center_def r82xx_set_sideband_def r82xx_set_dither_def
    r82xx_set_i2c_register_def
  by (intro preserves_intros preserves_update; simp)+

lemma preserves_freq [preserves_intros]:
  "preserves ok (r82xx_tune io nh f)"
  "preserves ok (r82xx_select_input io f rc)"
  "preserves ok (r82xx_set_freq64 io f)"
  unfolding r82xx_set_freq64_def r82xx_tune_def r82xx_select_input_def
  by (intro preserves_intros preserves_update; simp)+

lemma preserves_standby [preserves_intros]: "preserves ok (r82xx_standby io)"
  unfolding r82xx_standby_def foldr.simps prod.case comp_def id_def
  by (intro preserves_intros preserves_update; simp)

end

lemma burst_append: "burst r (xs @ ys) f = burst (r + of_nat (length xs)) ys (burst r xs f)"
  by (induction xs arbitrary: r f) (simp_all add: algebra_simps)

lemma burst_apply:
  "unat r + length vs \<le> 256 \<Longrightarrow>
     burst r vs f x = (if unat r \<le> unat x \<and> unat x < unat r + length vs then vs ! (unat x - unat r) else f x)"
proof (induction vs arbitrary: r f)
  case Nil
  then show ?case by auto
next
  case (Cons v vs)
  show ?case
  proof (cases "vs = []")
    case True
    then show ?thesis by (auto simp: word_unat_eq_iff)
  next
    case False
    then have "0 < length vs" by simp
    then have u: "unat (r + 1) = unat r + 1"
      using Cons.prems by (cases vs) (auto simp: unat_word_ariths)
    have "(f(r := v)) x = (if unat x = unat r then v else f x)"
      by (simp add: word_unat_eq_iff)
    then show ?thesis
      using Cons.IH [of "r + 1" "f(r := v)"] Cons.prems u
      by (auto simp: nth_Cons' simp del: fun_upd_apply)
  qed
qed

lemma length_init_array: "length r82xx_init_array = 27"
  by (simp add: r82xx_init_array_def)

lemma override_bytes_plain:
  assumes "r_override_mask p = replicate 32 0" "\<And>i. fst (r_beyond p i) = 0"
  shows "override_bytes p reg pos bs = bs"
  using assms
  by (intro nth_equalityI) (simp_all add: override_bytes_def override_at_def NUM_REGS_def nat_less_iff)

context rafael_chip
begin

text \<open>A long write with no override reaches the chip in order.\<close>

lemma write_from_plain:
  assumes "bus_ok addr up p" "r_override_mask p = replicate 32 0"
  shows "result_of (r82xx_write_from io reg pos val) p = 0
    \<and> bus_ok addr up (state_of (r82xx_write_from io reg pos val) p)
    \<and> drv (state_of (r82xx_write_from io reg pos val) p) = drv p
    \<and> view (r_rtl_dev (state_of (r82xx_write_from io reg pos val) p)) = burst reg val (view (r_rtl_dev p))"
  using assms
proof (induction "length val" arbitrary: reg pos val p rule: less_induct)
  case less
  define msg where "msg = take 7 val"
  define q where "q = p\<lparr>r_buf := (reg # msg) @ drop (length msg + 1) (r_buf p),
    r_rtl_dev := state_of (i2c_write io addr (reg # msg)) (r_rtl_dev p)\<rparr>"
  have o: "override_bytes p reg pos bs = bs" for bs
    using less.prems by (intro override_bytes_plain) (simp_all add: bus_ok_def)
  have q: "bus_ok addr up q" "r_override_mask q = replicate 32 0" "drv q = drv p"
    "view (r_rtl_dev q) = burst reg msg (view (r_rtl_dev p))"
    using less.prems burst_up [of "r_rtl_dev p" msg reg] burst_view [of "r_rtl_dev p" msg reg]
    by (simp_all add: q_def bus_ok_def msg_def min_def)
  have ack: "result_of (i2c_write io addr (reg # msg)) (r_rtl_dev p) = int (length msg) + 1"
    using less.prems burst_ack [of "r_rtl_dev p" msg reg] by (simp add: bus_ok_def msg_def)
  have size: "(if length val > max_i2c_msg_len - 1 then max_i2c_msg_len - 1 else length val) = length msg"
    "take (length msg) val = msg"
    by (simp_all add: max_i2c_msg_len_def msg_def min_def)
  have step: "run_state (r82xx_write_from io reg pos val) p =
      (if length val > length msg
       then run_state (r82xx_write_from io (reg + of_nat (length msg)) (pos + length msg) (drop (length msg) val)) q
       else (0, q))"
    using less.prems(1) ack
    by (subst r82xx_write_from.simps, simp only: Let_def size) (simp add: o size q_def bus_ok_def)
  show ?case
  proof (cases "length val > length msg")
    case True
    then have "length msg = 7" and "length (drop (length msg) val) < length val"
      by (auto simp: msg_def)
    then show ?thesis
      using less.hyps [OF _ q(1,2), of "drop (length msg) val"] q step True
        burst_append [of reg msg "drop 7 val" "view (r_rtl_dev p)"]
      by (simp add: msg_def)
  next
    case False
    then have "val = msg" by (auto simp: msg_def)
    then show ?thesis using q step False by simp
  qed
qed

text \<open>The initial write brings chip and shadow together.\<close>

lemma init_write_ok:
  assumes "bus_ok addr up p"
  shows "ok (state_of (r82xx_write_arr io 0x05 r82xx_init_array) (r82xx_reset p))"
proof -
  define q where "q = state_of (shadow_store 0x05 r82xx_init_array) (r82xx_reset p)"
  have q: "bus_ok addr up q" "r_override_mask q = replicate 32 0" "r_override_data q = replicate 32 0"
    and r: "take 27 (r_regs q) = r82xx_init_array"
    using assms
    by (simp_all add: q_def shadow_store_def REG_SHADOW_START_def NUM_REGS_def r82xx_reset_def bus_ok_def
        r82xx_init_array_def Let_def)
  have i: "r_regs q ! i = r82xx_init_array ! i" if "i < 27" for i
    using that r by (metis nth_take)
  let ?w = "r82xx_write_from io 0x05 0 r82xx_init_array"
  note w = write_from_plain [OF q(1,2), where reg = "0x05" and pos = 0 and val = r82xx_init_array]
  from w have "bus_ok addr up (state_of ?w q)" and d: "drv (state_of ?w q) = drv q"
    and v: "view (r_rtl_dev (state_of ?w q)) = burst 0x05 r82xx_init_array (view (r_rtl_dev q))"
    by blast+
  moreover have "r_override_mask (state_of ?w q) = r_override_mask q" "r_override_data (state_of ?w q) = r_override_data q"
    "r_regs (state_of ?w q) = r_regs q"
    using arg_cong [OF d, of r_override_mask] arg_cong [OF d, of r_override_data] arg_cong [OF d, of r_regs]
    by simp_all
  moreover have "view (r_rtl_dev (state_of ?w q)) (of_nat (i + 5)) = r_regs q ! i" if "i < 27" for i
  proof -
    have "unat (word_of_nat i + 5 :: u8) = i + 5"
      using uint_reg [OF that] by (simp add: unat_eq_nat_uint)
    then show ?thesis
      using that i by (simp add: v burst_apply length_init_array)
  qed
  ultimately have "ok (state_of ?w q)"
    using q by (simp add: shadow_ok_def chip_byte_def)
  then show ?thesis by (simp add: r82xx_write_arr_def q_def)
qed

end

section \<open>The life of a tuner\<close>

text \<open>One call into the driver after the initialisation, in any order.\<close>

inductive r82xx_step :: "'d i2c_ops \<Rightarrow> 'd r82xx_state \<Rightarrow> 'd r82xx_state \<Rightarrow> bool" for io where
  step_freq: "r82xx_step io p (state_of (r82xx_set_freq64 io freq) p)"
| step_gain: "r82xx_step io p (state_of (r82xx_set_gain io manual gain ext lna mix vga vga0) p)"
| step_if_mode: "r82xx_step io p (state_of (r82xx_set_if_mode io if_mode) p)"
| step_bandwidth: "r82xx_step io p (state_of (r82xx_set_bandwidth io bw app) p)"
| step_bw_center: "r82xx_step io p (state_of (r82xx_set_bw_center centre) p)"
| step_sideband: "r82xx_step io p (state_of (r82xx_set_sideband io sideband) p)"
| step_dither: "r82xx_step io p (state_of (r82xx_set_dither dither) p)"
| step_register: "r82xx_step io p (state_of (r82xx_set_i2c_register io reg data msk) p)"
| step_override: "r82xx_step io p (state_of (r82xx_set_i2c_override io reg data msk) p)"
| step_locked: "r82xx_step io p (state_of (r82xx_is_tuner_locked io) p)"
| step_registers: "len \<le> 37 \<Longrightarrow> r82xx_step io p (state_of (r82xx_get_i2c_register io len) p)"
| step_config: "c_i2c_addr cfg = c_i2c_addr (r_cfg p) \<Longrightarrow> r82xx_step io p (p\<lparr>r_cfg := cfg\<rparr>)"
| step_standby: "r82xx_step io p (state_of (r82xx_standby io) p)"
| step_init: "r82xx_step io p (state_of (r82xx_init io) p)"

inductive_cases r82xx_step_cases: "r82xx_step io p q"

context rafael_chip
begin

lemma preserves_status [preserves_intros]:
  "preserves ok (r82xx_is_tuner_locked io)"
  "preserves ok (r82xx_get_i2c_register io len)"
  unfolding r82xx_is_tuner_locked_def r82xx_get_i2c_register_def
  by (intro preserves_intros; simp)+

lemma preserves_override [preserves_intros]:
  "preserves ok (r82xx_set_i2c_override io reg data msk)"
  unfolding preserves_def
proof (intro allI impI)
  fix p
  assume p: "ok p"
  show "ok (state_of (r82xx_set_i2c_override io reg data msk) p)"
  proof (cases "5 \<le> uint (ucast reg :: u8) \<and> uint (ucast reg :: u8) < 37")
    case True
    define i where "i = nat (uint (ucast reg :: u8) - 5)"
    have sync: "ok (state_of (r82xx_write_reg_mask io (ucast reg) 0 0)
        (p\<lparr>r_override_mask := (r_override_mask p)[i := x], r_override_data := (r_override_data p)[i := y]\<rparr>))" for x y
      using p True write_arr_resync(2) [where reg = "ucast reg"
          and p = "p\<lparr>r_override_mask := (r_override_mask p)[i := x], r_override_data := (r_override_data p)[i := y]\<rparr>"]
      by (simp add: r82xx_write_reg_mask_def r82xx_read_cache_reg_def REG_SHADOW_START_def NUM_REGS_def Let_def
          shadow_ok_def bus_ok_def chip_byte_def i_def)
    then show ?thesis
      using True by (simp add: r82xx_set_i2c_override_def REG_SHADOW_START_def NUM_REGS_def Let_def i_def
          r82xx_write_reg_mask_ext_def)
  next
    case False
    then show ?thesis
      using p by (auto simp: r82xx_set_i2c_override_def REG_SHADOW_START_def NUM_REGS_def Let_def)
  qed
qed

lemma init_ok:
  assumes "bus_ok addr up p"
  shows "ok (state_of (r82xx_init io) p)"
proof -
  define rest where "rest = do {
     _ \<leftarrow> State_Monad.update (\<lambda>p. p\<lparr>r_last_vco_curr := r82xx_init_array ! (0x12 - 0x05) AND 0xe0\<rparr>);
     rc \<leftarrow> r82xx_set_tv_standard io TUNER_DIGITAL_TV 0;
     case rc of None \<Rightarrow> ret None
     | Some rc \<Rightarrow>
         if rc < 0 then ret (Some rc)
         else do {
           rc \<leftarrow> r82xx_sysfreq_sel io TUNER_DIGITAL_TV;
           _ \<leftarrow> State_Monad.update (\<lambda>p. p\<lparr>r_init_done := True\<rparr>);
           ret (Some rc) } }"
  have "preserves ok rest"
    unfolding rest_def by (intro preserves_intros preserves_update; simp)
  then have "ok (state_of rest (state_of (r82xx_write_arr io 0x05 r82xx_init_array) (r82xx_reset p)))"
    using init_write_ok [OF assms] by (simp add: preserves_def)
  then show ?thesis by (simp add: r82xx_init_def rest_def)
qed

lemmas calls_ok =
  preserves_freq(3) [unfolded preserves_def, rule_format] preserves_gain [unfolded preserves_def, rule_format]
  preserves_bandwidth [unfolded preserves_def, rule_format] preserves_override [unfolded preserves_def, rule_format]
  preserves_status [unfolded preserves_def, rule_format] preserves_standby [unfolded preserves_def, rule_format]

lemma step_ok: "r82xx_step io p q \<Longrightarrow> ok p \<Longrightarrow> ok q"
proof (induction rule: r82xx_step.induct)
  case (step_init p)
  then show ?case by (intro init_ok) (simp add: shadow_ok_def)
next
  case (step_config cfg p)
  then show ?case by simp
qed (rule calls_ok, assumption)+

lemma reachable_ok: "(r82xx_step io)\<^sup>*\<^sup>* p q \<Longrightarrow> ok p \<Longrightarrow> ok q"
  by (induction rule: rtranclp_induct) (auto intro: step_ok)

end

section \<open>A simulated chip\<close>

text \<open>Register file and status bytes of a chip whose PLL always locks.\<close>

record rsim =
  rs_regs :: "u8 \<Rightarrow> u8"
  rs_status :: "u8 list"

definition rsim_io :: "rsim i2c_ops" where
  "rsim_io = \<lparr>
     i2c_write = (\<lambda>a bs. State (\<lambda>d. (int (length bs), case bs of [] \<Rightarrow> d
        | r # vs \<Rightarrow> d\<lparr>rs_regs := burst r vs (rs_regs d)\<rparr>))),
     i2c_read = (\<lambda>a bs. State (\<lambda>d. ((int (length bs), map r82xx_bitrev (take (length bs) (rs_status d))), d))),
     tuner_clock = (\<lambda>_. 28800000)\<rparr>"

definition rsim_up :: "rsim \<Rightarrow> bool" where
  "rsim_up d \<longleftrightarrow> rs_status d = [0x69, 0, 0x40, 0, 0x27]"

definition rsim0 :: rsim where
  "rsim0 = \<lparr>rs_regs = (\<lambda>_. 0xff), rs_status = [0x69, 0, 0x40, 0, 0x27]\<rparr>"

definition rsim_cfg :: r82xx_config where
  "rsim_cfg = \<lparr>c_i2c_addr = 0x34, c_vco_curr_min = 0xff, c_vco_curr_max = 0xff, c_vco_algo = 0, c_harmonic = 0,
     c_xtal = 28800000, c_rafael_chip = CHIP_R820T, c_use_predetect = False\<rparr>"

definition rsim_state :: "rsim r82xx_state" where
  "rsim_state = \<lparr>r_cfg = rsim_cfg, r_regs = replicate 32 0, r_buf = replicate 33 0,
     r_override_data = replicate 32 0, r_override_mask = replicate 32 0, r_beyond = (\<lambda>_. (0, 0)),
     r_xtal_cap_sel = XTAL_HIGH_CAP_0P, r_rf_freq = 0, r_int_freq = 0, r_if_band_center_freq = 0,
     r_fil_cal_code = 0, r_input = 0, r_last_vco_curr = 0, r_has_lock = False, r_tuner_pll_set = False,
     r_tuner_harmonic = 0, r_init_done = False, r_sideband = 0, r_disable_dither = False, r_delsys = 0,
     r_type = None, r_bw = 0, r_last_if_mode = 0, r_last_manual_gain = 0, r_last_extended_mode = 0,
     r_last_LNA_value = 0, r_last_Mixer_value = 0, r_last_VGA_value = 0, r_rtl_dev = rsim0\<rparr>"

lemma bitrev_bitrev_lock: "r82xx_bitrev (r82xx_bitrev 0x40) AND 0x40 \<noteq> 0"
  by code_simp

interpretation rsim: locking_chip rsim_io "0x34" rsim_up rs_regs
proof
  fix d :: rsim and bs :: "u8 list"
  assume d: "rsim_up d" and l: "3 \<le> length bs" "length bs \<le> 5"
  obtain n where n: "length bs = Suc (Suc (Suc n))"
    using that [of "length bs - 3"] l(1) by simp
  then show "r82xx_bitrev (snd (result_of (i2c_read rsim_io 0x34 bs) d) ! 2) AND 0x40 \<noteq> 0"
    using d by (simp add: rsim_io_def rsim_up_def bitrev_bitrev_lock)
qed (auto simp: rsim_io_def rsim_up_def)

lemma rsim_bus_ok: "bus_ok 0x34 rsim_up rsim_state"
  by (simp add: bus_ok_def rsim_state_def rsim_cfg_def rsim_up_def rsim0_def)

section \<open>Properties\<close>

text \<open>
  C3. The shadow of an R820T/R828D.  After the initialisation, and after any sequence of calls into the driver (tuning, gains,
  bandwidth, sideband, dithering, register writes and overrides by the user, changes of the configuration, standby, another
  initialisation), every writable register 5 to 31 of the chip holds the byte of the driver's shadow with the bits of the user's override
  forced to the override data.  It holds whatever the calls return, on a chip that answers.
\<close>

theorem r82xx_shadow_invariant:
  assumes "rafael_chip io addr up view" "bus_ok addr up p0"
    and "(r82xx_step io)\<^sup>*\<^sup>* (state_of (r82xx_init io) p0) p"
    and "5 \<le> r" "r < 32"
  shows "up (r_rtl_dev p) \<and> view (r_rtl_dev p) (of_nat r) =
      (r_regs p ! (r - 5) AND NOT (r_override_mask p ! (r - 5)))
      OR (r_override_mask p ! (r - 5) AND r_override_data p ! (r - 5))"
proof -
  have "shadow_ok addr up view p"
    using rafael_chip.reachable_ok [OF assms(1,3) rafael_chip.init_ok [OF assms(1,2)]] .
  then have "up (r_rtl_dev p)" and "\<forall>i < 27. view (r_rtl_dev p) (of_nat (i + 5)) = chip_byte p i"
    unfolding shadow_ok_def bus_ok_def by blast+
  moreover have "r - 5 < 27" "r - 5 + 5 = r"
    using assms(4,5) by simp_all
  ultimately have "up (r_rtl_dev p) \<and> view (r_rtl_dev p) (of_nat r) = chip_byte p (r - 5)"
    by metis
  then show ?thesis
    by (simp add: chip_byte_def override_byte_def)
qed

theorem r82xx_shadow_invariant_witness:
  "\<exists>p. (r82xx_step rsim_io)\<^sup>*\<^sup>* (state_of (r82xx_init rsim_io) rsim_state) p
    \<and> p = state_of (r82xx_set_freq64 rsim_io 100000000)
            (state_of (r82xx_set_i2c_override rsim_io 0x0c 0x0f 0x1f) (state_of (r82xx_init rsim_io) rsim_state))
    \<and> rs_regs (r_rtl_dev p) 0x0c = (r_regs p ! 7 AND NOT (r_override_mask p ! 7)) OR (r_override_mask p ! 7 AND r_override_data p ! 7)"
proof -
  let ?p = "state_of (r82xx_set_i2c_override rsim_io 0x0c 0x0f 0x1f) (state_of (r82xx_init rsim_io) rsim_state)"
  let ?q = "state_of (r82xx_set_freq64 rsim_io 100000000) ?p"
  have "(r82xx_step rsim_io)\<^sup>*\<^sup>* (state_of (r82xx_init rsim_io) rsim_state) ?q"
    by (rule rtranclp.rtrancl_into_rtrancl [OF r_into_rtranclp [of "r82xx_step rsim_io"]])
       (rule step_override, rule step_freq)
  then show ?thesis
    using r82xx_shadow_invariant [OF rsim.rafael_chip_axioms rsim_bus_ok, of ?q 12] by auto
qed

end
