(* ===== verification/C_Double.thy ===== *)
theory C_Double
  imports Complex_Main Prelude "HOL-Library.Log_Nat"
begin

text \<open>
  The \<open>double\<close> and \<open>float\<close> arithmetic of the C sources.  A \<open>double\<close> is the rational number it stands for, and
  every operation rounds its exact result to the nearest number with 53 significant bits, ties to
  even; the exponent is not bounded, which is enough for the magnitudes the drivers compute with.
  A conversion to an integer type truncates towards zero; where the truncated value does not fit,
  which C leaves undefined, the conversion keeps its low bits, as the x86-64 compilers do, and the
  theorems about the callers assume ranges in which this does not happen.
\<close>

section \<open>Model\<close>

text \<open>The exponent \<open>e\<close> with \<open>2 ^ e \<le> q < 2 ^ (e + 1)\<close>, for positive \<open>q\<close>.\<close>

definition dbl_exp :: "rat \<Rightarrow> int" where
  "dbl_exp q =
     (let (n, d) = quotient_of q; k = bitlen n - bitlen d
      in if 2 powi k \<le> q then k else k - 1)"

definition round_even :: "rat \<Rightarrow> int" where
  "round_even r =
     (let f = \<lfloor>r\<rfloor>; d = r - of_int f
      in if d < 1 / 2 then f else if d > 1 / 2 then f + 1 else if even f then f else f + 1)"

definition dbl :: "rat \<Rightarrow> rat" where
  "dbl q =
     (if q = 0 then 0
      else let e = dbl_exp \<bar>q\<bar> - 52 in of_int (round_even (q / 2 powi e)) * 2 powi e)"

text \<open>The same for \<open>float\<close>, with 24 significant bits.\<close>

definition sgl :: "rat \<Rightarrow> rat" where
  "sgl q =
     (if q = 0 then 0
      else let e = dbl_exp \<bar>q\<bar> - 23 in of_int (round_even (q / 2 powi e)) * 2 powi e)"

text \<open>Truncation towards zero, and the conversions to fixed-width integers.\<close>

definition dbl_trunc :: "rat \<Rightarrow> int" where
  "dbl_trunc q = (if 0 \<le> q then \<lfloor>q\<rfloor> else \<lceil>q\<rceil>)"

definition dbl_u32 :: "rat \<Rightarrow> u32" where
  "dbl_u32 q = word_of_int (dbl_trunc q)"

definition dbl_i32 :: "rat \<Rightarrow> int" where
  "dbl_i32 q = sint (word_of_int (dbl_trunc q) :: u32)"

definition dbl_i16 :: "rat \<Rightarrow> int" where
  "dbl_i16 q = sint16 (dbl_trunc q)"

section \<open>Lemmas\<close>

lemma round_even_error: "\<bar>of_int (round_even r) - r\<bar> \<le> 1 / 2"
proof -
  have "0 \<le> r - of_int \<lfloor>r\<rfloor>" "r - of_int \<lfloor>r\<rfloor> < 1" by linarith+
  then show ?thesis by (auto simp: round_even_def Let_def)
qed

lemma round_even_of_int [simp]: "round_even (of_int n) = n"
  by (simp add: round_even_def)

lemma bitlen_powi:
  assumes "0 < x"
  shows "2 powi (bitlen x - 1) \<le> (of_int x :: rat)" "(of_int x :: rat) < 2 powi bitlen x"
proof -
  have b: "2 ^ nat (bitlen x - 1) \<le> x" "x < 2 ^ nat (bitlen x)" "1 \<le> bitlen x"
    using bitlen_bounds [OF assms] assms bitlen_eq_zero_iff [of x] bitlen_nonneg [of x] by linarith+
  then have "2 powi (bitlen x - 1) = (of_int (2 ^ nat (bitlen x - 1)) :: rat)"
    "2 powi bitlen x = (of_int (2 ^ nat (bitlen x)) :: rat)"
    by (simp_all add: power_int_def)
  then show "2 powi (bitlen x - 1) \<le> (of_int x :: rat)" "(of_int x :: rat) < 2 powi bitlen x"
    using b(1,2) by (simp_all only: of_int_le_iff of_int_less_iff)
qed

lemma dbl_exp_bounds:
  assumes "0 < q"
  shows "2 powi (dbl_exp q) \<le> q" "q < 2 powi (dbl_exp q + 1)"
proof -
  obtain n d where nd: "quotient_of q = (n, d)" by fastforce
  have d: "0 < d" using quotient_of_denom_pos [OF nd] .
  have q: "q = of_int n / of_int d" using quotient_of_div [OF nd] .
  then have n: "0 < n" using assms d by (simp add: zero_less_divide_iff)
  define k where "k = bitlen n - bitlen d"
  note bn = bitlen_powi [OF n] and bd = bitlen_powi [OF d]
  have "2 powi (k - 1) * of_int d \<le> (2 :: rat) powi (k - 1) * 2 powi bitlen d"
    using bd(2) by (intro mult_left_mono) simp_all
  also have "\<dots> = 2 powi (bitlen n - 1)"
    by (simp add: k_def flip: power_int_add)
  also have "\<dots> \<le> of_int n" by (fact bn)
  finally have lo: "2 powi (k - 1) \<le> q"
    using d by (simp add: q pos_le_divide_eq)
  have "of_int n < (2 :: rat) powi bitlen n" by (fact bn)
  also have "\<dots> = 2 powi (k + 1) * 2 powi (bitlen d - 1)"
    by (simp add: k_def flip: power_int_add)
  also have "\<dots> \<le> 2 powi (k + 1) * of_int d"
    using bd(1) by (intro mult_left_mono) simp_all
  finally have hi: "q < 2 powi (k + 1)"
    using d by (simp add: q pos_divide_less_eq)
  have "dbl_exp q = (if 2 powi k \<le> q then k else k - 1)"
    by (simp add: dbl_exp_def nd k_def)
  then show "2 powi (dbl_exp q) \<le> q" "q < 2 powi (dbl_exp q + 1)"
    using lo hi by auto
qed

text \<open>The relative error of a rounding.\<close>

lemma dbl_error: "\<bar>dbl q - q\<bar> \<le> \<bar>q\<bar> / 2 ^ 53"
proof (cases "q = 0")
  case True
  then show ?thesis by (simp add: dbl_def)
next
  case False
  define e where "e = dbl_exp \<bar>q\<bar> - 52"
  define u :: rat where "u = 2 powi e"
  have u: "0 < u" by (simp add: u_def)
  have "u * 2 ^ 52 \<le> \<bar>q\<bar>"
    using dbl_exp_bounds(1) [of "\<bar>q\<bar>"] False power_int_add [of "2 :: rat" e 52] by (simp add: u_def e_def)
  have "dbl q - q = (of_int (round_even (q / u)) - q / u) * u"
    using False u by (simp add: dbl_def Let_def u_def e_def left_diff_distrib)
  then have "\<bar>dbl q - q\<bar> \<le> 1 / 2 * u"
    using round_even_error [of "q / u"] u by (simp add: abs_mult)
  also have "\<dots> \<le> \<bar>q\<bar> / 2 ^ 53"
    using \<open>u * 2 ^ 52 \<le> \<bar>q\<bar>\<close> by simp
  finally show ?thesis .
qed

text \<open>Integers of up to 53 bits are exact.\<close>

lemma dbl_of_int [simp]:
  assumes "\<bar>n\<bar> < 2 ^ 53"
  shows "dbl (of_int n) = of_int n"
proof (cases "n = 0")
  case True
  then show ?thesis by (simp add: dbl_def)
next
  case False
  define q :: rat where "q = of_int n"
  define e where "e = dbl_exp \<bar>q\<bar> - 52"
  have "\<bar>q\<bar> < 2 ^ 53"
  proof -
    have "of_int \<bar>n\<bar> < (of_int (2 ^ 53) :: rat)" using assms by (simp only: of_int_less_iff)
    then show ?thesis by (simp add: q_def)
  qed
  then have "2 powi dbl_exp \<bar>q\<bar> < (2 :: rat) powi 53"
    using dbl_exp_bounds(1) [of "\<bar>q\<bar>"] False by (simp add: q_def)
  then have "e \<le> 0"
    using power_int_increasing [of 53 "dbl_exp \<bar>q\<bar>" "2 :: rat"] by (force simp: e_def)
  then have u: "(2 :: rat) powi e = 1 / of_int (2 ^ nat (- e))"
    by (simp add: power_int_def field_simps)
  have "dbl q = of_int (round_even (q / 2 powi e)) * 2 powi e"
    using False by (simp add: dbl_def Let_def e_def q_def)
  also have "q / 2 powi e = of_int (n * 2 ^ nat (- e))"
    unfolding u q_def by simp
  also have "of_int (round_even (of_int (n * 2 ^ nat (- e)))) * 2 powi e = q"
    unfolding u q_def round_even_of_int by simp
  finally show ?thesis by (simp add: q_def)
qed

text \<open>A truncated quotient is the integer quotient when the dividend has at most 53 bits.\<close>

lemma dbl_quotient_floor:
  assumes "0 \<le> a" "a < 2 ^ 53" "0 < b"
  shows "\<lfloor>dbl (of_int a / of_int b)\<rfloor> = a div b"
proof -
  define q :: rat where "q = of_int a / of_int b"
  define n where "n = a div b"
  have err: "\<bar>dbl q - q\<bar> \<le> q / 2 ^ 53"
    using dbl_error [of q] assms by (simp add: q_def)
  show ?thesis
  proof (cases "a mod b = 0")
    case True
    then have "q = of_int n" using assms(3) by (auto simp: q_def n_def)
    moreover have "\<bar>n\<bar> < 2 ^ 53"
      using assms zdiv_less_iff [OF assms(3), of a "2 ^ 53"] mult_left_mono [of 1 b "2 ^ 53"]
      by (simp add: n_def pos_imp_zdiv_nonneg_iff)
    ultimately show ?thesis by (simp add: n_def flip: q_def)
  next
    case False
    define r where "r = a mod b"
    have r: "1 \<le> r" "r \<le> b - 1" "a = n * b + r"
      using False assms(3) pos_mod_sign [OF assms(3), of a] pos_mod_bound [OF assms(3), of a]
      by (simp_all add: r_def n_def)
    have q_r: "q = of_int n + of_int r / of_int b"
      using assms(3) by (simp add: q_def r(3) field_simps)
    have "q / 2 ^ 53 < 1 / of_int b"
    proof -
      have "of_int a < (of_int (2 ^ 53) :: rat)" using assms(2) by (simp only: of_int_less_iff)
      then show ?thesis using assms(3) by (simp add: q_def divide_simps)
    qed
    moreover have "1 / of_int b \<le> (of_int r :: rat) / of_int b" "(of_int r :: rat) / of_int b \<le> 1 - 1 / of_int b"
    proof -
      have "(of_int 1 :: rat) \<le> of_int r" "(of_int r :: rat) \<le> of_int (b - 1)"
        using r by (simp_all only: of_int_le_iff)
      then show "1 / of_int b \<le> (of_int r :: rat) / of_int b" "(of_int r :: rat) / of_int b \<le> 1 - 1 / of_int b"
        using assms(3) by (simp_all add: field_simps)
    qed
    ultimately have "of_int n \<le> dbl q" "dbl q < of_int n + 1"
      using err q_r by linarith+
    then show ?thesis by (simp add: floor_unique n_def flip: q_def)
  qed
qed

lemma dbl_nonneg: "0 \<le> q \<Longrightarrow> 0 \<le> dbl q"
proof -
  assume q: "0 \<le> q"
  then have "q / 2 ^ 53 \<le> q" by (simp add: divide_le_eq)
  then show ?thesis using dbl_error [of q] q by linarith
qed

lemma dbl_minus_of_int: "\<bar>n\<bar> < 2 ^ 53 \<Longrightarrow> dbl (- of_int n) = - of_int n"
  using dbl_of_int [of "- n"] by simp

text \<open>The conversions on values that fit.\<close>

lemma dbl_u32_quotient:
  assumes "0 \<le> a" "a < 2 ^ 53" "0 < b" "a div b < 2 ^ 32"
  shows "uint (dbl_u32 (dbl (of_int a / of_int b))) = a div b"
proof -
  have "0 \<le> dbl (of_int a / of_int b)" using assms by (intro dbl_nonneg) simp
  then show ?thesis
    using assms dbl_quotient_floor [OF assms(1-3)]
    by (simp add: dbl_u32_def dbl_trunc_def uint_word_of_int pos_imp_zdiv_nonneg_iff)
qed

text \<open>The truncated quotient of an integer of either sign.\<close>

lemma round_even_minus: "round_even (- r) = - round_even r"
proof (cases "r = of_int \<lfloor>r\<rfloor>")
  case True
  then have "round_even r = \<lfloor>r\<rfloor>" "round_even (- r) = - \<lfloor>r\<rfloor>"
    using round_even_of_int [of "\<lfloor>r\<rfloor>"] round_even_of_int [of "- \<lfloor>r\<rfloor>"] by simp_all
  then show ?thesis by simp
next
  case False
  then have "\<lfloor>- r\<rfloor> = - \<lfloor>r\<rfloor> - 1"
    by (intro floor_unique) linarith+
  then show ?thesis by (auto simp: round_even_def Let_def)
qed

lemma dbl_minus: "dbl (- q) = - dbl q"
  by (simp add: dbl_def Let_def round_even_minus)

lemma dbl_trunc_minus: "dbl_trunc (- q) = - dbl_trunc q"
  by (cases "q = 0") (auto simp: dbl_trunc_def ceiling_minus floor_minus)

lemma dbl_trunc_quotient:
  assumes "0 \<le> a" "a < 2 ^ 53" "0 < b"
  shows "dbl_trunc (dbl (of_int a / of_int b)) = a div b"
    and "dbl_trunc (dbl (of_int (- a) / of_int b)) = - (a div b)"
proof -
  have "0 \<le> dbl (of_int a / of_int b)" using assms by (intro dbl_nonneg) simp
  then show "dbl_trunc (dbl (of_int a / of_int b)) = a div b"
    using dbl_quotient_floor [OF assms] by (simp add: dbl_trunc_def)
  then show "dbl_trunc (dbl (of_int (- a) / of_int b)) = - (a div b)"
    by (simp add: dbl_minus dbl_trunc_minus)
qed

lemma dbl_i32_eq: "- 2147483648 \<le> dbl_trunc q \<Longrightarrow> dbl_trunc q < 2147483648 \<Longrightarrow> dbl_i32 q = dbl_trunc q"
  by (simp add: dbl_i32_def sint_sbintrunc' signed_take_bit_int_eq_self)

lemma dbl_i16_eq:
  assumes "- 32768 \<le> dbl_trunc q" "dbl_trunc q < 32768"
  shows "dbl_i16 q = dbl_trunc q"
proof (cases "0 \<le> dbl_trunc q")
  case True
  then show ?thesis using assms by (simp add: dbl_i16_def sint16_def wrap16_def)
next
  case False
  then have "dbl_trunc q mod 65536 = dbl_trunc q + 65536"
    using assms mod_add_self2 [of "dbl_trunc q" 65536] mod_pos_pos_trivial [of "dbl_trunc q + 65536" 65536] by simp
  then show ?thesis using assms False by (simp add: dbl_i16_def sint16_def wrap16_def)
qed

end
