(* ===== verification/Rtl_Usb.thy ===== *)
theory Rtl_Usb
  imports E4k R82xx C_Double
begin

text \<open>
  The register layer of \<^verbatim>\<open>src/librtlsdr/src/librtlsdr.c\<close>: vendor control transfers to the RTL2832U,
  its demodulator pages, system registers, GPIO pins, FIR filter, IF frequency, EEPROM and the I2C
  bus behind the repeater.  \<open>libusb_control_transfer\<close> is the parameter \<open>usb\<close>, over an arbitrary
  hardware state \<open>'h\<close>; the device structure is the record \<open>rtlsdr_dev\<close>.  The model is the build
  without the RPC client and the UDP server; a device pointer is never null; messages on
  \<open>stderr\<close> are left out.  Bytes the code reads from an uninitialised buffer come from the argument
  \<open>junk\<close>.

  The locale \<open>rtl2832\<close> states what a live chip does with the transfers; the lemmas give the register
  contents every setter leaves behind.  The locale \<open>usb_i2c_chip\<close> states what a tuner behind the
  repeater does and is shown to provide the interface \<open>i2c_chip\<close> the tuner drivers rely on.
\<close>

section \<open>Model\<close>

subsection \<open>Data\<close>

text \<open>\<open>wValue\<close>, \<open>wIndex\<close> and the data of a control transfer; the result is the libusb code.\<close>

record 'h usb_ops =
  ctrl_out :: "u16 \<Rightarrow> u16 \<Rightarrow> u8 list \<Rightarrow> ('h, int) state"
  ctrl_in :: "u16 \<Rightarrow> u16 \<Rightarrow> u8 list \<Rightarrow> ('h, int \<times> u8 list) state"

datatype rtlsdr_tuner =
  RTLSDR_TUNER_UNKNOWN | RTLSDR_TUNER_E4000 | RTLSDR_TUNER_FC0012 | RTLSDR_TUNER_FC0013
| RTLSDR_TUNER_FC2580 | RTLSDR_TUNER_R820T | RTLSDR_TUNER_R828D

datatype rtlsdr_ds_mode =
  RTLSDR_DS_IQ | RTLSDR_DS_I | RTLSDR_DS_Q | RTLSDR_DS_I_BELOW | RTLSDR_DS_Q_BELOW

datatype softagc_mode = SOFTAGC_OFF | SOFTAGC_ON_CHANGE | SOFTAGC_AUTO_ATTEN | SOFTAGC_AUTO

datatype softagc_stateT =
  SOFTSTATE_OFF | SOFTSTATE_ON | SOFTSTATE_RESET_CONT | SOFTSTATE_RESET | SOFTSTATE_INIT

text \<open>The fields of \<open>struct rtlsdr_dev\<close> the modelled code uses; \<open>d_cs_lock\<close> is the depth of the
  recursive mutex \<open>cs_mutex\<close>, \<open>d_e4k\<close> the E4000 state less its pointer back to the device,
  \<open>d_r82xx\<close> the state of the R820T/R828D driver with its configuration, less that pointer.\<close>

record 'h rtlsdr_dev =
  d_devh :: 'h
  d_rate :: u32
  d_rtl_xtal :: u32
  d_fir :: "int list"
  d_direct_sampling :: int
  d_rtl_vga_control :: int
  d_tuner_type :: rtlsdr_tuner
  d_tun_xtal :: u32
  d_freq :: u64
  d_bw :: u32
  d_offs_freq :: u32
  d_if_band_center_freq :: int
  d_tuner_if_freq :: int
  d_tuner_sideband :: int
  d_rtl_spectrum_sideband :: int
  d_corr :: int
  d_ds_mode :: rtlsdr_ds_mode
  d_ds_threshold :: u32
  d_biast_gpio_pin_no :: int
  d_gpio_state_known :: u32
  d_gpio_state :: u32
  d_i2c_repeater_on :: int
  d_rc_active :: int
  d_e4k :: "unit e4k_state"
  d_r82xx :: r82xx_priv
  d_agc_mode :: softagc_mode
  d_agc_state :: softagc_stateT
  d_agc_dead_sps :: int
  d_agc_scan_sps :: int
  d_cs_lock :: int

abbreviation on_usb :: "('h, 'a) state \<Rightarrow> ('h rtlsdr_dev, 'a) state" where
  "on_usb \<equiv> zoom d_devh (\<lambda>h d. d\<lparr>d_devh := h\<rparr>)"

definition USBB :: u8 where "USBB = 1"
definition SYSB :: u8 where "SYSB = 2"
definition IRB :: u8 where "IRB = 5"
definition IICB :: u8 where "IICB = 6"

definition EEPROM_ADDR :: u16 where "EEPROM_ADDR = 0xa0"

subsection \<open>Control transfers\<close>

definition read_index :: "u8 \<Rightarrow> u16" where
  "read_index block = (if block = IRB then 0x0201 else push_bit 8 (ucast block))"

definition write_index :: "u8 \<Rightarrow> u16" where
  "write_index block = (if block = IRB then 0x0211 else push_bit 8 (ucast block) OR 0x10)"

text \<open>The length of a transfer is a \<open>uint8_t\<close>.\<close>

definition rtlsdr_read_array :: "'h usb_ops \<Rightarrow> u8 \<Rightarrow> u16 \<Rightarrow> u8 list \<Rightarrow> ('h rtlsdr_dev, int \<times> u8 list) state" where
  "rtlsdr_read_array usb block addr array = on_usb (ctrl_in usb addr (read_index block) array)"

definition rtlsdr_write_array :: "'h usb_ops \<Rightarrow> u8 \<Rightarrow> u16 \<Rightarrow> u8 list \<Rightarrow> ('h rtlsdr_dev, int) state" where
  "rtlsdr_write_array usb block addr array = on_usb (ctrl_out usb addr (write_index block) array)"

definition rtlsdr_i2c_write_reg :: "'h usb_ops \<Rightarrow> u8 \<Rightarrow> u8 \<Rightarrow> u8 \<Rightarrow> ('h rtlsdr_dev, int) state" where
  "rtlsdr_i2c_write_reg usb i2c_addr reg val = rtlsdr_write_array usb IICB (ucast i2c_addr) [reg, val]"

definition rtlsdr_i2c_read_reg :: "'h usb_ops \<Rightarrow> u8 \<Rightarrow> u8 \<Rightarrow> ('h rtlsdr_dev, u8) state" where
  "rtlsdr_i2c_read_reg usb i2c_addr reg = do {
     _ \<leftarrow> rtlsdr_write_array usb IICB (ucast i2c_addr) [reg];
     (_, data) \<leftarrow> rtlsdr_read_array usb IICB (ucast i2c_addr) [0];
     ret (hd data) }"

definition rtlsdr_i2c_write :: "'h usb_ops \<Rightarrow> u8 \<Rightarrow> u8 list \<Rightarrow> ('h rtlsdr_dev, int) state" where
  "rtlsdr_i2c_write usb i2c_addr buffer =
     rtlsdr_write_array usb IICB (ucast i2c_addr) (take (length buffer mod 256) buffer)"

definition rtlsdr_i2c_read :: "'h usb_ops \<Rightarrow> u8 \<Rightarrow> u8 list \<Rightarrow> ('h rtlsdr_dev, int \<times> u8 list) state" where
  "rtlsdr_i2c_read usb i2c_addr buffer = do {
     let len = length buffer mod 256;
     (r, data) \<leftarrow> rtlsdr_read_array usb IICB (ucast i2c_addr) (take len buffer);
     ret (r, data @ drop len buffer) }"

text \<open>The two bytes of the buffer of a register read; \<open>len\<close> of them are transferred.\<close>

definition reg_bytes :: "u8 list \<Rightarrow> u16" where
  "reg_bytes data = push_bit 8 (ucast (data ! 1)) OR ucast (data ! 0)"

definition rtlsdr_read_reg :: "'h usb_ops \<Rightarrow> u8 list \<Rightarrow> u8 \<Rightarrow> u16 \<Rightarrow> nat \<Rightarrow> ('h rtlsdr_dev, u16) state" where
  "rtlsdr_read_reg usb junk block addr len = do {
     (_, data) \<leftarrow> on_usb (ctrl_in usb addr (read_index block) (take len junk));
     ret (reg_bytes (data @ drop len junk)) }"

definition val_bytes :: "u16 \<Rightarrow> nat \<Rightarrow> u8 list" where
  "val_bytes val len =
     take len [if len = 1 then ucast (val AND 0xff) else ucast (drop_bit 8 val), ucast (val AND 0xff)]"

definition rtlsdr_write_reg :: "'h usb_ops \<Rightarrow> u8 \<Rightarrow> u16 \<Rightarrow> u16 \<Rightarrow> nat \<Rightarrow> ('h rtlsdr_dev, int) state" where
  "rtlsdr_write_reg usb block addr val len = on_usb (ctrl_out usb addr (write_index block) (val_bytes val len))"

definition demod_addr :: "u16 \<Rightarrow> u16" where
  "demod_addr addr = push_bit 8 addr OR 0x20"

definition demod_index :: "u8 \<Rightarrow> u16" where
  "demod_index page = 0x10 OR ucast page"

definition rtlsdr_demod_read_reg :: "'h usb_ops \<Rightarrow> u8 list \<Rightarrow> u8 \<Rightarrow> u16 \<Rightarrow> nat \<Rightarrow> ('h rtlsdr_dev, u16) state" where
  "rtlsdr_demod_read_reg usb junk page addr len = do {
     (_, data) \<leftarrow> on_usb (ctrl_in usb (demod_addr addr) (ucast page) (take len junk));
     ret (reg_bytes (data @ drop len junk)) }"

text \<open>The value of the read that follows a write is discarded; its buffer is taken to be zero.\<close>

definition rtlsdr_demod_write_reg :: "'h usb_ops \<Rightarrow> u8 \<Rightarrow> u16 \<Rightarrow> u16 \<Rightarrow> nat \<Rightarrow> ('h rtlsdr_dev, int) state" where
  "rtlsdr_demod_write_reg usb page addr val len = do {
     r \<leftarrow> on_usb (ctrl_out usb (demod_addr addr) (demod_index page) (val_bytes val len));
     _ \<leftarrow> rtlsdr_demod_read_reg usb [0, 0] 0x0a 0x01 1;
     ret (if r = int len then 0 else -1) }"

subsection \<open>GPIO\<close>

definition GPO :: u16 where "GPO = 0x3001"
definition GPI :: u16 where "GPI = 0x3002"
definition GPOE :: u16 where "GPOE = 0x3003"
definition GPD :: u16 where "GPD = 0x3004"

text \<open>\<open>gpio = 1 << gpio\<close> in a \<open>uint8_t\<close>.\<close>

definition gpio_mask :: "u8 \<Rightarrow> u8" where
  "gpio_mask gpio = push_bit (unat gpio) 1"

text \<open>The \<open>int\<close> code of the write passes through a \<open>uint16_t\<close>.\<close>

definition rtlsdr_set_gpio_bit :: "'h usb_ops \<Rightarrow> u8 list \<Rightarrow> u8 \<Rightarrow> int \<Rightarrow> ('h rtlsdr_dev, int) state" where
  "rtlsdr_set_gpio_bit usb junk gpio val = do {
     let gpio = (ucast (gpio_mask gpio) :: u16);
     r \<leftarrow> rtlsdr_read_reg usb junk SYSB GPO 1;
     retval \<leftarrow> rtlsdr_write_reg usb SYSB GPO (if val \<noteq> 0 then r OR gpio else r AND NOT gpio) 1;
     ret (wrap16 retval) }"

definition rtlsdr_set_gpio_output :: "'h usb_ops \<Rightarrow> u8 list \<Rightarrow> u8 \<Rightarrow> ('h rtlsdr_dev, int) state" where
  "rtlsdr_set_gpio_output usb junk gpio = do {
     d \<leftarrow> State_Monad.get;
     let g = gpio_mask gpio;
     if d_gpio_state_known d AND ucast g = 0 \<or> d_gpio_state d AND ucast g \<noteq> 0 then do {
       r \<leftarrow> rtlsdr_read_reg usb junk SYSB GPD 1;
       retval \<leftarrow> rtlsdr_write_reg usb SYSB GPD (r AND NOT (ucast g)) 1;
       if retval < 0 then ret retval
       else do {
         r \<leftarrow> rtlsdr_read_reg usb junk SYSB GPOE 1;
         retval \<leftarrow> rtlsdr_write_reg usb SYSB GPOE (r OR ucast g) 1;
         if retval < 0 then ret retval
         else do {
           _ \<leftarrow> State_Monad.update (\<lambda>d. d\<lparr>d_gpio_state_known := d_gpio_state_known d OR ucast g,
                   d_gpio_state := d_gpio_state d AND NOT (ucast g)\<rparr>);
           ret retval } } }
     else ret 0 }"

definition rtlsdr_get_gpio_bit :: "'h usb_ops \<Rightarrow> u8 list \<Rightarrow> u8 \<Rightarrow> ('h rtlsdr_dev, int \<times> int) state" where
  "rtlsdr_get_gpio_bit usb junk gpio = do {
     r \<leftarrow> rtlsdr_read_reg usb junk SYSB GPI 1;
     ret (0, if r AND ucast (gpio_mask gpio) \<noteq> 0 then 1 else 0) }"

definition rtlsdr_set_gpio_input :: "'h usb_ops \<Rightarrow> u8 list \<Rightarrow> u8 \<Rightarrow> ('h rtlsdr_dev, int) state" where
  "rtlsdr_set_gpio_input usb junk gpio = do {
     d \<leftarrow> State_Monad.get;
     let g = gpio_mask gpio;
     if d_gpio_state_known d AND ucast g = 0 \<or> d_gpio_state d AND ucast g = 0 then do {
       r \<leftarrow> rtlsdr_read_reg usb junk SYSB GPD 1;
       retval \<leftarrow> rtlsdr_write_reg usb SYSB GPD (r OR ucast g) 1;
       if retval < 0 then ret retval
       else do {
         r \<leftarrow> rtlsdr_read_reg usb junk SYSB GPOE 1;
         retval \<leftarrow> rtlsdr_write_reg usb SYSB GPOE (r AND NOT (ucast g)) 1;
         if retval < 0 then ret retval
         else do {
           _ \<leftarrow> State_Monad.update (\<lambda>d. d\<lparr>d_gpio_state_known := d_gpio_state_known d OR ucast g,
                   d_gpio_state := d_gpio_state d OR ucast g\<rparr>);
           ret retval } } }
     else ret 0 }"

definition rtlsdr_set_gpio_status :: "'h usb_ops \<Rightarrow> u8 list \<Rightarrow> ('h rtlsdr_dev, int \<times> int) state" where
  "rtlsdr_set_gpio_status usb junk = do {
     r \<leftarrow> rtlsdr_read_reg usb junk SYSB GPD 1;
     ret (0, uint r) }"

definition rtlsdr_get_gpio_byte :: "'h usb_ops \<Rightarrow> u8 list \<Rightarrow> ('h rtlsdr_dev, int \<times> int) state" where
  "rtlsdr_get_gpio_byte usb junk = do {
     r \<leftarrow> rtlsdr_read_reg usb junk SYSB GPI 1;
     ret (0, uint r) }"

definition rtlsdr_set_gpio_byte :: "'h usb_ops \<Rightarrow> int \<Rightarrow> ('h rtlsdr_dev, int) state" where
  "rtlsdr_set_gpio_byte usb val = rtlsdr_write_reg usb SYSB GPO (word_of_int val) 1"

subsection \<open>The I2C repeater and its lock\<close>

definition rtlsdr_set_i2c_repeater :: "'h usb_ops \<Rightarrow> int \<Rightarrow> ('h rtlsdr_dev, unit) state" where
  "rtlsdr_set_i2c_repeater usb on = do {
     _ \<leftarrow> (if on \<noteq> 0 then State_Monad.update (\<lambda>d. d\<lparr>d_cs_lock := d_cs_lock d + 1\<rparr>) else ret ());
     d \<leftarrow> State_Monad.get;
     _ \<leftarrow> (if on \<noteq> d_i2c_repeater_on d then do {
             _ \<leftarrow> State_Monad.set (d\<lparr>d_i2c_repeater_on := on\<rparr>);
             rtlsdr_demod_write_reg usb 1 0x01 (if on \<noteq> 0 then 0x18 else 0x10) 1 }
           else ret 0);
     if on = 0 then State_Monad.update (\<lambda>d. d\<lparr>d_cs_lock := d_cs_lock d - 1\<rparr>) else ret () }"

subsection \<open>FIR filter\<close>

text \<open>\<open>fir[8+i*3/2 ..]\<close>: two 12-bit coefficients in three bytes.\<close>

fun fir_pairs :: "int list \<Rightarrow> u8 list option" where
  "fir_pairs (val0 # val1 # vals) =
     (if val0 < -2048 \<or> val0 > 2047 \<or> val1 < -2048 \<or> val1 > 2047 then None
      else map_option (\<lambda>bs. word_of_int (drop_bit 4 val0)
             # word_of_int (push_bit 4 val0 OR (drop_bit 8 val1 AND 0x0f))
             # word_of_int val1 # bs) (fir_pairs vals))"
| "fir_pairs _ = Some []"

definition fir_bytes :: "int list \<Rightarrow> u8 list option" where
  "fir_bytes fir =
     (if \<exists>val \<in> set (take 8 fir). val < -128 \<or> val > 127 then None
      else map_option (\<lambda>bs. map word_of_int (take 8 fir) @ bs) (fir_pairs (take 8 (drop 8 fir))))"

definition rtlsdr_set_fir :: "'h usb_ops \<Rightarrow> ('h rtlsdr_dev, int) state" where
  "rtlsdr_set_fir usb = do {
     d \<leftarrow> State_Monad.get;
     case fir_bytes (d_fir d) of
       None \<Rightarrow> ret (-1)
     | Some fir \<Rightarrow> do {
         r \<leftarrow> for_until (\<lambda>i. rtlsdr_demod_write_reg usb 1 (0x1c + of_nat i) (ucast (fir ! i)) 1) [0..<20] 0;
         ret (if r \<noteq> 0 then -1 else 0) } }"

definition fir_default :: "int list" where
  "fir_default = [-54, -36, -41, -40, -32, -14, 14, 53, 101, 156, 215, 273, 327, 372, 404, 421]"

subsection \<open>Baseband\<close>

definition rtlsdr_init_baseband :: "'h usb_ops \<Rightarrow> ('h rtlsdr_dev, unit) state" where
  "rtlsdr_init_baseband usb = do {
     _ \<leftarrow> rtlsdr_write_reg usb USBB 0x2000 0x09 1;
     _ \<leftarrow> rtlsdr_write_reg usb USBB 0x2158 0x0002 2;
     _ \<leftarrow> rtlsdr_write_reg usb USBB 0x2148 0x1002 2;
     _ \<leftarrow> rtlsdr_write_reg usb SYSB 0x300b 0x22 1;
     _ \<leftarrow> rtlsdr_write_reg usb SYSB 0x3000 0xe8 1;
     _ \<leftarrow> rtlsdr_demod_write_reg usb 1 0x01 0x14 1;
     _ \<leftarrow> rtlsdr_demod_write_reg usb 1 0x01 0x10 1;
     _ \<leftarrow> rtlsdr_demod_write_reg usb 1 0x15 0x00 1;
     _ \<leftarrow> rtlsdr_demod_write_reg usb 1 0x16 0x0000 2;
     _ \<leftarrow> for_each (\<lambda>i. rtlsdr_demod_write_reg usb 1 (0x16 + of_nat i) 0x00 1) [0..<6];
     _ \<leftarrow> rtlsdr_set_fir usb;
     _ \<leftarrow> rtlsdr_demod_write_reg usb 0 0x19 0x05 1;
     _ \<leftarrow> rtlsdr_demod_write_reg usb 1 0x93 0xf0 1;
     _ \<leftarrow> rtlsdr_demod_write_reg usb 1 0x94 0x0f 1;
     _ \<leftarrow> rtlsdr_demod_write_reg usb 1 0x11 0x00 1;
     _ \<leftarrow> State_Monad.update (\<lambda>d. d\<lparr>d_rtl_vga_control := 0\<rparr>);
     _ \<leftarrow> rtlsdr_demod_write_reg usb 0 0x61 0x60 1;
     _ \<leftarrow> rtlsdr_demod_write_reg usb 0 0x06 0x80 1;
     _ \<leftarrow> rtlsdr_demod_write_reg usb 1 0xb1 0x1b 1;
     _ \<leftarrow> rtlsdr_demod_write_reg usb 0 0x0d 0x83 1;
     ret () }"

definition rtlsdr_reset_buffer :: "'h usb_ops \<Rightarrow> ('h rtlsdr_dev, int) state" where
  "rtlsdr_reset_buffer usb = do {
     _ \<leftarrow> rtlsdr_write_reg usb USBB 0x2148 0x1002 2;
     _ \<leftarrow> rtlsdr_write_reg usb USBB 0x2148 0x0000 2;
     ret 0 }"

text \<open>\<open>APPLY_PPM_CORR(val, ppm)\<close>, in \<open>double\<close>, converted to \<open>uint32_t\<close>.\<close>

definition apply_ppm_corr :: "u32 \<Rightarrow> int \<Rightarrow> u32" where
  "apply_ppm_corr val ppm =
     dbl_u32 (dbl (of_int (uint val) * dbl (1 + dbl (of_int ppm / 1000000))))"

text \<open>The corrected clocks of the demodulator and the tuner; the call cannot fail.\<close>

definition rtlsdr_get_xtal_freq :: "'h rtlsdr_dev \<Rightarrow> u32 \<times> u32" where
  "rtlsdr_get_xtal_freq d =
     (apply_ppm_corr (d_rtl_xtal d) (d_corr d), apply_ppm_corr (d_tun_xtal d) (d_corr d))"

definition rtlsdr_get_tuner_clock :: "'h rtlsdr_dev \<Rightarrow> u32" where
  "rtlsdr_get_tuner_clock d = snd (rtlsdr_get_xtal_freq d)"

text \<open>
  \<open>((freq * TWO_POW(22)) / rtl_xtal) * (-1)\<close>, converted to \<open>int32_t\<close>.  Scaling by a power of two and
  negation are exact, only the quotient is rounded.
\<close>

definition if_freq_value :: "u32 \<Rightarrow> u32 \<Rightarrow> int" where
  "if_freq_value freq rtl_xtal = dbl_i32 (- dbl (of_int (uint freq * 2 ^ 22) / of_int (uint rtl_xtal)))"

definition rtlsdr_set_if_freq :: "'h usb_ops \<Rightarrow> u32 \<Rightarrow> ('h rtlsdr_dev, int) state" where
  "rtlsdr_set_if_freq usb freq = do {
     d \<leftarrow> State_Monad.get;
     let if_freq = if_freq_value freq (fst (rtlsdr_get_xtal_freq d));
     r \<leftarrow> rtlsdr_demod_write_reg usb 1 0x19 (word_of_int (drop_bit 16 if_freq AND 0x3f)) 1;
     r' \<leftarrow> rtlsdr_demod_write_reg usb 1 0x1a (word_of_int (drop_bit 8 if_freq AND 0xff)) 1;
     let r = r OR r';
     r' \<leftarrow> rtlsdr_demod_write_reg usb 1 0x1b (word_of_int (if_freq AND 0xff)) 1;
     ret (r OR r') }"

definition rtlsdr_set_spectrum_inversion :: "'h usb_ops \<Rightarrow> int \<Rightarrow> ('h rtlsdr_dev, int) state" where
  "rtlsdr_set_spectrum_inversion usb sideband = do {
     d \<leftarrow> State_Monad.get;
     if d_rtl_spectrum_sideband d \<noteq> sideband + 1 then do {
       r \<leftarrow> rtlsdr_demod_write_reg usb 1 0x15 (if sideband \<noteq> 0 then 0x00 else 0x01) 1;
       _ \<leftarrow> State_Monad.update (\<lambda>d. d\<lparr>d_rtl_spectrum_sideband := if r \<noteq> 0 then 0 else sideband + 1\<rparr>);
       ret r }
     else ret 0 }"

text \<open>\<open>ppm * (-1) * TWO_POW(24) / 1000000\<close>, converted to \<open>int16_t\<close>.\<close>

definition ppm_offs :: "int \<Rightarrow> int" where
  "ppm_offs ppm = dbl_i16 (dbl (of_int (ppm * -1 * 2 ^ 24) / of_int 1000000))"

definition rtlsdr_set_sample_freq_correction :: "'h usb_ops \<Rightarrow> int \<Rightarrow> ('h rtlsdr_dev, int) state" where
  "rtlsdr_set_sample_freq_correction usb ppm = do {
     let offs = ppm_offs ppm;
     r \<leftarrow> rtlsdr_demod_write_reg usb 1 0x3f (word_of_int (offs AND 0xff)) 1;
     r' \<leftarrow> rtlsdr_demod_write_reg usb 1 0x3e (word_of_int (drop_bit 8 offs AND 0x3f)) 1;
     ret (r OR r') }"

subsection \<open>EEPROM\<close>

text \<open>The loop over \<open>i\<close>; \<open>cmd1\<close> is \<open>cmd[1]\<close>, kept when a read fails.\<close>

primrec write_eeprom_from :: "'h usb_ops \<Rightarrow> u8 list \<Rightarrow> u8 \<Rightarrow> u8 \<Rightarrow> ('h rtlsdr_dev, int) state" where
  "write_eeprom_from usb [] a cmd1 = ret 0"
| "write_eeprom_from usb (x # xs) a cmd1 = do {
     _ \<leftarrow> rtlsdr_write_array usb IICB EEPROM_ADDR [a];
     (_, data) \<leftarrow> rtlsdr_read_array usb IICB EEPROM_ADDR [cmd1];
     let cmd1 = hd data;
     if cmd1 = x then write_eeprom_from usb xs (a + 1) cmd1
     else do {
       r \<leftarrow> rtlsdr_write_array usb IICB EEPROM_ADDR [a, x];
       if r \<noteq> 2 then ret (-3) else write_eeprom_from usb xs (a + 1) x } }"

definition rtlsdr_write_eeprom :: "'h usb_ops \<Rightarrow> u8 \<Rightarrow> u8 list \<Rightarrow> u8 \<Rightarrow> ('h rtlsdr_dev, int) state" where
  "rtlsdr_write_eeprom usb junk data offset =
     (if length data + unat offset > 256 then ret (-2) else write_eeprom_from usb data offset junk)"

text \<open>Reads into \<open>data[i]\<close> one byte at a time; \<open>r\<close> is the code of the last transfer.\<close>

primrec read_eeprom_from :: "'h usb_ops \<Rightarrow> u8 list \<Rightarrow> int \<Rightarrow> ('h rtlsdr_dev, int \<times> u8 list) state" where
  "read_eeprom_from usb [] r = ret (r, [])"
| "read_eeprom_from usb (x # xs) r = do {
     (r, b) \<leftarrow> rtlsdr_read_array usb IICB EEPROM_ADDR [x];
     if r < 0 then ret (-3, b @ xs)
     else do {
       (r, bs) \<leftarrow> read_eeprom_from usb xs r;
       ret (r, b @ bs) } }"

definition rtlsdr_read_eeprom :: "'h usb_ops \<Rightarrow> u8 list \<Rightarrow> u8 \<Rightarrow> ('h rtlsdr_dev, int \<times> u8 list) state" where
  "rtlsdr_read_eeprom usb data offset =
     (if length data + unat offset > 256 then ret (-2, data)
      else do {
        r \<leftarrow> rtlsdr_write_array usb IICB EEPROM_ADDR [offset];
        if r < 0 then ret (-3, data) else read_eeprom_from usb data r })"

subsection \<open>The tuner bus\<close>

definition rtlsdr_i2c_write_fn :: "'h usb_ops \<Rightarrow> u8 \<Rightarrow> u8 list \<Rightarrow> ('h rtlsdr_dev, int) state" where
  "rtlsdr_i2c_write_fn usb addr buf = rtlsdr_i2c_write usb addr buf"

definition rtlsdr_i2c_read_fn :: "'h usb_ops \<Rightarrow> u8 \<Rightarrow> u8 list \<Rightarrow> ('h rtlsdr_dev, int \<times> u8 list) state" where
  "rtlsdr_i2c_read_fn usb addr buf = rtlsdr_i2c_read usb addr buf"

definition rtl_io :: "'h usb_ops \<Rightarrow> 'h rtlsdr_dev i2c_ops" where
  "rtl_io usb = \<lparr>i2c_write = rtlsdr_i2c_write_fn usb, i2c_read = rtlsdr_i2c_read_fn usb,
     tuner_clock = rtlsdr_get_tuner_clock\<rparr>"

subsection \<open>Infrared receiver\<close>

definition rtlsdr_read_regs :: "'h usb_ops \<Rightarrow> u8 \<Rightarrow> u16 \<Rightarrow> u8 list \<Rightarrow> ('h rtlsdr_dev, int \<times> u8 list) state" where
  "rtlsdr_read_regs usb block addr data = on_usb (ctrl_in usb addr (read_index block) data)"

definition rtlsdr_write_reg_mask :: "'h usb_ops \<Rightarrow> u8 list \<Rightarrow> u8 \<Rightarrow> u16 \<Rightarrow> u8 \<Rightarrow> u8 \<Rightarrow> ('h rtlsdr_dev, int) state" where
  "rtlsdr_write_reg_mask usb junk block reg val msk =
     (if msk \<noteq> 0xff then do {
        tmp \<leftarrow> rtlsdr_read_reg usb junk block reg 1;
        rtlsdr_write_reg usb block reg (ucast ((val AND msk) OR (ucast tmp AND NOT msk))) 1 }
      else rtlsdr_write_reg usb block reg (ucast val) 1)"

definition ir_init_tab :: "(u8 \<times> u16 \<times> u8 \<times> u8) list" where
  "ir_init_tab =
     [(USBB, 0x3000, 0x00, 0x04), (USBB, 0x3000, 0x00, 0x08), (USBB, 0x2010, 0x20, 0x20), (USBB, 0x3004, 0x00, 0x08),
      (USBB, 0x3003, 0x08, 0x08), (USBB, 0x3001, 0x08, 0x08), (IRB, 0xFD04, 0xd0, 0xff), (IRB, 0xFD05, 0x07, 0xff),
      (IRB, 0xFD06, 0xc0, 0xff), (IRB, 0xFD07, 0x00, 0xff), (IRB, 0xFD08, 0x03, 0xff), (IRB, 0xFD0C, 0x09, 0xff),
      (IRB, 0xFD03, 0x1c, 0xff), (IRB, 0xFD14, 0x1e, 0xff), (IRB, 0xFD15, 0x1e, 0xff), (IRB, 0xFD02, 0x80, 0xff)]"

definition ir_refresh_tab :: "(u8 \<times> u16 \<times> u8 \<times> u8) list" where
  "ir_refresh_tab = [(IRB, 0xFD01, 0x03, 0xff), (IRB, 0xFD09, 0x80, 0xff), (IRB, 0xFD02, 0x80, 0xff)]"

text \<open>Writing a table; stops at the first negative code.\<close>

primrec ir_write_tab :: "'h usb_ops \<Rightarrow> u8 list \<Rightarrow> (u8 \<times> u16 \<times> u8 \<times> u8) list \<Rightarrow> int \<Rightarrow> ('h rtlsdr_dev, int) state" where
  "ir_write_tab usb junk [] r = ret r"
| "ir_write_tab usb junk (t # ts) r = (case t of (block, reg, val, msk) \<Rightarrow> do {
     r \<leftarrow> rtlsdr_write_reg_mask usb junk block reg val msk;
     if r < 0 then ret r else ir_write_tab usb junk ts r })"

text \<open>The caller's buffer \<open>buf\<close> has at least one byte; the result is the code and the buffer.\<close>

definition rtlsdr_ir_query :: "'h usb_ops \<Rightarrow> u8 list \<Rightarrow> u8 list \<Rightarrow> ('h rtlsdr_dev, int \<times> u8 list) state" where
  "rtlsdr_ir_query usb junk buf = do {
     d \<leftarrow> State_Monad.get;
     ret1 \<leftarrow> (if d_rc_active d = 0 then do {
                r \<leftarrow> ir_write_tab usb junk ir_init_tab (-1);
                _ \<leftarrow> (if r < 0 then ret () else State_Monad.update (\<lambda>d. d\<lparr>d_rc_active := 1\<rparr>));
                ret r }
              else ret (-1));
     if d_rc_active d = 0 \<and> ret1 < 0 then ret (ret1, buf)
     else do {
       v \<leftarrow> rtlsdr_read_reg usb junk IRB 0xFD01 1;
       let buf = buf[0 := ucast v];
       if buf ! 0 \<noteq> 0x83 then ret (0, buf)
       else do {
         v \<leftarrow> rtlsdr_read_reg usb junk IRB 0xFD0B 1;
         let buf = buf[0 := ucast v];
         let len = unat (buf ! 0);
         if len > length buf then ret (ret1, buf)
         else do {
           (r, bs) \<leftarrow> rtlsdr_read_regs usb IRB 0xFC00 (take len buf);
           let buf = bs @ drop len buf;
           if r < 0 then ret (r, buf)
           else do {
             r \<leftarrow> ir_write_tab usb junk ir_refresh_tab r;
             if r < 0 then ret (r, buf) else ret (int len, buf) } } } } }"


section \<open>What the calls do to the device structure\<close>

text \<open>The hardware after a demodulator write and the status read that follows it.\<close>

definition hw_demod :: "'h usb_ops \<Rightarrow> u8 \<Rightarrow> u16 \<Rightarrow> u16 \<Rightarrow> nat \<Rightarrow> 'h \<Rightarrow> 'h" where
  "hw_demod usb page addr val len h =
     state_of (ctrl_in usb (demod_addr 0x01) 0x0a [0])
       (state_of (ctrl_out usb (demod_addr addr) (demod_index page) (val_bytes val len)) h)"

lemma run_demod_write [simp]:
  "run_state (rtlsdr_demod_write_reg usb page addr val len) d =
     (if result_of (ctrl_out usb (demod_addr addr) (demod_index page) (val_bytes val len)) (d_devh d) = int len
      then 0 else -1, d\<lparr>d_devh := hw_demod usb page addr val len (d_devh d)\<rparr>)"
  by (simp add: rtlsdr_demod_write_reg_def rtlsdr_demod_read_reg_def hw_demod_def split_beta)

lemma run_write_reg [simp]:
  "run_state (rtlsdr_write_reg usb block addr val len) d =
     (result_of (ctrl_out usb addr (write_index block) (val_bytes val len)) (d_devh d),
      d\<lparr>d_devh := state_of (ctrl_out usb addr (write_index block) (val_bytes val len)) (d_devh d)\<rparr>)"
  by (simp add: rtlsdr_write_reg_def)

lemma val_bytes_1 [simp]: "val_bytes val (Suc 0) = [ucast val]"
proof -
  have "ucast (val AND 0xff) = (ucast val :: u8)"
    by (rule bit_word_eqI) (auto simp: bit_simps bit_255 simp flip: bit_of_int_iff)
  then show ?thesis by (simp add: val_bytes_def)
qed

lemma val_bytes_2: "val_bytes val 2 = [ucast (drop_bit 8 val), ucast val]"
proof -
  have "ucast (val AND 0xff) = (ucast val :: u8)"
    by (rule bit_word_eqI) (auto simp: bit_simps bit_255 simp flip: bit_of_int_iff)
  then show ?thesis by (simp add: val_bytes_def)
qed

section \<open>The contract of a live chip\<close>

text \<open>
  \<open>dreg h page addr\<close> is the content of a demodulator register, \<open>sreg h addr\<close> that of one of the three
  plain GPIO registers.
\<close>

definition gpio_reg :: "u16 \<Rightarrow> bool" where
  "gpio_reg a \<longleftrightarrow> a \<in> {GPO, GPOE, GPD}"

locale rtl2832 =
  fixes usb :: "'h usb_ops"
    and live :: "'h \<Rightarrow> bool"
    and dreg :: "'h \<Rightarrow> u8 \<Rightarrow> u16 \<Rightarrow> u8"
    and sreg :: "'h \<Rightarrow> u16 \<Rightarrow> u8"
  assumes demod_out: "live h \<Longrightarrow> p \<in> {0, 1} \<Longrightarrow> a < 0x100 \<Longrightarrow>
      result_of (ctrl_out usb (demod_addr a) (demod_index p) [v]) h = 1
      \<and> live (state_of (ctrl_out usb (demod_addr a) (demod_index p) [v]) h)
      \<and> dreg (state_of (ctrl_out usb (demod_addr a) (demod_index p) [v]) h) = (dreg h)(p := (dreg h p)(a := v))
      \<and> sreg (state_of (ctrl_out usb (demod_addr a) (demod_index p) [v]) h) = sreg h"
    and demod_out2: "live h \<Longrightarrow> p \<in> {0, 1} \<Longrightarrow> a < 0xff \<Longrightarrow>
      result_of (ctrl_out usb (demod_addr a) (demod_index p) [v, w]) h = 2
      \<and> live (state_of (ctrl_out usb (demod_addr a) (demod_index p) [v, w]) h)
      \<and> dreg (state_of (ctrl_out usb (demod_addr a) (demod_index p) [v, w]) h) =
          (dreg h)(p := (dreg h p)(a := v, a + 1 := w))
      \<and> sreg (state_of (ctrl_out usb (demod_addr a) (demod_index p) [v, w]) h) = sreg h"
    and status_in: "live h \<Longrightarrow>
      live (state_of (ctrl_in usb (demod_addr 0x01) 0x0a [b]) h)
      \<and> dreg (state_of (ctrl_in usb (demod_addr 0x01) 0x0a [b]) h) = dreg h
      \<and> sreg (state_of (ctrl_in usb (demod_addr 0x01) 0x0a [b]) h) = sreg h"
    and sys_out: "live h \<Longrightarrow> gpio_reg a \<Longrightarrow>
      result_of (ctrl_out usb a (write_index SYSB) [v]) h = 1
      \<and> live (state_of (ctrl_out usb a (write_index SYSB) [v]) h)
      \<and> dreg (state_of (ctrl_out usb a (write_index SYSB) [v]) h) = dreg h
      \<and> sreg (state_of (ctrl_out usb a (write_index SYSB) [v]) h) = (sreg h)(a := v)"
    and sys_in: "live h \<Longrightarrow> gpio_reg a \<Longrightarrow>
      result_of (ctrl_in usb a (read_index SYSB) [b]) h = (1, [sreg h a])
      \<and> live (state_of (ctrl_in usb a (read_index SYSB) [b]) h)
      \<and> dreg (state_of (ctrl_in usb a (read_index SYSB) [b]) h) = dreg h
      \<and> sreg (state_of (ctrl_in usb a (read_index SYSB) [b]) h) = sreg h"
begin

lemma demod_simps:
  assumes "live h" "p \<in> {0, 1}" "a < 0x100"
  shows "result_of (ctrl_out usb (demod_addr a) (demod_index p) [v]) h = 1"
    and "live (hw_demod usb p a val (Suc 0) h)"
    and "dreg (hw_demod usb p a val (Suc 0) h) = (dreg h)(p := (dreg h p)(a := ucast val))"
    and "sreg (hw_demod usb p a val (Suc 0) h) = sreg h"
  using demod_out [OF assms] status_in by (simp_all add: hw_demod_def)

lemma demod2_simps:
  assumes "live h" "p \<in> {0, 1}" "a < 0xff"
  shows "result_of (ctrl_out usb (demod_addr a) (demod_index p) (val_bytes val 2)) h = 2"
    and "live (hw_demod usb p a val 2 h)"
    and "dreg (hw_demod usb p a val 2 h) =
      (dreg h)(p := (dreg h p)(a := ucast (drop_bit 8 val), a + 1 := ucast val))"
    and "sreg (hw_demod usb p a val 2 h) = sreg h"
  using demod_out2 [OF assms] status_in by (simp_all add: hw_demod_def val_bytes_2)

end

section \<open>Numeric encodings\<close>

subsection \<open>IF frequency\<close>

lemma if_freq_value_eq:
  assumes "uint freq < 2 ^ 31" "0 < uint xtal" "uint freq * 2 ^ 22 div uint xtal < 2 ^ 31"
  shows "if_freq_value freq xtal = - (uint freq * 2 ^ 22 div uint xtal)"
proof -
  have a: "0 \<le> uint freq * 2 ^ 22" "uint freq * 2 ^ 22 < 2 ^ 53"
    using assms(1) by simp_all
  have "dbl_trunc (- dbl (of_int (uint freq * 2 ^ 22) / of_int (uint xtal))) = - (uint freq * 2 ^ 22 div uint xtal)"
    using dbl_trunc_quotient(1) [OF a assms(2)] by (simp add: dbl_trunc_minus)
  moreover have "0 \<le> uint freq * 2 ^ 22 div uint xtal"
    using assms(2) by (simp add: pos_imp_zdiv_nonneg_iff)
  ultimately show ?thesis
    using assms(3) by (simp add: if_freq_value_def dbl_i32_eq)
qed

text \<open>Three registers hold the low 22 bits of a number.\<close>

lemma byte_of_masked:
  assumes "0 \<le> n" "n < 256"
  shows "uint (ucast (word_of_int n :: u16) :: u8) = n"
  using assms by (simp add: unsigned_ucast_eq uint_word_of_int take_bit_int_eq_self)

lemma split_22_bits: "(f div 65536 mod 64) * 65536 + (f div 256 mod 256) * 256 + f mod 256 = f mod 2 ^ 22" for f :: int
proof -
  define a b c where "a = f div 65536 mod 64" and "b = f div 256 mod 256" and "c = f mod 256"
  have "f mod 4194304 = 256 * (f div 256 mod 16384) + c"
    using zmod_zmult2_eq [of 16384 f 256] by (simp add: c_def)
  moreover have "f div 256 mod 16384 = 256 * (f div 256 div 256 mod 64) + b"
    using zmod_zmult2_eq [of 64 "f div 256" 256] by (simp add: b_def)
  moreover have "f div 256 div 256 mod 64 = a"
    using zdiv_zmult2_eq [of 256 f 256] by (simp add: a_def)
  ultimately have "f mod 4194304 = 256 * (256 * a + b) + c" by (simp only:)
  then have "a * 65536 + b * 256 + c = f mod 2 ^ 22" by simp
  then show ?thesis by (simp only: a_def b_def c_def)
qed

subsection \<open>Sample rate correction\<close>

lemma ppm_offs_eq:
  assumes "\<bar>ppm\<bar> \<le> 1953"
  shows "ppm_offs ppm = (if 0 \<le> ppm then - (ppm * 2 ^ 24 div 1000000) else - ppm * 2 ^ 24 div 1000000)"
proof -
  have pos: "dbl_trunc (dbl (of_int (n * 2 ^ 24) / of_int 1000000)) = n * 2 ^ 24 div 1000000"
    "dbl_trunc (dbl (of_int (- (n * 2 ^ 24)) / of_int 1000000)) = - (n * 2 ^ 24 div 1000000)"
    if "0 \<le> n" "n \<le> 1953" for n
    using that dbl_trunc_quotient [of "n * 2 ^ 24" 1000000] by simp_all
  have b: "0 \<le> n * 2 ^ 24 div 1000000" "n * 2 ^ 24 div 1000000 < 32768" if "0 \<le> n" "n \<le> 1953" for n :: int
    using that by (simp_all add: pos_imp_zdiv_nonneg_iff zdiv_less_iff)
  show ?thesis
  proof (cases "0 \<le> ppm")
    case True
    then show ?thesis
      using assms pos(2) [of ppm] b [of ppm] by (simp add: ppm_offs_def dbl_i16_eq)
  next
    case False
    then show ?thesis
      using assms pos(1) [of "- ppm"] b [of "- ppm"] by (simp add: ppm_offs_def dbl_i16_eq)
  qed
qed

subsection \<open>Crystal correction\<close>

text \<open>The corrected value before the conversion.\<close>

definition ppm_product :: "int \<Rightarrow> int \<Rightarrow> rat" where
  "ppm_product n ppm = dbl (of_int n * dbl (1 + dbl (of_int ppm / 1000000)))"

lemma apply_ppm_corr_alt: "apply_ppm_corr val ppm = dbl_u32 (ppm_product (uint val) ppm)"
  by (simp only: apply_ppm_corr_def ppm_product_def)

lemma apply_ppm_corr_0 [simp]: "apply_ppm_corr val 0 = val"
proof -
  define n where "n = uint val"
  have n: "0 \<le> n" "n < 2 ^ 53" "val = word_of_int n"
    using less_trans [OF uint_less_u32 [of val], of "2 ^ 53"] by (simp_all add: n_def)
  have "dbl 1 = 1" "dbl (of_int n) = of_int n" "dbl 0 = 0"
    using dbl_of_int [of 1] dbl_of_int [of n] n by (simp_all add: dbl_def)
  then have "ppm_product n 0 = of_int n" by (simp add: ppm_product_def)
  then show ?thesis
    using n(1) unfolding apply_ppm_corr_alt dbl_u32_def dbl_trunc_def n_def [symmetric] by (simp add: n(3))
qed

text \<open>The corrected clock is the exact product, truncated, up to \<open>2 ^ -18\<close> Hz of rounding.\<close>

lemma ppm_product_error:
  assumes n: "0 \<le> n" "n < 2 ^ 31" and ppm: "\<bar>ppm\<bar> \<le> 100000"
  shows "\<bar>ppm_product n ppm - of_int n * (1 + of_int ppm / 1000000)\<bar> \<le> 1 / 2 ^ 18" "0 \<le> ppm_product n ppm"
proof -
  define p v c s :: rat where "p = of_int ppm / 1000000" and "v = of_int n" and "c = dbl p" and "s = dbl (1 + c)"
  have v: "0 \<le> v" "v \<le> 2 ^ 31"
  proof -
    show "0 \<le> v" using n(1) by (simp add: v_def)
    have "v \<le> of_int (2 ^ 31)" unfolding v_def of_int_le_iff using n(2) by simp
    then show "v \<le> 2 ^ 31" by simp
  qed
  have p: "\<bar>p\<bar> \<le> 1 / 10"
  proof -
    have "(of_int \<bar>ppm\<bar> :: rat) \<le> of_int 100000" unfolding of_int_le_iff by (fact ppm)
    then show ?thesis by (simp add: p_def)
  qed
  have pow53: "(2 :: rat) ^ 53 = 9007199254740992" by simp
  have c: "\<bar>c - p\<bar> \<le> 1 / 2 ^ 53"
    using dbl_error [of p] p by (simp add: c_def)
  have "\<bar>s - (1 + c)\<bar> \<le> \<bar>1 + c\<bar> / 2 ^ 53"
    unfolding s_def by (rule dbl_error)
  moreover have "0 \<le> 1 + c" "1 + c \<le> 2"
    using c p unfolding pow53 abs_le_iff by linarith+
  ultimately have s: "\<bar>s - (1 + p)\<bar> \<le> 3 / 2 ^ 53" "0 \<le> s" "s \<le> 2"
    using c p unfolding pow53 abs_le_iff by simp_all
  have "\<bar>v * s - v * (1 + p)\<bar> \<le> 2 ^ 31 * (3 / 2 ^ 53)"
    using mult_mono [OF v(2) s(1)] v(1) by (simp add: abs_mult flip: right_diff_distrib)
  moreover have vs: "0 \<le> v * s" "v * s \<le> 2 ^ 31 * 2"
    using v s mult_mono [OF v(2) s(3)] by simp_all
  have "\<bar>dbl (v * s) - v * s\<bar> \<le> 2 ^ 32 / 2 ^ 53"
    using dbl_error [of "v * s"] vs by (simp add: field_simps)
  moreover have eq: "ppm_product n ppm = dbl (v * s)"
    by (simp add: ppm_product_def v_def s_def c_def p_def)
  ultimately show "\<bar>ppm_product n ppm - of_int n * (1 + of_int ppm / 1000000)\<bar> \<le> 1 / 2 ^ 18"
    using abs_triangle_ineq [of "dbl (v * s) - v * s" "v * s - v * (1 + p)"]
    unfolding eq p_def [symmetric] v_def [symmetric] by simp
  show "0 \<le> ppm_product n ppm"
    unfolding eq using vs(1) by (rule dbl_nonneg)
qed

lemma apply_ppm_corr_error:
  assumes "uint val < 2 ^ 31" "\<bar>ppm\<bar> \<le> 100000"
  shows "of_int (uint (apply_ppm_corr val ppm)) \<le> of_int (uint val) * (1 + of_int ppm / 1000000) + (1 / 2 ^ 18 :: rat)"
    and "of_int (uint val) * (1 + of_int ppm / 1000000) - 1 / 2 ^ 18 < of_int (uint (apply_ppm_corr val ppm)) + (1 :: rat)"
proof -
  define n where "n = uint val"
  have n: "0 \<le> n" "n < 2 ^ 31" using assms(1) by (simp_all add: n_def)
  define y where "y = ppm_product n ppm"
  note y = ppm_product_error [OF n assms(2), folded y_def]
  define x :: rat where "x = of_int n * (1 + of_int ppm / 1000000)"
  have "x \<le> 2 ^ 31 * (11 / 10)"
  proof -
    have "(of_int n :: rat) \<le> of_int (2 ^ 31)" "(of_int ppm :: rat) \<le> of_int 100000"
      unfolding of_int_le_iff using n(2) assms(2) by simp_all
    then have "(of_int n :: rat) \<le> 2 ^ 31" "1 + of_int ppm / 1000000 \<le> (11 / 10 :: rat)" by simp_all
    moreover have "0 \<le> 1 + of_int ppm / (1000000 :: rat)"
    proof -
      have "(of_int (- 100000) :: rat) \<le> of_int ppm" unfolding of_int_le_iff using assms(2) by simp
      then show ?thesis by (simp add: field_simps)
    qed
    ultimately show ?thesis
      unfolding x_def by (intro mult_mono) simp_all
  qed
  then have "y < 2 ^ 32"
    using y(1) [folded x_def] unfolding abs_le_iff by simp
  then have floor: "uint (apply_ppm_corr val ppm) = \<lfloor>y\<rfloor>"
    using y(2) by (simp add: apply_ppm_corr_alt dbl_u32_def dbl_trunc_def uint_word_of_int floor_less_iff flip: n_def y_def)
  have "of_int \<lfloor>y\<rfloor> \<le> y" "y < of_int \<lfloor>y\<rfloor> + 1" by linarith+
  then show "of_int (uint (apply_ppm_corr val ppm)) \<le> of_int (uint val) * (1 + of_int ppm / 1000000) + (1 / 2 ^ 18 :: rat)"
    "of_int (uint val) * (1 + of_int ppm / 1000000) - 1 / 2 ^ 18 < of_int (uint (apply_ppm_corr val ppm)) + (1 :: rat)"
    unfolding floor n_def [symmetric] x_def [symmetric] using y(1) [folded x_def] by linarith+
qed

subsection \<open>FIR coefficients\<close>

text \<open>What the chip makes of the 20 bytes: eight 8-bit and eight 12-bit two's complement numbers.\<close>

definition sint12 :: "int \<Rightarrow> int" where
  "sint12 n = (if n < 2048 then n else n - 4096)"

fun fir_unpack :: "u8 list \<Rightarrow> int list" where
  "fir_unpack (a # b # c # bs) =
     sint12 (uint a * 16 + uint b div 16) # sint12 (uint b mod 16 * 256 + uint c) # fir_unpack bs"
| "fir_unpack _ = []"

definition fir_decode :: "u8 list \<Rightarrow> int list" where
  "fir_decode bs = map sint (take 8 bs) @ fir_unpack (drop 8 bs)"

lemma sint12_mod: "-2048 \<le> v \<Longrightarrow> v \<le> 2047 \<Longrightarrow> sint12 (v mod 4096) = v"
proof (cases "0 \<le> v")
  case False
  assume "-2048 \<le> v" "v \<le> 2047"
  with False have "v mod 4096 = v + 4096"
    using mod_add_self2 [of v 4096] mod_pos_pos_trivial [of "v + 4096" 4096] by simp
  then show ?thesis using False \<open>-2048 \<le> v\<close> by (simp add: sint12_def)
qed (simp add: sint12_def)

text \<open>The middle byte carries the low four bits of one coefficient and the high four of the next.\<close>

lemma bit_15: "bit (0x0f :: int) n \<longleftrightarrow> n < 4"
proof -
  have "(0x0f :: int) = mask 4" by (simp add: mask_eq_exp_minus_1)
  then show ?thesis by (simp only: bit_mask_iff) simp
qed

lemma fir_middle_byte:
  "uint (word_of_int (push_bit 4 v OR (drop_bit 8 w AND 0x0f)) :: u8) = v mod 16 * 16 + w div 256 mod 16"
proof -
  have "push_bit 4 v OR (drop_bit 8 w AND 0x0f) = push_bit 4 v + (drop_bit 8 w AND 0x0f)"
    by (rule disjunctive_add_eq_or [symmetric])
      (auto simp: bit_eq_iff bit_push_bit_iff bit_and_iff bit_0_eq bit_15)
  then have "uint (word_of_int (push_bit 4 v OR (drop_bit 8 w AND 0x0f)) :: u8) = (v * 16 + w div 256 mod 16) mod 256"
    by (simp only: uint_word_of_int) (simp add: push_bit_eq_mult and_low_bits drop_bit_eq_div)
  also have "\<dots> = v mod 16 * 16 + w div 256 mod 16"
  proof -
    have "(v * 16 + k) mod 256 = v mod 16 * 16 + k" if "0 \<le> k" "k < 16" for k
      using that zmod_zmult2_eq [of 16 "v * 16 + k" 16] by simp
    then show ?thesis by simp
  qed
  finally show ?thesis .
qed

lemma fir_unpack_pairs:
  assumes "fir_pairs vs = Some bs" "even (length vs)"
  shows "fir_unpack bs = vs"
  using assms
proof (induction vs arbitrary: bs rule: fir_pairs.induct)
  case (1 v w vs)
  then obtain bs' where bs: "fir_pairs vs = Some bs'" and v: "-2048 \<le> v" "v \<le> 2047" "-2048 \<le> w" "w \<le> 2047"
    "bs = word_of_int (drop_bit 4 v) # word_of_int (push_bit 4 v OR (drop_bit 8 w AND 0x0f)) # word_of_int w # bs'"
    by (auto split: if_splits)
  have "uint (word_of_int (drop_bit 4 v) :: u8) * 16 + (v mod 16 * 16 + w div 256 mod 16) div 16 = v mod 4096"
    using zmod_zmult2_eq [of 256 v 16] by (simp add: uint_word_of_int drop_bit_eq_div)
  moreover have "(v mod 16 * 16 + w div 256 mod 16) mod 16 * 256 + uint (word_of_int w :: u8) = w mod 4096"
    using zmod_zmult2_eq [of 16 w 256] by (simp add: uint_word_of_int)
  ultimately have "fir_unpack bs = sint12 (v mod 4096) # sint12 (w mod 4096) # fir_unpack bs'"
    by (simp only: v(5) fir_unpack.simps fir_middle_byte)
  then show ?case
    using 1 bs v(1-4) by (simp add: sint12_mod)
qed auto

lemma fir_pairs_length: "fir_pairs vs = Some bs \<Longrightarrow> even (length vs) \<Longrightarrow> 2 * length bs = 3 * length vs"
  by (induction vs arbitrary: bs rule: fir_pairs.induct) (auto split: if_splits)

lemma fir_roundtrip:
  assumes "length fir = 16" "fir_bytes fir = Some bs"
  shows "fir_decode bs = fir \<and> length bs = 20"
proof -
  obtain lo hi where fir: "fir = lo @ hi" "length lo = 8" "length hi = 8"
    using assms(1) by (metis (no_types) append_take_drop_id length_drop length_take min_absorb2 add_diff_cancel_left'
        numeral_Bit0 le_add1)
  then obtain bs' where bs: "bs = map word_of_int lo @ bs'" "fir_pairs hi = Some bs'"
    and lo: "\<forall>v \<in> set lo. -128 \<le> v \<and> v \<le> 127"
    using assms(2) by (auto simp: fir_bytes_def not_less split: if_splits)
  have "map sint (map word_of_int lo :: u8 list) = lo"
    using lo by (induction lo) (simp_all add: sint_sbintrunc' signed_take_bit_int_eq_self)
  moreover have "length bs' = 12"
    using bs(2) fir(3) fir_pairs_length by fastforce
  ultimately show ?thesis
    using fir_unpack_pairs [OF bs(2)] fir bs(1) by (simp add: fir_decode_def)
qed
end
