(* ===== verification/Rtl_Chip.thy ===== *)
theory Rtl_Chip
  imports Rtl_Usb
begin

text \<open>
  The register layer on a chip that answers: what each setter of \<^verbatim>\<open>src/librtlsdr/src/librtlsdr.c\<close>
  leaves in the demodulator and GPIO registers under the contract \<open>rtl2832\<close>, the EEPROM under
  \<open>serial_eeprom\<close>, and the provision of the tuner bus \<open>i2c_chip\<close> from \<open>usb_i2c_chip\<close>.  The providers
  of the three contracts are hardware; a simulated dongle discharges them.
\<close>

section \<open>Setters on a live chip\<close>

text \<open>A call that changes nothing of the device structure but the hardware behind it.\<close>

definition only_hw :: "('h rtlsdr_dev, 'a) state \<Rightarrow> 'h rtlsdr_dev \<Rightarrow> bool" where
  "only_hw m d \<longleftrightarrow> state_of m d = d\<lparr>d_devh := d_devh (state_of m d)\<rparr>"

lemma uint_mod_byte: "uint (ucast (word_of_int (n mod 256) :: u16) :: u8) = n mod 256"
  "uint (ucast (word_of_int (n mod 64) :: u16) :: u8) = n mod 64"
proof -
  have "n mod 64 < 64" "n mod 256 < 256" "0 \<le> n mod 64" "0 \<le> n mod 256" by simp_all
  then show "uint (ucast (word_of_int (n mod 256) :: u16) :: u8) = n mod 256"
    "uint (ucast (word_of_int (n mod 64) :: u16) :: u8) = n mod 64"
    by (simp_all only: byte_of_masked)
qed

lemma ucast_u16_u8 [simp]: "ucast (ucast x :: u16) = (x :: u8)"
  by (rule bit_word_eqI) (simp add: bit_simps)

context rtl2832
begin

lemma set_if_freq_regs:
  fixes d :: "'h rtlsdr_dev" and freq :: u32
  assumes "live (d_devh d)"
  defines "f \<equiv> if_freq_value freq (fst (rtlsdr_get_xtal_freq d))" and "m \<equiv> rtlsdr_set_if_freq usb freq"
  shows "result_of m d = 0" "only_hw m d" "live (d_devh (state_of m d))" "sreg (d_devh (state_of m d)) = sreg (d_devh d)"
    and "dreg (d_devh (state_of m d)) = (dreg (d_devh d))(1 := (dreg (d_devh d) 1)(
        0x19 := ucast (word_of_int (f div 65536 mod 64) :: u16),
        0x1a := ucast (word_of_int (f div 256 mod 256) :: u16), 0x1b := ucast (word_of_int (f mod 256) :: u16)))"
  using assms(1) unfolding m_def
  by (simp_all add: rtlsdr_set_if_freq_def Let_def demod_simps and_low_bits drop_bit_eq_div f_def only_hw_def)

lemma set_sample_freq_correction_regs:
  fixes d :: "'h rtlsdr_dev" and ppm :: int
  assumes "live (d_devh d)"
  defines "m \<equiv> rtlsdr_set_sample_freq_correction usb ppm"
  shows "result_of m d = 0" "only_hw m d" "live (d_devh (state_of m d))" "sreg (d_devh (state_of m d)) = sreg (d_devh d)"
    and "dreg (d_devh (state_of m d)) = (dreg (d_devh d))(1 := (dreg (d_devh d) 1)(
        0x3f := ucast (word_of_int (ppm_offs ppm mod 256) :: u16),
        0x3e := ucast (word_of_int (ppm_offs ppm div 256 mod 64) :: u16)))"
  using assms(1) unfolding m_def
  by (simp_all add: rtlsdr_set_sample_freq_correction_def Let_def demod_simps and_low_bits drop_bit_eq_div only_hw_def)

text \<open>The loop that stores the FIR bytes.\<close>

lemma fir_loop:
  fixes d :: "'h rtlsdr_dev" and n :: nat and bs :: "u8 list"
  assumes "live (d_devh d)" "n \<le> 20"
  defines "m \<equiv> for_until (\<lambda>i. rtlsdr_demod_write_reg usb 1 (0x1c + of_nat i) (ucast (bs ! i)) 1) [0..<n] 0"
  shows "result_of m d = 0 \<and> only_hw m d \<and> live (d_devh (state_of m d))
    \<and> (\<forall>p a. p \<noteq> 1 \<longrightarrow> dreg (d_devh (state_of m d)) p a = dreg (d_devh d) p a)
    \<and> (\<forall>a. dreg (d_devh (state_of m d)) 1 a =
        (if 0x1c \<le> uint a \<and> uint a < 0x1c + int n then bs ! nat (uint a - 0x1c) else dreg (d_devh d) 1 a))"
  using assms(2) unfolding m_def
proof (induction n)
  case 0
  then show ?case using assms(1) by (auto simp: only_hw_def)
next
  case (Suc n)
  let ?m = "for_until (\<lambda>i. rtlsdr_demod_write_reg usb 1 (0x1c + of_nat i) (ucast (bs ! i)) 1) [0..<n] 0"
  let ?h = "d_devh (state_of ?m d)"
  have IH: "result_of ?m d = 0" "state_of ?m d = d\<lparr>d_devh := ?h\<rparr>" "live ?h"
    "\<forall>p a. p \<noteq> 1 \<longrightarrow> dreg ?h p a = dreg (d_devh d) p a"
    "\<forall>a. dreg ?h 1 a = (if 0x1c \<le> uint a \<and> uint a < 0x1c + int n then bs ! nat (uint a - 0x1c) else dreg (d_devh d) 1 a)"
    using Suc by (simp_all add: only_hw_def)
  have "uint (of_nat n :: u16) = int n"
    using Suc.prems by (simp add: unsigned_of_nat take_bit_nat_eq_self)
  then have addr: "uint (0x1c + of_nat n :: u16) = 0x1c + int n" "0x1c + of_nat n < (0x100 :: u16)"
    using Suc.prems by (simp_all add: uint_word_ariths word_less_def)
  have a_eq: "a = 0x1c + of_nat n \<longleftrightarrow> uint a = 0x1c + int n" for a :: u16
    unfolding word_uint_eq_iff addr(1) ..
  define h where "h = ?h"
  note hs = demod_simps [OF IH(3) _ addr(2), of 1, folded h_def]
  have "run_state (for_until (\<lambda>i. rtlsdr_demod_write_reg usb 1 (0x1c + of_nat i) (ucast (bs ! i)) 1) [0..<Suc n] 0) d =
      (0, d\<lparr>d_devh := hw_demod usb 1 (0x1c + of_nat n) (ucast (bs ! n)) (Suc 0) h\<rparr>)"
    unfolding upt_Suc_append [OF le0] for_until_append using IH(1) hs(1) by (subst IH(2)) (simp add: h_def)
  then show ?case
    using hs(2,3) IH(4,5) [folded h_def] by (auto simp: only_hw_def a_eq)
qed


lemma set_fir_regs:
  fixes d :: "'h rtlsdr_dev"
  assumes "live (d_devh d)" "fir_bytes (d_fir d) = Some bs" "length bs = 20"
  defines "m \<equiv> rtlsdr_set_fir usb"
  shows "result_of m d = 0 \<and> only_hw m d \<and> live (d_devh (state_of m d))
    \<and> (\<forall>p a. p \<noteq> 1 \<or> a < 0x1c \<or> 0x30 \<le> a \<longrightarrow> dreg (d_devh (state_of m d)) p a = dreg (d_devh d) p a)
    \<and> map (\<lambda>i. dreg (d_devh (state_of m d)) 1 (0x1c + of_nat i)) [0..<20] = bs"
proof -
  define l where "l = for_until (\<lambda>i. rtlsdr_demod_write_reg usb 1 (0x1c + of_nat i) (ucast (bs ! i)) 1) [0..<20] 0"
  note loop = fir_loop [OF assms(1), of 20 bs, folded l_def]
  have run: "run_state m d = (0, state_of l d)"
    using loop assms(2) by (simp add: m_def rtlsdr_set_fir_def l_def)
  have "uint (0x1c + of_nat i :: u16) = 0x1c + int i" if "i < 20" for i
    using that by (simp add: uint_word_ariths unsigned_of_nat take_bit_nat_eq_self)
  then have "map (\<lambda>i. dreg (d_devh (state_of l d)) 1 (0x1c + of_nat i)) [0..<20] = bs"
    using loop assms(3) by (intro nth_equalityI) simp_all
  moreover have "dreg (d_devh (state_of l d)) p a = dreg (d_devh d) p a" if "p \<noteq> 1 \<or> a < 0x1c \<or> 0x30 \<le> a" for p a
    using loop that by (cases "p = 1") (auto simp: word_less_def word_le_def)
  ultimately show ?thesis
    using loop run by (auto simp: only_hw_def)
qed

text \<open>A masked update of a GPIO register through \<open>rtlsdr_read_reg\<close> and \<open>rtlsdr_write_reg\<close>.\<close>

lemma sys_simps:
  assumes "live h" "gpio_reg a"
  shows "result_of (ctrl_out usb a (write_index SYSB) [v]) h = 1"
    "live (state_of (ctrl_out usb a (write_index SYSB) [v]) h)"
    "dreg (state_of (ctrl_out usb a (write_index SYSB) [v]) h) = dreg h"
    "sreg (state_of (ctrl_out usb a (write_index SYSB) [v]) h) = (sreg h)(a := v)"
    "result_of (ctrl_in usb a (read_index SYSB) [b]) h = (1, [sreg h a])"
    "live (state_of (ctrl_in usb a (read_index SYSB) [b]) h)"
    "dreg (state_of (ctrl_in usb a (read_index SYSB) [b]) h) = dreg h"
    "sreg (state_of (ctrl_in usb a (read_index SYSB) [b]) h) = sreg h"
  using sys_out [OF assms] sys_in [OF assms] by simp_all

lemma low_byte_of_reg: "ucast (push_bit 8 (ucast j) OR ucast b :: u16) = (b :: u8)" for j :: u8
  by (rule bit_word_eqI) (auto simp: bit_simps)

lemma read_gpio_reg:
  fixes d :: "'h rtlsdr_dev"
  assumes "live (d_devh d)" "gpio_reg a" "junk = [j0, j1]"
  defines "m \<equiv> rtlsdr_read_reg usb junk SYSB a (Suc 0)"
  shows "ucast (result_of m d) = sreg (d_devh d) a" "only_hw m d" "live (d_devh (state_of m d))"
    "dreg (d_devh (state_of m d)) = dreg (d_devh d)" "sreg (d_devh (state_of m d)) = sreg (d_devh d)"
  using assms(1-3) by (simp_all add: m_def rtlsdr_read_reg_def reg_bytes_def sys_simps only_hw_def low_byte_of_reg)

end

subsection \<open>GPIO\<close>

text \<open>The cached pin directions agree with the chip: 0 in \<open>gpio_state\<close> is an output.\<close>

definition gpio_cache_ok :: "('h \<Rightarrow> u16 \<Rightarrow> u8) \<Rightarrow> 'h rtlsdr_dev \<Rightarrow> bool" where
  "gpio_cache_ok sreg d \<longleftrightarrow> (\<forall>g < 8. bit (d_gpio_state_known d) g \<longrightarrow>
     bit (sreg (d_devh d) GPD) g = bit (d_gpio_state d) g \<and> bit (sreg (d_devh d) GPOE) g \<noteq> bit (d_gpio_state d) g)"

lemma gpio_regs [simp]: "gpio_reg GPO" "gpio_reg GPOE" "gpio_reg GPD" "GPD \<noteq> GPOE" "GPOE \<noteq> GPD" "GPO \<noteq> GPOE" "GPO \<noteq> GPD"
    "GPOE \<noteq> GPO" "GPD \<noteq> GPO"
  by (simp_all add: gpio_reg_def GPO_def GPOE_def GPD_def)

lemma gpio_mask_bits:
  assumes "unat gpio < 8"
  shows "bit (gpio_mask gpio) n \<longleftrightarrow> n = unat gpio"
    and "(w :: u32) AND ucast (gpio_mask gpio) = 0 \<longleftrightarrow> \<not> bit w (unat gpio)"
proof -
  show b: "bit (gpio_mask gpio) n \<longleftrightarrow> n = unat gpio" for n
    using assms by (auto simp: gpio_mask_def bit_simps)
  show "(w :: u32) AND ucast (gpio_mask gpio) = 0 \<longleftrightarrow> \<not> bit w (unat gpio)"
  proof
    assume z: "w AND ucast (gpio_mask gpio) = 0"
    have "bit (w AND ucast (gpio_mask gpio)) (unat gpio) = bit w (unat gpio)"
      using assms by (simp add: bit_and_iff bit_ucast_iff b)
    with z show "\<not> bit w (unat gpio)" by simp
  next
    assume "\<not> bit w (unat gpio)"
    then show "w AND ucast (gpio_mask gpio) = 0"
      by (intro bit_word_eqI) (auto simp: bit_and_iff bit_ucast_iff b)
  qed
qed

lemma ucast_masked_reg:
  "ucast (r AND NOT (ucast g) :: u16) = ucast r AND NOT (g :: u8)" "ucast (r OR ucast g :: u16) = ucast r OR (g :: u8)"
  by (rule bit_word_eqI, auto simp: bit_simps)+

lemma high_byte_0: "ucast (push_bit 8 (ucast j :: u16)) = (0 :: u8)" for j :: u8
  by (rule bit_word_eqI) (auto simp: bit_simps)

text \<open>A read of a system register followed by a write of it.\<close>

definition hw_rmw :: "'h usb_ops \<Rightarrow> u16 \<Rightarrow> u8 \<Rightarrow> u8 \<Rightarrow> 'h \<Rightarrow> 'h" where
  "hw_rmw usb a v b h =
     state_of (ctrl_out usb a (write_index SYSB) [v]) (state_of (ctrl_in usb a (read_index SYSB) [b]) h)"

context rtl2832
begin

text \<open>Both direction calls, when the cache does not already say so: two read-modify-writes.\<close>

lemma set_gpio_output_run:
  assumes "live (d_devh d)" "junk = [j0, j1]" "unat gpio < 8"
  shows "\<exists>h. run_state (rtlsdr_set_gpio_output usb junk gpio) d =
     (if bit (d_gpio_state_known d) (unat gpio) \<and> \<not> bit (d_gpio_state d) (unat gpio) then (0, d)
      else (1, d\<lparr>d_devh := h, d_gpio_state_known := d_gpio_state_known d OR ucast (gpio_mask gpio),
                 d_gpio_state := d_gpio_state d AND NOT (ucast (gpio_mask gpio))\<rparr>))
    \<and> live h \<and> dreg h = dreg (d_devh d) \<and> sreg h = (sreg (d_devh d))(
         GPD := sreg (d_devh d) GPD AND NOT (gpio_mask gpio), GPOE := sreg (d_devh d) GPOE OR gpio_mask gpio)"
proof -
  let ?g = "gpio_mask gpio" and ?h = "d_devh d"
  define h where "h = hw_rmw usb GPOE (sreg ?h GPOE OR ?g) j0 (hw_rmw usb GPD (sreg ?h GPD AND NOT ?g) j0 ?h)"
  have "live h \<and> dreg h = dreg ?h \<and> sreg h = (sreg ?h)(GPD := sreg ?h GPD AND NOT ?g, GPOE := sreg ?h GPOE OR ?g)"
    using assms(1) by (simp add: h_def hw_rmw_def sys_simps)
  moreover have "run_state (rtlsdr_set_gpio_output usb junk gpio) d =
     (if bit (d_gpio_state_known d) (unat gpio) \<and> \<not> bit (d_gpio_state d) (unat gpio) then (0, d)
      else (1, d\<lparr>d_devh := h, d_gpio_state_known := d_gpio_state_known d OR ucast ?g,
                 d_gpio_state := d_gpio_state d AND NOT (ucast ?g)\<rparr>))"
    using assms by (simp add: rtlsdr_set_gpio_output_def rtlsdr_read_reg_def reg_bytes_def Let_def sys_simps
        gpio_mask_bits(2) ucast_masked_reg high_byte_0 h_def hw_rmw_def)
  ultimately show ?thesis by blast
qed

lemma set_gpio_input_run:
  assumes "live (d_devh d)" "junk = [j0, j1]" "unat gpio < 8"
  shows "\<exists>h. run_state (rtlsdr_set_gpio_input usb junk gpio) d =
     (if bit (d_gpio_state_known d) (unat gpio) \<and> bit (d_gpio_state d) (unat gpio) then (0, d)
      else (1, d\<lparr>d_devh := h, d_gpio_state_known := d_gpio_state_known d OR ucast (gpio_mask gpio),
                 d_gpio_state := d_gpio_state d OR ucast (gpio_mask gpio)\<rparr>))
    \<and> live h \<and> dreg h = dreg (d_devh d) \<and> sreg h = (sreg (d_devh d))(
         GPD := sreg (d_devh d) GPD OR gpio_mask gpio, GPOE := sreg (d_devh d) GPOE AND NOT (gpio_mask gpio))"
proof -
  let ?g = "gpio_mask gpio" and ?h = "d_devh d"
  define h where "h = hw_rmw usb GPOE (sreg ?h GPOE AND NOT ?g) j0 (hw_rmw usb GPD (sreg ?h GPD OR ?g) j0 ?h)"
  have "live h \<and> dreg h = dreg ?h \<and> sreg h = (sreg ?h)(GPD := sreg ?h GPD OR ?g, GPOE := sreg ?h GPOE AND NOT ?g)"
    using assms(1) by (simp add: h_def hw_rmw_def sys_simps)
  moreover have "run_state (rtlsdr_set_gpio_input usb junk gpio) d =
     (if bit (d_gpio_state_known d) (unat gpio) \<and> bit (d_gpio_state d) (unat gpio) then (0, d)
      else (1, d\<lparr>d_devh := h, d_gpio_state_known := d_gpio_state_known d OR ucast ?g,
                 d_gpio_state := d_gpio_state d OR ucast ?g\<rparr>))"
    using assms by (simp add: rtlsdr_set_gpio_input_def rtlsdr_read_reg_def reg_bytes_def Let_def sys_simps
        gpio_mask_bits(2) ucast_masked_reg high_byte_0 h_def hw_rmw_def)
  ultimately show ?thesis by blast
qed

lemma set_gpio_bit_run:
  assumes "live (d_devh d)" "junk = [j0, j1]"
  shows "\<exists>h. run_state (rtlsdr_set_gpio_bit usb junk gpio val) d = (1, d\<lparr>d_devh := h\<rparr>)
    \<and> live h \<and> dreg h = dreg (d_devh d) \<and> sreg h = (sreg (d_devh d))(GPO :=
         if val \<noteq> 0 then sreg (d_devh d) GPO OR gpio_mask gpio else sreg (d_devh d) GPO AND NOT (gpio_mask gpio))"
proof -
  let ?h = "d_devh d"
  define h where "h = hw_rmw usb GPO (if val \<noteq> 0 then sreg ?h GPO OR gpio_mask gpio
    else sreg ?h GPO AND NOT (gpio_mask gpio)) j0 ?h"
  have "live h \<and> dreg h = dreg ?h \<and> sreg h = (sreg ?h)(GPO :=
         if val \<noteq> 0 then sreg ?h GPO OR gpio_mask gpio else sreg ?h GPO AND NOT (gpio_mask gpio))"
    using assms(1) by (simp add: h_def hw_rmw_def sys_simps)
  moreover have "run_state (rtlsdr_set_gpio_bit usb junk gpio val) d = (1, d\<lparr>d_devh := h\<rparr>)"
    using assms by (simp add: rtlsdr_set_gpio_bit_def rtlsdr_read_reg_def reg_bytes_def Let_def sys_simps
        ucast_masked_reg high_byte_0 h_def hw_rmw_def wrap16_def)
  ultimately show ?thesis by blast
qed

end

subsection \<open>Repeater\<close>

context rtl2832
begin

lemma set_i2c_repeater_run:
  assumes "live (d_devh d)"
  shows "\<exists>h. state_of (rtlsdr_set_i2c_repeater usb on) d =
      d\<lparr>d_devh := h, d_i2c_repeater_on := on, d_cs_lock := d_cs_lock d + (if on \<noteq> 0 then 1 else -1)\<rparr>
    \<and> live h \<and> sreg h = sreg (d_devh d)
    \<and> dreg h = (if on = d_i2c_repeater_on d then dreg (d_devh d)
         else (dreg (d_devh d))(1 := (dreg (d_devh d) 1)(0x01 := if on \<noteq> 0 then 0x18 else 0x10)))"
proof (cases "on = d_i2c_repeater_on d")
  case True
  then show ?thesis
    using assms by (intro exI [of _ "d_devh d"]) (simp add: rtlsdr_set_i2c_repeater_def)
next
  case False
  then show ?thesis
    using assms
    by (intro exI [of _ "hw_demod usb 1 0x01 (if on \<noteq> 0 then 0x18 else 0x10) (Suc 0) (d_devh d)"])
      (simp add: rtlsdr_set_i2c_repeater_def demod_simps)
qed

end

section \<open>EEPROM\<close>

text \<open>
  The contract of a serial EEPROM at its bus address: a one-byte write sets the address pointer, a
  two-byte write stores a byte, a read returns the byte at the pointer and advances it.
\<close>

locale serial_eeprom =
  fixes usb :: "'h usb_ops"
    and live :: "'h \<Rightarrow> bool"
    and rom :: "'h \<Rightarrow> u8 \<Rightarrow> u8"
    and ptr :: "'h \<Rightarrow> u8"
  assumes select: "live h \<Longrightarrow> result_of (ctrl_out usb EEPROM_ADDR (write_index IICB) [a]) h = 1
      \<and> live (state_of (ctrl_out usb EEPROM_ADDR (write_index IICB) [a]) h)
      \<and> rom (state_of (ctrl_out usb EEPROM_ADDR (write_index IICB) [a]) h) = rom h
      \<and> ptr (state_of (ctrl_out usb EEPROM_ADDR (write_index IICB) [a]) h) = a"
    and store: "live h \<Longrightarrow> result_of (ctrl_out usb EEPROM_ADDR (write_index IICB) [a, x]) h = 2
      \<and> live (state_of (ctrl_out usb EEPROM_ADDR (write_index IICB) [a, x]) h)
      \<and> rom (state_of (ctrl_out usb EEPROM_ADDR (write_index IICB) [a, x]) h) = (rom h)(a := x)"
    and fetch: "live h \<Longrightarrow> result_of (ctrl_in usb EEPROM_ADDR (read_index IICB) [b]) h = (1, [rom h (ptr h)])
      \<and> live (state_of (ctrl_in usb EEPROM_ADDR (read_index IICB) [b]) h)
      \<and> rom (state_of (ctrl_in usb EEPROM_ADDR (read_index IICB) [b]) h) = rom h
      \<and> ptr (state_of (ctrl_in usb EEPROM_ADDR (read_index IICB) [b]) h) = ptr h + 1"
begin

lemma eeprom_simps:
  assumes "live h"
  shows "result_of (ctrl_out usb EEPROM_ADDR (write_index IICB) [a]) h = 1"
    "live (state_of (ctrl_out usb EEPROM_ADDR (write_index IICB) [a]) h)"
    "rom (state_of (ctrl_out usb EEPROM_ADDR (write_index IICB) [a]) h) = rom h"
    "ptr (state_of (ctrl_out usb EEPROM_ADDR (write_index IICB) [a]) h) = a"
    "result_of (ctrl_out usb EEPROM_ADDR (write_index IICB) [a, x]) h = 2"
    "live (state_of (ctrl_out usb EEPROM_ADDR (write_index IICB) [a, x]) h)"
    "rom (state_of (ctrl_out usb EEPROM_ADDR (write_index IICB) [a, x]) h) = (rom h)(a := x)"
    "result_of (ctrl_in usb EEPROM_ADDR (read_index IICB) [b]) h = (1, [rom h (ptr h)])"
    "live (state_of (ctrl_in usb EEPROM_ADDR (read_index IICB) [b]) h)"
    "rom (state_of (ctrl_in usb EEPROM_ADDR (read_index IICB) [b]) h) = rom h"
    "ptr (state_of (ctrl_in usb EEPROM_ADDR (read_index IICB) [b]) h) = ptr h + 1"
  using select [OF assms] store [OF assms] fetch [OF assms] by simp_all

text \<open>The bytes at consecutive addresses.\<close>

lemma write_eeprom_from_rom:
  assumes "live (d_devh d)" "unat a + length xs \<le> 256"
  shows "result_of (write_eeprom_from usb xs a c) d = 0
    \<and> live (d_devh (state_of (write_eeprom_from usb xs a c) d))
    \<and> (\<forall>k. rom (d_devh (state_of (write_eeprom_from usb xs a c) d)) k =
         (if unat a \<le> unat k \<and> unat k < unat a + length xs then xs ! (unat k - unat a) else rom (d_devh d) k))"
  using assms
proof (induction xs arbitrary: d a c)
  case Nil
  then show ?case by auto
next
  case (Cons x xs)
  have step: "unat (a + 1) + length xs \<le> 256"
      "(unat (a + 1) \<le> unat k \<and> unat k < unat (a + 1) + length xs) \<longleftrightarrow> (unat a < unat k \<and> unat k < unat a + length (x # xs))"
      "unat a < unat k \<Longrightarrow> unat k < unat a + length (x # xs) \<Longrightarrow> xs ! (unat k - unat (a + 1)) = (x # xs) ! (unat k - unat a)"
    for k :: u8
  proof -
    have "unat (a + 1) = unat a + 1 \<or> (unat (a + 1) = 0 \<and> xs = [])"
      using Cons.prems(2) by (cases "unat a = 255"; cases xs) (auto simp: unat_word_ariths)
    then show "unat (a + 1) + length xs \<le> 256"
      "(unat (a + 1) \<le> unat k \<and> unat k < unat (a + 1) + length xs) \<longleftrightarrow> (unat a < unat k \<and> unat k < unat a + length (x # xs))"
      "unat a < unat k \<Longrightarrow> unat k < unat a + length (x # xs) \<Longrightarrow> xs ! (unat k - unat (a + 1)) = (x # xs) ! (unat k - unat a)"
      using Cons.prems(2) by (auto simp: nth_Cons')
  qed
  let ?h1 = "state_of (ctrl_in usb EEPROM_ADDR (read_index IICB) [c])
    (state_of (ctrl_out usb EEPROM_ADDR (write_index IICB) [a]) (d_devh d))"
  let ?h2 = "state_of (ctrl_out usb EEPROM_ADDR (write_index IICB) [a, x]) ?h1"
  define h where "h = (if rom (d_devh d) a = x then ?h1 else ?h2)"
  have h: "live h" "rom h = (rom (d_devh d))(a := x)"
    using Cons.prems(1) by (auto simp: h_def eeprom_simps)
  have run: "run_state (write_eeprom_from usb (x # xs) a c) d = run_state (write_eeprom_from usb xs (a + 1) x) (d\<lparr>d_devh := h\<rparr>)"
    using Cons.prems(1)
    by (simp add: rtlsdr_read_array_def rtlsdr_write_array_def eeprom_simps split_beta Let_def h_def)
  have "(unat a \<le> unat k \<and> unat k < unat a + length (x # xs)) \<longleftrightarrow>
      k = a \<or> (unat a < unat k \<and> unat k < unat a + length (x # xs))" for k
    by (auto simp: le_less word_unat_eq_iff)
  then show ?case
    unfolding run using Cons.IH [of "d\<lparr>d_devh := h\<rparr>" "a + 1" x] h step(1)
    by (auto simp: step(2,3))
qed

lemma read_eeprom_from_rom:
  assumes "live (d_devh d)" "0 \<le> r"
  shows "fst (result_of (read_eeprom_from usb xs r) d) = (if xs = [] then r else 1)
    \<and> snd (result_of (read_eeprom_from usb xs r) d) = map (\<lambda>i. rom (d_devh d) (ptr (d_devh d) + of_nat i)) [0..<length xs]
    \<and> live (d_devh (state_of (read_eeprom_from usb xs r) d))
    \<and> rom (d_devh (state_of (read_eeprom_from usb xs r) d)) = rom (d_devh d)"
  using assms
proof (induction xs arbitrary: d r)
  case Nil
  then show ?case by simp
next
  case (Cons x xs)
  let ?h = "state_of (ctrl_in usb EEPROM_ADDR (read_index IICB) [x]) (d_devh d)"
  show ?case
    using Cons.IH [of "d\<lparr>d_devh := ?h\<rparr>" 1] Cons.prems
    by (simp add: rtlsdr_read_array_def eeprom_simps split_beta upt_conv_Cons map_Suc_upt [symmetric] add_ac del: upt_Suc)
qed

end

section \<open>The tuner behind the repeater\<close>

text \<open>
  A register chip at an address of the I2C master of the RTL2832U, seen from the USB side.  It
  provides the bus interface the tuner drivers are verified against.
\<close>

locale usb_i2c_chip =
  fixes usb :: "'h usb_ops"
    and addr :: u8
    and hup :: "'h \<Rightarrow> bool"
    and rw :: "u8 \<Rightarrow> u8"
    and hview :: "'h \<Rightarrow> u8 \<Rightarrow> u8"
  assumes store: "hup h \<Longrightarrow> result_of (ctrl_out usb (ucast addr) (write_index IICB) [r, v]) h = 2
      \<and> hup (state_of (ctrl_out usb (ucast addr) (write_index IICB) [r, v]) h)
      \<and> hview (state_of (ctrl_out usb (ucast addr) (write_index IICB) [r, v]) h) = (hview h)(r := v AND rw r)"
    and select: "hup h \<Longrightarrow> result_of (ctrl_out usb (ucast addr) (write_index IICB) [r]) h = 1"
    and fetch: "hup h \<Longrightarrow>
      (\<exists>v. result_of (ctrl_in usb (ucast addr) (read_index IICB) [b])
             (state_of (ctrl_out usb (ucast addr) (write_index IICB) [r]) h) = (1, [v]) \<and> v AND rw r = hview h r)
      \<and> hup (state_of (ctrl_in usb (ucast addr) (read_index IICB) [b])
             (state_of (ctrl_out usb (ucast addr) (write_index IICB) [r]) h))
      \<and> hview (state_of (ctrl_in usb (ucast addr) (read_index IICB) [b])
             (state_of (ctrl_out usb (ucast addr) (write_index IICB) [r]) h)) = hview h"

lemma rtl_io_clock:
  "tuner_clock (rtl_io usb) (state_of (i2c_write (rtl_io usb) addr bs) d) = tuner_clock (rtl_io usb) d"
  "tuner_clock (rtl_io usb) (state_of (i2c_read (rtl_io usb) addr bs) d) = tuner_clock (rtl_io usb) d"
  by (simp_all add: rtl_io_def rtlsdr_i2c_write_fn_def rtlsdr_i2c_read_fn_def rtlsdr_i2c_write_def rtlsdr_i2c_read_def
      rtlsdr_write_array_def rtlsdr_read_array_def rtlsdr_get_tuner_clock_def rtlsdr_get_xtal_freq_def Let_def split_beta)

sublocale usb_i2c_chip \<subseteq> tuner: i2c_chip "rtl_io usb" addr "\<lambda>d. hup (d_devh d)" rw "\<lambda>d. hview (d_devh d)"
proof
  fix d :: "'h rtlsdr_dev" and r v b bs
  show "tuner_clock (rtl_io usb) (state_of (i2c_write (rtl_io usb) addr bs) d) = tuner_clock (rtl_io usb) d"
    "tuner_clock (rtl_io usb) (state_of (i2c_read (rtl_io usb) addr bs) d) = tuner_clock (rtl_io usb) d"
    by (rule rtl_io_clock)+
  assume up: "hup (d_devh d)"
  note bus = rtl_io_def rtlsdr_i2c_write_fn_def rtlsdr_i2c_read_fn_def rtlsdr_i2c_write_def rtlsdr_i2c_read_def
      rtlsdr_write_array_def rtlsdr_read_array_def
  show "result_of (i2c_write (rtl_io usb) addr [r, v]) d = 2"
    "hup (d_devh (state_of (i2c_write (rtl_io usb) addr [r, v]) d))"
    "hview (d_devh (state_of (i2c_write (rtl_io usb) addr [r, v]) d)) = (hview (d_devh d))(r := v AND rw r)"
    "result_of (i2c_write (rtl_io usb) addr [r]) d = 1"
    using store [OF up] select [OF up] by (simp_all add: bus)
  show "\<exists>v. result_of (i2c_read (rtl_io usb) addr [b]) (state_of (i2c_write (rtl_io usb) addr [r]) d) = (1, [v]) \<and>
      v AND rw r = hview (d_devh d) r"
    "hup (d_devh (state_of (i2c_read (rtl_io usb) addr [b]) (state_of (i2c_write (rtl_io usb) addr [r]) d)))"
    "hview (d_devh (state_of (i2c_read (rtl_io usb) addr [b]) (state_of (i2c_write (rtl_io usb) addr [r]) d))) =
      hview (d_devh d)"
    using fetch [OF up, of b r] by (auto simp: bus Let_def split_beta)
qed

section \<open>A dongle\<close>

text \<open>
  A chip with plain registers, an EEPROM and a register-file tuner: the instance on which the
  contracts are discharged and the witnesses run.
\<close>

record sim_hw =
  hw_dreg :: "u8 \<Rightarrow> u16 \<Rightarrow> u8"
  hw_sreg :: "u16 \<Rightarrow> u8"
  hw_rom :: "u8 \<Rightarrow> u8"
  hw_ptr :: u8
  hw_tuner :: sim_chip

fun store_demod :: "u8 \<Rightarrow> u16 \<Rightarrow> u8 list \<Rightarrow> sim_hw \<Rightarrow> sim_hw" where
  "store_demod p a [] h = h"
| "store_demod p a (v # vs) h = store_demod p (a + 1) vs (h\<lparr>hw_dreg := (hw_dreg h)(p := (hw_dreg h p)(a := v))\<rparr>)"

definition sim_ctrl_out :: "u16 \<Rightarrow> u16 \<Rightarrow> u8 list \<Rightarrow> (sim_hw, int) state" where
  "sim_ctrl_out val idx data = State (\<lambda>h.
     if idx = write_index IICB then
       (if val = EEPROM_ADDR then
          (int (length data), case data of [a] \<Rightarrow> h\<lparr>hw_ptr := a\<rparr>
             | a # x # _ \<Rightarrow> h\<lparr>hw_rom := (hw_rom h)(a := x), hw_ptr := a + 1\<rparr> | _ \<Rightarrow> h)
        else case run_state (sim_write (ucast val) data) (hw_tuner h) of (r, c) \<Rightarrow> (r, h\<lparr>hw_tuner := c\<rparr>))
     else if idx = demod_index 0 then (int (length data), store_demod 0 (drop_bit 8 val) data h)
     else if idx = demod_index 1 then (int (length data), store_demod 1 (drop_bit 8 val) data h)
     else if idx = write_index SYSB then
       (int (length data), case data of v # _ \<Rightarrow> h\<lparr>hw_sreg := (hw_sreg h)(val := v)\<rparr> | _ \<Rightarrow> h)
     else (int (length data), h))"

definition sim_ctrl_in :: "u16 \<Rightarrow> u16 \<Rightarrow> u8 list \<Rightarrow> (sim_hw, int \<times> u8 list) state" where
  "sim_ctrl_in val idx buf = State (\<lambda>h.
     if idx = read_index IICB then
       (if val = EEPROM_ADDR then
          ((int (length buf), map (\<lambda>i. hw_rom h (hw_ptr h + of_nat i)) [0..<length buf]),
           h\<lparr>hw_ptr := hw_ptr h + of_nat (length buf)\<rparr>)
        else case run_state (sim_read (ucast val) buf) (hw_tuner h) of (r, c) \<Rightarrow> (r, h\<lparr>hw_tuner := c\<rparr>))
     else if idx = read_index SYSB then ((int (length buf), map (\<lambda>i. hw_sreg h (val + of_nat i)) [0..<length buf]), h)
     else ((int (length buf), buf), h))"

definition sim_usb :: "sim_hw usb_ops" where
  "sim_usb = \<lparr>ctrl_out = sim_ctrl_out, ctrl_in = sim_ctrl_in\<rparr>"

definition sim_hw0 :: sim_hw where
  "sim_hw0 = \<lparr>hw_dreg = \<lambda>_ _. 0, hw_sreg = \<lambda>_. 0, hw_rom = \<lambda>_. 0xff, hw_ptr = 0, hw_tuner = sim0\<rparr>"

definition sim_dev0 :: "sim_hw rtlsdr_dev" where
  "sim_dev0 = \<lparr>d_devh = sim_hw0, d_rate = 0, d_rtl_xtal = 28800000, d_fir = fir_default, d_direct_sampling = 0,
     d_rtl_vga_control = 0, d_tuner_type = RTLSDR_TUNER_FC0012, d_tun_xtal = 28800000, d_freq = 0, d_bw = 0,
     d_offs_freq = 0, d_if_band_center_freq = 0, d_tuner_if_freq = 0, d_tuner_sideband = 0,
     d_rtl_spectrum_sideband = 0, d_corr = 0, d_ds_mode = RTLSDR_DS_IQ, d_ds_threshold = 0,
     d_biast_gpio_pin_no = 0, d_gpio_state_known = 0, d_gpio_state = 0, d_i2c_repeater_on = 0, d_rc_active = 0,
     d_e4k = \<lparr>e4k_i2c_addr = 0, e4k_cur_band = E4K_BAND_VHF2,
       e4k_vco = \<lparr>pll_fosc = 0, pll_intended_flo = 0, pll_flo = 0, pll_x = 0, pll_z = 0, pll_r = 0, pll_r_idx = 0,
         pll_threephase = 0\<rparr>, e4k_rtl_dev = ()\<rparr>,
     d_r82xx = r82xx_priv.truncate rsim_state,
     d_agc_mode = SOFTAGC_OFF, d_agc_state = SOFTSTATE_OFF, d_agc_dead_sps = 0, d_agc_scan_sps = 0, d_cs_lock = 0\<rparr>"

lemma index_values:
  "write_index SYSB = 0x210" "write_index IICB = 0x610" "read_index SYSB = 0x200" "read_index IICB = 0x600"
  "demod_index 0 = 0x10" "demod_index 1 = 0x11"
  by (simp_all add: write_index_def read_index_def SYSB_def IICB_def IRB_def demod_index_def)

lemma drop_demod_addr:
  assumes "a < 0x100"
  shows "drop_bit 8 (demod_addr a) = a"
proof -
  define b :: u8 where "b = ucast a"
  have "uint a < 256" using assms by (simp add: word_less_def)
  then have a: "a = ucast b"
    by (simp add: word_uint_eq_iff b_def unsigned_ucast_eq unsigned_take_bit_eq take_bit_int_eq_self)
  have c: "(0x20 :: u16) = push_bit 5 1" by simp
  show ?thesis
    unfolding demod_addr_def c a by (rule bit_word_eqI) (auto simp: bit_simps dest: bit_imp_le_length)
qed

lemma drop_demod_addr': "a < 0xff \<Longrightarrow> drop_bit 8 (demod_addr a) = a"
  by (rule drop_demod_addr) (auto simp: word_less_def)

interpretation sim_rtl: rtl2832 sim_usb "\<lambda>_. True" hw_dreg hw_sreg
  by unfold_locales (auto simp: sim_usb_def sim_ctrl_out_def sim_ctrl_in_def drop_demod_addr drop_demod_addr' index_values)

interpretation sim_rom: serial_eeprom sim_usb "\<lambda>_. True" hw_rom hw_ptr
  by unfold_locales (simp_all add: sim_usb_def sim_ctrl_out_def sim_ctrl_in_def index_values)

interpretation sim_i2c: usb_i2c_chip sim_usb "0xc6" "\<lambda>_. True" "\<lambda>_. -1" "\<lambda>h. sim_regs (hw_tuner h)"
  by unfold_locales (auto simp: sim_usb_def sim_ctrl_out_def sim_ctrl_in_def sim_write_def sim_read_def
      EEPROM_ADDR_def index_values split_beta)

section \<open>Properties\<close>

lemma fir_pairs_None:
  "even (length vs) \<Longrightarrow> fir_pairs vs = None \<longleftrightarrow> (\<exists>v \<in> set vs. v \<notin> {-2048..2047})"
  by (induction vs rule: fir_pairs.induct) auto

lemma fir_bytes_None:
  "length fir = 16 \<Longrightarrow> fir_bytes fir = None \<longleftrightarrow>
     \<not> ((\<forall>v \<in> set (take 8 fir). v \<in> {-128..127}) \<and> (\<forall>v \<in> set (drop 8 fir). v \<in> {-2048..2047}))"
  by (force simp: fir_bytes_def fir_pairs_None)

text \<open>
  IF frequency: for a frequency below \<open>2 ^ 31\<close> Hz the call succeeds on a live chip and leaves in
  registers 0x19 to 0x1b of page 1 the 22-bit two's complement of minus the frequency in units of the
  corrected crystal over \<open>2 ^ 22\<close>, rounded towards zero; no other register and no field changes.
\<close>

theorem rtl_if_freq_encodes:
  assumes chip: "rtl2832 usb live dreg sreg" and live: "live (d_devh d)"
    and freq: "uint freq < 2 ^ 31"
    and xtal: "xtal = uint (fst (rtlsdr_get_xtal_freq d))" "0 < xtal" "uint freq * 2 ^ 22 div xtal < 2 ^ 31"
    and run: "run_state (rtlsdr_set_if_freq usb freq) d = (res, d')"
  shows "res = 0 \<and> d' = d\<lparr>d_devh := d_devh d'\<rparr> \<and> live (d_devh d')
    \<and> (let r = dreg (d_devh d') 1 in
        uint (r 0x19) * 65536 + uint (r 0x1a) * 256 + uint (r 0x1b) = (- (uint freq * 2 ^ 22 div xtal)) mod 2 ^ 22)
    \<and> (\<forall>p a. (p, a) \<notin> {1} \<times> {0x19, 0x1a, 0x1b} \<longrightarrow> dreg (d_devh d') p a = dreg (d_devh d) p a)"
proof -
  note regs = rtl2832.set_if_freq_regs [OF chip live, of freq]
  define f where "f = if_freq_value freq (fst (rtlsdr_get_xtal_freq d))"
  have f: "f = - (uint freq * 2 ^ 22 div xtal)"
    using if_freq_value_eq [of freq "fst (rtlsdr_get_xtal_freq d)"] freq xtal by (simp add: f_def)
  have d': "d' = state_of (rtlsdr_set_if_freq usb freq) d" and res: "res = 0"
    using run regs(1) by auto
  have sum: "uint (dreg (d_devh d') 1 0x19) * 65536 + uint (dreg (d_devh d') 1 0x1a) * 256
      + uint (dreg (d_devh d') 1 0x1b) = f mod 2 ^ 22"
  proof -
    have "dreg (d_devh d') 1 0x19 = ucast (word_of_int (f div 65536 mod 64) :: u16)"
      "dreg (d_devh d') 1 0x1a = ucast (word_of_int (f div 256 mod 256) :: u16)"
      "dreg (d_devh d') 1 0x1b = ucast (word_of_int (f mod 256) :: u16)"
      unfolding d' regs(5) f_def [symmetric] by simp_all
    then show ?thesis by (simp only: uint_mod_byte split_22_bits)
  qed
  have keep: "\<forall>p a. (p, a) \<notin> {1} \<times> {0x19, 0x1a, 0x1b} \<longrightarrow> dreg (d_devh d') p a = dreg (d_devh d) p a"
    unfolding d' regs(5) by auto
  note hw = regs(2,3) [unfolded only_hw_def, folded d']
  show ?thesis
    unfolding Let_def f [symmetric] by (intro conjI res hw sum keep)
qed

theorem rtl_if_freq_encodes_witness:
  "\<exists>d'. run_state (rtlsdr_set_if_freq sim_usb 3570000) sim_dev0 = (0, d')
    \<and> (let r = hw_dreg (d_devh d') 1 in uint (r 0x19) * 65536 + uint (r 0x1a) * 256 + uint (r 0x1b) = 3674386)"
proof -
  obtain res d' where run: "run_state (rtlsdr_set_if_freq sim_usb 3570000) sim_dev0 = (res, d')" by fastforce
  have x: "28800000 = uint (fst (rtlsdr_get_xtal_freq sim_dev0))"
    by (simp add: rtlsdr_get_xtal_freq_def sim_dev0_def)
  show ?thesis
    using rtl_if_freq_encodes [OF sim_rtl.rtl2832_axioms TrueI _ x _ _ run] run by simp
qed

text \<open>
  Sample rate correction: for up to 488 ppm the two registers hold the 14-bit two's complement of
  minus the correction in units of \<open>2 ^ -24\<close>, rounded towards zero, and that number fits the 14 bits.
\<close>

theorem rtl_sample_correction_encodes:
  assumes chip: "rtl2832 usb live dreg sreg" and live: "live (d_devh d)" and ppm: "\<bar>ppm\<bar> \<le> 488"
    and run: "run_state (rtlsdr_set_sample_freq_correction usb ppm) d = (res, d')"
  shows "res = 0 \<and> d' = d\<lparr>d_devh := d_devh d'\<rparr> \<and> live (d_devh d')
    \<and> (let r = dreg (d_devh d') 1; n = uint (r 0x3e) * 256 + uint (r 0x3f);
           offs = - (sgn ppm * (\<bar>ppm\<bar> * 2 ^ 24 div 1000000))
       in n = offs mod 2 ^ 14 \<and> - (2 ^ 13) \<le> offs \<and> offs < 2 ^ 13)"
proof -
  note regs = rtl2832.set_sample_freq_correction_regs [OF chip live, of ppm]
  define k where "k = \<bar>ppm\<bar> * 2 ^ 24 div 1000000"
  have k: "0 \<le> k" "k < 8192"
    using ppm by (simp_all add: k_def pos_imp_zdiv_nonneg_iff zdiv_less_iff)
  have offs: "ppm_offs ppm = - (sgn ppm * k)"
    using ppm_offs_eq [of ppm] ppm by (auto simp: k_def sgn_if split: if_splits)
  have d': "d' = state_of (rtlsdr_set_sample_freq_correction usb ppm) d" and "res = 0"
    using run regs(1) by auto
  moreover have "ppm_offs ppm mod 16384 = ppm_offs ppm div 256 mod 64 * 256 + ppm_offs ppm mod 256"
    using zmod_zmult2_eq [of 64 "ppm_offs ppm" 256] by simp
  then have "uint (dreg (d_devh d') 1 0x3e) * 256 + uint (dreg (d_devh d') 1 0x3f) = ppm_offs ppm mod 2 ^ 14"
    unfolding d' regs(5) by (simp add: uint_mod_byte)
  moreover have "- (2 ^ 13) \<le> - (sgn ppm * k)" "- (sgn ppm * k) < 2 ^ 13"
    using k by (simp_all add: sgn_if)
  ultimately show ?thesis
    using regs(2,3) unfolding k_def [symmetric] offs only_hw_def d' [symmetric] Let_def by blast
qed

theorem rtl_sample_correction_encodes_witness:
  "\<exists>d'. run_state (rtlsdr_set_sample_freq_correction sim_usb 100) sim_dev0 = (0, d')
    \<and> uint (hw_dreg (d_devh d') 1 0x3e) * 256 + uint (hw_dreg (d_devh d') 1 0x3f) = 14707"
proof -
  obtain res d' where run: "run_state (rtlsdr_set_sample_freq_correction sim_usb 100) sim_dev0 = (res, d')" by fastforce
  show ?thesis
    using rtl_sample_correction_encodes [OF sim_rtl.rtl2832_axioms TrueI _ run] run by (simp add: Let_def)
qed

text \<open>
  C38.  FIR filter: sixteen coefficients in range are stored in registers 0x1c to 0x2f of page 1 so that the chip
  reads back exactly them, and no other register of any page of the demodulator changes; a coefficient out of range
  is refused before anything is written.
\<close>

theorem rtl_fir_roundtrip:
  assumes chip: "rtl2832 usb live dreg sreg" and live: "live (d_devh d)" and len: "length (d_fir d) = 16"
    and run: "run_state (rtlsdr_set_fir usb) d = (res, d')"
  shows "if (\<forall>v \<in> set (take 8 (d_fir d)). v \<in> {-128..127}) \<and> (\<forall>v \<in> set (drop 8 (d_fir d)). v \<in> {-2048..2047})
    then res = 0 \<and> d' = d\<lparr>d_devh := d_devh d'\<rparr> \<and> live (d_devh d')
      \<and> fir_decode (map (\<lambda>i. dreg (d_devh d') 1 (0x1c + of_nat i)) [0..<20]) = d_fir d
      \<and> (\<forall>p a. p \<noteq> 1 \<or> a < 0x1c \<or> 0x30 \<le> a \<longrightarrow> dreg (d_devh d') p a = dreg (d_devh d) p a)
    else res = -1 \<and> d' = d"
proof (cases "fir_bytes (d_fir d)")
  case None
  then show ?thesis
    using run fir_bytes_None [OF len] by (auto simp: rtlsdr_set_fir_def)
next
  case (Some bs)
  have rt: "fir_decode bs = d_fir d" "length bs = 20"
    using fir_roundtrip [OF len Some] by simp_all
  have "d' = state_of (rtlsdr_set_fir usb) d" "res = result_of (rtlsdr_set_fir usb) d" using run by simp_all
  then show ?thesis
    using rtl2832.set_fir_regs [OF chip live Some rt(2)] rt(1) fir_bytes_None [OF len] Some by (auto simp: only_hw_def)
qed

theorem rtl_fir_roundtrip_witness:
  "\<exists>d'. run_state (rtlsdr_set_fir sim_usb) sim_dev0 = (0, d')
    \<and> fir_decode (map (\<lambda>i. hw_dreg (d_devh d') 1 (0x1c + of_nat i)) [0..<20]) = fir_default"
proof -
  obtain res d' where run: "run_state (rtlsdr_set_fir sim_usb) sim_dev0 = (res, d')" by fastforce
  have f: "d_fir sim_dev0 = fir_default" by (simp add: sim_dev0_def)
  show ?thesis
    using rtl_fir_roundtrip [OF sim_rtl.rtl2832_axioms TrueI _ run] run unfolding f by (simp add: fir_default_def)
qed

text \<open>
  GPIO directions: whatever the cache knows, making a pin an output leaves it driven on the
  chip and recorded as an output, making it an input leaves it undriven and recorded as an input;
  the cache stays in agreement with the chip and the other pins keep their direction.
\<close>

theorem rtl_gpio_direction:
  assumes chip: "rtl2832 usb live dreg sreg" and live: "live (d_devh d)" and ok: "gpio_cache_ok sreg d"
    and junk: "junk = [j0, j1]" and pin: "unat gpio < 8"
    and run: "run_state (if out then rtlsdr_set_gpio_output usb junk gpio else rtlsdr_set_gpio_input usb junk gpio) d = (res, d')"
  shows "0 \<le> res \<and> live (d_devh d') \<and> gpio_cache_ok sreg d'
    \<and> bit (d_gpio_state_known d') (unat gpio) \<and> bit (d_gpio_state d') (unat gpio) = (\<not> out)
    \<and> bit (sreg (d_devh d') GPOE) (unat gpio) = out \<and> bit (sreg (d_devh d') GPD) (unat gpio) = (\<not> out)
    \<and> (\<forall>n < 8. n \<noteq> unat gpio \<longrightarrow> bit (sreg (d_devh d') GPOE) n = bit (sreg (d_devh d) GPOE) n
          \<and> bit (sreg (d_devh d') GPD) n = bit (sreg (d_devh d) GPD) n)"
proof (cases out)
  case True
  obtain h where h: "run_state (rtlsdr_set_gpio_output usb junk gpio) d =
     (if bit (d_gpio_state_known d) (unat gpio) \<and> \<not> bit (d_gpio_state d) (unat gpio) then (0, d)
      else (1, d\<lparr>d_devh := h, d_gpio_state_known := d_gpio_state_known d OR ucast (gpio_mask gpio),
                 d_gpio_state := d_gpio_state d AND NOT (ucast (gpio_mask gpio))\<rparr>))" "live h"
    "sreg h = (sreg (d_devh d))(
         GPD := sreg (d_devh d) GPD AND NOT (gpio_mask gpio), GPOE := sreg (d_devh d) GPOE OR gpio_mask gpio)"
    using rtl2832.set_gpio_output_run [OF chip live junk pin] by blast
  then show ?thesis
    using run True live ok pin
    by (auto simp: gpio_cache_ok_def gpio_mask_bits(1) [OF pin] bit_simps split: if_splits)
next
  case False
  obtain h where h: "run_state (rtlsdr_set_gpio_input usb junk gpio) d =
     (if bit (d_gpio_state_known d) (unat gpio) \<and> bit (d_gpio_state d) (unat gpio) then (0, d)
      else (1, d\<lparr>d_devh := h, d_gpio_state_known := d_gpio_state_known d OR ucast (gpio_mask gpio),
                 d_gpio_state := d_gpio_state d OR ucast (gpio_mask gpio)\<rparr>))" "live h"
    "sreg h = (sreg (d_devh d))(
         GPD := sreg (d_devh d) GPD OR gpio_mask gpio, GPOE := sreg (d_devh d) GPOE AND NOT (gpio_mask gpio))"
    using rtl2832.set_gpio_input_run [OF chip live junk pin] by blast
  then show ?thesis
    using run False live ok pin
    by (auto simp: gpio_cache_ok_def gpio_mask_bits(1) [OF pin] bit_simps split: if_splits)
qed

theorem rtl_gpio_direction_witness:
  "\<exists>res d'. run_state (rtlsdr_set_gpio_output sim_usb [0xaa, 0x55] 4) sim_dev0 = (res, d')
    \<and> bit (hw_sreg (d_devh d') GPOE) 4"
proof -
  have ok: "gpio_cache_ok hw_sreg sim_dev0" by (simp add: gpio_cache_ok_def sim_dev0_def)
  obtain res d' where run: "run_state (if True then rtlsdr_set_gpio_output sim_usb [0xaa, 0x55] 4
      else rtlsdr_set_gpio_input sim_usb [0xaa, 0x55] 4) sim_dev0 = (res, d')" by fastforce
  have pin: "unat (4 :: u8) < 8" by simp
  show ?thesis
    using rtl_gpio_direction [OF sim_rtl.rtl2832_axioms TrueI ok refl pin run] run by simp
qed

text \<open>
  A failed GPIO write is not reported as an error: the negative libusb code passes through a
  \<open>uint16_t\<close> and comes back positive.
\<close>

theorem rtl_gpio_bit_error:
  assumes "\<And>v h. result_of (ctrl_out usb GPO (write_index SYSB) [v]) h = - e" "0 < e" "e < 65536"
  shows "result_of (rtlsdr_set_gpio_bit usb junk gpio val) d = 65536 - e"
proof -
  have "wrap16 (- e) = 65536 - e"
    using assms(2,3) by (simp add: wrap16_def zmod_zminus1_eq_if)
  then show ?thesis
    using assms(1) by (simp add: rtlsdr_set_gpio_bit_def Let_def)
qed

theorem rtl_gpio_bit_error_witness:
  "\<exists>usb :: sim_hw usb_ops. result_of (rtlsdr_set_gpio_bit usb [0, 0] 4 1) sim_dev0 = 65532"
proof -
  define usb :: "sim_hw usb_ops" where "usb = \<lparr>ctrl_out = \<lambda>_ _ _. ret (-4), ctrl_in = \<lambda>_ _ bs. ret (-4, bs)\<rparr>"
  have "result_of (rtlsdr_set_gpio_bit usb [0, 0] 4 1) sim_dev0 = 65536 - 4"
    by (rule rtl_gpio_bit_error) (simp_all add: usb_def)
  then show ?thesis by (intro exI [of _ usb]) simp
qed

text \<open>
  C37.  EEPROM round trip: data that fits the 256 bytes is written with code 0, the bytes outside the
  range keep their content, and reading the range back returns the data, with the code 1 (the code of the last transfer, where
  \<^verbatim>\<open>rtl-sdr.h\<close> documents 0 for a success); a range that does not fit
  is refused with -2 and nothing is transferred.
\<close>

theorem rtl_eeprom_roundtrip:
  assumes rom: "serial_eeprom usb live rom ptr" and live: "live (d_devh d)"
    and run: "run_state (rtlsdr_write_eeprom usb junk data offset) d = (res, d')"
    and again: "run_state (rtlsdr_read_eeprom usb buf offset) d' = ((res', data'), d'')" "length buf = length data"
  shows "if length data + unat offset > 256 then res = -2 \<and> d' = d \<and> res' = -2 \<and> data' = buf
    else res = 0 \<and> res' = 1 \<and> data' = data
      \<and> (\<forall>k. unat k < unat offset \<or> unat offset + length data \<le> unat k \<longrightarrow> rom (d_devh d'') k = rom (d_devh d) k)"
proof (cases "length data + unat offset > 256")
  case True
  then show ?thesis using run again by (simp add: rtlsdr_write_eeprom_def rtlsdr_read_eeprom_def)
next
  case False
  then have fits: "unat offset + length data \<le> 256" by simp
  note w = serial_eeprom.write_eeprom_from_rom [OF rom live fits, of junk]
  have d': "d' = state_of (write_eeprom_from usb data offset junk) d" "res = 0"
    using run w False by (auto simp: rtlsdr_write_eeprom_def)
  let ?h = "state_of (ctrl_out usb EEPROM_ADDR (write_index IICB) [offset]) (d_devh d')"
  have live': "live (d_devh d')" using w d'(1) by simp
  note sel = serial_eeprom.eeprom_simps [OF rom live', of offset]
  have "live (d_devh (d'\<lparr>d_devh := ?h\<rparr>))" using sel(2) by simp
  note r = serial_eeprom.read_eeprom_from_rom [OF rom this, of 1 buf]
  have run': "((res', data'), d'') = run_state (read_eeprom_from usb buf 1) (d'\<lparr>d_devh := ?h\<rparr>)"
    using again False sel(1) by (simp add: rtlsdr_read_eeprom_def rtlsdr_write_array_def)
  have byte: "rom (d_devh d') (offset + of_nat i) = data ! i" if "i < length data" for i
  proof -
    have "unat (offset + of_nat i) = unat offset + i"
      using that fits by (simp add: unat_word_ariths unat_of_nat)
    then show ?thesis using w d'(1) that by simp
  qed
  have "data' = data" "res' = 1" "rom (d_devh d'') = rom (d_devh d')"
  proof -
    have eq: "map (\<lambda>i. rom ?h (ptr ?h + of_nat i)) [0..<length buf] = data"
      using byte again(2) by (intro nth_equalityI) (simp_all add: sel(3,4))
    show "data' = data" "res' = 1" "rom (d_devh d'') = rom (d_devh d')"
      using r eq sel(3) arg_cong [OF run', of "fst \<circ> fst"] arg_cong [OF run', of "snd \<circ> fst"]
        arg_cong [OF run', of snd] by (simp_all split: if_splits)
  qed
  then show ?thesis
    using False d' w by auto
qed

theorem rtl_eeprom_roundtrip_witness:
  "\<exists>d' d''. run_state (rtlsdr_write_eeprom sim_usb 0 [1, 2, 3] 9) sim_dev0 = (0, d')
    \<and> run_state (rtlsdr_read_eeprom sim_usb [0, 0, 0] 9) d' = ((1, [1, 2, 3]), d'')"
proof -
  obtain res d' where run: "run_state (rtlsdr_write_eeprom sim_usb 0 [1, 2, 3] 9) sim_dev0 = (res, d')" by fastforce
  obtain res' data d'' where again: "run_state (rtlsdr_read_eeprom sim_usb [0, 0, 0] 9) d' = ((res', data), d'')"
    by (metis prod.exhaust)
  show ?thesis
    using rtl_eeprom_roundtrip [OF sim_rom.serial_eeprom_axioms TrueI run again] run again by simp
qed

text \<open>
  Crystal correction: for a crystal below \<open>2 ^ 31\<close> Hz and up to 100000 ppm the corrected clock is the
  exact product rounded down, up to a floating-point error of \<open>2 ^ -18\<close> Hz; without correction it is
  the crystal frequency itself.
\<close>

theorem rtl_xtal_correction:
  assumes "uint val < 2 ^ 31" "\<bar>ppm\<bar> \<le> 100000"
    and "x = of_int (uint val) * (1 + of_int ppm / 1000000)"
  shows "of_int (uint (apply_ppm_corr val ppm)) \<le> x + (1 / 2 ^ 18 :: rat)
    \<and> x - 1 / 2 ^ 18 < of_int (uint (apply_ppm_corr val ppm)) + 1 \<and> apply_ppm_corr val 0 = val"
  using apply_ppm_corr_error [OF assms(1,2)] assms(3) by simp

theorem rtl_xtal_correction_witness:
  "of_int (uint (apply_ppm_corr 28800000 50)) \<le> (28801440 + 1 / 2 ^ 18 :: rat)"
proof -
  have x: "28801440 = of_int (uint (28800000 :: u32)) * (1 + of_int 50 / 1000000 :: rat)" by simp
  show ?thesis using rtl_xtal_correction [OF _ _ x] by simp
qed

end
