(* ===== verification/Fc0012.thy ===== *)
theory Fc0012
  imports I2c_Bus
begin

text \<open>
  The Fitipower FC0012 tuner driver, \<^verbatim>\<open>src/librtlsdr/src/tuner_fc0012.c\<close>.  The driver keeps no
  state of its own: every operation is a computation over the dongle \<open>'d\<close> reached through the
  record \<open>io\<close>.  The PLL arithmetic is on \<open>int\<close> with the widths of the C variables written out;
  a division by zero, which stops the program, is the result \<open>None\<close>.  The lemmas give the
  accuracy of the synthesised frequency, the accepted range, and the register contents the
  operations leave on a chip that answers.
\<close>

section \<open>Model\<close>

definition FC0012_I2C_ADDR :: u8 where
  "FC0012_I2C_ADDR = 0xc6"

definition fc0012_writereg :: "'d i2c_ops \<Rightarrow> u8 \<Rightarrow> u8 \<Rightarrow> ('d, int) state" where
  "fc0012_writereg io reg val = do {
     r \<leftarrow> i2c_write io FC0012_I2C_ADDR [reg, val];
     ret (if r < 0 then -1 else 0) }"

text \<open>\<open>val\<close> is the content of the caller's variable, kept when a transfer fails.\<close>

definition fc0012_readreg :: "'d i2c_ops \<Rightarrow> u8 \<Rightarrow> u8 \<Rightarrow> ('d, int \<times> u8) state" where
  "fc0012_readreg io reg val = do {
     r \<leftarrow> i2c_write io FC0012_I2C_ADDR [reg];
     if r < 0 then ret (-1, val)
     else do {
       (r, data) \<leftarrow> i2c_read io FC0012_I2C_ADDR [reg];
       if r < 0 then ret (-1, val) else ret (0, hd data) } }"

definition fc0012_set_i2c_register :: "'d i2c_ops \<Rightarrow> u32 \<Rightarrow> u32 \<Rightarrow> ('d, int) state" where
  "fc0012_set_i2c_register io i2c_register data =
     fc0012_writereg io (ucast (i2c_register AND 0xFF)) (ucast (data AND 0xFF))"

text \<open>The caller's buffer has at least one byte, \<open>len\<close> is its length.\<close>

definition fc0012_get_i2c_register :: "'d i2c_ops \<Rightarrow> u8 list \<Rightarrow> ('d, int \<times> u8 list) state" where
  "fc0012_get_i2c_register io data = (
     let len = length data; data = data[0 := 0]; len1 = (if len < 16 then len else 16)
     in do {
       r \<leftarrow> i2c_write io FC0012_I2C_ADDR (take 1 data);
       if r < 0 then ret (-1, data)
       else do {
         (r, lo) \<leftarrow> i2c_read io FC0012_I2C_ADDR (take len1 data);
         let data = lo @ drop len1 data;
         if r < 0 then ret (-1, data)
         else if len > 16 then do {
           let data = data[16 := 16];
           r \<leftarrow> i2c_write io FC0012_I2C_ADDR (take 1 (drop 16 data));
           if r < 0 then ret (-1, data)
           else do {
             (r, hi) \<leftarrow> i2c_read io FC0012_I2C_ADDR (drop 16 data);
             let data = take 16 data @ hi;
             if r < 0 then ret (-1, data) else ret (0, data) } }
         else ret (0, data) } })"

subsection \<open>Initialisation\<close>

definition fc0012_init_regs :: "u8 list" where
  "fc0012_init_regs =
     (let reg = [0x00, 0x05, 0x10, 0x00, 0x00, 0x0f, 0x00, 0x00, 0xff, 0x6e, 0xb8, 0x82, 0xfc,
                 0x02, 0x00, 0x00, 0x00, 0x0a, 0x51, 0x08, 0x00, 0x04];
          reg = reg[0x07 := reg ! 0x07 OR 0x20]
      in reg[0x0c := reg ! 0x0c OR 0x02])"

definition fc0012_init :: "'d i2c_ops \<Rightarrow> ('d, int) state" where
  "fc0012_init io =
     for_until (\<lambda>i. fc0012_writereg io (of_nat i) (fc0012_init_regs ! i)) [1..<22] 0"

subsection \<open>Tuning\<close>

text \<open>Output divider and the initial values of registers 5 and 6.\<close>

definition fc0012_divider :: "int \<Rightarrow> int \<times> u8 \<times> u8" where
  "fc0012_divider freq =
     (if freq < 37084000 then (96, 0x82, 0x00)
      else if freq < 55625000 then (64, 0x82, 0x02)
      else if freq < 74167000 then (48, 0x42, 0x00)
      else if freq < 111250000 then (32, 0x42, 0x02)
      else if freq < 148334000 then (24, 0x22, 0x00)
      else if freq < 222500000 then (16, 0x22, 0x02)
      else if freq < 296667000 then (12, 0x12, 0x00)
      else if freq < 445000000 then (8, 0x12, 0x02)
      else if freq < 593334000 then (6, 0x0a, 0x00)
      else (4, 0x0a, 0x02))"

text \<open>
  The integer divider: \<open>xdiv\<close> rounded to the nearest multiple of half the clock, split into the
  cycle counts of registers 1 and 2.
\<close>

definition fc0012_xdiv :: "int \<Rightarrow> int \<Rightarrow> int" where
  "fc0012_xdiv f_vco x2 =
     (let xdiv = wrap16 (f_vco div x2)
      in if wrap64 (f_vco - wrap32 (xdiv * x2)) \<ge> x2 div 2 then wrap16 (xdiv + 1) else xdiv)"

definition fc0012_cycles :: "int \<Rightarrow> int \<times> int" where
  "fc0012_cycles xdiv =
     (let pm = wrap8 (xdiv div 8);
          am = wrap8 (xdiv - 8 * pm);
          (am, pm) = (if am < 2 then (wrap8 (am + 8), wrap8 (pm - 1)) else (am, pm))
      in if pm > 31 then (wrap8 (am + 8 * (pm - 31)), 31) else (am, pm))"

text \<open>The fractional part, a 16-bit two's complement number of \<open>2 ^ 15\<close>ths.\<close>

definition fc0012_xin :: "int \<Rightarrow> int \<Rightarrow> int" where
  "fc0012_xin f_vco x2 =
     (let xin = wrap16 ((f_vco - f_vco div x2 * x2) div 1000);
          xin = wrap16 (xin * 32768 div (x2 div 1000))
      in if xin \<ge> 16384 then wrap16 (xin + 32768) else xin)"

datatype pll_error = DivByZero | NoPll

text \<open>Registers 1 to 4 for a VCO frequency, or why there are none.\<close>

definition fc0012_pll :: "int \<Rightarrow> int \<Rightarrow> pll_error + u8 list" where
  "fc0012_pll f_vco x2 =
     (if x2 = 0 then Inl DivByZero
      else let (reg1, reg2) = fc0012_cycles (fc0012_xdiv f_vco x2)
           in if reg1 > 15 \<or> reg2 < 0x0b then Inl NoPll
              else if x2 div 1000 = 0 then Inl DivByZero
              else let xin = fc0012_xin f_vco x2
                   in Inr [word_of_int reg1, word_of_int reg2,
                           word_of_int (xin div 256), word_of_int (xin mod 256)])"

definition fc0012_bandwidth_bits :: "u32 \<Rightarrow> u8" where
  "fc0012_bandwidth_bits bandwidth =
     (if bandwidth = 6000000 then 0x80 else if bandwidth = 7000000 then 0x40 else 0)"

text \<open>VCO calibration and the read-back of the control voltage.\<close>

definition fc0012_calibrate :: "'d i2c_ops \<Rightarrow> ('d, int \<times> u8) state" where
  "fc0012_calibrate io = do {
     r \<leftarrow> fc0012_writereg io 0x0e 0x80;
     r \<leftarrow> unless_err r (fc0012_writereg io 0x0e 0x00);
     r \<leftarrow> unless_err r (fc0012_writereg io 0x0e 0x00);
     if r = 0 then fc0012_readreg io 0x0e 0 else ret (r, 0) }"

definition fc0012_recalibrate :: "'d i2c_ops \<Rightarrow> u8 \<Rightarrow> ('d, int) state" where
  "fc0012_recalibrate io reg6 = do {
     r \<leftarrow> fc0012_writereg io 0x06 reg6;
     r \<leftarrow> unless_err r (fc0012_writereg io 0x0e 0x80);
     unless_err r (fc0012_writereg io 0x0e 0x00) }"

definition fc0012_vco_selection :: "'d i2c_ops \<Rightarrow> bool \<Rightarrow> u8 \<Rightarrow> u8 \<Rightarrow> ('d, int) state" where
  "fc0012_vco_selection io vco_select reg6 tmp = (
     let tmp = tmp AND 0x3f
     in if vco_select then (if tmp > 0x3c then fc0012_recalibrate io (reg6 AND NOT 0x08) else ret 0)
        else (if tmp < 0x02 then fc0012_recalibrate io (reg6 OR 0x08) else ret 0))"

definition fc0012_set_params :: "'d i2c_ops \<Rightarrow> u32 \<Rightarrow> u32 \<Rightarrow> ('d, int option) state" where
  "fc0012_set_params io freq bandwidth = do {
     d \<leftarrow> State_Monad.get;
     let x2 = uint (tuner_clock io d) div 2;
     let (multi, reg5, reg6) = fc0012_divider (uint freq);
     let f_vco = wrap32 (uint freq * multi);
     let vco_select = f_vco \<ge> 3060000000;
     let reg6 = (if vco_select then reg6 OR 0x08 else reg6);
     case fc0012_pll f_vco x2 of
       Inl NoPll \<Rightarrow> ret (Some (-1))
     | Inl DivByZero \<Rightarrow> ret None
     | Inr reg1_4 \<Rightarrow> do {
         let reg6 = ((reg6 OR 0x20) AND 0x3f) OR fc0012_bandwidth_bits bandwidth;
         let reg5 = reg5 OR 0x07;
         let reg = 0 # reg1_4 @ [reg5, reg6];
         r \<leftarrow> for_until (\<lambda>i. fc0012_writereg io (of_nat i) (reg ! i)) [1..<7] 0;
         if r \<noteq> 0 then ret (Some r)
         else do {
           (r, tmp) \<leftarrow> fc0012_calibrate io;
           if r \<noteq> 0 then ret (Some r)
           else do {
             r \<leftarrow> fc0012_vco_selection io vco_select reg6 tmp;
             ret (Some r) } } } }"

definition fc0012_gain_bits :: "int \<Rightarrow> u8" where
  "fc0012_gain_bits gain =
     (if gain = -99 then 0x02 else if gain = -40 then 0x00 else if gain = 71 then 0x08
      else if gain = 179 then 0x17 else 0x10)"

definition fc0012_set_gain :: "'d i2c_ops \<Rightarrow> int \<Rightarrow> ('d, int) state" where
  "fc0012_set_gain io gain = do {
     (_, tmp) \<leftarrow> fc0012_readreg io 0x13 0;
     fc0012_writereg io 0x13 ((tmp AND 0xe0) OR fc0012_gain_bits gain) }"

section \<open>The synthesiser\<close>

text \<open>
  The frequency, in units of \<open>2 ^ -15\<close> half clocks, that registers 1 to 4 stand for: an integer
  divider of \<open>8 * reg2 + reg1\<close> cycles and a signed fraction.
\<close>

definition fc_synth :: "u8 list \<Rightarrow> int" where
  "fc_synth regs =
     (8 * uint (regs ! 1) + uint (regs ! 0)) * 32768 + sint16 (256 * uint (regs ! 2) + uint (regs ! 3))"

lemma fc0012_cycles_eq:
  assumes "2 \<le> xdiv" "xdiv < 496"
  shows "fc0012_cycles xdiv =
    (let b = xdiv mod 8; a = xdiv div 8;
         am = (if b < 2 then b + 8 else b); pm = (if b < 2 then a - 1 else a)
     in if pm > 31 then (am + 8 * (pm - 31), 31) else (am, pm))"
proof -
  let ?a = "xdiv div 8" and ?b = "xdiv mod 8"
  have bounds: "0 \<le> ?a" "?a < 62" "0 \<le> ?b" "?b < 8" "?b < 2 \<Longrightarrow> 1 \<le> ?a"
    using assms by presburger+
  have "xdiv - 8 * ?a = ?b" by presburger
  then show ?thesis
    using bounds by (auto simp: fc0012_cycles_def Let_def wrap_simps)
qed

lemma fc0012_cycles_spec:
  assumes "2 \<le> xdiv" "xdiv < 496" "fc0012_cycles xdiv = (r1, r2)"
  shows "8 * r2 + r1 = xdiv \<and> 0 \<le> r1 \<and> 0 \<le> r2 \<and> r2 \<le> 31
    \<and> (r1 \<le> 15 \<and> 11 \<le> r2 \<longleftrightarrow> 90 \<le> xdiv \<and> xdiv \<le> 263)"
proof -
  define a b where "a = xdiv div 8" and "b = xdiv mod 8"
  have x: "xdiv = 8 * a + b" "0 \<le> a" "0 \<le> b" "b < 8" "b < 2 \<Longrightarrow> 1 \<le> a"
    using assms(1) unfolding a_def b_def by presburger+
  show ?thesis
    using assms(3) unfolding fc0012_cycles_eq [OF assms(1,2)] Let_def
      a_def [symmetric] b_def [symmetric]
    by (cases "b < 2") (use x in \<open>auto split: if_splits\<close>)
qed

text \<open>Integer and fractional parts agree on which side of the half clock the remainder is.\<close>

lemma fc0012_xdiv_eq:
  assumes "0 \<le> q" "q < 495" "0 \<le> r" "r < x2" "q * x2 + r < 4294967296"
  shows "fc0012_xdiv (q * x2 + r) x2 = (if r \<ge> x2 div 2 then q + 1 else q)"
proof -
  have d: "(q * x2 + r) div x2 = q" "0 \<le> q * x2"
    using assms by simp_all
  then have "q * x2 < 4294967296" "r < 4294967296"
    using assms by linarith+
  then have "wrap32 (q * x2) = q * x2" "wrap64 r = r"
    using wrap_ids(3) [OF d(2)] wrap_ids(4) [OF assms(3)] by simp_all
  moreover have "wrap16 q = q" "wrap16 (q + 1) = q + 1"
    using assms by (simp_all add: wrap_simps)
  ultimately show ?thesis
    using d by (simp add: fc0012_xdiv_def Let_def)
qed

lemma fc0012_xin_eq:
  assumes "0 \<le> q" "0 \<le> r" "r < 2000 * h" "h < 30000"
  shows "fc0012_xin (q * (2000 * h) + r) (2000 * h) =
    (let xin = r div 1000 * 32768 div (2 * h) in if r \<ge> 1000 * h then xin + 32768 else xin)"
proof -
  let ?s = "r div 1000"
  have h: "0 < h" using assms by linarith
  have s: "0 \<le> ?s" "?s < 2 * h" "h \<le> ?s \<longleftrightarrow> 1000 * h \<le> r"
    using assms by (simp_all add: zle_div_iff zdiv_less_iff mult.commute)
  have x: "0 \<le> ?s * 32768 div (2 * h)" "?s * 32768 div (2 * h) < 32768"
      "16384 \<le> ?s * 32768 div (2 * h) \<longleftrightarrow> h \<le> ?s"
    using s h by (simp_all add: zle_div_iff zdiv_less_iff pos_imp_zdiv_nonneg_iff)
  have "(q * (2000 * h) + r) div (2000 * h) = q"
    using assms by simp
  moreover have "(2000 * h) div 1000 = 2 * h" by simp
  ultimately show ?thesis
    using s x assms(4) by (simp add: fc0012_xin_def Let_def wrap_simps)
qed

text \<open>
  Accuracy.  When half the tuner clock is a multiple of 2000 Hz, the frequency the registers
  stand for is the requested VCO frequency rounded down, by less than 1000 Hz and one step of
  the fraction.
\<close>

lemma fc0012_pll_spec:
  assumes f: "f = q * (2000 * h) + r" "0 \<le> q" "0 \<le> r" "r < 2000 * h" "f < 4294967296"
    and h: "4500 \<le> h" "h < 30000" and q: "2 \<le> q"
  defines "xdiv \<equiv> if 1000 * h \<le> r then q + 1 else q"
  shows "fc0012_pll f (2000 * h) =
    (if 90 \<le> xdiv \<and> xdiv \<le> 263
     then Inr [word_of_int (fst (fc0012_cycles xdiv)), word_of_int (snd (fc0012_cycles xdiv)),
               word_of_int (fc0012_xin f (2000 * h) div 256),
               word_of_int (fc0012_xin f (2000 * h) mod 256)]
     else Inl NoPll)"
    and "90 \<le> xdiv \<Longrightarrow> xdiv \<le> 263 \<Longrightarrow> fc0012_pll f (2000 * h) = Inr rs \<Longrightarrow>
      fc_synth rs = q * 32768 + r div 1000 * 32768 div (2 * h)"
proof -
  have "q * 9000000 \<le> q * (2000 * h)" using f(2) h(1) by (intro mult_left_mono) simp_all
  then have q2: "q < 495" using f by linarith
  then have xd: "2 \<le> xdiv" "xdiv < 496" using q by (simp_all add: xdiv_def)
  obtain r1 r2 where c: "fc0012_cycles xdiv = (r1, r2)" by fastforce
  note cs = fc0012_cycles_spec [OF xd c]
  have xdiv: "fc0012_xdiv f (2000 * h) = xdiv"
    using fc0012_xdiv_eq [of q r "2000 * h"] f q2 by (simp add: xdiv_def)
  show pll: "fc0012_pll f (2000 * h) =
    (if 90 \<le> xdiv \<and> xdiv \<le> 263
     then Inr [word_of_int (fst (fc0012_cycles xdiv)), word_of_int (snd (fc0012_cycles xdiv)),
               word_of_int (fc0012_xin f (2000 * h) div 256),
               word_of_int (fc0012_xin f (2000 * h) mod 256)]
     else Inl NoPll)"
    using cs h by (auto simp: fc0012_pll_def xdiv c Let_def)
  assume ok: "90 \<le> xdiv" "xdiv \<le> 263" and rs: "fc0012_pll f (2000 * h) = Inr rs"
  define s where "s = r div 1000 * 32768 div (2 * h)"
  have s: "0 \<le> s" "s < 32768" "16384 \<le> s \<longleftrightarrow> 1000 * h \<le> r"
    using f h by (simp_all add: s_def zle_div_iff zdiv_less_iff pos_imp_zdiv_nonneg_iff mult.commute)
  have xin: "fc0012_xin f (2000 * h) = (if 1000 * h \<le> r then s + 32768 else s)"
    using fc0012_xin_eq [of q r h] f h by (simp add: s_def)
  define x where "x = fc0012_xin f (2000 * h)"
  have x: "0 \<le> x" "x < 65536" "sint16 x = (if 1000 * h \<le> r then s - 32768 else s)"
    using s by (simp_all add: x_def xin sint16_small sint16_large)
  have "uint (word_of_int (x div 256) :: u8) = x div 256" "uint (word_of_int (x mod 256) :: u8) = x mod 256"
    "uint (word_of_int r1 :: u8) = r1" "uint (word_of_int r2 :: u8) = r2"
    using x cs ok by (simp_all add: uint_word_of_int zdiv_less_iff pos_imp_zdiv_nonneg_iff)
  moreover have "rs = [word_of_int r1, word_of_int r2, word_of_int (x div 256), word_of_int (x mod 256)]"
    using rs pll ok by (simp add: c x_def)
  moreover have "256 * (x div 256) + x mod 256 = x" by simp
  ultimately have "fc_synth rs = xdiv * 32768 + sint16 x"
    using cs by (simp add: fc_synth_def)
  then show "fc_synth rs = q * 32768 + r div 1000 * 32768 div (2 * h)"
    using x(3) by (simp add: xdiv_def s_def)
qed

subsection \<open>At the nominal clock\<close>

text \<open>Half of 28.8 MHz.\<close>

lemma fc0012_pll_nominal:
  assumes "28800000 \<le> f" "f < 4294967296"
  shows "(fc0012_pll f 14400000 = Inl NoPll \<longleftrightarrow> f < 1288800000 \<or> 3794400000 \<le> f)
    \<and> fc0012_pll f 14400000 \<noteq> Inl DivByZero
    \<and> (\<forall>rs. fc0012_pll f 14400000 = Inr rs \<longrightarrow> length rs = 4
          \<and> 0 \<le> 32768 * f - fc_synth rs * 14400000
          \<and> 32768 * f - fc_synth rs * 14400000 < 32768 * 1000 + 14400000)"
proof -
  define q r where "q = f div 14400000" and "r = f mod 14400000"
  have f: "f = q * (2000 * 7200) + r" "0 \<le> q" "0 \<le> r" "r < 2000 * 7200" "2 \<le> q"
    using assms by (simp_all add: q_def r_def pos_imp_zdiv_nonneg_iff zle_div_iff)
  note spec = fc0012_pll_spec [OF f(1-4) assms(2) _ _ f(5), simplified]
  define xdiv where "xdiv = (if 7200000 \<le> r then q + 1 else q)"
  have range: "90 \<le> xdiv \<and> xdiv \<le> 263 \<longleftrightarrow> 1288800000 \<le> f \<and> f < 3794400000"
    using f by (auto simp: xdiv_def)
  define s where "s = r div 1000 * 32768 div 14400"
  have "s * 14400 \<le> r div 1000 * 32768" "r div 1000 * 32768 < s * 14400 + 14400"
    "r div 1000 * 1000 \<le> r" "r < r div 1000 * 1000 + 1000"
    by (simp_all add: s_def)
  then have "0 \<le> 32768 * r - s * 14400000" "32768 * r - s * 14400000 < 32768 * 1000 + 14400000"
    by linarith+
  then have acc: "0 \<le> 32768 * f - (q * 32768 + s) * 14400000"
    "32768 * f - (q * 32768 + s) * 14400000 < 32768 * 1000 + 14400000"
    using f(1) by (simp_all add: algebra_simps)
  have "length rs = 4 \<and> fc_synth rs = q * 32768 + s" if "fc0012_pll f 14400000 = Inr rs" for rs
  proof (cases "90 \<le> xdiv \<and> xdiv \<le> 263")
    case True
    with that spec(2) [of rs] spec(1) show ?thesis by (auto simp: xdiv_def s_def)
  next
    case False
    with that spec(1) show ?thesis by (auto simp: xdiv_def split: if_splits)
  qed
  moreover have "fc0012_pll f 14400000 = Inl NoPll \<longleftrightarrow> \<not> (90 \<le> xdiv \<and> xdiv \<le> 263)"
    "fc0012_pll f 14400000 \<noteq> Inl DivByZero"
    using spec(1) by (simp_all add: xdiv_def)
  ultimately show ?thesis
    using range acc by auto
qed

lemma fc0012_divider_range:
  assumes "300000 \<le> freq" "freq < 1073741824" "fc0012_divider freq = (multi, r5, r6)"
  shows "28800000 \<le> freq * multi" "freq * multi < 4294967296"
    and "13425000 \<le> freq \<and> freq < 948600000 \<longleftrightarrow> 1288800000 \<le> freq * multi \<and> freq * multi < 3794400000"
  using assms by (auto simp: fc0012_divider_def split: if_splits)

section \<open>The driver on a chip that answers\<close>

locale fc0012_chip = i2c_chip io FC0012_I2C_ADDR up rw view
  for io :: "'d i2c_ops" and up :: "'d \<Rightarrow> bool" and rw :: "u8 \<Rightarrow> u8" and view :: "'d \<Rightarrow> u8 \<Rightarrow> u8"
begin

lemma writereg_simps:
  "up d \<Longrightarrow> result_of (fc0012_writereg io r v) d = 0"
  "up d \<Longrightarrow> up (state_of (fc0012_writereg io r v) d)"
  "up d \<Longrightarrow> view (state_of (fc0012_writereg io r v) d) = (view d)(r := v AND rw r)"
  by (simp_all add: fc0012_writereg_def chip_simps)

lemma readreg_simps:
  "up d \<Longrightarrow> fst (result_of (fc0012_readreg io r b) d) = 0"
  "up d \<Longrightarrow> snd (result_of (fc0012_readreg io r b) d) AND rw r = view d r"
  "up d \<Longrightarrow> up (state_of (fc0012_readreg io r b) d)"
  "up d \<Longrightarrow> view (state_of (fc0012_readreg io r b) d) = view d"
  by (auto simp: fc0012_readreg_def chip_simps split_beta elim!: read_result [of d r r])

end

sublocale fc0012_chip \<subseteq> regs: reg_file "fc0012_writereg io" "fc0012_readreg io" up rw view
  by unfold_locales (simp_all add: writereg_simps readreg_simps)

context fc0012_chip
begin

lemmas reg_simps = regs.reg_simps

lemma calibrate_simps:
  "up d \<Longrightarrow> fst (result_of (fc0012_calibrate io) d) = 0"
  "up d \<Longrightarrow> up (state_of (fc0012_calibrate io) d)"
  "up d \<Longrightarrow> r \<noteq> 0x0e \<Longrightarrow> view (state_of (fc0012_calibrate io) d) r = view d r"
  by (simp_all add: fc0012_calibrate_def reg_simps)

lemma vco_selection_simps:
  "up d \<Longrightarrow> result_of (fc0012_vco_selection io sel reg6 t) d = 0"
  "up d \<Longrightarrow> up (state_of (fc0012_vco_selection io sel reg6 t) d)"
  "up d \<Longrightarrow> r \<noteq> 0x0e \<Longrightarrow> r \<noteq> 0x06 \<Longrightarrow>
     view (state_of (fc0012_vco_selection io sel reg6 t) d) r = view d r"
  by (simp_all add: fc0012_vco_selection_def fc0012_recalibrate_def Let_def reg_simps)

lemma write_1_to_6:
  assumes "up d" "\<forall>r \<in> {1, 2, 3, 4, 5, 6}. rw r = -1" "length rs = 6"
  defines "m \<equiv> for_until (\<lambda>i. fc0012_writereg io (of_nat i) ((0 # rs) ! i)) [1..<7] 0"
  shows "result_of m d = 0" "up (state_of m d)"
    and "view (state_of m d) =
      (view d)(1 := rs ! 0, 2 := rs ! 1, 3 := rs ! 2, 4 := rs ! 3, 5 := rs ! 4, 6 := rs ! 5)"
  using assms(1-3) by (simp_all add: m_def upt_rec_numeral upt_rec [of "Suc _"] reg_simps eval_nat_numeral)

text \<open>Initialisation writes its table, the gain call replaces the low five bits of register 19.\<close>

lemma init_regs:
  assumes "up d" "\<forall>r. rw r = -1" "i \<in> {1..<22}"
  shows "result_of (fc0012_init io) d = 0"
    and "view (state_of (fc0012_init io) d) (of_nat i) = fc0012_init_regs ! i"
  using regs.write_table [OF assms(1), of "[1..<22]" fc0012_init_regs] assms
  by (simp_all add: fc0012_init_def unat_of_nat)

lemma set_gain_reg:
  assumes "up d" "rw 0x13 = -1"
  shows "result_of (fc0012_set_gain io gain) d = 0"
    and "view (state_of (fc0012_set_gain io gain) d) =
      (view d)(0x13 := (view d 0x13 AND 0xe0) OR fc0012_gain_bits gain)"
  using assms readreg_simps(2) [of d "0x13" 0]
  by (simp_all add: fc0012_set_gain_def split_beta reg_simps)

lemma vco_selection_reg6:
  assumes "up d" "view d 6 = reg6 AND rw 6"
  shows "view (state_of (fc0012_vco_selection io sel reg6 t) d) 6 AND NOT 8 = reg6 AND rw 6 AND NOT 8"
  using assms
  by (auto simp: fc0012_vco_selection_def fc0012_recalibrate_def Let_def reg_simps
      intro!: bit_word_eqI simp: bit_simps)

end

context fc0012_chip
begin

text \<open>The whole of \<open>fc0012_set_params\<close> once the PLL computation has produced registers 1 to 4.\<close>

lemma set_params_run:
  assumes up: "up d" and rw: "\<forall>r \<in> {1, 2, 3, 4, 5, 6}. rw r = -1"
    and div: "fc0012_divider (uint freq) = (multi, reg5, reg6)"
    and pll: "fc0012_pll (wrap32 (uint freq * multi)) (uint (tuner_clock io d) div 2) = Inr rs" "length rs = 4"
    and run: "run_state (fc0012_set_params io freq bw) d = (res, d')"
  shows "res = Some 0 \<and> up d' \<and> map (view d') [1, 2, 3, 4] = rs \<and> view d' 5 = reg5 OR 7
    \<and> view d' 6 AND NOT 8 = (((reg6 OR 0x20) AND 0x3f) OR fc0012_bandwidth_bits bw) AND NOT 8
    \<and> (\<forall>r. r \<notin> {1, 2, 3, 4, 5, 6, 14} \<longrightarrow> view d' r = view d r)"
proof -
  obtain a1 a2 a3 a4 where rs: "rs = [a1, a2, a3, a4]"
    using pll(2) by (auto simp: length_Suc_conv numeral_eq_Suc)
  define sel where "sel = (3060000000 \<le> wrap32 (uint freq * multi))"
  define r6 where
    "r6 = (((if sel then reg6 OR 8 else reg6) OR 0x20) AND 0x3f) OR fc0012_bandwidth_bits bw"
  define regs where "regs = [a1, a2, a3, a4, reg5 OR 7, r6]"
  define d1 where "d1 = state_of (for_until (\<lambda>i. fc0012_writereg io (of_nat i) ((0 # regs) ! i)) [1..<7] 0) d"
  have d1: "result_of (for_until (\<lambda>i. fc0012_writereg io (of_nat i) ((0 # regs) ! i)) [1..<7] 0) d = 0"
    "up d1" "view d1 = (view d)(1 := a1, 2 := a2, 3 := a3, 4 := a4, 5 := reg5 OR 7, 6 := r6)"
    using write_1_to_6 [OF up rw, of regs] by (simp_all add: d1_def regs_def)
  define d2 where "d2 = state_of (fc0012_calibrate io) d1"
  define t where "t = snd (result_of (fc0012_calibrate io) d1)"
  have d2: "fst (result_of (fc0012_calibrate io) d1) = 0" "up d2" "\<And>r. r \<noteq> 14 \<Longrightarrow> view d2 r = view d1 r"
    using calibrate_simps [OF d1(2)] by (simp_all add: d2_def)
  have r: "res = Some (result_of (fc0012_vco_selection io sel r6 t) d2)"
    "d' = state_of (fc0012_vco_selection io sel r6 t) d2"
    using run d1(1) d2(1) unfolding d2_def t_def d1_def regs_def r6_def sel_def
    by (simp_all add: fc0012_set_params_def div pll rs Let_def split_beta)
  have v: "\<And>r. r \<noteq> 14 \<Longrightarrow> r \<noteq> 6 \<Longrightarrow> view d' r = view d1 r"
    using vco_selection_simps [OF d2(2)] d2(3) by (simp add: r(2))
  have "view d' 6 AND NOT 8 = r6 AND NOT 8"
    using vco_selection_reg6 [OF d2(2), of r6 sel t] d2(3) [of 6] d1(3) rw by (simp add: r(2))
  also have "\<dots> = (((reg6 OR 0x20) AND 0x3f) OR fc0012_bandwidth_bits bw) AND NOT 8"
    by (auto simp: r6_def intro!: bit_word_eqI simp: bit_simps)
  finally show ?thesis
    using v d1(3) r vco_selection_simps [OF d2(2)] by (auto simp: rs)
qed

lemma set_params_tunes:
  assumes up: "up d" and clk: "tuner_clock io d = 28800000"
    and rw: "\<forall>r \<in> {1, 2, 3, 4, 5, 6}. rw r = -1"
    and freq: "13425000 \<le> uint freq" "uint freq < 948600000"
    and div: "fc0012_divider (uint freq) = (multi, reg5, reg6)"
    and run: "run_state (fc0012_set_params io freq bw) d = (res, d')"
  shows "res = Some 0 \<and> up d'
    \<and> 0 \<le> 32768 * (uint freq * multi) - fc_synth (map (view d') [1, 2, 3, 4]) * 14400000
    \<and> 32768 * (uint freq * multi) - fc_synth (map (view d') [1, 2, 3, 4]) * 14400000 < 32768 * 1440
    \<and> view d' 5 = reg5 OR 7
    \<and> view d' 6 AND NOT 8 = (((reg6 OR 0x20) AND 0x3f) OR fc0012_bandwidth_bits bw) AND NOT 8
    \<and> (\<forall>r. r \<notin> {1, 2, 3, 4, 5, 6, 14} \<longrightarrow> view d' r = view d r)"
proof -
  define f where "f = uint freq * multi"
  have f: "28800000 \<le> f" "f < 4294967296" "1288800000 \<le> f" "f < 3794400000"
    using fc0012_divider_range [of "uint freq" multi reg5 reg6] freq div by (auto simp: f_def)
  then obtain rs where rs: "fc0012_pll f 14400000 = Inr rs" "length rs = 4"
      "0 \<le> 32768 * f - fc_synth rs * 14400000" "32768 * f - fc_synth rs * 14400000 < 32768 * 1440"
    using fc0012_pll_nominal [OF f(1,2)]
    by (cases "fc0012_pll f 14400000"; cases "projl (fc0012_pll f 14400000)") auto
  have "wrap32 f = f" using f by (simp add: wrap_simps)
  then have "fc0012_pll (wrap32 (uint freq * multi)) (uint (tuner_clock io d) div 2) = Inr rs"
    using rs(1) clk by (simp add: f_def)
  from set_params_run [OF up rw div this rs(2) run] rs show ?thesis
    by (simp add: f_def)
qed

end

interpretation sim0012: fc0012_chip sim_io "\<lambda>_. True" "\<lambda>_. -1" sim_regs
  by unfold_locales

section \<open>Properties\<close>

text \<open>
  C6.  Tuning: at the nominal 28.8 MHz clock, for every frequency from 13.425 MHz up to 948.6 MHz
  the driver returns 0 on a chip that answers and leaves registers 1 to 4 with divider words
  whose VCO frequency is the requested one (frequency times output divider) rounded down by less
  than 1440 Hz; register 5 and, up to the VCO range bit, register 6 hold the output divider,
  clock and bandwidth bits, and no register but these and the calibration register 14 changed.
\<close>

theorem fc0012_set_params_tunes:
  assumes "fc0012_chip io up rw view" and "up d" and "tuner_clock io d = 28800000"
    and "\<forall>r \<in> {1, 2, 3, 4, 5, 6}. rw r = -1"
    and "13425000 \<le> uint freq" "uint freq < 948600000"
    and "fc0012_divider (uint freq) = (multi, reg5, reg6)"
    and "run_state (fc0012_set_params io freq bw) d = (res, d')"
  shows "res = Some 0 \<and> up d'
    \<and> 0 \<le> 32768 * (uint freq * multi) - fc_synth (map (view d') [1, 2, 3, 4]) * 14400000
    \<and> 32768 * (uint freq * multi) - fc_synth (map (view d') [1, 2, 3, 4]) * 14400000 < 32768 * 1440
    \<and> view d' 5 = reg5 OR 7
    \<and> view d' 6 AND NOT 8 = (((reg6 OR 0x20) AND 0x3f) OR fc0012_bandwidth_bits bw) AND NOT 8
    \<and> (\<forall>r. r \<notin> {1, 2, 3, 4, 5, 6, 14} \<longrightarrow> view d' r = view d r)"
  by (rule fc0012_chip.set_params_tunes [OF assms])

theorem fc0012_set_params_tunes_witness:
  "\<exists>d'. run_state (fc0012_set_params sim_io 100000000 6000000) sim0 = (Some 0, d')
    \<and> 0 \<le> 32768 * (100000000 * 32) - fc_synth (map (sim_regs d') [1, 2, 3, 4]) * 14400000
    \<and> 32768 * (100000000 * 32) - fc_synth (map (sim_regs d') [1, 2, 3, 4]) * 14400000 < 32768 * 1440"
proof -
  obtain res d' where run: "run_state (fc0012_set_params sim_io 100000000 6000000) sim0 = (res, d')"
    by fastforce
  have div: "fc0012_divider (uint (100000000 :: u32)) = (32, 0x42, 0x02)"
    by (simp add: fc0012_divider_def)
  show ?thesis
    using fc0012_set_params_tunes [OF sim0012.fc0012_chip_axioms _ _ _ _ _ div run] run
    by (simp add: sim_io_def sim0_def)
qed

text \<open>
  Rejection: at the nominal clock, a frequency from 300 kHz below 13.425 MHz or from 948.6 MHz
  below \<open>2 ^ 30\<close> Hz is refused with -1 before any transfer: the dongle is untouched.
\<close>

theorem fc0012_set_params_rejects:
  assumes "tuner_clock io d = 28800000"
    and "300000 \<le> uint freq" "uint freq < 1073741824"
    and "\<not> (13425000 \<le> uint freq \<and> uint freq < 948600000)"
  shows "run_state (fc0012_set_params io freq bw) d = (Some (-1), d)"
proof -
  obtain multi r5 r6 where div: "fc0012_divider (uint freq) = (multi, r5, r6)"
    by (metis surj_pair)
  note range = fc0012_divider_range [OF assms(2,3) div]
  have "wrap32 (uint freq * multi) = uint freq * multi"
    using range by (simp add: wrap_simps)
  moreover have "fc0012_pll (uint freq * multi) 14400000 = Inl NoPll"
    using fc0012_pll_nominal [OF range(1,2)] range(3) assms(4) by auto
  ultimately show ?thesis
    using assms(1) by (simp add: fc0012_set_params_def div)
qed

theorem fc0012_set_params_rejects_witness:
  "run_state (fc0012_set_params sim_io 1000000000 6000000) sim0 = (Some (-1), sim0)"
  by (rule fc0012_set_params_rejects) (simp_all add: sim_io_def sim0_def)

text \<open>
  The 32-bit product \<open>freq * multi\<close> and the 8-bit decrement of \<open>pm\<close> wrap outside that range:
  1.4 GHz is accepted and programs a VCO frequency of 1305032704 Hz instead of 5.6 GHz, and
  100 kHz is accepted with an integer divider of 257 half clocks instead of less than one.
\<close>

theorem fc0012_set_params_wraps:
  "(\<exists>d' rs. run_state (fc0012_set_params sim_io 1400000000 6000000) sim0 = (Some 0, d')
      \<and> map (sim_regs d') [1, 2, 3, 4] = rs \<and> fc_synth rs * 14400000 \<le> 32768 * 1305032704
      \<and> 32768 * 1305032704 - fc_synth rs * 14400000 < 32768 * 1440)
   \<and> (\<exists>d'. run_state (fc0012_set_params sim_io 100000 6000000) sim0 = (Some 0, d')
      \<and> 8 * uint (sim_regs d' 2) + uint (sim_regs d' 1) = 257)"
proof
  obtain res d' where run: "run_state (fc0012_set_params sim_io 1400000000 6000000) sim0 = (res, d')"
    by fastforce
  have div: "fc0012_divider (uint (1400000000 :: u32)) = (4, 0x0a, 0x02)"
    by (simp add: fc0012_divider_def)
  have w: "wrap32 5600000000 = 1305032704" by (simp add: wrap32_def)
  obtain rs where rs: "fc0012_pll 1305032704 14400000 = Inr rs" "length rs = 4"
      "0 \<le> 32768 * 1305032704 - fc_synth rs * 14400000"
      "32768 * 1305032704 - fc_synth rs * 14400000 < 32768 * 1440"
    using fc0012_pll_nominal [of 1305032704]
    by (cases "fc0012_pll 1305032704 14400000"; cases "projl (fc0012_pll 1305032704 14400000)") auto
  have "res = Some 0 \<and> map (sim_regs d') [1, 2, 3, 4] = rs"
    using sim0012.set_params_run [OF _ _ div _ rs(2) run] rs(1)
    by (simp add: w sim_io_def sim0_def)
  then show "\<exists>d' rs. run_state (fc0012_set_params sim_io 1400000000 6000000) sim0 = (Some 0, d')
      \<and> map (sim_regs d') [1, 2, 3, 4] = rs \<and> fc_synth rs * 14400000 \<le> 32768 * 1305032704
      \<and> 32768 * 1305032704 - fc_synth rs * 14400000 < 32768 * 1440"
    using run rs by auto
next
  obtain res d' where run: "run_state (fc0012_set_params sim_io 100000 6000000) sim0 = (res, d')"
    by fastforce
  have div: "fc0012_divider (uint (100000 :: u32)) = (96, 0x82, 0x00)"
    by (simp add: fc0012_divider_def)
  have "fc0012_pll (wrap32 (uint (100000 :: u32) * 96)) 14400000 = Inr [9, 31, 213, 85]"
    by (simp add: fc0012_pll_def fc0012_xdiv_def fc0012_cycles_def fc0012_xin_def Let_def
        wrap8_def wrap16_def wrap32_def wrap64_def)
  then have "res = Some 0 \<and> map (sim_regs d') [1, 2, 3, 4] = [9, 31, 213, 85]"
    using sim0012.set_params_run [OF _ _ div _ _ run, of "[9, 31, 213, 85]"]
    by (simp add: sim_io_def sim0_def)
  then show "\<exists>d'. run_state (fc0012_set_params sim_io 100000 6000000) sim0 = (Some 0, d')
      \<and> 8 * uint (sim_regs d' 2) + uint (sim_regs d' 1) = 257"
    using run by auto
qed

text \<open>
  With a corrected clock the integer and the fractional part may round differently: at
  28800201 Hz (a correction of 7 ppm) and 100125694 Hz the driver returns 0 with words that stand
  for a VCO frequency one whole half clock (14400100 Hz) below the requested one.
\<close>

theorem fc0012_ppm_rounding:
  "\<exists>d'. run_state (fc0012_set_params sim_io 100125694 6000000) (sim0\<lparr>sim_clock := 28800201\<rparr>) = (Some 0, d')
    \<and> 32768 * (100125694 * 32) - fc_synth (map (sim_regs d') [1, 2, 3, 4]) * 14400100 > 32768 * 14400000"
proof -
  obtain res d' where
    run: "run_state (fc0012_set_params sim_io 100125694 6000000) (sim0\<lparr>sim_clock := 28800201\<rparr>) = (res, d')"
    by fastforce
  have div: "fc0012_divider (uint (100125694 :: u32)) = (32, 0x42, 0x02)"
    by (simp add: fc0012_divider_def)
  have "fc0012_pll (wrap32 (uint (100125694 :: u32) * 32)) 14400100 = Inr [6, 27, 192, 0]"
    by (simp add: fc0012_pll_def fc0012_xdiv_def fc0012_cycles_def fc0012_xin_def Let_def
        wrap8_def wrap16_def wrap32_def wrap64_def)
  then have "res = Some 0 \<and> map (sim_regs d') [1, 2, 3, 4] = [6, 27, 192, 0]"
    using sim0012.set_params_run [OF _ _ div _ _ run, of "[6, 27, 192, 0]"]
    by (simp add: sim_io_def sim0_def)
  then show ?thesis
    using run by (simp add: fc_synth_def sint16_def wrap16_def)
qed

text \<open>
  Initialisation: on a chip that answers \<open>fc0012_init\<close> returns 0 and leaves every register
  from 1 to 21 with its entry of the table; a later gain call changes only register 19, keeping
  its three high bits and setting the bits of the requested gain.
\<close>

theorem fc0012_init_gain:
  assumes "fc0012_chip io up rw view" "up d" "\<forall>r. rw r = -1" "i \<in> {1..<22}"
  shows "result_of (fc0012_init io) d = 0
    \<and> view (state_of (fc0012_init io) d) (of_nat i) = fc0012_init_regs ! i
    \<and> result_of (fc0012_set_gain io gain) d = 0
    \<and> view (state_of (fc0012_set_gain io gain) d) =
        (view d)(0x13 := (view d 0x13 AND 0xe0) OR fc0012_gain_bits gain)"
  using fc0012_chip.init_regs [OF assms] fc0012_chip.set_gain_reg [OF assms(1,2)] assms(3) by simp

theorem fc0012_init_gain_witness:
  "result_of (fc0012_init sim_io) sim0 = 0
    \<and> sim_regs (state_of (fc0012_init sim_io) sim0) 7 = 0x20
    \<and> sim_regs (state_of (fc0012_set_gain sim_io 71) sim0) 0x13 = 8"
  using fc0012_init_gain [OF sim0012.fc0012_chip_axioms, where d = sim0 and i = 7 and gain = 71]
  by (simp add: fc0012_init_regs_def fc0012_gain_bits_def sim0_def Let_def)

end
