(* ===== verification/Fc0013.thy ===== *)
theory Fc0013
  imports Fc0012
begin

text \<open>
  The Fitipower FC0013 tuner driver, \<^verbatim>\<open>src/librtlsdr/src/tuner_fc0013.c\<close>.  It shares the
  structure of the FC0012 driver, whose PLL computation it repeats (proved equal below), and adds
  VHF tracking, the band filters, RC calibration and a table of LNA gains.
\<close>

section \<open>Model\<close>

definition FC0013_I2C_ADDR :: u8 where
  "FC0013_I2C_ADDR = 0xc6"

definition fc0013_writereg :: "'d i2c_ops \<Rightarrow> u8 \<Rightarrow> u8 \<Rightarrow> ('d, int) state" where
  "fc0013_writereg io reg val = do {
     r \<leftarrow> i2c_write io FC0013_I2C_ADDR [reg, val];
     ret (if r < 0 then -1 else 0) }"

definition fc0013_readreg :: "'d i2c_ops \<Rightarrow> u8 \<Rightarrow> u8 \<Rightarrow> ('d, int \<times> u8) state" where
  "fc0013_readreg io reg val = do {
     r \<leftarrow> i2c_write io FC0013_I2C_ADDR [reg];
     if r < 0 then ret (-1, val)
     else do {
       (r, data) \<leftarrow> i2c_read io FC0013_I2C_ADDR [reg];
       if r < 0 then ret (-1, val) else ret (0, hd data) } }"

definition fc0013_init_regs :: "u8 list" where
  "fc0013_init_regs =
     (let reg = [0x00, 0x09, 0x16, 0x00, 0x00, 0x17, 0x02, 0x0a, 0xff, 0x6e, 0xb8, 0x82, 0xfc,
                 0x01, 0x00, 0x00, 0x00, 0x00, 0x00, 0x00, 0x50, 0x01];
          reg = reg[0x07 := reg ! 0x07 OR 0x20]
      in reg[0x0c := reg ! 0x0c OR 0x02])"

text \<open>The loop stops at a negative code; \<open>fc0013_writereg\<close> returns no other non-zero code.\<close>

primrec fc0013_init_loop :: "'d i2c_ops \<Rightarrow> nat list \<Rightarrow> int \<Rightarrow> ('d, int) state" where
  "fc0013_init_loop io [] r = ret r"
| "fc0013_init_loop io (i # is) r = do {
     r' \<leftarrow> fc0013_writereg io (of_nat i) (fc0013_init_regs ! i);
     if r' < 0 then ret r' else fc0013_init_loop io is r' }"

definition fc0013_init :: "'d i2c_ops \<Rightarrow> ('d, int) state" where
  "fc0013_init io = fc0013_init_loop io [1..<22] 0"

definition fc0013_rc_cal_add :: "'d i2c_ops \<Rightarrow> int \<Rightarrow> ('d, int) state" where
  "fc0013_rc_cal_add io rc_val =
     and_then (fc0013_writereg io 0x10 0x00)
       (on_read (fc0013_readreg io 0x10 0) (\<lambda>rc_cal.
          let val = uint (rc_cal AND 0x0f) + rc_val
          in and_then (fc0013_writereg io 0x0d 0x11)
               (if val > 15 then fc0013_writereg io 0x10 0x0f
                else if val < 0 then fc0013_writereg io 0x10 0x00
                else fc0013_writereg io 0x10 (word_of_int val))))"

definition fc0013_rc_cal_reset :: "'d i2c_ops \<Rightarrow> ('d, int) state" where
  "fc0013_rc_cal_reset io = do {
     r \<leftarrow> fc0013_writereg io 0x0d 0x01;
     unless_err r (fc0013_writereg io 0x10 0x00) }"

subsection \<open>Tuning\<close>

definition fc0013_vhf_track_bits :: "int \<Rightarrow> u8" where
  "fc0013_vhf_track_bits freq =
     (if freq \<le> 177500000 then 0x1c
      else if freq \<le> 184500000 then 0x18
      else if freq \<le> 191500000 then 0x14
      else if freq \<le> 198500000 then 0x10
      else if freq \<le> 205500000 then 0x0c
      else if freq \<le> 219500000 then 0x08
      else if freq < 300000000 then 0x04
      else 0x1c)"

definition fc0013_set_vhf_track :: "'d i2c_ops \<Rightarrow> u32 \<Rightarrow> ('d, int) state" where
  "fc0013_set_vhf_track io freq =
     on_read (fc0013_readreg io 0x1d 0) (\<lambda>tmp.
       fc0013_writereg io 0x1d ((tmp AND 0xe3) OR fc0013_vhf_track_bits (uint freq)))"

text \<open>VHF filter on or off in register 7, then the UHF and GPS paths in register 20.\<close>

definition fc0013_band_filter :: "'d i2c_ops \<Rightarrow> u32 \<Rightarrow> ('d, int) state" where
  "fc0013_band_filter io freq =
     (if freq < 300000000 then
        on_read (fc0013_readreg io 0x07 0) (\<lambda>tmp.
          and_then (fc0013_writereg io 0x07 (tmp OR 0x10))
            (on_read (fc0013_readreg io 0x14 tmp) (\<lambda>tmp.
               fc0013_writereg io 0x14 (tmp AND 0x1f))))
      else if freq \<le> 862000000 then
        on_read (fc0013_readreg io 0x07 0) (\<lambda>tmp.
          and_then (fc0013_writereg io 0x07 (tmp AND 0xef))
            (on_read (fc0013_readreg io 0x14 tmp) (\<lambda>tmp.
               fc0013_writereg io 0x14 ((tmp AND 0x1f) OR 0x40))))
      else
        on_read (fc0013_readreg io 0x07 0) (\<lambda>tmp.
          and_then (fc0013_writereg io 0x07 (tmp AND 0xef))
            (on_read (fc0013_readreg io 0x14 tmp) (\<lambda>tmp.
               fc0013_writereg io 0x14 ((tmp AND 0x1f) OR 0x20)))))"

definition fc0013_divider :: "int \<Rightarrow> int \<times> u8 \<times> u8" where
  "fc0013_divider freq =
     (if freq < 37084000 then (96, 0x82, 0x00)
      else if freq < 55625000 then (64, 0x02, 0x02)
      else if freq < 74167000 then (48, 0x42, 0x00)
      else if freq < 111250000 then (32, 0x82, 0x02)
      else if freq < 148334000 then (24, 0x22, 0x00)
      else if freq < 222500000 then (16, 0x42, 0x02)
      else if freq < 296667000 then (12, 0x12, 0x00)
      else if freq < 445000000 then (8, 0x22, 0x02)
      else if freq < 593334000 then (6, 0x0a, 0x00)
      else if freq < 950000000 then (4, 0x12, 0x02)
      else (2, 0x0a, 0x02))"

definition fc0013_xdiv :: "int \<Rightarrow> int \<Rightarrow> int" where
  "fc0013_xdiv f_vco x2 =
     (let xdiv = wrap16 (f_vco div x2)
      in if wrap64 (f_vco - wrap32 (xdiv * x2)) \<ge> x2 div 2 then wrap16 (xdiv + 1) else xdiv)"

definition fc0013_cycles :: "int \<Rightarrow> int \<times> int" where
  "fc0013_cycles xdiv =
     (let pm = wrap8 (xdiv div 8);
          am = wrap8 (xdiv - 8 * pm);
          (am, pm) = (if am < 2 then (wrap8 (am + 8), wrap8 (pm - 1)) else (am, pm))
      in if pm > 31 then (wrap8 (am + 8 * (pm - 31)), 31) else (am, pm))"

definition fc0013_xin :: "int \<Rightarrow> int \<Rightarrow> int" where
  "fc0013_xin f_vco x2 =
     (let xin = wrap16 ((f_vco - f_vco div x2 * x2) div 1000);
          xin = wrap16 (xin * 32768 div (x2 div 1000))
      in if xin \<ge> 16384 then wrap16 (xin + 32768) else xin)"

definition fc0013_pll :: "int \<Rightarrow> int \<Rightarrow> pll_error + u8 list" where
  "fc0013_pll f_vco x2 =
     (if x2 = 0 then Inl DivByZero
      else let (reg1, reg2) = fc0013_cycles (fc0013_xdiv f_vco x2)
           in if reg1 > 15 \<or> reg2 < 0x0b then Inl NoPll
              else if x2 div 1000 = 0 then Inl DivByZero
              else let xin = fc0013_xin f_vco x2
                   in Inr [word_of_int reg1, word_of_int reg2,
                           word_of_int (xin div 256), word_of_int (xin mod 256)])"

definition fc0013_bandwidth_bits :: "u32 \<Rightarrow> u8" where
  "fc0013_bandwidth_bits bandwidth =
     (if bandwidth = 6000000 then 0x80 else if bandwidth = 7000000 then 0x40 else 0)"

definition fc0013_multi_64 :: "'d i2c_ops \<Rightarrow> int \<Rightarrow> ('d, int) state" where
  "fc0013_multi_64 io multi =
     on_read (fc0013_readreg io 0x11 0) (\<lambda>tmp.
       if multi = 64 then fc0013_writereg io 0x11 (tmp OR 0x04)
       else fc0013_writereg io 0x11 (tmp AND 0xfb))"

definition fc0013_calibrate :: "'d i2c_ops \<Rightarrow> ('d, int \<times> u8) state" where
  "fc0013_calibrate io = do {
     r \<leftarrow> fc0013_writereg io 0x0e 0x80;
     r \<leftarrow> unless_err r (fc0013_writereg io 0x0e 0x00);
     r \<leftarrow> unless_err r (fc0013_writereg io 0x0e 0x00);
     if r = 0 then fc0013_readreg io 0x0e 0 else ret (r, 0) }"

definition fc0013_recalibrate :: "'d i2c_ops \<Rightarrow> u8 \<Rightarrow> ('d, int) state" where
  "fc0013_recalibrate io reg6 = do {
     r \<leftarrow> fc0013_writereg io 0x06 reg6;
     r \<leftarrow> unless_err r (fc0013_writereg io 0x0e 0x80);
     unless_err r (fc0013_writereg io 0x0e 0x00) }"

definition fc0013_vco_selection :: "'d i2c_ops \<Rightarrow> bool \<Rightarrow> u8 \<Rightarrow> u8 \<Rightarrow> ('d, int) state" where
  "fc0013_vco_selection io vco_select reg6 tmp = (
     let tmp = tmp AND 0x3f
     in if vco_select then (if tmp > 0x3c then fc0013_recalibrate io (reg6 AND NOT 0x08) else ret 0)
        else (if tmp < 0x02 then fc0013_recalibrate io (reg6 OR 0x08) else ret 0))"

text \<open>Everything behind the PLL computation: registers 1 to 6, register 17, the VCO.\<close>

definition fc0013_program :: "'d i2c_ops \<Rightarrow> u8 list \<Rightarrow> int \<Rightarrow> bool \<Rightarrow> ('d, int) state" where
  "fc0013_program io reg multi vco_select =
     and_then (for_until (\<lambda>i. fc0013_writereg io (of_nat i) (reg ! i)) [1..<7] 0)
       (and_then (fc0013_multi_64 io multi)
         (on_read (fc0013_calibrate io) (\<lambda>tmp. fc0013_vco_selection io vco_select (reg ! 6) tmp)))"

definition fc0013_set_params :: "'d i2c_ops \<Rightarrow> u32 \<Rightarrow> u32 \<Rightarrow> ('d, int option) state" where
  "fc0013_set_params io freq bandwidth = do {
     d \<leftarrow> State_Monad.get;
     let x2 = uint (tuner_clock io d) div 2;
     r \<leftarrow> and_then (fc0013_set_vhf_track io freq) (fc0013_band_filter io freq);
     if r \<noteq> 0 then ret (Some r)
     else do {
       let (multi, reg5, reg6) = fc0013_divider (uint freq);
       let f_vco = wrap32 (uint freq * multi);
       let vco_select = f_vco \<ge> 3060000000;
       let reg6 = (if vco_select then reg6 OR 0x08 else reg6);
       case fc0013_pll f_vco x2 of
         Inl NoPll \<Rightarrow> ret (Some (-1))
       | Inl DivByZero \<Rightarrow> ret None
       | Inr reg1_4 \<Rightarrow> do {
           let reg6 = ((reg6 OR 0x20) AND 0x3f) OR fc0013_bandwidth_bits bandwidth;
           let reg5 = reg5 OR 0x07;
           r \<leftarrow> fc0013_program io (0 # reg1_4 @ [reg5, reg6]) multi vco_select;
           ret (Some r) } } }"

subsection \<open>Gain\<close>

definition fc0013_set_gain_mode :: "'d i2c_ops \<Rightarrow> int \<Rightarrow> ('d, int) state" where
  "fc0013_set_gain_mode io manual = do {
     (r1, tmp) \<leftarrow> fc0013_readreg io 0x0d 0;
     let tmp = (if manual \<noteq> 0 then tmp OR push_bit 3 1 else tmp AND NOT (push_bit 3 1));
     r2 \<leftarrow> fc0013_writereg io 0x0d tmp;
     r3 \<leftarrow> fc0013_writereg io 0x13 0x0a;
     ret (r1 OR r2 OR r3) }"

definition fc0013_lna_gains :: "(int \<times> u8) list" where
  "fc0013_lna_gains =
     [(-99, 0x02), (-73, 0x03), (-65, 0x05), (-63, 0x04), (-63, 0x00), (-60, 0x07), (-58, 0x01),
      (-54, 0x06), (58, 0x0f), (61, 0x0e), (63, 0x0d), (65, 0x0c), (67, 0x0b), (68, 0x0a),
      (70, 0x09), (71, 0x08), (179, 0x17), (181, 0x16), (182, 0x15), (184, 0x14), (186, 0x13),
      (188, 0x12), (191, 0x11), (197, 0x10)]"

text \<open>The loop of \<open>fc0013_set_lna_gain\<close>: the first entry not below the gain, else the last.\<close>

fun fc0013_gain_code :: "int \<Rightarrow> (int \<times> u8) list \<Rightarrow> u8" where
  "fc0013_gain_code gain [] = 0"
| "fc0013_gain_code gain ((g, c) # rest) =
     (if g \<ge> gain \<or> rest = [] then c else fc0013_gain_code gain rest)"

definition fc0013_set_lna_gain :: "'d i2c_ops \<Rightarrow> int \<Rightarrow> ('d, int) state" where
  "fc0013_set_lna_gain io gain = do {
     (r1, tmp) \<leftarrow> fc0013_readreg io 0x14 0;
     let tmp = (tmp AND 0xe0) OR fc0013_gain_code gain fc0013_lna_gains;
     r2 \<leftarrow> fc0013_writereg io 0x14 tmp;
     ret (r1 OR r2) }"

section \<open>Lemmas\<close>

text \<open>The PLL computation is that of the FC0012 driver.\<close>

lemma fc0013_pll_fc0012: "fc0013_pll = fc0012_pll"
proof -
  have eq: "fc0013_xdiv = fc0012_xdiv" "fc0013_cycles = fc0012_cycles" "fc0013_xin = fc0012_xin"
    by (simp_all add: fun_eq_iff fc0013_xdiv_def fc0012_xdiv_def fc0013_cycles_def fc0012_cycles_def
        fc0013_xin_def fc0012_xin_def)
  show ?thesis
    unfolding fc0013_pll_def [abs_def] fc0012_pll_def [abs_def] eq by (rule refl)
qed

lemma fc0013_divider_range:
  assumes "300000 \<le> freq" "freq < 2147483648" "fc0013_divider freq = (multi, r5, r6)"
  shows "28800000 \<le> freq * multi" "freq * multi < 4294967296"
    and "(13425000 \<le> freq \<and> freq < 948600000) \<or> (950000000 \<le> freq \<and> freq < 1897200000) \<longleftrightarrow>
      1288800000 \<le> freq * multi \<and> freq * multi < 3794400000"
  using assms by (auto simp: fc0013_divider_def split: if_splits)

text \<open>In a sorted table the loop finds the least gain not below the requested one.\<close>

lemma fc0013_gain_code_spec:
  assumes "sorted (map fst t)" "t \<noteq> []"
  shows "\<exists>g. (g, fc0013_gain_code gain t) \<in> set t \<and> (\<forall>(g', c') \<in> set t. gain \<le> g' \<longrightarrow> g \<le> g')
    \<and> (g < gain \<longrightarrow> (\<forall>(g', c') \<in> set t. g' < gain))"
  using assms
proof (induction gain t rule: fc0013_gain_code.induct)
  case (2 gain g c rest)
  show ?case
  proof (cases "g \<ge> gain \<or> rest = []")
    case True
    with "2.prems" show ?thesis by (intro exI [of _ g]) auto
  next
    case False
    with "2.prems" "2.IH" obtain g' where "(g', fc0013_gain_code gain rest) \<in> set rest"
        "\<forall>(h, c') \<in> set rest. gain \<le> h \<longrightarrow> g' \<le> h" "g' < gain \<longrightarrow> (\<forall>(h, c') \<in> set rest. h < gain)"
      by auto
    with False show ?thesis by (intro exI [of _ g']) auto
  qed
qed simp

section \<open>The driver on a chip that answers\<close>

locale fc0013_chip = i2c_chip io FC0013_I2C_ADDR up rw view
  for io :: "'d i2c_ops" and up :: "'d \<Rightarrow> bool" and rw :: "u8 \<Rightarrow> u8" and view :: "'d \<Rightarrow> u8 \<Rightarrow> u8"
begin

lemma writereg_simps:
  "up d \<Longrightarrow> result_of (fc0013_writereg io r v) d = 0"
  "up d \<Longrightarrow> up (state_of (fc0013_writereg io r v) d)"
  "up d \<Longrightarrow> view (state_of (fc0013_writereg io r v) d) = (view d)(r := v AND rw r)"
  by (simp_all add: fc0013_writereg_def chip_simps)

lemma readreg_simps:
  "up d \<Longrightarrow> fst (result_of (fc0013_readreg io r b) d) = 0"
  "up d \<Longrightarrow> snd (result_of (fc0013_readreg io r b) d) AND rw r = view d r"
  "up d \<Longrightarrow> up (state_of (fc0013_readreg io r b) d)"
  "up d \<Longrightarrow> view (state_of (fc0013_readreg io r b) d) = view d"
  by (auto simp: fc0013_readreg_def chip_simps split_beta elim!: read_result [of d r r])

end

sublocale fc0013_chip \<subseteq> regs: reg_file "fc0013_writereg io" "fc0013_readreg io" up rw view
  by unfold_locales (simp_all add: writereg_simps readreg_simps)

context fc0013_chip
begin

lemmas reg_simps = regs.reg_simps

lemma set_vhf_track_simps:
  fixes freq :: u32
  assumes "up d" "rw 0x1d = -1"
  defines "m \<equiv> fc0013_set_vhf_track io freq"
  shows "result_of m d = 0" "up (state_of m d)"
    and "view (state_of m d) = (view d)(0x1d := (view d 0x1d AND 0xe3) OR fc0013_vhf_track_bits (uint freq))"
  using assms(1,2) regs.read_value [of d "0x1d" 0]
  by (simp_all add: m_def fc0013_set_vhf_track_def reg_simps)

text \<open>The bits the band filter leaves in registers 7 and 20.\<close>

lemma band_filter_simps:
  fixes freq :: u32
  assumes "up d" "rw 0x07 = -1" "rw 0x14 = -1"
  defines "m \<equiv> fc0013_band_filter io freq"
  shows "result_of m d = 0" "up (state_of m d)"
    and "view (state_of m d) = (view d)(
      0x07 := (if freq < 300000000 then view d 0x07 OR 0x10 else view d 0x07 AND 0xef),
      0x14 := (view d 0x14 AND 0x1f) OR
        (if freq < 300000000 then 0 else if freq \<le> 862000000 then 0x40 else 0x20))"
  using assms(1-3) by (simp_all add: m_def fc0013_band_filter_def reg_simps regs.read_value)

lemma multi_64_simps:
  fixes multi :: int
  assumes "up d" "rw 0x11 = -1"
  defines "m \<equiv> fc0013_multi_64 io multi"
  shows "result_of m d = 0" "up (state_of m d)"
    and "view (state_of m d) =
      (view d)(0x11 := (if multi = 64 then view d 0x11 OR 0x04 else view d 0x11 AND 0xfb))"
  using assms(1,2) by (simp_all add: m_def fc0013_multi_64_def reg_simps regs.read_value)

lemma calibrate_simps:
  "up d \<Longrightarrow> fst (result_of (fc0013_calibrate io) d) = 0"
  "up d \<Longrightarrow> up (state_of (fc0013_calibrate io) d)"
  "up d \<Longrightarrow> r \<noteq> 0x0e \<Longrightarrow> view (state_of (fc0013_calibrate io) d) r = view d r"
  by (simp_all add: fc0013_calibrate_def reg_simps)

lemma vco_selection_simps:
  "up d \<Longrightarrow> result_of (fc0013_vco_selection io sel reg6 t) d = 0"
  "up d \<Longrightarrow> up (state_of (fc0013_vco_selection io sel reg6 t) d)"
  "up d \<Longrightarrow> r \<noteq> 0x0e \<Longrightarrow> r \<noteq> 0x06 \<Longrightarrow>
     view (state_of (fc0013_vco_selection io sel reg6 t) d) r = view d r"
  by (simp_all add: fc0013_vco_selection_def fc0013_recalibrate_def Let_def reg_simps)

lemma rc_cal_add_simps:
  assumes "up d" "rw 0x10 = -1"
  shows "result_of (fc0013_rc_cal_add io v) d = 0"
    and "view (state_of (fc0013_rc_cal_add io v) d) 0x10 = word_of_int (max 0 (min 15 v))"
  using assms regs.read_value [of "state_of (fc0013_writereg io 0x10 0) d" "0x10" 0]
  by (auto simp: fc0013_rc_cal_add_def reg_simps Let_def)

lemma set_lna_gain_simps:
  assumes "up d" "rw 0x14 = -1"
  shows "result_of (fc0013_set_lna_gain io g) d = 0"
    and "view (state_of (fc0013_set_lna_gain io g) d) =
      (view d)(0x14 := (view d 0x14 AND 0xe0) OR fc0013_gain_code g fc0013_lna_gains)"
  using assms by (simp_all add: fc0013_set_lna_gain_def reg_simps regs.read_value split_beta Let_def)

text \<open>The calibration register ends at 0, and register 6 keeps its value up to the VCO range bit.\<close>

lemma calibrate_reg: "up d \<Longrightarrow> view (state_of (fc0013_calibrate io) d) 0x0e = 0"
  by (simp add: fc0013_calibrate_def reg_simps)

lemma vco_selection_regs:
  assumes "up d" "rw 6 = -1" "view d 6 = reg6" "view d 0x0e = 0"
  shows "view (state_of (fc0013_vco_selection io sel reg6 t) d) 6 AND NOT 8 = reg6 AND NOT 8"
    and "view (state_of (fc0013_vco_selection io sel reg6 t) d) 0x0e = 0"
  using assms
  by (auto simp: fc0013_vco_selection_def fc0013_recalibrate_def Let_def reg_simps intro!: bit_word_eqI simp: bit_simps)

text \<open>Programming: registers 1 to 5 and 17 exactly, register 6 up to the VCO range bit.\<close>

lemma program_simps:
  fixes multi :: int and sel :: bool
  assumes "up d" "\<forall>r \<in> {1, 2, 3, 4, 5, 6, 0x11}. rw r = -1" "length rs = 6"
  defines "m \<equiv> fc0013_program io (0 # rs) multi sel"
  shows "result_of m d = 0" "up (state_of m d)"
    and "r \<notin> {6, 0x0e} \<Longrightarrow> view (state_of m d) r =
      ((view d)(1 := rs ! 0, 2 := rs ! 1, 3 := rs ! 2, 4 := rs ! 3, 5 := rs ! 4,
         0x11 := (if multi = 64 then view d 0x11 OR 0x04 else view d 0x11 AND 0xfb))) r"
    and "view (state_of m d) 6 AND NOT 8 = rs ! 5 AND NOT 8" "view (state_of m d) 0x0e = 0"
proof -
  define d1 where "d1 = state_of (for_until (\<lambda>i. fc0013_writereg io (of_nat i) ((0 # rs) ! i)) [1..<7] 0) d"
  have d1: "result_of (for_until (\<lambda>i. fc0013_writereg io (of_nat i) ((0 # rs) ! i)) [1..<7] 0) d = 0"
    "up d1" "view d1 = (view d)(1 := rs ! 0, 2 := rs ! 1, 3 := rs ! 2, 4 := rs ! 3, 5 := rs ! 4, 6 := rs ! 5)"
    using assms(1-3)
    by (simp_all add: d1_def upt_rec_numeral upt_rec [of "Suc _"] reg_simps eval_nat_numeral)
  have m: "run_state m d = run_state (and_then (fc0013_multi_64 io multi) (on_read (fc0013_calibrate io)
      (\<lambda>tmp. fc0013_vco_selection io sel ((0 # rs) ! 6) tmp))) d1"
    using d1(1) by (simp add: m_def fc0013_program_def d1_def)
  have rw17: "rw 0x11 = -1" using assms(2) by simp
  show "result_of m d = 0" "up (state_of m d)"
    by (simp_all add: m multi_64_simps [OF d1(2) rw17] calibrate_simps vco_selection_simps)
  show "r \<notin> {6, 0x0e} \<Longrightarrow> view (state_of m d) r =
      ((view d)(1 := rs ! 0, 2 := rs ! 1, 3 := rs ! 2, 4 := rs ! 3, 5 := rs ! 4,
         0x11 := (if multi = 64 then view d 0x11 OR 0x04 else view d 0x11 AND 0xfb))) r"
    using d1(3) by (simp add: m multi_64_simps [OF d1(2) rw17] calibrate_simps vco_selection_simps)
  have rw6: "rw 6 = -1" using assms(2) by simp
  define d2 where "d2 = state_of (fc0013_calibrate io) (state_of (fc0013_multi_64 io multi) d1)"
  have d2: "up d2" "view d2 6 = rs ! 5" "view d2 0x0e = 0"
    using d1(3) by (simp_all add: d2_def multi_64_simps [OF d1(2) rw17] calibrate_simps calibrate_reg)
  show "view (state_of m d) 6 AND NOT 8 = rs ! 5 AND NOT 8" "view (state_of m d) 0x0e = 0"
    using vco_selection_regs [OF d2(1) rw6 d2(2,3)]
    by (simp_all add: m multi_64_simps [OF d1(2) rw17] calibrate_simps nth_Cons_numeral flip: d2_def)
qed

end

context fc0013_chip
begin

lemma front_end_simps:
  fixes freq :: u32
  assumes "up d" "\<forall>r \<in> {7, 0x14, 0x1d}. rw r = -1"
  defines "m \<equiv> and_then (fc0013_set_vhf_track io freq) (fc0013_band_filter io freq)"
  shows "result_of m d = 0" "up (state_of m d)"
    and "view (state_of m d) = (view d)(
      0x1d := (view d 0x1d AND 0xe3) OR fc0013_vhf_track_bits (uint freq),
      0x07 := (if freq < 300000000 then view d 0x07 OR 0x10 else view d 0x07 AND 0xef),
      0x14 := (view d 0x14 AND 0x1f) OR
        (if freq < 300000000 then 0 else if freq \<le> 862000000 then 0x40 else 0x20))"
  using assms(1,2) by (simp_all add: m_def set_vhf_track_simps band_filter_simps)

lemma set_params_run:
  assumes up: "up d" and rw: "\<forall>r \<in> {1, 2, 3, 4, 5, 6, 7, 0x11, 0x14, 0x1d}. rw r = -1"
    and div: "fc0013_divider (uint freq) = (multi, reg5, reg6)"
    and pll: "fc0013_pll (wrap32 (uint freq * multi)) (uint (tuner_clock io d) div 2) = Inr rs" "length rs = 4"
    and run: "run_state (fc0013_set_params io freq bw) d = (res, d')"
  shows "res = Some 0 \<and> up d' \<and> map (view d') [1, 2, 3, 4] = rs \<and> view d' 5 = reg5 OR 7
    \<and> view d' 6 AND NOT 8 = (((reg6 OR 0x20) AND 0x3f) OR fc0013_bandwidth_bits bw) AND NOT 8 \<and> view d' 0x0e = 0
    \<and> view d' 0x07 = (if freq < 300000000 then view d 0x07 OR 0x10 else view d 0x07 AND 0xef)
    \<and> view d' 0x11 = (if multi = 64 then view d 0x11 OR 0x04 else view d 0x11 AND 0xfb)
    \<and> view d' 0x14 = (view d 0x14 AND 0x1f) OR
        (if freq < 300000000 then 0 else if freq \<le> 862000000 then 0x40 else 0x20)
    \<and> view d' 0x1d = (view d 0x1d AND 0xe3) OR fc0013_vhf_track_bits (uint freq)
    \<and> (\<forall>r. r \<notin> {1, 2, 3, 4, 5, 6, 7, 0x0e, 0x11, 0x14, 0x1d} \<longrightarrow> view d' r = view d r)"
proof -
  obtain a1 a2 a3 a4 where rs: "rs = [a1, a2, a3, a4]"
    using pll(2) by (auto simp: length_Suc_conv numeral_eq_Suc)
  define sel where "sel = (3060000000 \<le> wrap32 (uint freq * multi))"
  define r6 where
    "r6 = (((if sel then reg6 OR 8 else reg6) OR 0x20) AND 0x3f) OR fc0013_bandwidth_bits bw"
  define regs where "regs = [a1, a2, a3, a4, reg5 OR 7, r6]"
  have rw7: "\<forall>r \<in> {7, 0x14, 0x1d}. rw r = -1" using rw by simp
  note fe = front_end_simps [OF up rw7, of freq]
  define d1 where "d1 = state_of (and_then (fc0013_set_vhf_track io freq) (fc0013_band_filter io freq)) d"
  have d1: "up d1" using fe(2) by (simp add: d1_def del: run_and_then)
  have rw1: "\<forall>r \<in> {1, 2, 3, 4, 5, 6, 0x11}. rw r = -1" using rw by simp
  note pr = program_simps [OF d1 rw1, of regs]
  have r: "res = Some 0" "d' = state_of (fc0013_program io (0 # regs) multi sel) d1"
    using run fe(1) pr(1) [where multi = multi and sel = sel] unfolding d1_def regs_def r6_def sel_def
    by (simp_all add: fc0013_set_params_def div pll rs Let_def split_beta del: run_and_then)
  have "view d1 = (view d)(
      0x1d := (view d 0x1d AND 0xe3) OR fc0013_vhf_track_bits (uint freq),
      0x07 := (if freq < 300000000 then view d 0x07 OR 0x10 else view d 0x07 AND 0xef),
      0x14 := (view d 0x14 AND 0x1f) OR
        (if freq < 300000000 then 0 else if freq \<le> 862000000 then 0x40 else 0x20))"
    using fe(3) by (simp add: d1_def del: run_and_then)
  moreover have "r6 AND NOT 8 = (((reg6 OR 0x20) AND 0x3f) OR fc0013_bandwidth_bits bw) AND NOT 8"
    by (auto simp: r6_def intro!: bit_word_eqI simp: bit_simps)
  ultimately show ?thesis
    using pr(2-5) [where multi = multi and sel = sel] by (simp add: r regs_def rs)
qed

end

interpretation sim0013: fc0013_chip sim_io "\<lambda>_. True" "\<lambda>_. -1" sim_regs
  by unfold_locales

section \<open>Properties\<close>

text \<open>
  C7.  Tuning: at the nominal 28.8 MHz clock, for every frequency in 13.425 to 948.6 MHz or 950 to
  1897.2 MHz the driver returns 0 on a chip that answers, registers 1 to 4 stand for the requested
  VCO frequency rounded down by less than 1440 Hz, registers 5 and 6 hold the divider's bits with the bandwidth (register 6
  up to its bit 3, the VCO range, which depends on what the calibration reads), the calibration register 14 ends at 0, the VHF filter bit is set exactly below
  300 MHz, the UHF and GPS bits select the band, the tracking filter follows its table, the extra
  divider bit of register 17 is set exactly for the divider 64, and no register but these changes.
\<close>

theorem fc0013_set_params_tunes:
  assumes chip: "fc0013_chip io up rw view" and up: "up d" and clk: "tuner_clock io d = 28800000"
    and rw: "\<forall>r \<in> {1, 2, 3, 4, 5, 6, 7, 0x11, 0x14, 0x1d}. rw r = -1"
    and freq: "(13425000 \<le> uint freq \<and> uint freq < 948600000) \<or> (950000000 \<le> uint freq \<and> uint freq < 1897200000)"
    and div: "fc0013_divider (uint freq) = (multi, reg5, reg6)"
    and run: "run_state (fc0013_set_params io freq bw) d = (res, d')"
  shows "res = Some 0
    \<and> 0 \<le> 32768 * (uint freq * multi) - fc_synth (map (view d') [1, 2, 3, 4]) * 14400000
    \<and> 32768 * (uint freq * multi) - fc_synth (map (view d') [1, 2, 3, 4]) * 14400000 < 32768 * 1440
    \<and> view d' 5 = reg5 OR 7
    \<and> view d' 6 AND NOT 8 = (((reg6 OR 0x20) AND 0x3f) OR fc0013_bandwidth_bits bw) AND NOT 8
    \<and> view d' 0x0e = 0
    \<and> view d' 0x07 = (if freq < 300000000 then view d 0x07 OR 0x10 else view d 0x07 AND 0xef)
    \<and> view d' 0x11 = (if multi = 64 then view d 0x11 OR 0x04 else view d 0x11 AND 0xfb)
    \<and> view d' 0x14 = (view d 0x14 AND 0x1f) OR
        (if freq < 300000000 then 0 else if freq \<le> 862000000 then 0x40 else 0x20)
    \<and> view d' 0x1d = (view d 0x1d AND 0xe3) OR fc0013_vhf_track_bits (uint freq)
    \<and> (\<forall>r. r \<notin> {1, 2, 3, 4, 5, 6, 7, 0x0e, 0x11, 0x14, 0x1d} \<longrightarrow> view d' r = view d r)"
proof -
  define f where "f = uint freq * multi"
  have f: "28800000 \<le> f" "f < 4294967296" "1288800000 \<le> f" "f < 3794400000"
    using fc0013_divider_range [of "uint freq" multi reg5 reg6] freq div by (auto simp: f_def)
  then obtain rs where rs: "fc0013_pll f 14400000 = Inr rs" "length rs = 4"
      "0 \<le> 32768 * f - fc_synth rs * 14400000" "32768 * f - fc_synth rs * 14400000 < 32768 * 1440"
    using fc0012_pll_nominal [OF f(1,2)] unfolding fc0013_pll_fc0012
    by (cases "fc0012_pll f 14400000"; cases "projl (fc0012_pll f 14400000)") auto
  have "fc0013_pll (wrap32 (uint freq * multi)) (uint (tuner_clock io d) div 2) = Inr rs"
    using rs(1) clk f by (simp add: f_def wrap_simps)
  from fc0013_chip.set_params_run [OF chip up rw div this rs(2) run] rs show ?thesis
    by (simp add: f_def)
qed

theorem fc0013_set_params_tunes_witness:
  "\<exists>d'. run_state (fc0013_set_params sim_io 1090000000 6000000) sim0 = (Some 0, d')
    \<and> 0 \<le> 32768 * (1090000000 * 2) - fc_synth (map (sim_regs d') [1, 2, 3, 4]) * 14400000
    \<and> sim_regs d' 0x14 = 0x20"
proof -
  obtain res d' where run: "run_state (fc0013_set_params sim_io 1090000000 6000000) sim0 = (res, d')"
    by fastforce
  have div: "fc0013_divider (uint (1090000000 :: u32)) = (2, 0x0a, 0x02)"
    by (simp add: fc0013_divider_def)
  show ?thesis
    using fc0013_set_params_tunes [OF sim0013.fc0013_chip_axioms _ _ _ _ div run] run
    by (simp add: sim_io_def sim0_def)
qed

text \<open>
  The gap: at the nominal clock every frequency from 948.6 MHz below 950 MHz is refused with
  -1, because the divider 4 still applies and its VCO frequency is out of range, although lower
  and higher frequencies are accepted.
\<close>

theorem fc0013_gap:
  assumes "fc0013_chip io up rw view" "up d" "tuner_clock io d = 28800000"
    and "\<forall>r \<in> {7, 0x14, 0x1d}. rw r = -1"
    and "948600000 \<le> uint freq" "uint freq < 950000000"
  shows "result_of (fc0013_set_params io freq bw) d = Some (-1)"
proof -
  have div: "fc0013_divider (uint freq) = (4, 0x12, 0x02)"
    using assms(5,6) by (simp add: fc0013_divider_def)
  have "fc0013_pll (wrap32 (uint freq * 4)) 14400000 = Inl NoPll"
    using fc0012_pll_nominal [of "uint freq * 4"] assms(5,6)
    by (simp add: fc0013_pll_fc0012 wrap_simps)
  then show ?thesis
    using fc0013_chip.front_end_simps(1) [OF assms(1,2,4), of freq] assms(3)
    by (simp add: fc0013_set_params_def div del: run_and_then)
qed

theorem fc0013_gap_witness:
  "result_of (fc0013_set_params sim_io 949000000 6000000) sim0 = Some (-1)"
  by (rule fc0013_gap [OF sim0013.fc0013_chip_axioms]) (simp_all add: sim_io_def sim0_def)

text \<open>
  Gain: on a chip that answers \<open>fc0013_set_lna_gain\<close> returns 0, changes only the low five bits
  of register 20, and writes there the code of a table entry whose gain is the least one not below
  the requested gain, or the largest of the table when all are below.
\<close>

theorem fc0013_lna_gain_least:
  assumes "fc0013_chip io up rw view" "up d" "rw 0x14 = -1"
  shows "\<exists>g c. (g, c) \<in> set fc0013_lna_gains
    \<and> (\<forall>(g', c') \<in> set fc0013_lna_gains. gain \<le> g' \<longrightarrow> g \<le> g')
    \<and> (g < gain \<longrightarrow> (\<forall>(g', c') \<in> set fc0013_lna_gains. g' < gain))
    \<and> run_state (fc0013_set_lna_gain io gain) d = (0, state_of (fc0013_set_lna_gain io gain) d)
    \<and> view (state_of (fc0013_set_lna_gain io gain) d) =
        (view d)(0x14 := (view d 0x14 AND 0xe0) OR c)"
proof -
  have "sorted (map fst fc0013_lna_gains)" "fc0013_lna_gains \<noteq> []"
    by (simp_all add: fc0013_lna_gains_def)
  then obtain g where g: "(g, fc0013_gain_code gain fc0013_lna_gains) \<in> set fc0013_lna_gains"
      "\<forall>(g', c') \<in> set fc0013_lna_gains. gain \<le> g' \<longrightarrow> g \<le> g'"
      "g < gain \<longrightarrow> (\<forall>(g', c') \<in> set fc0013_lna_gains. g' < gain)"
    using fc0013_gain_code_spec by blast
  note run = fc0013_chip.set_lna_gain_simps [OF assms, of gain]
  show ?thesis
    by (intro exI [of _ g] exI [of _ "fc0013_gain_code gain fc0013_lna_gains"] conjI)
      (use g run in \<open>simp_all add: prod_eq_iff\<close>)
qed

theorem fc0013_lna_gain_least_witness:
  "\<exists>g c. (g, c) \<in> set fc0013_lna_gains
    \<and> (\<forall>(g', c') \<in> set fc0013_lna_gains. 100 \<le> g' \<longrightarrow> g \<le> g')
    \<and> sim_regs (state_of (fc0013_set_lna_gain sim_io 100) sim0) 0x14 = c"
proof -
  obtain g c where gc: "(g, c) \<in> set fc0013_lna_gains"
      "\<forall>(g', c') \<in> set fc0013_lna_gains. 100 \<le> g' \<longrightarrow> g \<le> g'"
      "sim_regs (state_of (fc0013_set_lna_gain sim_io 100) sim0) =
        (sim_regs sim0)(0x14 := (sim_regs sim0 0x14 AND 0xe0) OR c)"
    using fc0013_lna_gain_least [OF sim0013.fc0013_chip_axioms, where d = sim0 and gain = 100] by blast
  then show ?thesis
    by (intro exI [of _ g] exI [of _ c]) (simp add: sim0_def)
qed

end
