(* ===== verification/Fc2580.thy ===== *)
theory Fc2580
  imports I2c_Bus
begin

text \<open>
  The FCI FC2580 tuner driver, \<^verbatim>\<open>src/librtlsdr/src/tuner_fc2580.c\<close>.  Its operations accumulate
  the codes of all their transfers with \<open>result &= \<dots>\<close> and carry on after a failure; the code
  \<open>FC2580_FCI_SUCCESS\<close> is \<open>True\<close>.  Frequencies are in kHz.  A division by zero is \<open>None\<close>.  The
  lemmas show that the synthesiser words are exact for the crystal the driver uses and that the
  calibration loop ends within its five rounds.
\<close>

section \<open>Model\<close>

definition FC2580_I2C_ADDR :: u8 where
  "FC2580_I2C_ADDR = 0xac"

definition BORDER_FREQ :: int where
  "BORDER_FREQ = 2600000"

text \<open>\<open>(CRYSTAL_FREQ + 500) / 1000\<close>\<close>

definition CrystalFreqKhz :: int where
  "CrystalFreqKhz = (16384000 + 500) div 1000"

datatype fc2580_band_type = FC2580_UHF_BAND | FC2580_L_BAND | FC2580_VHF_BAND | FC2580_NO_BAND

definition fc2580_i2c_write :: "'d i2c_ops \<Rightarrow> u8 \<Rightarrow> u8 \<Rightarrow> ('d, bool) state" where
  "fc2580_i2c_write io reg val = do {
     r \<leftarrow> i2c_write io FC2580_I2C_ADDR [reg, val];
     ret (\<not> r < 0) }"

definition fc2580_i2c_read :: "'d i2c_ops \<Rightarrow> u8 \<Rightarrow> u8 \<Rightarrow> ('d, bool \<times> u8) state" where
  "fc2580_i2c_read io reg read_data = do {
     r \<leftarrow> i2c_write io FC2580_I2C_ADDR [reg];
     if r < 0 then ret (False, read_data)
     else do {
       (r, data) \<leftarrow> i2c_read io FC2580_I2C_ADDR [reg];
       if r < 0 then ret (False, read_data) else ret (True, hd data) } }"

text \<open>A run of \<open>result &= fc2580_i2c_write(pTuner, reg, val);\<close> lines.\<close>

primrec fc2580_writes :: "'d i2c_ops \<Rightarrow> bool \<Rightarrow> (u8 \<times> u8) list \<Rightarrow> ('d, bool) state" where
  "fc2580_writes io result [] = ret result"
| "fc2580_writes io result (w # ws) = do {
     r \<leftarrow> fc2580_i2c_write io (fst w) (snd w);
     fc2580_writes io (result \<and> r) ws }"

declare fc2580_writes.simps [simp del]

subsection \<open>Filter\<close>

text \<open>The constants multiply the crystal frequency in 32-bit unsigned arithmetic.\<close>

definition fc2580_filter_regs :: "u8 \<Rightarrow> int \<Rightarrow> (u8 \<times> u8) list" where
  "fc2580_filter_regs filter_bw freq_xtal =
     (if filter_bw = 1 then
        [(0x36, 0x1C), (0x37, word_of_int (wrap32 (4151 * freq_xtal) div 1000000)), (0x39, 0x00), (0x2E, 0x09)]
      else []) @
     (if filter_bw = 6 then
        [(0x36, 0x18), (0x37, word_of_int (wrap32 (4400 * freq_xtal) div 1000000)), (0x39, 0x00), (0x2E, 0x09)]
      else if filter_bw = 7 then
        [(0x36, 0x18), (0x37, word_of_int (wrap32 (3910 * freq_xtal) div 1000000)), (0x39, 0x80), (0x2E, 0x09)]
      else if filter_bw = 8 then
        [(0x36, 0x18), (0x37, word_of_int (wrap32 (3300 * freq_xtal) div 1000000)), (0x39, 0x80), (0x2E, 0x09)]
      else [])"

text \<open>\<open>for (i = 0; i < 5; i++)\<close>: poll the calibration monitor, restart it while it is not done.\<close>

primrec fc2580_calibrate :: "'d i2c_ops \<Rightarrow> nat \<Rightarrow> u8 \<Rightarrow> bool \<Rightarrow> ('d, bool) state" where
  "fc2580_calibrate io 0 cal_mon result = ret result"
| "fc2580_calibrate io (Suc n) cal_mon result = do {
     (r, cal_mon) \<leftarrow> fc2580_i2c_read io 0x2F cal_mon;
     let result = (result \<and> r);
     if cal_mon AND 0xC0 \<noteq> 0xC0 then do {
       result \<leftarrow> fc2580_writes io result [(0x2E, 0x01), (0x2E, 0x09)];
       fc2580_calibrate io n cal_mon result }
     else ret result }"

definition fc2580_set_filter :: "'d i2c_ops \<Rightarrow> u8 \<Rightarrow> int \<Rightarrow> ('d, bool) state" where
  "fc2580_set_filter io filter_bw freq_xtal = do {
     result \<leftarrow> fc2580_writes io True (fc2580_filter_regs filter_bw freq_xtal);
     result \<leftarrow> fc2580_calibrate io 5 0 result;
     fc2580_writes io result [(0x2E, 0x01)] }"

subsection \<open>Initialisation\<close>

definition fc2580_init_regs :: "int \<Rightarrow> (u8 \<times> u8) list" where
  "fc2580_init_regs ifagc_mode =
     [(0x00, 0x00), (0x12, 0x86), (0x14, 0x5C), (0x16, 0x3C), (0x1F, 0xD2), (0x09, 0xD7),
      (0x0B, 0xD5), (0x0C, 0x32), (0x0E, 0x43), (0x21, 0x0A), (0x22, 0x82)] @
     (if ifagc_mode = 1 then [(0x45, 0x10), (0x4C, 0x00)]
      else if ifagc_mode = 2 then [(0x45, 0x20), (0x4C, 0x02)] else []) @
     [(0x3F, 0x88), (0x02, 0x0E), (0x58, 0x14)]"

definition fc2580_set_init :: "'d i2c_ops \<Rightarrow> int \<Rightarrow> int \<Rightarrow> ('d, bool) state" where
  "fc2580_set_init io ifagc_mode freq_xtal = do {
     result \<leftarrow> fc2580_writes io True (fc2580_init_regs ifagc_mode);
     r \<leftarrow> fc2580_set_filter io 8 freq_xtal;
     ret (result \<and> r) }"

text \<open>\<open>FUNCTION_SUCCESS\<close> is 0, \<open>FUNCTION_ERROR\<close> is 1, \<open>FC2580_AGC_EXTERNAL\<close> is 2.\<close>

definition fc2580_Initialize :: "'d i2c_ops \<Rightarrow> ('d, int) state" where
  "fc2580_Initialize io = do {
     r \<leftarrow> fc2580_set_init io 2 CrystalFreqKhz;
     ret (if r then 0 else 1) }"

subsection \<open>Tuning\<close>

definition fc2580_band :: "int \<Rightarrow> fc2580_band_type" where
  "fc2580_band f_lo =
     (if f_lo > 1000000 then FC2580_L_BAND else if f_lo > 400000 then FC2580_UHF_BAND else FC2580_VHF_BAND)"

definition fc2580_vco :: "int \<Rightarrow> int" where
  "fc2580_vco f_lo =
     (if fc2580_band f_lo = FC2580_UHF_BAND then wrap32 (f_lo * 4)
      else if fc2580_band f_lo = FC2580_L_BAND then wrap32 (f_lo * 2) else wrap32 (f_lo * 12))"

text \<open>The reference divider \<open>r\<close>, integer part \<open>n\<close> and 20-bit fraction \<open>k\<close>.\<close>

definition fc2580_pll :: "int \<Rightarrow> int \<Rightarrow> (int \<times> int \<times> int) option" where
  "fc2580_pll f_vco freq_xtal =
     (let r_val = (if f_vco \<ge> wrap32 (2 * 76 * freq_xtal) then 1
                   else if f_vco \<ge> wrap32 (76 * freq_xtal) then 2 else 4);
          f_comp = freq_xtal div r_val;
          step = wrap32 (2 * f_comp) div 16
      in if f_comp = 0 \<or> step = 0 then None
         else let n_val = f_vco div 2 div f_comp;
                  f_diff = wrap32 (f_vco - 2 * f_comp * n_val);
                  f_diff_shifted = wrap32 (f_diff * 65536);
                  k_val = f_diff_shifted div step;
                  k_val = (if wrap32 (f_diff_shifted - k_val * step) \<ge> f_comp div 16
                           then wrap32 (k_val + 1) else k_val)
              in Some (r_val, n_val, k_val))"

definition fc2580_uhf_regs :: "int \<Rightarrow> (u8 \<times> u8) list" where
  "fc2580_uhf_regs f_lo =
     [(0x25, 0xF0), (0x27, 0x77), (0x28, 0x53), (0x29, 0x60), (0x30, 0x09), (0x50, 0x8C), (0x53, 0x50)] @
     (if f_lo < 538000 then [(0x5F, 0x13)] else [(0x5F, 0x15)]) @
     (if f_lo < 538000 then
        [(0x61, 0x07), (0x62, 0x06), (0x67, 0x06), (0x68, 0x08), (0x69, 0x10), (0x6A, 0x12)]
      else if f_lo < 794000 then
        [(0x61, 0x03), (0x62, 0x03), (0x67, 0x03), (0x68, 0x05), (0x69, 0x0C), (0x6A, 0x0E)]
      else
        [(0x61, 0x07), (0x62, 0x06), (0x67, 0x07), (0x68, 0x09), (0x69, 0x10), (0x6A, 0x12)]) @
     [(0x63, 0x15), (0x6B, 0x0B), (0x6C, 0x0C), (0x6D, 0x78), (0x6E, 0x32), (0x6F, 0x14)]"

definition fc2580_vhf_regs :: "(u8 \<times> u8) list" where
  "fc2580_vhf_regs =
     [(0x27, 0x77), (0x28, 0x33), (0x29, 0x40), (0x30, 0x09), (0x50, 0x8C), (0x53, 0x50), (0x5F, 0x0F),
      (0x61, 0x07), (0x62, 0x00), (0x63, 0x15), (0x67, 0x03), (0x68, 0x05), (0x69, 0x10), (0x6A, 0x12),
      (0x6B, 0x08), (0x6C, 0x0A), (0x6D, 0x78), (0x6E, 0x32), (0x6F, 0x54)]"

definition fc2580_l_regs :: "(u8 \<times> u8) list" where
  "fc2580_l_regs =
     [(0x2B, 0x70), (0x2C, 0x37), (0x2D, 0xE7), (0x30, 0x09), (0x44, 0x20), (0x50, 0x8C), (0x53, 0x50),
      (0x5F, 0x0F), (0x61, 0x0F), (0x62, 0x00), (0x63, 0x13), (0x67, 0x00), (0x68, 0x02), (0x69, 0x0C),
      (0x6A, 0x0E), (0x6B, 0x08), (0x6C, 0x0A), (0x6D, 0xA0), (0x6E, 0x50), (0x6F, 0x14)]"

text \<open>The band-dependent part: register 2, the band table and its filter.\<close>

fun fc2580_band_setup :: "'d i2c_ops \<Rightarrow> fc2580_band_type \<Rightarrow> int \<Rightarrow> int \<Rightarrow> u8 \<Rightarrow> ('d, u8 \<times> bool) state" where
  "fc2580_band_setup io FC2580_UHF_BAND f_lo freq_xtal data_0x02 = do {
     result \<leftarrow> fc2580_writes io True (fc2580_uhf_regs f_lo);
     r \<leftarrow> fc2580_set_filter io 8 freq_xtal;
     ret (data_0x02 AND 0x3F, result \<and> r) }"
| "fc2580_band_setup io FC2580_VHF_BAND f_lo freq_xtal data_0x02 = do {
     result \<leftarrow> fc2580_writes io True fc2580_vhf_regs;
     r \<leftarrow> fc2580_set_filter io 7 freq_xtal;
     ret ((data_0x02 AND 0x3F) OR 0x80, result \<and> r) }"
| "fc2580_band_setup io FC2580_L_BAND f_lo freq_xtal data_0x02 = do {
     result \<leftarrow> fc2580_writes io True fc2580_l_regs;
     r \<leftarrow> fc2580_set_filter io 1 freq_xtal;
     ret ((data_0x02 AND 0x3F) OR 0x40, result \<and> r) }"
| "fc2580_band_setup io FC2580_NO_BAND f_lo freq_xtal data_0x02 = ret (data_0x02, True)"

definition fc2580_pll_regs :: "int \<Rightarrow> int \<Rightarrow> u8 \<Rightarrow> int \<times> int \<times> int \<Rightarrow> (u8 \<times> u8) list" where
  "fc2580_pll_regs f_lo freq_xtal data_0x02 pll =
     (case pll of (r_val, n_val, k_val) \<Rightarrow>
        (if freq_xtal \<ge> 28000 then [(0x4B, 0x22)] else []) @
        [(0x02, data_0x02),
         (0x18, (if r_val = 1 then 0x00 else if r_val = 2 then 0x10 else 0x20) + word_of_int (k_val div 65536)),
         (0x1A, word_of_int (k_val div 256)),
         (0x1B, word_of_int k_val),
         (0x1C, word_of_int n_val)] @
        (if fc2580_band f_lo = FC2580_UHF_BAND then [(0x2D, if f_lo \<le> 794000 then 0x9F else 0x8F)] else []))"

definition fc2580_set_freq :: "'d i2c_ops \<Rightarrow> int \<Rightarrow> int \<Rightarrow> ('d, bool option) state" where
  "fc2580_set_freq io f_lo freq_xtal = (
     let f_vco = fc2580_vco f_lo;
         data_0x02 = (if f_vco \<ge> BORDER_FREQ then 0x0E OR 0x08 else 0x0E AND 0xF7)
     in case fc2580_pll f_vco freq_xtal of
          None \<Rightarrow> ret None
        | Some pll \<Rightarrow> do {
            (data_0x02, result) \<leftarrow> fc2580_band_setup io (fc2580_band f_lo) f_lo freq_xtal data_0x02;
            result \<leftarrow> fc2580_writes io result (fc2580_pll_regs f_lo freq_xtal data_0x02 pll);
            ret (Some result) })"

text \<open>\<open>RfFreqHz\<close> is an \<open>unsigned long\<close> of 64 bits.\<close>

definition fc2580_SetRfFreqHz :: "'d i2c_ops \<Rightarrow> u64 \<Rightarrow> ('d, int option) state" where
  "fc2580_SetRfFreqHz io RfFreqHz = do {
     r \<leftarrow> fc2580_set_freq io (wrap32 (uint (RfFreqHz + 500) div 1000)) CrystalFreqKhz;
     ret (map_option (\<lambda>ok. if ok then 0 else 1) r) }"

definition fc2580_SetBandwidthMode :: "'d i2c_ops \<Rightarrow> int \<Rightarrow> ('d, int) state" where
  "fc2580_SetBandwidthMode io BandwidthMode = do {
     r \<leftarrow> fc2580_set_filter io (word_of_int BandwidthMode) CrystalFreqKhz;
     ret (if r then 0 else 1) }"

section \<open>The synthesiser\<close>

text \<open>
  What registers 24, 26, 27 and 28 stand for: \<open>2 ^ 20\<close> times the VCO frequency in kHz, for the
  16384 kHz crystal divided by the reference divider of register 24.
\<close>

definition fc2580_synth :: "u8 \<Rightarrow> u8 \<Rightarrow> u8 \<Rightarrow> u8 \<Rightarrow> int" where
  "fc2580_synth r18 r1a r1b r1c =
     (let r = (if uint r18 div 16 = 0 then 1 else if uint r18 div 16 = 1 then 2 else 4);
          k = uint r18 mod 16 * 65536 + uint r1a * 256 + uint r1b
      in 2 * (16384 div r) * (uint r1c * 2 ^ 20 + k))"

text \<open>
  The fraction for comparison frequency \<open>c\<close>: the remainder \<open>d\<close> of the VCO frequency scales to
  \<open>2 ^ 20\<close> steps without rounding, because \<open>c\<close> is a power of two.
\<close>

definition fc2580_frac :: "int \<Rightarrow> int \<Rightarrow> int" where
  "fc2580_frac d c =
     (let s = wrap32 (d * 65536); st = wrap32 (2 * c) div 16; k = s div st
      in if wrap32 (s - k * st) \<ge> c div 16 then wrap32 (k + 1) else k)"

lemma fc2580_frac_exact:
  "0 \<le> d \<Longrightarrow> d < 32768 \<Longrightarrow> fc2580_frac d 16384 = 32 * d"
  "0 \<le> d \<Longrightarrow> d < 16384 \<Longrightarrow> fc2580_frac d 8192 = 64 * d"
  "0 \<le> d \<Longrightarrow> d < 8192 \<Longrightarrow> fc2580_frac d 4096 = 128 * d"
  by (simp_all add: fc2580_frac_def Let_def wrap_ids)

lemma fc2580_pll_alt:
  "fc2580_pll f 16384 =
     (let r = (if 2490368 \<le> f then 1 else if 1245184 \<le> f then 2 else 4); c = 16384 div r; n = f div 2 div c
      in Some (r, n, fc2580_frac (wrap32 (f - 2 * c * n)) c))"
proof -
  have w: "wrap32 2490368 = 2490368" "wrap32 1245184 = 1245184" "wrap32 32768 = 32768"
      "wrap32 16384 = 16384" "wrap32 8192 = 8192"
    by (simp_all add: wrap32_def)
  consider "2490368 \<le> f" | "1245184 \<le> f" "f < 2490368" | "f < 1245184"
    by linarith
  then show ?thesis
    by cases (simp_all add: fc2580_pll_def fc2580_frac_def Let_def w)
qed

lemma fc2580_pll_exact:
  assumes "0 \<le> f" "f < 8388608" "fc2580_pll f 16384 = Some (r, n, k)"
  shows "r \<in> {1, 2, 4} \<and> 0 \<le> n \<and> n < 256 \<and> 0 \<le> k \<and> k < 2 ^ 20
    \<and> f * 2 ^ 20 = 2 * (16384 div r) * (n * 2 ^ 20 + k)"
proof -
  have split: "f = 2 * c * (f div 2 div c) + f mod (2 * c)" "wrap32 (f - 2 * c * (f div 2 div c)) = f mod (2 * c)"
      "0 \<le> f mod (2 * c)" "f mod (2 * c) < 2 * c"
    if "c \<in> {16384, 8192, 4096}" for c
  proof -
    have c: "f div 2 div c = f div (2 * c)" "0 < 2 * c" "2 * c \<le> 32768"
      using that zdiv_zmult2_eq [of c f 2] by auto
    show *: "0 \<le> f mod (2 * c)" "f mod (2 * c) < 2 * c" "f = 2 * c * (f div 2 div c) + f mod (2 * c)"
      using c by (simp_all add: c(1))
    have "f - 2 * c * (f div 2 div c) = f mod (2 * c)" using *(3) by linarith
    then show "wrap32 (f - 2 * c * (f div 2 div c)) = f mod (2 * c)"
      using *(1,2) c(3) by (subst wrap_ids(3)) linarith+
  qed
  consider (one) "2490368 \<le> f" | (two) "1245184 \<le> f" "f < 2490368" | (four) "f < 1245184"
    by linarith
  then show ?thesis
  proof cases
    case one
    then have "r = 1" "n = f div 2 div 16384" "k = 32 * (f mod 32768)"
      using assms(3) split(2,3,4) [of 16384] by (auto simp: fc2580_pll_alt Let_def fc2580_frac_exact)
    moreover have "f = 32768 * n + f mod 32768" "0 \<le> f mod 32768" "f mod 32768 < 32768"
      using split(1) [of 16384] calculation(2) by simp_all
    ultimately show ?thesis using assms(1,2) by auto
  next
    case two
    then have "r = 2" "n = f div 2 div 8192" "k = 64 * (f mod 16384)"
      using assms(3) split(2,3,4) [of 8192] by (auto simp: fc2580_pll_alt Let_def fc2580_frac_exact)
    moreover have "f = 16384 * n + f mod 16384" "0 \<le> f mod 16384" "f mod 16384 < 16384"
      using split(1) [of 8192] calculation(2) by simp_all
    ultimately show ?thesis using assms(1) two by auto
  next
    case four
    then have "r = 4" "n = f div 2 div 4096" "k = 128 * (f mod 8192)"
      using assms(3) split(2,3,4) [of 4096] by (auto simp: fc2580_pll_alt Let_def fc2580_frac_exact)
    moreover have "f = 8192 * n + f mod 8192" "0 \<le> f mod 8192" "f mod 8192 < 8192"
      using split(1) [of 4096] calculation(2) by simp_all
    ultimately show ?thesis using assms(1) four by auto
  qed
qed

lemma fc2580_pll_Some: "\<exists>r n k. fc2580_pll f 16384 = Some (r, n, k)"
  by (simp add: fc2580_pll_alt Let_def)

text \<open>The register bytes carry the three numbers without loss.\<close>

lemma fc2580_synth_regs:
  assumes "r \<in> {1, 2, 4}" "0 \<le> n" "n < 256" "0 \<le> k" "k < 2 ^ 20"
  shows "fc2580_synth ((if r = 1 then 0x00 else if r = 2 then 0x10 else 0x20) + word_of_int (k div 65536))
      (word_of_int (k div 256)) (word_of_int k) (word_of_int n) = 2 * (16384 div r) * (n * 2 ^ 20 + k)"
proof -
  define h where "h = k div 65536"
  have h: "0 \<le> h" "h < 16"
    using assms by (auto simp: h_def zdiv_less_iff pos_imp_zdiv_nonneg_iff)
  define w :: u8 where "w = (if r = 1 then 0x00 else if r = 2 then 0x10 else 0x20) + word_of_int h"
  have "uint w = (if r = 1 then 0 else if r = 2 then 16 else 32) + h"
    using h by (simp add: w_def uint_word_ariths uint_word_of_int)
  then have w: "uint w div 16 = (if r = 1 then 0 else if r = 2 then 1 else 2)" "uint w mod 16 = h"
    using h by (auto split: if_splits) presburger+
  have "h = k div 256 div 256"
    using zdiv_zmult2_eq [of 256 k 256] by (simp add: h_def)
  then have "h * 65536 + k div 256 mod 256 * 256 + k mod 256 = k"
    using div_mult_mod_eq [of k 256] div_mult_mod_eq [of "k div 256" 256] by linarith
  then have "uint w mod 16 * 65536 + uint (word_of_int (k div 256) :: u8) * 256 + uint (word_of_int k :: u8) = k"
    by (simp add: w uint_word_of_int)
  moreover have "(if uint w div 16 = 0 then 1 else if uint w div 16 = 1 then 2 else 4) = r"
    using assms(1) w by auto
  moreover have "uint (word_of_int n :: u8) = n"
    using assms(2,3) by (simp add: uint_word_of_int)
  ultimately have "fc2580_synth w (word_of_int (k div 256)) (word_of_int k) (word_of_int n) =
      2 * (16384 div r) * (n * 2 ^ 20 + k)"
    by (simp only: fc2580_synth_def Let_def)
  then show ?thesis by (simp only: w_def h_def)
qed

section \<open>The driver on a chip that answers\<close>

locale fc2580_chip = i2c_chip io FC2580_I2C_ADDR up rw view
  for io :: "'d i2c_ops" and up :: "'d \<Rightarrow> bool" and rw :: "u8 \<Rightarrow> u8" and view :: "'d \<Rightarrow> u8 \<Rightarrow> u8"
begin

lemma write_simps:
  "up d \<Longrightarrow> result_of (fc2580_i2c_write io r v) d"
  "up d \<Longrightarrow> up (state_of (fc2580_i2c_write io r v) d)"
  "up d \<Longrightarrow> view (state_of (fc2580_i2c_write io r v) d) = (view d)(r := v AND rw r)"
  by (simp_all add: fc2580_i2c_write_def chip_simps)

lemma read_simps:
  "up d \<Longrightarrow> fst (result_of (fc2580_i2c_read io r b) d)"
  "up d \<Longrightarrow> up (state_of (fc2580_i2c_read io r b) d)"
  "up d \<Longrightarrow> view (state_of (fc2580_i2c_read io r b) d) = view d"
  by (auto simp: fc2580_i2c_read_def chip_simps split_beta elim!: read_result [of d r r])

lemma writes_simps:
  "up d \<Longrightarrow> result_of (fc2580_writes io b ws) d = b"
  "up d \<Longrightarrow> up (state_of (fc2580_writes io b ws) d)"
  "up d \<Longrightarrow> view (state_of (fc2580_writes io b ws) d) = fold (\<lambda>(r, v) f. f(r := v AND rw r)) ws (view d)"
  by (induction ws arbitrary: b d) (simp_all add: fc2580_writes.simps write_simps split_beta)

lemma calibrate_simps:
  "up d \<Longrightarrow> result_of (fc2580_calibrate io n c b) d = b"
  "up d \<Longrightarrow> up (state_of (fc2580_calibrate io n c b) d)"
  by (induction n arbitrary: c b d) (simp_all add: read_simps writes_simps split_beta Let_def)

lemma set_filter_simps:
  "up d \<Longrightarrow> result_of (fc2580_set_filter io bw x) d"
  "up d \<Longrightarrow> up (state_of (fc2580_set_filter io bw x) d)"
  by (simp_all add: fc2580_set_filter_def writes_simps calibrate_simps)

lemma band_setup_simps:
  "up d \<Longrightarrow> snd (result_of (fc2580_band_setup io band f x b) d)"
  "up d \<Longrightarrow> up (state_of (fc2580_band_setup io band f x b) d)"
  by (cases band; simp add: writes_simps set_filter_simps)+

text \<open>Register 2 after the band setup: VCO range bit 3, band bits 6 and 7.\<close>

lemma band_setup_reg2:
  "fst (result_of (fc2580_band_setup io (fc2580_band f) f x b) d) =
     (b AND 0x3F) OR (case fc2580_band f of FC2580_L_BAND \<Rightarrow> 0x40 | FC2580_VHF_BAND \<Rightarrow> 0x80 | _ \<Rightarrow> 0)"
  by (simp add: fc2580_band_def)

end

interpretation sim2580: fc2580_chip sim_io "\<lambda>_. True" "\<lambda>_. -1" sim_regs
  by unfold_locales

section \<open>Properties\<close>

text \<open>
  C4.  Tuning is exact: for every requested frequency up to 4.194303 GHz the driver returns success
  on a chip that answers, and the reference, integer and fraction registers stand for exactly the
  VCO frequency of the request rounded to kHz (twelve, four or two times it, by band); register 2
  selects the band and the VCO range.
\<close>

theorem fc2580_tunes_exactly:
  assumes chip: "fc2580_chip io up rw view" and up: "up d"
    and rw: "\<forall>r \<in> {0x02, 0x18, 0x1A, 0x1B, 0x1C}. rw r = -1"
    and freq: "uint freq < 4194303500"
    and khz: "khz = (uint freq + 500) div 1000"
    and run: "run_state (fc2580_SetRfFreqHz io freq) d = (res, d')"
  shows "res = Some 0
    \<and> fc2580_synth (view d' 0x18) (view d' 0x1A) (view d' 0x1B) (view d' 0x1C) =
        2 ^ 20 * (khz * (if khz > 1000000 then 2 else if khz > 400000 then 4 else 12))
    \<and> view d' 0x02 = (if fc2580_vco khz \<ge> 2600000 then 0x0E else 0x06) OR
        (if khz > 1000000 then 0x40 else if khz > 400000 then 0 else 0x80)"
proof -
  note simps = fc2580_chip.writes_simps [OF chip] fc2580_chip.band_setup_simps [OF chip]
    fc2580_chip.band_setup_reg2 [OF chip]
  have "uint (freq + 500) = uint freq + 500"
    using freq by (simp add: uint_word_ariths)
  then have k: "wrap32 (uint (freq + 500) div 1000) = khz" "0 \<le> khz" "khz < 4194304"
    using freq khz by (simp_all add: wrap32_def zdiv_less_iff pos_imp_zdiv_nonneg_iff)
  have x: "CrystalFreqKhz = 16384" by (simp add: CrystalFreqKhz_def)
  have vco: "fc2580_vco khz = khz * (if khz > 1000000 then 2 else if khz > 400000 then 4 else 12)"
    using k by (simp add: fc2580_vco_def fc2580_band_def wrap_simps)
  then have f: "0 \<le> fc2580_vco khz" "fc2580_vco khz < 8388608"
    using k by simp_all
  obtain r n q where pll: "fc2580_pll (fc2580_vco khz) 16384 = Some (r, n, q)"
    using fc2580_pll_Some by blast
  note exact = fc2580_pll_exact [OF f pll]
  have synth: "fc2580_synth ((if r = 1 then 0x00 else if r = 2 then 0x10 else 0x20) + word_of_int (q div 65536))
      (word_of_int (q div 256)) (word_of_int q) (word_of_int n) = 2 ^ 20 * fc2580_vco khz"
    using fc2580_synth_regs [of r n q] exact by simp
  define b where "b = (if fc2580_vco khz \<ge> 2600000 then 0x0E else 0x06 :: u8)"
  define m where "m = fc2580_band_setup io (fc2580_band khz) khz 16384 b"
  have m: "snd (result_of m d)" "up (state_of m d)"
    "fst (result_of m d) = (b AND 0x3F) OR (case fc2580_band khz of FC2580_L_BAND \<Rightarrow> 0x40 | FC2580_VHF_BAND \<Rightarrow> 0x80 | _ \<Rightarrow> 0)"
    using up by (simp_all add: m_def simps)
  have b: "(if BORDER_FREQ \<le> fc2580_vco khz then 0x0E OR 0x08 else 0x0E AND 0xF7) = b"
    by (simp add: b_def BORDER_FREQ_def)
  have "run_state (fc2580_SetRfFreqHz io freq) d =
      (Some 0, state_of (fc2580_writes io True (fc2580_pll_regs khz 16384 (fst (result_of m d)) (r, n, q))) (state_of m d))"
    using m(1,2) by (simp add: fc2580_SetRfFreqHz_def fc2580_set_freq_def k(1) x pll Let_def b
        split_beta simps flip: m_def)
  then have res: "res = Some 0"
    and d': "view d' = fold (\<lambda>(r, v) f. f(r := v AND rw r)) (fc2580_pll_regs khz 16384 (fst (result_of m d)) (r, n, q))
        (view (state_of m d))"
    using run simps(3) [OF m(2)] by auto
  have regs: "view d' 0x18 = (if r = 1 then 0x00 else if r = 2 then 0x10 else 0x20) + word_of_int (q div 65536)"
    "view d' 0x1A = word_of_int (q div 256)" "view d' 0x1B = word_of_int q" "view d' 0x1C = word_of_int n"
    "view d' 0x02 = fst (result_of m d)"
    unfolding d' by (simp_all add: fc2580_pll_regs_def rw)
  have "view d' 0x02 = b OR (if khz > 1000000 then 0x40 else if khz > 400000 then 0 else 0x80)"
    unfolding regs(5) m(3) by (simp add: fc2580_band_def b_def)
  with res regs(1-4) have "res = Some 0
    \<and> view d' 0x18 = (if r = 1 then 0x00 else if r = 2 then 0x10 else 0x20) + word_of_int (q div 65536)
    \<and> view d' 0x1A = word_of_int (q div 256) \<and> view d' 0x1B = word_of_int q \<and> view d' 0x1C = word_of_int n
    \<and> view d' 0x02 = (if fc2580_vco khz \<ge> 2600000 then 0x0E else 0x06) OR
        (if khz > 1000000 then 0x40 else if khz > 400000 then 0 else 0x80)"
    by (simp only: b_def)
  then show ?thesis using synth vco by simp
qed

theorem fc2580_tunes_exactly_witness:
  "\<exists>d'. run_state (fc2580_SetRfFreqHz sim_io 100000000) sim0 = (Some 0, d')
    \<and> fc2580_synth (sim_regs d' 0x18) (sim_regs d' 0x1A) (sim_regs d' 0x1B) (sim_regs d' 0x1C)
      = 2 ^ 20 * 1200000"
proof -
  obtain res d' where run: "run_state (fc2580_SetRfFreqHz sim_io 100000000) sim0 = (res, d')"
    by fastforce
  show ?thesis
    using fc2580_tunes_exactly [OF sim2580.fc2580_chip_axioms _ _ _ refl run] run by simp
qed

end
