(* ===== verification/Rtl_Tuners.thy ===== *)
theory Rtl_Tuners
  imports Rtl_Chip Fc0012 Fc0013 Fc2580
begin

text \<open>
  The tuner interface \<open>rtlsdr_tuner_iface_t\<close> of \<^verbatim>\<open>src/librtlsdr/src/librtlsdr.c\<close> and the functions that
  plug the tuner drivers into it (the E4000, FC0012, FC0013 and FC2580; the R820T entry of the table is
  an argument).  A null function pointer is \<open>None\<close>.  A tuning call whose driver divides by zero stops the
  program, which is the result \<open>None\<close>.

  The locale \<open>polite_tuner\<close> is what the device settings of the library rely on: a tuner function changes the
  hardware and the tuner's own state, not the settings the library keeps.  It is interpreted on the four drivers.
\<close>

section \<open>Model\<close>

record 'd tuner_iface =
  tn_init :: "('d, int) state option"
  tn_exit :: "('d, int) state option"
  tn_set_freq :: "(u32 \<Rightarrow> ('d, int option) state) option"
  tn_set_freq64 :: "(u64 \<Rightarrow> ('d, int option) state) option"
  tn_set_bw :: "(int \<Rightarrow> u32 \<Rightarrow> int \<Rightarrow> ('d, int \<times> u32) state) option"
  tn_set_gain :: "(int \<Rightarrow> ('d, int) state) option"
  tn_set_if_gain :: "(int \<Rightarrow> int \<Rightarrow> ('d, int) state) option"
  tn_set_gain_mode :: "(int \<Rightarrow> ('d, int) state) option"
  tn_set_i2c_register :: "(u32 \<Rightarrow> u32 \<Rightarrow> u32 \<Rightarrow> ('d, int) state) option"

subsection \<open>E4000\<close>

text \<open>
  The driver works on \<open>dev->e4k_s\<close>, whose \<open>rtl_dev\<close> points back to the device; the driver reaches the
  device only through the bus, which does not touch \<open>e4k_s\<close>.
\<close>

definition on_e4k :: "('h rtlsdr_dev e4k_state, 'a) state \<Rightarrow> ('h rtlsdr_dev, 'a) state" where
  "on_e4k m = State (\<lambda>d.
     let e = d_e4k d;
         (r, e') = run_state m \<lparr>e4k_i2c_addr = e4k_i2c_addr e, e4k_cur_band = e4k_cur_band e,
                                e4k_vco = e4k_vco e, e4k_rtl_dev = d\<rparr>
     in (r, (e4k_rtl_dev e')\<lparr>d_e4k := \<lparr>e4k_i2c_addr = e4k_i2c_addr e', e4k_cur_band = e4k_cur_band e',
                                e4k_vco = e4k_vco e', e4k_rtl_dev = ()\<rparr>\<rparr>))"

text \<open>\<open>rtlsdr_get_xtal_freq(dev, NULL, &dev->e4k_s.vco.fosc)\<close>\<close>

definition e4k_refresh_fosc :: "('h rtlsdr_dev, unit) state" where
  "e4k_refresh_fosc = State_Monad.update (\<lambda>d.
     d\<lparr>d_e4k := (d_e4k d)\<lparr>e4k_vco := (e4k_vco (d_e4k d))\<lparr>pll_fosc := snd (rtlsdr_get_xtal_freq d)\<rparr>\<rparr>\<rparr>)"

text \<open>\<open>rtlsdr_get_xtal_freq(dev, NULL, &dev->r82xx_c.xtal)\<close>\<close>

definition r82xx_refresh_xtal :: "('h rtlsdr_dev, unit) state" where
  "r82xx_refresh_xtal = State_Monad.update (\<lambda>d.
     d\<lparr>d_r82xx := (d_r82xx d)\<lparr>r_cfg := (r_cfg (d_r82xx d))\<lparr>c_xtal := snd (rtlsdr_get_xtal_freq d)\<rparr>\<rparr>\<rparr>)"

definition e4000_init :: "'h usb_ops \<Rightarrow> ('h rtlsdr_dev, int) state" where
  "e4000_init usb = do {
     _ \<leftarrow> State_Monad.update (\<lambda>d. d\<lparr>d_e4k := (d_e4k d)\<lparr>e4k_i2c_addr := E4K_I2C_ADDR\<rparr>\<rparr>);
     _ \<leftarrow> e4k_refresh_fosc;
     on_e4k (e4k_init (rtl_io usb)) }"

definition e4000_exit :: "'h usb_ops \<Rightarrow> ('h rtlsdr_dev, int) state" where
  "e4000_exit usb = on_e4k (e4k_standby (rtl_io usb) 1)"

definition e4000_set_freq :: "'h usb_ops \<Rightarrow> e4k_pll_params \<Rightarrow> u32 \<Rightarrow> ('h rtlsdr_dev, int) state" where
  "e4000_set_freq usb p0 freq = on_e4k (e4k_tune_freq (rtl_io usb) p0 freq)"

definition e4000_set_bw :: "'h usb_ops \<Rightarrow> int \<Rightarrow> u32 \<Rightarrow> int \<Rightarrow> ('h rtlsdr_dev, int \<times> u32) state" where
  "e4000_set_bw usb bw applied_bw apply =
     (if apply = 0 then ret (0, applied_bw)
      else do {
        r1 \<leftarrow> on_e4k (e4k_if_filter_bw_set (rtl_io usb) E4K_IF_FILTER_MIX (word_of_int bw));
        r2 \<leftarrow> on_e4k (e4k_if_filter_bw_set (rtl_io usb) E4K_IF_FILTER_RC (word_of_int bw));
        r3 \<leftarrow> on_e4k (e4k_if_filter_bw_set (rtl_io usb) E4K_IF_FILTER_CHAN (word_of_int bw));
        ret (r1 OR r2 OR r3, applied_bw) })"

definition e4000_set_gain :: "'h usb_ops \<Rightarrow> int \<Rightarrow> ('h rtlsdr_dev, int) state" where
  "e4000_set_gain usb gain = do {
     let mixgain = (if gain > 340 then 12 else 4);
     r \<leftarrow> on_e4k (e4k_set_lna_gain (rtl_io usb) (min 300 (gain - mixgain * 10)));
     if r = - E4K_EINVAL then ret (-1)
     else do {
       r \<leftarrow> on_e4k (e4k_mixer_gain_set (rtl_io usb) mixgain);
       if r = - E4K_EINVAL then ret (-1) else ret 0 } }"

text \<open>C division truncates; the casts take the low byte, the gain as a signed byte.\<close>

definition e4000_set_if_gain :: "'h usb_ops \<Rightarrow> int \<Rightarrow> int \<Rightarrow> ('h rtlsdr_dev, int) state" where
  "e4000_set_if_gain usb stage gain =
     on_e4k (e4k_if_gain_set (rtl_io usb) (word_of_int stage) (sint (word_of_int (c_quot gain 10) :: u8)))"

definition e4000_set_gain_mode :: "'h usb_ops \<Rightarrow> int \<Rightarrow> ('h rtlsdr_dev, int) state" where
  "e4000_set_gain_mode usb manual = on_e4k (e4k_enable_manual_gain (rtl_io usb) (word_of_int manual))"

subsection \<open>FC0012, FC0013 and FC2580\<close>

definition fc0012_set_freq :: "'h usb_ops \<Rightarrow> u8 list \<Rightarrow> u32 \<Rightarrow> ('h rtlsdr_dev, int option) state" where
  "fc0012_set_freq usb junk freq = do {
     _ \<leftarrow> rtlsdr_set_gpio_bit usb junk 6 (if freq > 300000000 then 1 else 0);
     fc0012_set_params (rtl_io usb) freq 6000000 }"

definition fc0013_set_freq :: "'h usb_ops \<Rightarrow> u32 \<Rightarrow> ('h rtlsdr_dev, int option) state" where
  "fc0013_set_freq usb freq = fc0013_set_params (rtl_io usb) freq 6000000"

definition fc2580_set_freq_hz :: "'h usb_ops \<Rightarrow> u32 \<Rightarrow> ('h rtlsdr_dev, int option) state" where
  "fc2580_set_freq_hz usb freq = fc2580_SetRfFreqHz (rtl_io usb) (ucast freq)"

definition fc2580_set_bw :: "'h usb_ops \<Rightarrow> int \<Rightarrow> u32 \<Rightarrow> int \<Rightarrow> ('h rtlsdr_dev, int \<times> u32) state" where
  "fc2580_set_bw usb bw applied_bw apply =
     (if apply = 0 then ret (0, applied_bw)
      else do { r \<leftarrow> fc2580_SetBandwidthMode (rtl_io usb) 1; ret (r, applied_bw) })"

text \<open>\<open>static rtlsdr_tuner_iface_t tuners[]\<close>; the entries for the R820T and R828D are the same.\<close>

fun tuners :: "'h usb_ops \<Rightarrow> u8 list \<Rightarrow> e4k_pll_params \<Rightarrow> 'h rtlsdr_dev tuner_iface \<Rightarrow> rtlsdr_tuner \<Rightarrow> 'h rtlsdr_dev tuner_iface" where
  "tuners usb junk p0 r820t RTLSDR_TUNER_UNKNOWN =
     \<lparr>tn_init = None, tn_exit = None, tn_set_freq = None, tn_set_freq64 = None, tn_set_bw = None, tn_set_gain = None,
      tn_set_if_gain = None, tn_set_gain_mode = None, tn_set_i2c_register = None\<rparr>"
| "tuners usb junk p0 r820t RTLSDR_TUNER_E4000 =
     \<lparr>tn_init = Some (e4000_init usb), tn_exit = Some (e4000_exit usb),
      tn_set_freq = Some (\<lambda>f. do { r \<leftarrow> e4000_set_freq usb p0 f; ret (Some r) }), tn_set_freq64 = None,
      tn_set_bw = Some (e4000_set_bw usb), tn_set_gain = Some (e4000_set_gain usb),
      tn_set_if_gain = Some (e4000_set_if_gain usb), tn_set_gain_mode = Some (e4000_set_gain_mode usb),
      tn_set_i2c_register = None\<rparr>"
| "tuners usb junk p0 r820t RTLSDR_TUNER_FC0012 =
     \<lparr>tn_init = Some (fc0012_init (rtl_io usb)), tn_exit = Some (ret 0),
      tn_set_freq = Some (fc0012_set_freq usb junk), tn_set_freq64 = None,
      tn_set_bw = Some (\<lambda>_ a _. ret (0, a)), tn_set_gain = Some (fc0012_set_gain (rtl_io usb)),
      tn_set_if_gain = None, tn_set_gain_mode = Some (\<lambda>_. ret 0),
      tn_set_i2c_register = Some (\<lambda>r v _. fc0012_set_i2c_register (rtl_io usb) r v)\<rparr>"
| "tuners usb junk p0 r820t RTLSDR_TUNER_FC0013 =
     \<lparr>tn_init = Some (fc0013_init (rtl_io usb)), tn_exit = Some (ret 0),
      tn_set_freq = Some (fc0013_set_freq usb), tn_set_freq64 = None,
      tn_set_bw = Some (\<lambda>_ a _. ret (0, a)), tn_set_gain = Some (fc0013_set_lna_gain (rtl_io usb)),
      tn_set_if_gain = None, tn_set_gain_mode = Some (fc0013_set_gain_mode (rtl_io usb)),
      tn_set_i2c_register = None\<rparr>"
| "tuners usb junk p0 r820t RTLSDR_TUNER_FC2580 =
     \<lparr>tn_init = Some (fc2580_Initialize (rtl_io usb)), tn_exit = Some (ret 0),
      tn_set_freq = Some (fc2580_set_freq_hz usb), tn_set_freq64 = None,
      tn_set_bw = Some (fc2580_set_bw usb), tn_set_gain = Some (\<lambda>_. ret 0),
      tn_set_if_gain = None, tn_set_gain_mode = Some (\<lambda>_. ret 0), tn_set_i2c_register = None\<rparr>"
| "tuners usb junk p0 r820t RTLSDR_TUNER_R820T = r820t"
| "tuners usb junk p0 r820t RTLSDR_TUNER_R828D = r820t"

section \<open>The drivers touch the device only through the bus\<close>

lemma keeps_pll_error [keeps_intros]:
  "keeps f m \<Longrightarrow> keeps f n \<Longrightarrow> keeps f (case e of DivByZero \<Rightarrow> m | NoPll \<Rightarrow> n)"
  by (cases e) simp_all

text \<open>A bus whose transfers keep \<open>f\<close>.\<close>

locale keeping_bus =
  fixes io :: "'d i2c_ops" and f :: "'d \<Rightarrow> 'v"
  assumes keeps_write: "keeps f (i2c_write io a bs)"
    and keeps_read: "keeps f (i2c_read io a bs)"
begin

lemmas bus_intros = keeps_write keeps_read keeps_intros

lemma keeps_fc0012_regs:
  "keeps f (fc0012_writereg io r v)" "keeps f (fc0012_readreg io r b)"
  unfolding fc0012_writereg_def fc0012_readreg_def by (intro bus_intros)+

lemma keeps_fc0012:
  "keeps f (fc0012_init io)" "keeps f (fc0012_set_params io freq bw)" "keeps f (fc0012_set_gain io gain)"
  "keeps f (fc0012_set_i2c_register io reg data)"
  unfolding fc0012_init_def fc0012_set_params_def fc0012_set_gain_def fc0012_calibrate_def
    fc0012_vco_selection_def fc0012_recalibrate_def fc0012_set_i2c_register_def Let_def
  by (intro keeps_intros keeps_fc0012_regs)+

lemma keeps_fc0013_regs:
  "keeps f (fc0013_writereg io r v)" "keeps f (fc0013_readreg io r b)"
  unfolding fc0013_writereg_def fc0013_readreg_def by (intro bus_intros)+

lemma keeps_fc0013_init_loop: "keeps f (fc0013_init_loop io is r)"
  by (induction "is" arbitrary: r) (auto intro!: keeps_intros keeps_fc0013_regs)

lemma keeps_fc0013:
  "keeps f (fc0013_init io)" "keeps f (fc0013_set_params io freq bw)" "keeps f (fc0013_set_lna_gain io gain)"
  "keeps f (fc0013_set_gain_mode io manual)"
  unfolding fc0013_init_def fc0013_set_params_def fc0013_set_lna_gain_def fc0013_set_gain_mode_def
    fc0013_band_filter_def fc0013_set_vhf_track_def fc0013_program_def fc0013_calibrate_def
    fc0013_vco_selection_def fc0013_recalibrate_def fc0013_multi_64_def Let_def
  by (intro keeps_intros keeps_fc0013_regs keeps_fc0013_init_loop)+

lemma keeps_fc2580_regs:
  "keeps f (fc2580_i2c_write io r v)" "keeps f (fc2580_i2c_read io r b)"
  unfolding fc2580_i2c_write_def fc2580_i2c_read_def by (intro bus_intros)+

lemma keeps_fc2580_writes: "keeps f (fc2580_writes io b ws)"
  by (induction ws arbitrary: b) (auto simp: fc2580_writes.simps intro!: keeps_intros keeps_fc2580_regs)

lemma keeps_fc2580_calibrate: "keeps f (fc2580_calibrate io n c b)"
  by (induction n arbitrary: c b)
    (auto simp: Let_def intro!: keeps_intros keeps_fc2580_regs keeps_fc2580_writes)

lemma keeps_fc2580_set_filter: "keeps f (fc2580_set_filter io bw x)"
  unfolding fc2580_set_filter_def by (intro keeps_intros keeps_fc2580_writes keeps_fc2580_calibrate)

lemma keeps_fc2580_band_setup: "keeps f (fc2580_band_setup io band flo x b)"
  by (cases band) (auto intro!: keeps_intros keeps_fc2580_writes keeps_fc2580_set_filter)

lemma keeps_fc2580:
  "keeps f (fc2580_Initialize io)" "keeps f (fc2580_SetRfFreqHz io hz)" "keeps f (fc2580_SetBandwidthMode io mode)"
  unfolding fc2580_Initialize_def fc2580_set_init_def fc2580_SetRfFreqHz_def fc2580_set_freq_def
    fc2580_SetBandwidthMode_def Let_def
  by (intro keeps_intros keeps_fc2580_writes keeps_fc2580_set_filter keeps_fc2580_band_setup)+

text \<open>The E4000 driver, whose state wraps the device.\<close>

lemma keeps_e4k_regs:
  "keeps (\<lambda>e. f (e4k_rtl_dev e)) (e4k_reg_write io r v)"
  "keeps (\<lambda>e. f (e4k_rtl_dev e)) (e4k_reg_read io r)"
  "keeps (\<lambda>e. f (e4k_rtl_dev e)) (e4k_reg_set_mask io r m v)"
  unfolding e4k_reg_set_mask_def e4k_reg_write_def e4k_reg_read_def Let_def
  by (intro keeps_intros keeps_zoom keeps_write keeps_read; simp)+

lemmas e4k_intros = keeps_intros keeps_e4k_regs

lemma keeps_e4k_settings:
  "keeps (\<lambda>e. f (e4k_rtl_dev e)) (e4k_if_filter_bw_set io flt bw)"
  "keeps (\<lambda>e. f (e4k_rtl_dev e)) (e4k_if_filter_chan_enable io on)"
  "keeps (\<lambda>e. f (e4k_rtl_dev e)) (e4k_if_gain_set io stage gain)"
  "keeps (\<lambda>e. f (e4k_rtl_dev e)) (e4k_set_lna_gain io gain)"
  "keeps (\<lambda>e. f (e4k_rtl_dev e)) (e4k_mixer_gain_set io gain)"
  "keeps (\<lambda>e. f (e4k_rtl_dev e)) (e4k_enable_manual_gain io manual)"
  "keeps (\<lambda>e. f (e4k_rtl_dev e)) (e4k_standby io on)"
  unfolding e4k_if_filter_bw_set_def e4k_field_write_def e4k_if_filter_chan_enable_def e4k_if_gain_set_def
    e4k_set_lna_gain_def e4k_mixer_gain_set_def e4k_enable_manual_gain_def e4k_standby_def Let_def
  by (intro e4k_intros)+

lemma keeps_e4k:
  "keeps (\<lambda>e. f (e4k_rtl_dev e)) (e4k_init io)"
  "keeps (\<lambda>e. f (e4k_rtl_dev e)) (e4k_tune_freq io p0 freq)"
  unfolding e4k_init_def magic_init_def e4k_tune_freq_def e4k_tune_params_def e4k_band_set_def e4k_rf_filter_set_def Let_def
  by (intro e4k_intros keeps_e4k_settings keeps_update; simp)+

end

subsection \<open>The library's own settings\<close>

text \<open>
  What remains of the device structure without the hardware, the tuner's own state and the demodulator
  switches the tuner functions keep in step with it.
\<close>

definition settings :: "'h rtlsdr_dev \<Rightarrow> 'h rtlsdr_dev" where
  "settings d = d\<lparr>d_devh := undefined, d_e4k := undefined, d_r82xx := undefined, d_rtl_vga_control := undefined,
     d_rtl_spectrum_sideband := undefined\<rparr>"

lemma settings_fields:
  assumes "settings d' = settings d"
  shows "d_rate d' = d_rate d" "d_rtl_xtal d' = d_rtl_xtal d" "d_direct_sampling d' = d_direct_sampling d"
    "d_tuner_type d' = d_tuner_type d" "d_tun_xtal d' = d_tun_xtal d" "d_freq d' = d_freq d" "d_bw d' = d_bw d"
    "d_offs_freq d' = d_offs_freq d" "d_corr d' = d_corr d" "d_ds_mode d' = d_ds_mode d"
    "d_ds_threshold d' = d_ds_threshold d" "d_i2c_repeater_on d' = d_i2c_repeater_on d" "d_cs_lock d' = d_cs_lock d"
    "d_agc_mode d' = d_agc_mode d" "d_agc_state d' = d_agc_state d"
  using assms by (cases d; cases d'; simp add: settings_def)+

lemma settings_devh [simp]: "settings (d\<lparr>d_devh := h\<rparr>) = settings d" "settings (d\<lparr>d_e4k := e\<rparr>) = settings d"
    "settings (d\<lparr>d_r82xx := p\<rparr>) = settings d"
    "settings (d\<lparr>d_rtl_vga_control := i\<rparr>) = settings d" "settings (d\<lparr>d_rtl_spectrum_sideband := i\<rparr>) = settings d"
  by (simp_all add: settings_def)

interpretation rtl_bus: keeping_bus "rtl_io usb" settings for usb
  by unfold_locales (simp_all add: keeps_def rtl_io_def rtlsdr_i2c_write_fn_def rtlsdr_i2c_read_fn_def
      rtlsdr_i2c_write_def rtlsdr_i2c_read_def rtlsdr_write_array_def rtlsdr_read_array_def Let_def split_beta)

lemma keeps_on_e4k:
  assumes "keeps (\<lambda>e. settings (e4k_rtl_dev e)) m"
  shows "keeps settings (on_e4k m)"
  using assms by (simp add: keeps_def on_e4k_def Let_def split_beta)

locale polite_tuner =
  fixes tn :: "'h rtlsdr_dev tuner_iface"
  assumes init: "tn_init tn = Some m \<Longrightarrow> keeps settings m"
    and exit: "tn_exit tn = Some m \<Longrightarrow> keeps settings m"
    and set_freq: "tn_set_freq tn = Some k \<Longrightarrow> keeps settings (k freq)"
    and set_freq64: "tn_set_freq64 tn = Some k64 \<Longrightarrow> keeps settings (k64 freq64)"
    and set_gain: "tn_set_gain tn = Some g \<Longrightarrow> keeps settings (g gain)"
    and set_if_gain: "tn_set_if_gain tn = Some gi \<Longrightarrow> keeps settings (gi stage gain)"
    and set_gain_mode: "tn_set_gain_mode tn = Some gm \<Longrightarrow> keeps settings (gm manual)"

text \<open>The zero-IF tuners: setting the bandwidth does not retune.\<close>

locale zero_if_tuner = polite_tuner tn for tn :: "'h rtlsdr_dev tuner_iface" +
  assumes set_bw: "tn_set_bw tn = Some b \<Longrightarrow> keeps settings (b bw a apply)"

interpretation e4000_tuner: zero_if_tuner "tuners usb junk p0 r820t RTLSDR_TUNER_E4000" for usb junk p0 r820t
  by unfold_locales
    (auto simp: e4000_init_def e4000_exit_def e4000_set_freq_def e4000_set_bw_def e4000_set_gain_def
      e4000_set_if_gain_def e4000_set_gain_mode_def e4k_refresh_fosc_def Let_def
      intro!: keeps_intros keeps_on_e4k rtl_bus.keeps_e4k rtl_bus.keeps_e4k_settings keeps_update)

interpretation fc0012_tuner: zero_if_tuner "tuners usb junk p0 r820t RTLSDR_TUNER_FC0012" for usb junk p0 r820t
  by unfold_locales
    (auto simp: fc0012_set_freq_def rtlsdr_set_gpio_bit_def rtlsdr_read_reg_def rtlsdr_write_reg_def keeps_def split_beta
      rtl_bus.keeps_fc0012 [unfolded keeps_def])

interpretation fc0013_tuner: zero_if_tuner "tuners usb junk p0 r820t RTLSDR_TUNER_FC0013" for usb junk p0 r820t
  by unfold_locales (auto simp: fc0013_set_freq_def intro!: keeps_intros rtl_bus.keeps_fc0013)

interpretation fc2580_tuner: zero_if_tuner "tuners usb junk p0 r820t RTLSDR_TUNER_FC2580" for usb junk p0 r820t
  by unfold_locales (auto simp: fc2580_set_freq_hz_def fc2580_set_bw_def intro!: keeps_intros rtl_bus.keeps_fc2580)

text \<open>
  A tuner whose tuning calls return, on a clock of at least 2 kHz: below that the FC0012 and FC0013
  drivers divide by zero.
\<close>

locale tuning_tuner = polite_tuner tn for tn :: "'h rtlsdr_dev tuner_iface" +
  assumes set_freq_returns:
    "tn_set_freq tn = Some k \<Longrightarrow> 2000 \<le> uint (rtlsdr_get_tuner_clock d) \<Longrightarrow> \<exists>r. result_of (k freq) d = Some r"
    and set_freq64_returns:
    "tn_set_freq64 tn = Some k64 \<Longrightarrow> 2000 \<le> uint (rtlsdr_get_tuner_clock d) \<Longrightarrow> \<exists>r. result_of (k64 freq64) d = Some r"

lemma tuner_clock_settings: "settings d' = settings d \<Longrightarrow> rtlsdr_get_tuner_clock d' = rtlsdr_get_tuner_clock d"
  using settings_fields(5,9) [of d' d] by (simp add: rtlsdr_get_tuner_clock_def rtlsdr_get_xtal_freq_def)

lemma fc_half_clock: "2000 \<le> clock \<Longrightarrow> clock div 2 \<noteq> 0 \<and> clock div 2 div 1000 \<noteq> 0" for clock :: int
  using zle_div_iff [of 2 1000 clock] zle_div_iff [of 1000 1 "clock div 2"] by auto

lemma fc_pll_returns:
  assumes "2000 \<le> clock"
  shows "fc0012_pll f_vco (clock div 2) \<noteq> Inl DivByZero" "fc0013_pll f_vco (clock div 2) \<noteq> Inl DivByZero"
  using fc_half_clock [OF assms] unfolding fc0012_pll_def fc0013_pll_def Let_def split_beta by (simp_all split: if_split)

lemma fc0012_set_params_returns:
  assumes "2000 \<le> uint (tuner_clock io d)"
  shows "\<exists>r. result_of (fc0012_set_params io freq bw) d = Some r"
proof -
  define p where "p = fc0012_pll (wrap32 (uint freq * fst (fc0012_divider (uint freq)))) (uint (tuner_clock io d) div 2)"
  have "p \<noteq> Inl DivByZero" unfolding p_def by (rule fc_pll_returns [OF assms])
  then show ?thesis
    unfolding fc0012_set_params_def Let_def split_beta
    by (cases p rule: sum.exhaust) (auto simp flip: p_def split: pll_error.splits)
qed

lemma fc0013_set_params_returns:
  assumes "2000 \<le> uint (tuner_clock io d)"
  shows "\<exists>r. result_of (fc0013_set_params io freq bw) d = Some r"
proof -
  define p where "p = fc0013_pll (wrap32 (uint freq * fst (fc0013_divider (uint freq)))) (uint (tuner_clock io d) div 2)"
  have "p \<noteq> Inl DivByZero" unfolding p_def by (rule fc_pll_returns [OF assms])
  then show ?thesis
    unfolding fc0013_set_params_def Let_def split_beta
    by (cases p rule: sum.exhaust) (auto simp flip: p_def split: pll_error.splits)
qed

lemma fc2580_set_freq_returns: "\<exists>r. result_of (fc2580_SetRfFreqHz io hz) d = Some r"
proof -
  have "CrystalFreqKhz = 16384" by (simp add: CrystalFreqKhz_def)
  then obtain r n k where pll: "fc2580_pll (fc2580_vco (wrap32 (uint (hz + 500) div 1000))) CrystalFreqKhz = Some (r, n, k)"
    using fc2580_pll_Some by metis
  show ?thesis
    by (simp add: fc2580_SetRfFreqHz_def fc2580_set_freq_def Let_def pll split_beta)
qed

lemma rtl_io_tuner_clock [simp]: "tuner_clock (rtl_io usb) = rtlsdr_get_tuner_clock"
  by (simp add: rtl_io_def)

interpretation e4000_tuner: tuning_tuner "tuners usb junk p0 r820t RTLSDR_TUNER_E4000" for usb junk p0 r820t
  by unfold_locales auto

interpretation fc0012_tuner: tuning_tuner "tuners usb junk p0 r820t RTLSDR_TUNER_FC0012" for usb junk p0 r820t
proof unfold_locales
  fix k and freq :: u32 and d :: "'a rtlsdr_dev"
  assume k: "tn_set_freq (tuners usb junk p0 r820t RTLSDR_TUNER_FC0012) = Some k" and clk: "2000 \<le> uint (rtlsdr_get_tuner_clock d)"
  define d1 where "d1 = state_of (rtlsdr_set_gpio_bit usb junk 6 (if freq > 300000000 then 1 else 0)) d"
  have "settings d1 = settings d"
    by (simp add: d1_def rtlsdr_set_gpio_bit_def rtlsdr_read_reg_def Let_def split_beta)
  then have "2000 \<le> uint (tuner_clock (rtl_io usb) d1)"
    using clk tuner_clock_settings [of d1 d] by simp
  moreover have "k = fc0012_set_freq usb junk" using k by simp
  ultimately show "\<exists>r. result_of (k freq) d = Some r"
    using fc0012_set_params_returns [of "rtl_io usb" d1 freq 6000000] by (simp add: fc0012_set_freq_def flip: d1_def)
qed simp

interpretation fc0013_tuner: tuning_tuner "tuners usb junk p0 r820t RTLSDR_TUNER_FC0013" for usb junk p0 r820t
  by unfold_locales (auto simp: fc0013_set_freq_def intro!: fc0013_set_params_returns)

interpretation fc2580_tuner: tuning_tuner "tuners usb junk p0 r820t RTLSDR_TUNER_FC2580" for usb junk p0 r820t
  by unfold_locales (auto simp: fc2580_set_freq_hz_def intro!: fc2580_set_freq_returns)

end
