(* ===== verification/Rtl_Api.thy ===== *)
theory Rtl_Api
  imports Rtl_Tuners
begin

text \<open>
  The device settings of \<^verbatim>\<open>src/librtlsdr/src/librtlsdr.c\<close>: centre frequency, direct sampling and its
  automatic mode, sample rate, offset tuning, gain, bandwidth, frequency correction, crystals, test
  mode, AGC, bias tee.  The tuner of the device is \<open>tn (d_tuner_type d)\<close>, where \<open>tn\<close> stands for the
  table \<open>tuners\<close>.  Setting the frequency and switching direct sampling call each other; the recursion
  carries fuel, and \<open>None\<close> is a call that does not return normally: fuel exhausted, or the tuner
  driver divided by zero.  Three levels of fuel are shown to be enough.
\<close>

section \<open>Model\<close>

text \<open>\<open>r = m; \<dots>\<close> where \<open>m\<close> may not return.\<close>

definition returning :: "('s, int option) state \<Rightarrow> (int \<Rightarrow> ('s, int option) state) \<Rightarrow> ('s, int option) state" where
  "returning m k = do { r \<leftarrow> m; case r of None \<Rightarrow> ret None | Some r \<Rightarrow> k r }"

text \<open>\<open>rtlsdr_set_i2c_repeater(dev, 1); r = f(dev); rtlsdr_set_i2c_repeater(dev, 0);\<close>\<close>

definition with_repeater :: "'h usb_ops \<Rightarrow> ('h rtlsdr_dev, 'a) state \<Rightarrow> ('h rtlsdr_dev, 'a) state" where
  "with_repeater usb m = do {
     _ \<leftarrow> rtlsdr_set_i2c_repeater usb 1;
     r \<leftarrow> m;
     _ \<leftarrow> rtlsdr_set_i2c_repeater usb 0;
     ret r }"

definition reactivate_softagc :: "softagc_stateT \<Rightarrow> ('h rtlsdr_dev, int) state" where
  "reactivate_softagc newState = do {
     d \<leftarrow> State_Monad.get;
     if d_agc_mode d \<noteq> SOFTAGC_OFF then
       (if d_agc_state d \<noteq> SOFTSTATE_OFF \<and> d_agc_mode d = SOFTAGC_AUTO then ret 1
        else do { _ \<leftarrow> State_Monad.set (d\<lparr>d_agc_state := newState\<rparr>); ret 1 })
     else ret 0 }"

definition rtlsdr_deinit_baseband :: "'h usb_ops \<Rightarrow> (rtlsdr_tuner \<Rightarrow> 'h rtlsdr_dev tuner_iface) \<Rightarrow> ('h rtlsdr_dev, int) state" where
  "rtlsdr_deinit_baseband usb tn = do {
     d \<leftarrow> State_Monad.get;
     r \<leftarrow> (case tn_exit (tn (d_tuner_type d)) of None \<Rightarrow> ret 0 | Some m \<Rightarrow> with_repeater usb m);
     _ \<leftarrow> rtlsdr_write_reg usb SYSB 0x3000 0x20 1;
     ret r }"

subsection \<open>Centre frequency and direct sampling\<close>

text \<open>\<open>if (!r) dev->freq = freq; else dev->freq = 0;\<close>\<close>

definition store_freq :: "u64 \<Rightarrow> int \<Rightarrow> ('h rtlsdr_dev, int option) state" where
  "store_freq freq r = do {
     _ \<leftarrow> State_Monad.update (\<lambda>d. d\<lparr>d_freq := if r = 0 then freq else 0\<rparr>);
     ret (Some r) }"

text \<open>The direct sampling setting \<open>rtlsdr_update_ds\<close> wants for a frequency.\<close>

definition wanted_ds :: "'h rtlsdr_dev \<Rightarrow> u64 \<Rightarrow> int" where
  "wanted_ds d freq =
     (case d_ds_mode d of
        RTLSDR_DS_IQ \<Rightarrow> 0
      | RTLSDR_DS_I \<Rightarrow> 1
      | RTLSDR_DS_Q \<Rightarrow> 2
      | RTLSDR_DS_I_BELOW \<Rightarrow> if freq < ucast (d_ds_threshold d) then 1 else 0
      | RTLSDR_DS_Q_BELOW \<Rightarrow> if freq < ucast (d_ds_threshold d) then 2 else 0)"

text \<open>\<open>set_ds\<close> is the call of \<open>rtlsdr_set_direct_sampling\<close>.\<close>

definition rtlsdr_update_ds :: "(int \<Rightarrow> ('h rtlsdr_dev, int option) state) \<Rightarrow> u64 \<Rightarrow> ('h rtlsdr_dev, int option) state" where
  "rtlsdr_update_ds set_ds freq = do {
     d \<leftarrow> State_Monad.get;
     if d_direct_sampling d < 0 then ret (Some (-1))
     else if d_direct_sampling d \<noteq> wanted_ds d freq then set_ds (wanted_ds d freq)
     else ret (Some 0) }"

definition ds_mode_auto :: "rtlsdr_ds_mode \<Rightarrow> bool" where
  "ds_mode_auto mode \<longleftrightarrow> mode = RTLSDR_DS_I_BELOW \<or> mode = RTLSDR_DS_Q_BELOW"

text \<open>What follows the choice of the sampling mode, for a 64-bit and for a 32-bit frequency.\<close>

definition tune_center64 ::
  "'h usb_ops \<Rightarrow> (rtlsdr_tuner \<Rightarrow> 'h rtlsdr_dev tuner_iface) \<Rightarrow> u64 \<Rightarrow> ('h rtlsdr_dev, int option) state" where
  "tune_center64 usb tn freq = do {
     d \<leftarrow> State_Monad.get;
     returning
       (if d_direct_sampling d \<noteq> 0 then do { r \<leftarrow> rtlsdr_set_if_freq usb (ucast freq); ret (Some r) }
        else case tn_set_freq64 (tn (d_tuner_type d)) of
               Some f \<Rightarrow> with_repeater usb (f (freq - ucast (d_offs_freq d)))
             | None \<Rightarrow> (case tn_set_freq (tn (d_tuner_type d)) of
                 Some f \<Rightarrow> with_repeater usb (f (ucast freq - d_offs_freq d))
               | None \<Rightarrow> ret (Some (-1))))
       (store_freq freq) }"

definition tune_center ::
  "'h usb_ops \<Rightarrow> (rtlsdr_tuner \<Rightarrow> 'h rtlsdr_dev tuner_iface) \<Rightarrow> u32 \<Rightarrow> ('h rtlsdr_dev, int option) state" where
  "tune_center usb tn freq = do {
     d \<leftarrow> State_Monad.get;
     returning
       (if d_direct_sampling d \<noteq> 0 then do { r \<leftarrow> rtlsdr_set_if_freq usb freq; ret (Some r) }
        else case tn_set_freq (tn (d_tuner_type d)) of
               Some f \<Rightarrow> with_repeater usb (f (freq - d_offs_freq d))
             | None \<Rightarrow> ret (Some (-1)))
       (store_freq (ucast freq)) }"

text \<open>\<open>if (dev->direct_sampling_mode > RTLSDR_DS_Q) rtlsdr_update_ds(dev, freq);\<close> and the tuning.\<close>

definition after_update_ds ::
  "(int \<Rightarrow> ('h rtlsdr_dev, int option) state) \<Rightarrow> u64 \<Rightarrow> ('h rtlsdr_dev, int option) state \<Rightarrow> ('h rtlsdr_dev, int option) state" where
  "after_update_ds set_ds freq m = do {
     d \<leftarrow> State_Monad.get;
     returning (if ds_mode_auto (d_ds_mode d) then rtlsdr_update_ds set_ds freq else ret (Some 0)) (\<lambda>_. m) }"

text \<open>\<open>rtlsdr_set_direct_sampling\<close>, given the call of \<open>rtlsdr_set_center_freq64\<close>.\<close>

definition direct_sampling_on :: "'h usb_ops \<Rightarrow> (rtlsdr_tuner \<Rightarrow> 'h rtlsdr_dev tuner_iface) \<Rightarrow> int \<Rightarrow> ('h rtlsdr_dev, int) state" where
  "direct_sampling_on usb tn on = do {
     d \<leftarrow> State_Monad.get;
     r0 \<leftarrow> (case tn_exit (tn (d_tuner_type d)) of None \<Rightarrow> ret 0 | Some m \<Rightarrow> with_repeater usb m);
     r1 \<leftarrow> rtlsdr_demod_write_reg usb 1 0xb1 0x1a 1;
     r2 \<leftarrow> rtlsdr_demod_write_reg usb 1 0x15 0x00 1;
     r3 \<leftarrow> rtlsdr_demod_write_reg usb 0 0x08 0x4d 1;
     r4 \<leftarrow> rtlsdr_demod_write_reg usb 0 0x06 (if on > 1 then 0x90 else 0x80) 1;
     _ \<leftarrow> State_Monad.update (\<lambda>d. d\<lparr>d_direct_sampling := on\<rparr>);
     ret (r0 OR r1 OR r2 OR r3 OR r4) }"

definition direct_sampling_off :: "'h usb_ops \<Rightarrow> (rtlsdr_tuner \<Rightarrow> 'h rtlsdr_dev tuner_iface) \<Rightarrow> ('h rtlsdr_dev, int) state" where
  "direct_sampling_off usb tn = do {
     d \<leftarrow> State_Monad.get;
     r0 \<leftarrow> (case tn_init (tn (d_tuner_type d)) of None \<Rightarrow> ret 0 | Some m \<Rightarrow> with_repeater usb m);
     r1 \<leftarrow> (if d_tuner_type d = RTLSDR_TUNER_R820T \<or> d_tuner_type d = RTLSDR_TUNER_R828D then do {
              a \<leftarrow> rtlsdr_set_if_freq usb 3570000;
              b \<leftarrow> rtlsdr_demod_write_reg usb 1 0x15 0x01 1;
              ret (a OR b) }
            else do {
              a \<leftarrow> rtlsdr_set_if_freq usb 0;
              b \<leftarrow> rtlsdr_demod_write_reg usb 0 0x08 0xcd 1;
              c \<leftarrow> rtlsdr_demod_write_reg usb 1 0xb1 0x1b 1;
              ret (a OR b OR c) });
     r2 \<leftarrow> rtlsdr_demod_write_reg usb 0 0x06 0x80 1;
     _ \<leftarrow> State_Monad.update (\<lambda>d. d\<lparr>d_direct_sampling := 0\<rparr>);
     ret (r0 OR r1 OR r2) }"

definition direct_sampling_body ::
  "'h usb_ops \<Rightarrow> (rtlsdr_tuner \<Rightarrow> 'h rtlsdr_dev tuner_iface) \<Rightarrow> (u64 \<Rightarrow> ('h rtlsdr_dev, int option) state) \<Rightarrow> int
     \<Rightarrow> ('h rtlsdr_dev, int option) state" where
  "direct_sampling_body usb tn set_freq64 on = do {
     r \<leftarrow> (if on \<noteq> 0 then direct_sampling_on usb tn on else direct_sampling_off usb tn);
     d \<leftarrow> State_Monad.get;
     returning (set_freq64 (d_freq d)) (\<lambda>r'. ret (Some (r OR r'))) }"

primrec rtlsdr_set_center_freq64 ::
  "'h usb_ops \<Rightarrow> (rtlsdr_tuner \<Rightarrow> 'h rtlsdr_dev tuner_iface) \<Rightarrow> nat \<Rightarrow> u64 \<Rightarrow> ('h rtlsdr_dev, int option) state" where
  "rtlsdr_set_center_freq64 usb tn 0 = (\<lambda>_. ret None)"
| "rtlsdr_set_center_freq64 usb tn (Suc n) = (\<lambda>freq.
     after_update_ds (direct_sampling_body usb tn (rtlsdr_set_center_freq64 usb tn n)) freq (tune_center64 usb tn freq))"

definition rtlsdr_set_direct_sampling ::
  "'h usb_ops \<Rightarrow> (rtlsdr_tuner \<Rightarrow> 'h rtlsdr_dev tuner_iface) \<Rightarrow> nat \<Rightarrow> int \<Rightarrow> ('h rtlsdr_dev, int option) state" where
  "rtlsdr_set_direct_sampling usb tn n on = direct_sampling_body usb tn (rtlsdr_set_center_freq64 usb tn n) on"

definition rtlsdr_set_center_freq ::
  "'h usb_ops \<Rightarrow> (rtlsdr_tuner \<Rightarrow> 'h rtlsdr_dev tuner_iface) \<Rightarrow> nat \<Rightarrow> u32 \<Rightarrow> ('h rtlsdr_dev, int option) state" where
  "rtlsdr_set_center_freq usb tn n freq =
     after_update_ds (rtlsdr_set_direct_sampling usb tn n) (ucast freq) (tune_center usb tn freq)"

definition default_ds_threshold :: "rtlsdr_tuner \<Rightarrow> u32" where
  "default_ds_threshold t =
     (case t of RTLSDR_TUNER_E4000 \<Rightarrow> 50000000 | RTLSDR_TUNER_R820T \<Rightarrow> 24000000 | _ \<Rightarrow> 28800000)"

definition ds_mode_code :: "rtlsdr_ds_mode \<Rightarrow> int" where
  "ds_mode_code m = (case m of RTLSDR_DS_IQ \<Rightarrow> 0 | RTLSDR_DS_I \<Rightarrow> 1 | RTLSDR_DS_Q \<Rightarrow> 2
     | RTLSDR_DS_I_BELOW \<Rightarrow> 3 | RTLSDR_DS_Q_BELOW \<Rightarrow> 4)"

definition rtlsdr_set_ds_mode ::
  "'h usb_ops \<Rightarrow> (rtlsdr_tuner \<Rightarrow> 'h rtlsdr_dev tuner_iface) \<Rightarrow> nat \<Rightarrow> rtlsdr_ds_mode \<Rightarrow> u32
     \<Rightarrow> ('h rtlsdr_dev, int option) state" where
  "rtlsdr_set_ds_mode usb tn n mode freq_threshold = do {
     d \<leftarrow> State_Monad.get;
     let center_freq = d_freq d;
     if center_freq = 0 then ret (Some (-2))
     else do {
       let freq_threshold = (if freq_threshold = 0 then default_ds_threshold (d_tuner_type d) else freq_threshold);
       _ \<leftarrow> State_Monad.set (d\<lparr>d_ds_mode := mode, d_ds_threshold := freq_threshold\<rparr>);
       returning (if \<not> ds_mode_auto mode then rtlsdr_set_direct_sampling usb tn n (ds_mode_code mode) else ret (Some 0))
         (\<lambda>_. rtlsdr_set_center_freq64 usb tn n center_freq) } }"

definition rtlsdr_get_center_freq :: "'h rtlsdr_dev \<Rightarrow> u32" where
  "rtlsdr_get_center_freq d = ucast (d_freq d)"

definition rtlsdr_get_offset_tuning :: "'h rtlsdr_dev \<Rightarrow> int" where
  "rtlsdr_get_offset_tuning d = (if d_offs_freq d \<noteq> 0 then 1 else 0)"

subsection \<open>Sample rate, offset tuning and crystals\<close>

definition rate_supported :: "u32 \<Rightarrow> bool" where
  "rate_supported samp_rate \<longleftrightarrow>
     \<not> (samp_rate \<le> 225000 \<or> samp_rate > 3200000 \<or> (samp_rate > 300000 \<and> samp_rate \<le> 900000))"

text \<open>\<open>(dev->rtl_xtal * TWO_POW(22)) / samp_rate\<close>, masked.\<close>

definition rsamp_ratio :: "u32 \<Rightarrow> u32 \<Rightarrow> u32" where
  "rsamp_ratio rtl_xtal samp_rate =
     dbl_u32 (dbl (of_int (uint rtl_xtal * 2 ^ 22) / of_int (uint samp_rate))) AND 0x0ffffffc"

definition real_rsamp_ratio :: "u32 \<Rightarrow> u32" where
  "real_rsamp_ratio ratio = ratio OR push_bit 1 (ratio AND 0x08000000)"

definition real_rate :: "u32 \<Rightarrow> u32 \<Rightarrow> u32" where
  "real_rate rtl_xtal ratio = dbl_u32 (dbl (of_int (uint rtl_xtal * 2 ^ 22) / of_int (uint (real_rsamp_ratio ratio))))"

definition tuner_set_bw ::
  "'h usb_ops \<Rightarrow> (rtlsdr_tuner \<Rightarrow> 'h rtlsdr_dev tuner_iface) \<Rightarrow> int \<Rightarrow> ('h rtlsdr_dev, unit) state" where
  "tuner_set_bw usb tn bw = do {
     d \<leftarrow> State_Monad.get;
     case tn_set_bw (tn (d_tuner_type d)) of
       None \<Rightarrow> ret ()
     | Some f \<Rightarrow> do { _ \<leftarrow> with_repeater usb (f bw 0 1); ret () } }"

definition rtlsdr_set_offset_tuning ::
  "'h usb_ops \<Rightarrow> (rtlsdr_tuner \<Rightarrow> 'h rtlsdr_dev tuner_iface) \<Rightarrow> nat \<Rightarrow> int \<Rightarrow> ('h rtlsdr_dev, int option) state" where
  "rtlsdr_set_offset_tuning usb tn n on = do {
     d \<leftarrow> State_Monad.get;
     if d_tuner_type d = RTLSDR_TUNER_R820T \<or> d_tuner_type d = RTLSDR_TUNER_R828D then ret (Some (-2))
     else if d_direct_sampling d \<noteq> 0 then ret (Some (-3))
     else do {
       let offs = (if on \<noteq> 0 then d_rate d div 2 * 170 div 100 else 0);
       _ \<leftarrow> State_Monad.set (d\<lparr>d_offs_freq := offs\<rparr>);
       r \<leftarrow> rtlsdr_set_if_freq usb offs;
       _ \<leftarrow> tuner_set_bw usb tn (sint (if on \<noteq> 0 then 2 * offs else if d_bw d > 0 then d_bw d else d_rate d));
       d \<leftarrow> State_Monad.get;
       if d_freq d > ucast (d_offs_freq d)
       then returning (rtlsdr_set_center_freq64 usb tn n (d_freq d)) (\<lambda>r'. ret (Some (r OR r')))
       else ret (Some r) } }"

definition rtlsdr_set_sample_rate ::
  "'h usb_ops \<Rightarrow> (rtlsdr_tuner \<Rightarrow> 'h rtlsdr_dev tuner_iface) \<Rightarrow> nat \<Rightarrow> u32 \<Rightarrow> ('h rtlsdr_dev, int option) state" where
  "rtlsdr_set_sample_rate usb tn n samp_rate = (
     if \<not> rate_supported samp_rate then ret (Some (-22))
     else do {
       d \<leftarrow> State_Monad.get;
       let ratio = rsamp_ratio (d_rtl_xtal d) samp_rate;
       let rate = real_rate (d_rtl_xtal d) ratio;
       _ \<leftarrow> State_Monad.set (d\<lparr>d_rate := rate\<rparr>);
       _ \<leftarrow> tuner_set_bw usb tn (sint (if d_bw d > 0 then d_bw d else rate));
       r1 \<leftarrow> rtlsdr_demod_write_reg usb 1 0x9f (ucast (drop_bit 16 ratio)) 2;
       r2 \<leftarrow> rtlsdr_demod_write_reg usb 1 0xa1 (ucast (ratio AND 0xffff)) 2;
       r3 \<leftarrow> rtlsdr_set_sample_freq_correction usb (d_corr d);
       r4 \<leftarrow> rtlsdr_demod_write_reg usb 1 0x01 0x14 1;
       r5 \<leftarrow> rtlsdr_demod_write_reg usb 1 0x01 0x10 1;
       d \<leftarrow> State_Monad.get;
       returning (if d_offs_freq d \<noteq> 0 then rtlsdr_set_offset_tuning usb tn n 1 else ret (Some 0)) (\<lambda>_. do {
         a \<leftarrow> reactivate_softagc SOFTSTATE_RESET;
         _ \<leftarrow> (if a \<noteq> 0 then State_Monad.update (\<lambda>d. d\<lparr>d_agc_dead_sps := 0, d_agc_scan_sps := 0\<rparr>) else ret ());
         ret (Some (r1 OR r2 OR r3 OR r4 OR r5)) }) })"

definition rtlsdr_set_xtal_freq ::
  "'h usb_ops \<Rightarrow> (rtlsdr_tuner \<Rightarrow> 'h rtlsdr_dev tuner_iface) \<Rightarrow> nat \<Rightarrow> u32 \<Rightarrow> u32 \<Rightarrow> ('h rtlsdr_dev, int option) state" where
  "rtlsdr_set_xtal_freq usb tn n rtl_freq tuner_freq = (
     if rtl_freq > 0 \<and> (rtl_freq < 28799000 \<or> rtl_freq > 28801000) then ret (Some (-2))
     else do {
       d \<leftarrow> State_Monad.get;
       returning
         (if rtl_freq > 0 \<and> d_rtl_xtal d \<noteq> rtl_freq then do {
            _ \<leftarrow> State_Monad.set (d\<lparr>d_rtl_xtal := rtl_freq\<rparr>);
            if d_rate d \<noteq> 0 then rtlsdr_set_sample_rate usb tn n (d_rate d) else ret (Some 0) }
          else ret (Some 0))
         (\<lambda>r. do {
            d \<leftarrow> State_Monad.get;
            if d_tun_xtal d \<noteq> tuner_freq then do {
              _ \<leftarrow> State_Monad.set (d\<lparr>d_tun_xtal := if tuner_freq = 0 then d_rtl_xtal d else tuner_freq\<rparr>);
              _ \<leftarrow> e4k_refresh_fosc;
              _ \<leftarrow> r82xx_refresh_xtal;
              d \<leftarrow> State_Monad.get;
              if d_freq d \<noteq> 0 then rtlsdr_set_center_freq64 usb tn n (d_freq d) else ret (Some r) }
            else ret (Some r) }) })"

definition rtlsdr_set_freq_correction ::
  "'h usb_ops \<Rightarrow> (rtlsdr_tuner \<Rightarrow> 'h rtlsdr_dev tuner_iface) \<Rightarrow> nat \<Rightarrow> int \<Rightarrow> ('h rtlsdr_dev, int option) state" where
  "rtlsdr_set_freq_correction usb tn n ppm = do {
     d \<leftarrow> State_Monad.get;
     if d_corr d = ppm then ret (Some (-2))
     else do {
       _ \<leftarrow> State_Monad.set (d\<lparr>d_corr := ppm\<rparr>);
       r \<leftarrow> rtlsdr_set_sample_freq_correction usb ppm;
       _ \<leftarrow> e4k_refresh_fosc;
       _ \<leftarrow> r82xx_refresh_xtal;
       d \<leftarrow> State_Monad.get;
       if d_freq d \<noteq> 0 then returning (rtlsdr_set_center_freq64 usb tn n (d_freq d)) (\<lambda>r'. ret (Some (r OR r')))
       else ret (Some r) } }"

subsection \<open>Gain, bandwidth and switches\<close>

definition get_tuner_gains :: "rtlsdr_tuner \<Rightarrow> int list" where
  "get_tuner_gains t =
     (case t of
        RTLSDR_TUNER_E4000 \<Rightarrow> [-10, 15, 40, 65, 90, 115, 140, 165, 190, 215, 240, 290, 340, 420]
      | RTLSDR_TUNER_FC0012 \<Rightarrow> [-99, -40, 71, 179, 192]
      | RTLSDR_TUNER_FC0013 \<Rightarrow> [-99, -73, -65, -63, -60, -58, -54, 58, 61, 63, 65, 67, 68, 70, 71, 179, 181, 182,
                                   184, 186, 188, 191, 197]
      | RTLSDR_TUNER_R820T \<Rightarrow> [0, 9, 14, 27, 37, 77, 87, 125, 144, 157, 166, 197, 207, 229, 254, 280, 297, 328,
                                  338, 364, 372, 386, 402, 421, 434, 439, 445, 480, 496]
      | RTLSDR_TUNER_R828D \<Rightarrow> [0, 9, 14, 27, 37, 77, 87, 125, 144, 157, 166, 197, 207, 229, 254, 280, 297, 328,
                                  338, 364, 372, 386, 402, 421, 434, 439, 445, 480, 496]
      | _ \<Rightarrow> [0])"

definition rtlsdr_set_tuner_gain ::
  "'h usb_ops \<Rightarrow> (rtlsdr_tuner \<Rightarrow> 'h rtlsdr_dev tuner_iface) \<Rightarrow> int \<Rightarrow> ('h rtlsdr_dev, int) state" where
  "rtlsdr_set_tuner_gain usb tn gain = do {
     d \<leftarrow> State_Monad.get;
     case tn_set_gain (tn (d_tuner_type d)) of None \<Rightarrow> ret 0 | Some f \<Rightarrow> with_repeater usb (f gain) }"

definition rtlsdr_set_tuner_if_gain ::
  "'h usb_ops \<Rightarrow> (rtlsdr_tuner \<Rightarrow> 'h rtlsdr_dev tuner_iface) \<Rightarrow> int \<Rightarrow> int \<Rightarrow> ('h rtlsdr_dev, int) state" where
  "rtlsdr_set_tuner_if_gain usb tn stage gain = do {
     d \<leftarrow> State_Monad.get;
     case tn_set_if_gain (tn (d_tuner_type d)) of
       None \<Rightarrow> ret 0
     | Some f \<Rightarrow> do {
         r \<leftarrow> with_repeater usb (f stage gain);
         _ \<leftarrow> reactivate_softagc SOFTSTATE_RESET;
         ret r } }"

definition rtlsdr_set_tuner_gain_mode ::
  "'h usb_ops \<Rightarrow> (rtlsdr_tuner \<Rightarrow> 'h rtlsdr_dev tuner_iface) \<Rightarrow> int \<Rightarrow> ('h rtlsdr_dev, int) state" where
  "rtlsdr_set_tuner_gain_mode usb tn mode = do {
     d \<leftarrow> State_Monad.get;
     case tn_set_gain_mode (tn (d_tuner_type d)) of
       None \<Rightarrow> ret 0
     | Some f \<Rightarrow> with_repeater usb (f (if d_agc_mode d \<noteq> SOFTAGC_OFF then 1 else mode)) }"

definition rtlsdr_set_tuner_i2c_register ::
  "'h usb_ops \<Rightarrow> (rtlsdr_tuner \<Rightarrow> 'h rtlsdr_dev tuner_iface) \<Rightarrow> u32 \<Rightarrow> u32 \<Rightarrow> u32 \<Rightarrow> ('h rtlsdr_dev, int) state" where
  "rtlsdr_set_tuner_i2c_register usb tn i2c_register msk data = do {
     d \<leftarrow> State_Monad.get;
     case tn_set_i2c_register (tn (d_tuner_type d)) of
       None \<Rightarrow> ret 0 | Some f \<Rightarrow> with_repeater usb (f i2c_register data msk) }"

definition rtlsdr_set_and_get_tuner_bandwidth ::
  "'h usb_ops \<Rightarrow> (rtlsdr_tuner \<Rightarrow> 'h rtlsdr_dev tuner_iface) \<Rightarrow> u32 \<Rightarrow> int \<Rightarrow> ('h rtlsdr_dev, int \<times> u32) state" where
  "rtlsdr_set_and_get_tuner_bandwidth usb tn bw apply_bw = do {
     d \<leftarrow> State_Monad.get;
     let arg = sint (if bw > 0 then bw else d_rate d);
     case tn_set_bw (tn (d_tuner_type d)) of
       None \<Rightarrow> ret (0, 0)
     | Some f \<Rightarrow>
         if apply_bw = 0 then f arg 0 apply_bw
         else do {
           (r, applied_bw) \<leftarrow> with_repeater usb (f arg 0 apply_bw);
           _ \<leftarrow> reactivate_softagc SOFTSTATE_RESET;
           _ \<leftarrow> (if r \<noteq> 0 then ret () else State_Monad.update (\<lambda>d. d\<lparr>d_bw := bw\<rparr>));
           ret (r, applied_bw) } }"

definition rtlsdr_set_tuner_bandwidth ::
  "'h usb_ops \<Rightarrow> (rtlsdr_tuner \<Rightarrow> 'h rtlsdr_dev tuner_iface) \<Rightarrow> u32 \<Rightarrow> ('h rtlsdr_dev, int) state" where
  "rtlsdr_set_tuner_bandwidth usb tn bw = do {
     (r, _) \<leftarrow> rtlsdr_set_and_get_tuner_bandwidth usb tn bw 1;
     ret r }"

definition rtlsdr_set_testmode :: "'h usb_ops \<Rightarrow> int \<Rightarrow> ('h rtlsdr_dev, int) state" where
  "rtlsdr_set_testmode usb on = rtlsdr_demod_write_reg usb 0 0x19 (if on \<noteq> 0 then 0x03 else 0x05) 1"

definition rtlsdr_set_agc_mode :: "'h usb_ops \<Rightarrow> int \<Rightarrow> ('h rtlsdr_dev, int) state" where
  "rtlsdr_set_agc_mode usb on = rtlsdr_demod_write_reg usb 0 0x19 (if on \<noteq> 0 then 0x25 else 0x05) 1"

definition rtlsdr_set_bias_tee_gpio :: "'h usb_ops \<Rightarrow> u8 list \<Rightarrow> int \<Rightarrow> int \<Rightarrow> ('h rtlsdr_dev, int) state" where
  "rtlsdr_set_bias_tee_gpio usb junk gpio on = do {
     _ \<leftarrow> rtlsdr_set_gpio_output usb junk (word_of_int gpio);
     _ \<leftarrow> rtlsdr_set_gpio_bit usb junk (word_of_int gpio) on;
     _ \<leftarrow> reactivate_softagc SOFTSTATE_RESET;
     ret 0 }"

definition rtlsdr_set_bias_tee :: "'h usb_ops \<Rightarrow> u8 list \<Rightarrow> int \<Rightarrow> ('h rtlsdr_dev, int) state" where
  "rtlsdr_set_bias_tee usb junk on = do {
     d \<leftarrow> State_Monad.get;
     rtlsdr_set_bias_tee_gpio usb junk (d_biast_gpio_pin_no d) on }"

section \<open>What the calls leave of the settings\<close>

lemma run_returning [simp]:
  "run_state (returning m k) d =
     (case result_of m d of None \<Rightarrow> (None, state_of m d) | Some r \<Rightarrow> run_state (k r) (state_of m d))"
  by (simp add: returning_def split: option.splits)

lemma run_store_freq [simp]: "run_state (store_freq f r) d = (Some r, d\<lparr>d_freq := if r = 0 then f else 0\<rparr>)"
  by (simp add: store_freq_def)

text \<open>Between two calls the repeater is off.\<close>

abbreviation idle :: "'h rtlsdr_dev \<Rightarrow> bool" where
  "idle d \<equiv> d_i2c_repeater_on d = 0"

lemma settings_repeater: "idle d \<Longrightarrow> settings (d\<lparr>d_i2c_repeater_on := 0\<rparr>) = settings d"
  by (cases d) (simp add: settings_def)

lemma settings_update:
  "settings (d\<lparr>d_freq := f\<rparr>) = (settings d)\<lparr>d_freq := f\<rparr>"
  "settings (d\<lparr>d_direct_sampling := i\<rparr>) = (settings d)\<lparr>d_direct_sampling := i\<rparr>"
  "settings (d\<lparr>d_offs_freq := w\<rparr>) = (settings d)\<lparr>d_offs_freq := w\<rparr>"
  "settings (d\<lparr>d_rate := w\<rparr>) = (settings d)\<lparr>d_rate := w\<rparr>"
  "settings (d\<lparr>d_i2c_repeater_on := i\<rparr>) = (settings d)\<lparr>d_i2c_repeater_on := i\<rparr>"
  "settings (d\<lparr>d_cs_lock := i\<rparr>) = (settings d)\<lparr>d_cs_lock := i\<rparr>"
  by (simp_all add: settings_def)

text \<open>A call wrapped in the repeater leaves the settings alone and the lock balanced.\<close>

lemma with_repeater_result:
  "result_of (with_repeater usb m) d = result_of m (state_of (rtlsdr_set_i2c_repeater usb 1) d)"
  by (simp add: with_repeater_def)

lemma repeater_settings:
  "settings (state_of (rtlsdr_set_i2c_repeater usb on) d) =
     (settings d)\<lparr>d_i2c_repeater_on := on, d_cs_lock := d_cs_lock d + (if on \<noteq> 0 then 1 else -1)\<rparr>"
  by (cases d) (auto simp: rtlsdr_set_i2c_repeater_def settings_def)

lemma with_repeater_settings:
  assumes "keeps settings m"
  shows "settings (state_of (with_repeater usb m) d) = (settings d)\<lparr>d_i2c_repeater_on := 0\<rparr>"
proof -
  define d1 where "d1 = state_of (rtlsdr_set_i2c_repeater usb 1) d"
  define d2 where "d2 = state_of m d1"
  have 1: "settings d1 = (settings d)\<lparr>d_i2c_repeater_on := 1, d_cs_lock := d_cs_lock d + 1\<rparr>"
    unfolding d1_def repeater_settings by simp
  have 2: "settings d2 = settings d1"
    using assms by (simp add: keeps_def d2_def)
  have "d_cs_lock (settings d1) = d_cs_lock d + 1" unfolding 1 by simp
  then have "d_cs_lock d2 = d_cs_lock d + 1"
    unfolding 2 [symmetric] by (simp add: settings_def)
  then have "settings (state_of (rtlsdr_set_i2c_repeater usb 0) d2) = (settings d)\<lparr>d_i2c_repeater_on := 0\<rparr>"
    unfolding repeater_settings 2 1 by (cases d) (simp add: settings_def)
  then show ?thesis by (simp add: with_repeater_def d1_def d2_def)
qed

lemma with_repeater_keeps: "keeps settings m \<Longrightarrow> idle d \<Longrightarrow> settings (state_of (with_repeater usb m) d) = settings d"
  by (simp add: with_repeater_settings flip: settings_update) (simp add: settings_repeater)

lemma keeps_if_freq [keeps_intros]: "keeps settings (rtlsdr_set_if_freq usb f)"
  by (simp add: keeps_def rtlsdr_set_if_freq_def Let_def)

lemma keeps_demod_write [keeps_intros]: "keeps settings (rtlsdr_demod_write_reg usb p a v n)"
  by (simp add: keeps_def)

text \<open>A device on which the tuning calls return: a known tuner, a running clock, the repeater off.\<close>

definition tunable :: "(rtlsdr_tuner \<Rightarrow> 'h rtlsdr_dev tuner_iface) \<Rightarrow> 'h rtlsdr_dev \<Rightarrow> bool" where
  "tunable tn d \<longleftrightarrow> tuning_tuner (tn (d_tuner_type d)) \<and> 2000 \<le> uint (rtlsdr_get_tuner_clock d) \<and> idle d"

lemma tunable_settings:
  assumes "tunable tn d" "settings d' = (settings d)\<lparr>d_freq := f, d_direct_sampling := i\<rparr>"
  shows "tunable tn d'" "d_freq d' = f" "d_direct_sampling d' = i" "d_ds_mode d' = d_ds_mode d"
    "d_ds_threshold d' = d_ds_threshold d" "d_tuner_type d' = d_tuner_type d"
proof -
  have s: "settings d' = settings (d\<lparr>d_freq := f, d_direct_sampling := i\<rparr>)"
    using assms(2) by (simp add: settings_update)
  show "d_freq d' = f" "d_direct_sampling d' = i" "d_ds_mode d' = d_ds_mode d"
    "d_ds_threshold d' = d_ds_threshold d" "d_tuner_type d' = d_tuner_type d"
    using settings_fields [OF s] by simp_all
  have "rtlsdr_get_tuner_clock d' = rtlsdr_get_tuner_clock d"
    using tuner_clock_settings [OF s] by (simp add: rtlsdr_get_tuner_clock_def rtlsdr_get_xtal_freq_def)
  then show "tunable tn d'"
    using assms(1) settings_fields [OF s] by (simp add: tunable_def)
qed

lemma wanted_ds_settings: "d_ds_mode d' = d_ds_mode d \<Longrightarrow> d_ds_threshold d' = d_ds_threshold d \<Longrightarrow> wanted_ds d' f = wanted_ds d f"
  by (simp add: wanted_ds_def)

text \<open>The repeater call around a tuner function: its result, the settings unchanged.\<close>

lemma with_repeater_returns:
  assumes "tunable tn d" "keeps settings m"
    and "\<And>d. 2000 \<le> uint (rtlsdr_get_tuner_clock d) \<Longrightarrow> \<exists>r. result_of m d = Some r"
  shows "\<exists>r. result_of (with_repeater usb m) d = Some r" "settings (state_of (with_repeater usb m) d) = settings d"
proof -
  define d1 where "d1 = state_of (rtlsdr_set_i2c_repeater usb 1) d"
  have "settings d1 = settings (d\<lparr>d_i2c_repeater_on := 1, d_cs_lock := d_cs_lock d + 1\<rparr>)"
    unfolding d1_def repeater_settings by (simp add: settings_update)
  then have "rtlsdr_get_tuner_clock d1 = rtlsdr_get_tuner_clock d"
    by (drule_tac tuner_clock_settings) (simp add: rtlsdr_get_tuner_clock_def rtlsdr_get_xtal_freq_def)
  then show "\<exists>r. result_of (with_repeater usb m) d = Some r"
    using assms(1,3) by (simp add: with_repeater_result tunable_def flip: d1_def)
  show "settings (state_of (with_repeater usb m) d) = settings d"
    using assms(1,2) by (simp add: with_repeater_keeps tunable_def)
qed

lemma settings_same_ds: "settings d' = settings d \<Longrightarrow>
    settings (d'\<lparr>d_freq := f\<rparr>) = (settings d)\<lparr>d_freq := f, d_direct_sampling := d_direct_sampling d\<rparr>"
  by (cases d; cases d'; simp add: settings_def)

lemma tune_center64_settings:
  assumes "tunable tn d"
  obtains r d' where "run_state (tune_center64 usb tn freq) d = (Some r, d')"
    "settings d' = (settings d)\<lparr>d_freq := if r = 0 then freq else 0, d_direct_sampling := d_direct_sampling d\<rparr>"
proof -
  let ?m = "if d_direct_sampling d \<noteq> 0 then do { r \<leftarrow> rtlsdr_set_if_freq usb (ucast freq); ret (Some r) }
        else case tn_set_freq64 (tn (d_tuner_type d)) of
               Some f \<Rightarrow> with_repeater usb (f (freq - ucast (d_offs_freq d)))
             | None \<Rightarrow> (case tn_set_freq (tn (d_tuner_type d)) of
                 Some f \<Rightarrow> with_repeater usb (f (ucast freq - d_offs_freq d))
               | None \<Rightarrow> ret (Some (-1)))"
  have tn: "tuning_tuner (tn (d_tuner_type d))" using assms by (simp add: tunable_def)
  note p = tuning_tuner.axioms(1) [OF tn]
  have "(\<exists>r. result_of (with_repeater usb (k x)) d = Some r) \<and> settings (state_of (with_repeater usb (k x)) d) = settings d"
    if "tn_set_freq (tn (d_tuner_type d)) = Some k" for k x
    using with_repeater_returns [OF assms polite_tuner.set_freq [OF p that] tuning_tuner.set_freq_returns [OF tn that]] by blast
  moreover have "(\<exists>r. result_of (with_repeater usb (k x)) d = Some r) \<and> settings (state_of (with_repeater usb (k x)) d) = settings d"
    if "tn_set_freq64 (tn (d_tuner_type d)) = Some k" for k x
    using with_repeater_returns [OF assms polite_tuner.set_freq64 [OF p that] tuning_tuner.set_freq64_returns [OF tn that]] by blast
  moreover have "settings (state_of (rtlsdr_set_if_freq usb x) d) = settings d" for x
    using keeps_if_freq by (auto simp: keeps_def)
  ultimately have "(\<exists>r. result_of ?m d = Some r) \<and> settings (state_of ?m d) = settings d"
    by (simp split: option.split)
  then obtain r where r: "result_of ?m d = Some r" "settings (state_of ?m d) = settings d" by blast
  have "run_state (tune_center64 usb tn freq) d = (Some r, (state_of ?m d)\<lparr>d_freq := if r = 0 then freq else 0\<rparr>)"
    unfolding tune_center64_def run_bind State_Monad.run_state_get fst_conv snd_conv run_returning r(1) by simp
  then show thesis using settings_same_ds [OF r(2)] that by blast
qed

lemma direct_sampling_settings:
  assumes "tunable tn d"
  shows "settings (state_of (if on \<noteq> 0 then direct_sampling_on usb tn on else direct_sampling_off usb tn) d) =
     (settings d)\<lparr>d_freq := d_freq d, d_direct_sampling := on\<rparr>"
proof -
  have p: "polite_tuner (tn (d_tuner_type d))" and i: "idle d"
    using assms by (simp_all add: tunable_def tuning_tuner_def)
  note tuner = with_repeater_keeps [OF polite_tuner.init [OF p] i] with_repeater_keeps [OF polite_tuner.exit [OF p] i]
  have e: "(settings d)\<lparr>d_direct_sampling := on\<rparr> = (settings d)\<lparr>d_freq := d_freq d, d_direct_sampling := on\<rparr>" for on
    by (cases d) (simp add: settings_def)
  have k: "settings (state_of (rtlsdr_set_if_freq usb x) d') = settings d'" for x d'
    using keeps_if_freq by (auto simp: keeps_def)
  have init: "settings (state_of (case tn_init (tn (d_tuner_type d)) of None \<Rightarrow> ret 0 | Some m \<Rightarrow> with_repeater usb m) d) = settings d"
    and exit: "settings (state_of (case tn_exit (tn (d_tuner_type d)) of None \<Rightarrow> ret 0 | Some m \<Rightarrow> with_repeater usb m) d) = settings d"
    using tuner by (simp_all split: option.split)
  show ?thesis
    by (cases "on = 0") (simp_all add: direct_sampling_on_def direct_sampling_off_def settings_update k init exit e)
qed

text \<open>Three levels of fuel: the innermost tuning happens in the mode the previous frequency wants.\<close>

lemma center_freq64_steady:
  assumes "tunable tn d" "ds_mode_auto (d_ds_mode d) \<Longrightarrow> d_direct_sampling d = wanted_ds d freq"
  obtains r d' where "run_state (rtlsdr_set_center_freq64 usb tn (Suc n) freq) d = (Some r, d')"
    "settings d' = (settings d)\<lparr>d_freq := if r = 0 then freq else 0, d_direct_sampling := d_direct_sampling d\<rparr>"
proof -
  obtain r d' where t: "run_state (tune_center64 usb tn freq) d = (Some r, d')"
    "settings d' = (settings d)\<lparr>d_freq := if r = 0 then freq else 0, d_direct_sampling := d_direct_sampling d\<rparr>"
    using tune_center64_settings [OF assms(1)] by blast
  have "0 \<le> wanted_ds d freq" by (simp add: wanted_ds_def split: rtlsdr_ds_mode.split)
  then have "run_state (rtlsdr_set_center_freq64 usb tn (Suc n) freq) d = (Some r, d')"
    using assms(2) t(1) by (simp add: after_update_ds_def rtlsdr_update_ds_def)
  then show thesis using t(2) by (rule that)
qed

text \<open>Switching the mode and then tuning, for the outer of two nested calls.\<close>

lemma center_freq64_switch:
  assumes d: "tunable tn d" "ds_mode_auto (d_ds_mode d)" "0 \<le> d_direct_sampling d" "d_direct_sampling d \<noteq> wanted_ds d freq"
    and inner: "\<And>d1. settings d1 = (settings d)\<lparr>d_freq := d_freq d, d_direct_sampling := wanted_ds d freq\<rparr> \<Longrightarrow>
      \<exists>r x d2. run_state (rtlsdr_set_center_freq64 usb tn n (d_freq d)) d1 = (Some r, d2)
        \<and> settings d2 = (settings d)\<lparr>d_freq := x, d_direct_sampling := ds\<rparr>"
  obtains r d' where "run_state (rtlsdr_set_center_freq64 usb tn (Suc n) freq) d = (Some r, d')"
    "settings d' = (settings d)\<lparr>d_freq := if r = 0 then freq else 0, d_direct_sampling := ds\<rparr>"
proof -
  define sw where "sw = (if wanted_ds d freq \<noteq> 0 then direct_sampling_on usb tn (wanted_ds d freq) else direct_sampling_off usb tn)"
  define d1 where "d1 = state_of sw d"
  have s1: "settings d1 = (settings d)\<lparr>d_freq := d_freq d, d_direct_sampling := wanted_ds d freq\<rparr>"
    unfolding d1_def sw_def by (rule direct_sampling_settings [OF d(1)])
  have f1: "d_freq d1 = d_freq d" by (rule tunable_settings [OF d(1) s1])
  obtain r x d2 where 2: "run_state (rtlsdr_set_center_freq64 usb tn n (d_freq d)) d1 = (Some r, d2)"
    "settings d2 = (settings d)\<lparr>d_freq := x, d_direct_sampling := ds\<rparr>"
    using inner [OF s1] by blast
  note t2 = tunable_settings [OF d(1) 2(2)]
  obtain r' d' where 3: "run_state (tune_center64 usb tn freq) d2 = (Some r', d')"
    "settings d' = (settings d2)\<lparr>d_freq := if r' = 0 then freq else 0, d_direct_sampling := d_direct_sampling d2\<rparr>"
    using tune_center64_settings [OF t2(1)] by blast
  have "run_state (direct_sampling_body usb tn (rtlsdr_set_center_freq64 usb tn n) (wanted_ds d freq)) d =
      (Some (result_of sw d OR r), d2)"
    unfolding direct_sampling_body_def sw_def [symmetric] using f1 2(1) by (simp flip: d1_def)
  then have "run_state (rtlsdr_set_center_freq64 usb tn (Suc n) freq) d = (Some r', d')"
    using d(2-4) 3(1) by (simp add: after_update_ds_def rtlsdr_update_ds_def)
  moreover have "settings d' = (settings d)\<lparr>d_freq := if r' = 0 then freq else 0, d_direct_sampling := ds\<rparr>"
    unfolding 3(2) t2(3) 2(2) by simp
  ultimately show thesis by (rule that)
qed

lemma center_freq64_same:
  assumes "tunable tn d" "ds_mode_auto (d_ds_mode d)" "0 \<le> d_direct_sampling d" "q = d_freq d"
  shows "\<exists>r x d'. run_state (rtlsdr_set_center_freq64 usb tn (Suc (Suc n)) q) d = (Some r, d')
    \<and> settings d' = (settings d)\<lparr>d_freq := x, d_direct_sampling := wanted_ds d q\<rparr>"
proof (cases "d_direct_sampling d = wanted_ds d q")
  case True
  then show ?thesis using center_freq64_steady [OF assms(1), of q usb "Suc n"] by metis
next
  case False
  have inner: "\<exists>r x d2. run_state (rtlsdr_set_center_freq64 usb tn (Suc n) (d_freq d)) d1 = (Some r, d2)
        \<and> settings d2 = (settings d)\<lparr>d_freq := x, d_direct_sampling := wanted_ds d q\<rparr>"
    if s1: "settings d1 = (settings d)\<lparr>d_freq := d_freq d, d_direct_sampling := wanted_ds d q\<rparr>" for d1
  proof -
    note t1 = tunable_settings [OF assms(1) s1]
    have w: "d_direct_sampling d1 = wanted_ds d1 (d_freq d)"
      using t1 assms(4) wanted_ds_settings [of d1 d] by simp
    obtain r d2 where 2: "run_state (rtlsdr_set_center_freq64 usb tn (Suc n) (d_freq d)) d1 = (Some r, d2)"
      "settings d2 = (settings d1)\<lparr>d_freq := if r = 0 then d_freq d else 0, d_direct_sampling := d_direct_sampling d1\<rparr>"
      using center_freq64_steady [OF t1(1), of "d_freq d" usb n] w by metis
    have "settings d2 = (settings d)\<lparr>d_freq := if r = 0 then d_freq d else 0, d_direct_sampling := wanted_ds d q\<rparr>"
      unfolding 2(2) t1(3) s1 by simp
    then show ?thesis using 2(1) by blast
  qed
  show ?thesis using center_freq64_switch [OF assms(1-3) False inner] by metis
qed

lemma center_freq64_settings:
  assumes "tunable tn d" "0 \<le> d_direct_sampling d"
  obtains r d' where "run_state (rtlsdr_set_center_freq64 usb tn (Suc (Suc (Suc n))) freq) d = (Some r, d')"
    "settings d' = (settings d)\<lparr>d_freq := if r = 0 then freq else 0,
       d_direct_sampling := if ds_mode_auto (d_ds_mode d) \<and> d_direct_sampling d \<noteq> wanted_ds d freq
         then wanted_ds d (d_freq d) else d_direct_sampling d\<rparr>"
proof (cases "ds_mode_auto (d_ds_mode d) \<and> d_direct_sampling d \<noteq> wanted_ds d freq")
  case False
  then have c: "ds_mode_auto (d_ds_mode d) \<Longrightarrow> d_direct_sampling d = wanted_ds d freq" by blast
  obtain r d' where 1: "run_state (rtlsdr_set_center_freq64 usb tn (Suc (Suc (Suc n))) freq) d = (Some r, d')"
    "settings d' = (settings d)\<lparr>d_freq := if r = 0 then freq else 0, d_direct_sampling := d_direct_sampling d\<rparr>"
    using center_freq64_steady [OF assms(1) c] by blast
  show thesis by (rule that [OF 1(1)]) (simp only: 1(2) if_not_P [OF False])
next
  case True
  have inner: "\<exists>r x d2. run_state (rtlsdr_set_center_freq64 usb tn (Suc (Suc n)) (d_freq d)) d1 = (Some r, d2)
        \<and> settings d2 = (settings d)\<lparr>d_freq := x, d_direct_sampling := wanted_ds d (d_freq d)\<rparr>"
    if s1: "settings d1 = (settings d)\<lparr>d_freq := d_freq d, d_direct_sampling := wanted_ds d freq\<rparr>" for d1
  proof -
    note t1 = tunable_settings [OF assms(1) s1]
    have "0 \<le> wanted_ds d freq" by (simp add: wanted_ds_def split: rtlsdr_ds_mode.split)
    then obtain r x d2 where 2: "run_state (rtlsdr_set_center_freq64 usb tn (Suc (Suc n)) (d_freq d)) d1 = (Some r, d2)"
      "settings d2 = (settings d1)\<lparr>d_freq := x, d_direct_sampling := wanted_ds d1 (d_freq d)\<rparr>"
      using center_freq64_same [OF t1(1), of "d_freq d" usb n] t1 True by auto
    have "settings d2 = (settings d)\<lparr>d_freq := x, d_direct_sampling := wanted_ds d (d_freq d)\<rparr>"
      unfolding 2(2) s1 using wanted_ds_settings [OF t1(4,5)] by simp
    then show ?thesis using 2(1) by blast
  qed
  obtain r d' where 1: "run_state (rtlsdr_set_center_freq64 usb tn (Suc (Suc (Suc n))) freq) d = (Some r, d')"
    "settings d' = (settings d)\<lparr>d_freq := if r = 0 then freq else 0, d_direct_sampling := wanted_ds d (d_freq d)\<rparr>"
    using center_freq64_switch [OF assms(1) _ assms(2) _ inner] True by blast
  show thesis by (rule that [OF 1(1)]) (simp only: 1(2) if_P [OF True])
qed

lemma center_freq64_run:
  assumes "tunable tn d" "0 \<le> d_direct_sampling d" "3 \<le> n"
    and run: "run_state (rtlsdr_set_center_freq64 usb tn n freq) d = (res, d')"
  shows "\<exists>r. res = Some r \<and> settings d' = (settings d)\<lparr>d_freq := if r = 0 then freq else 0,
       d_direct_sampling := if ds_mode_auto (d_ds_mode d) \<and> d_direct_sampling d \<noteq> wanted_ds d freq
         then wanted_ds d (d_freq d) else d_direct_sampling d\<rparr>"
proof -
  have n: "n = Suc (Suc (Suc (n - 3)))" using assms(3) by simp
  obtain r d'' where *: "run_state (rtlsdr_set_center_freq64 usb tn n freq) d = (Some r, d'')"
    "settings d'' = (settings d)\<lparr>d_freq := if r = 0 then freq else 0,
       d_direct_sampling := if ds_mode_auto (d_ds_mode d) \<and> d_direct_sampling d \<noteq> wanted_ds d freq
         then wanted_ds d (d_freq d) else d_direct_sampling d\<rparr>"
    by (subst (asm) n) (rule center_freq64_settings [OF assms(1,2)])
  have "res = Some r" "d' = d''" using run *(1) by simp_all
  then show ?thesis using *(2) by blast
qed

lemma wanted_ds_nonneg [simp]: "0 \<le> wanted_ds d x"
  by (simp add: wanted_ds_def split: rtlsdr_ds_mode.split)

text \<open>The 32-bit and the 64-bit call differ only in what follows the choice of the sampling mode.\<close>

lemma tune_center_eq:
  assumes "tn_set_freq64 (tn (d_tuner_type x)) = None"
  shows "run_state (tune_center usb tn freq) x = run_state (tune_center64 usb tn (ucast freq)) x"
proof -
  have u: "ucast (ucast freq :: u64) = freq" by (rule bit_word_eqI) (simp add: bit_simps)
  show ?thesis
    unfolding tune_center_def tune_center64_def run_bind State_Monad.run_state_get fst_conv snd_conv u assms option.case ..
qed

lemma direct_sampling_tuner:
  assumes "tunable tn d" "0 \<le> on" "3 \<le> n"
  shows "d_tuner_type (state_of (rtlsdr_set_direct_sampling usb tn n on) d) = d_tuner_type d"
proof -
  define sw where "sw = (if on \<noteq> 0 then direct_sampling_on usb tn on else direct_sampling_off usb tn)"
  define d1 where "d1 = state_of sw d"
  have s1: "settings d1 = (settings d)\<lparr>d_freq := d_freq d, d_direct_sampling := on\<rparr>"
    unfolding d1_def sw_def by (rule direct_sampling_settings [OF assms(1)])
  note t1 = tunable_settings [OF assms(1) s1]
  obtain res d2 where run: "run_state (rtlsdr_set_center_freq64 usb tn n (d_freq d)) d1 = (res, d2)" by fastforce
  then obtain r f i where res: "res = Some r" "settings d2 = (settings d1)\<lparr>d_freq := f, d_direct_sampling := i\<rparr>"
    using center_freq64_run [OF t1(1) _ assms(3) run] t1(3) assms(2) by blast
  have "d_tuner_type d2 = d_tuner_type d"
    using arg_cong [OF res(2), of d_tuner_type] arg_cong [OF s1, of d_tuner_type] by (simp add: settings_def)
  moreover have "state_of (rtlsdr_set_direct_sampling usb tn n on) d = d2"
    unfolding rtlsdr_set_direct_sampling_def direct_sampling_body_def sw_def [symmetric]
    using run res(1) t1(2) by (simp flip: d1_def)
  ultimately show ?thesis by simp
qed

lemma after_update_cong:
  assumes "tunable tn d" "3 \<le> n"
    and "\<And>x. d_tuner_type x = d_tuner_type d \<Longrightarrow> run_state (tune_center usb tn freq) x = run_state (tune_center64 usb tn (ucast freq)) x"
  shows "run_state (rtlsdr_set_center_freq usb tn n freq) d = run_state (rtlsdr_set_center_freq64 usb tn (Suc n) (ucast freq)) d"
proof -
  let ?set = "rtlsdr_set_direct_sampling usb tn n"
  define up where "up = (if ds_mode_auto (d_ds_mode d) then rtlsdr_update_ds ?set (ucast freq) else ret (Some 0))"
  have "d_tuner_type (state_of up d) = d_tuner_type d"
    using direct_sampling_tuner [OF assms(1) wanted_ds_nonneg assms(2), of usb d "ucast freq"]
    by (simp add: up_def rtlsdr_update_ds_def)
  note eq = assms(3) [OF this]
  have "rtlsdr_set_center_freq64 usb tn (Suc n) (ucast freq) = after_update_ds ?set (ucast freq) (tune_center64 usb tn (ucast freq))"
    by (simp add: rtlsdr_set_direct_sampling_def [abs_def])
  then show ?thesis
    using eq by (simp add: rtlsdr_set_center_freq_def after_update_ds_def run_returning flip: up_def split: option.split)
qed

text \<open>The four zero-IF tuners on any hardware; the witnesses run on the simulated dongle with an FC0012.\<close>

definition no_tuner :: "'d tuner_iface" where
  "no_tuner = \<lparr>tn_init = None, tn_exit = None, tn_set_freq = None, tn_set_freq64 = None, tn_set_bw = None, tn_set_gain = None,
      tn_set_if_gain = None, tn_set_gain_mode = None, tn_set_i2c_register = None\<rparr>"

definition sim_tuners :: "rtlsdr_tuner \<Rightarrow> sim_hw rtlsdr_dev tuner_iface" where
  "sim_tuners = tuners sim_usb [0, 0]
     \<lparr>pll_fosc = 0, pll_intended_flo = 0, pll_flo = 0, pll_x = 0, pll_z = 0, pll_r = 0, pll_r_idx = 0, pll_threephase = 0\<rparr> no_tuner"

definition sim_dev_auto :: "sim_hw rtlsdr_dev" where
  "sim_dev_auto = sim_dev0\<lparr>d_ds_mode := RTLSDR_DS_I_BELOW, d_ds_threshold := 28800000, d_freq := 10000000, d_direct_sampling := 1\<rparr>"

lemma sim_dev_fields:
  "d_tuner_type sim_dev0 = RTLSDR_TUNER_FC0012" "d_direct_sampling sim_dev0 = 0" "d_freq sim_dev0 = 0" "d_ds_mode sim_dev0 = RTLSDR_DS_IQ"
  "d_i2c_repeater_on sim_dev0 = 0" "d_tun_xtal sim_dev0 = 28800000" "d_rtl_xtal sim_dev0 = 28800000" "d_corr sim_dev0 = 0"
  by (simp_all add: sim_dev0_def)

lemma sim_tunable: "tunable sim_tuners sim_dev0" "tunable sim_tuners sim_dev_auto"
  unfolding tunable_def sim_tuners_def sim_dev_auto_def
  by (simp_all del: tuners.simps add: sim_dev_fields fc0012_tuner.tuning_tuner_axioms rtlsdr_get_tuner_clock_def rtlsdr_get_xtal_freq_def)

section \<open>Properties\<close>

text \<open>
  C8.  Setting the centre frequency returns, with three levels of recursion enough whatever the tuner answers
  (for a tuner whose functions return and keep the settings of the device at a clock of at least 2 kHz, as shown of the E4000, FC0012, FC0013 and
  FC2580, and a repeater that is idle),
  and changes no setting but the frequency, which becomes the requested one on success and 0 on failure, and
  the direct sampling mode, which changes only in the automatic modes and then to what the previous frequency
  calls for; the repeater is off again and its lock released.
\<close>

theorem rtl_center_freq64_effect:
  assumes "tunable tn d" "0 \<le> d_direct_sampling d" "3 \<le> n"
    and run: "run_state (rtlsdr_set_center_freq64 usb tn n freq) d = (res, d')"
  shows "\<exists>r. res = Some r \<and> settings d' = (settings d)\<lparr>d_freq := if r = 0 then freq else 0,
       d_direct_sampling := if ds_mode_auto (d_ds_mode d) \<and> d_direct_sampling d \<noteq> wanted_ds d freq
         then wanted_ds d (d_freq d) else d_direct_sampling d\<rparr>"
  using center_freq64_run [OF assms(1-3) run] .

theorem rtl_center_freq64_effect_witness:
  "\<exists>r d'. run_state (rtlsdr_set_center_freq64 sim_usb sim_tuners 3 100000000) sim_dev0 = (Some r, d') \<and> d_direct_sampling d' = 0"
proof -
  obtain res d' where run: "run_state (rtlsdr_set_center_freq64 sim_usb sim_tuners 3 100000000) sim_dev0 = (res, d')" by fastforce
  have n: "0 \<le> d_direct_sampling sim_dev0" by (simp add: sim_dev_fields)
  obtain r where r: "res = Some r" "settings d' = (settings sim_dev0)\<lparr>d_freq := if r = 0 then 100000000 else 0, d_direct_sampling := 0\<rparr>"
    using rtl_center_freq64_effect [OF sim_tunable(1) n _ run] by (auto simp: sim_dev_fields ds_mode_auto_def)
  show ?thesis using run r(1) tunable_settings [OF sim_tunable(1) r(2)] by blast
qed

text \<open>
  C23.  Automatic direct sampling lags one call behind: starting from a frequency whose mode is set, the
  first call that tunes across the threshold leaves the old mode in place; only a second call for the same
  frequency switches.
\<close>

theorem rtl_ds_lags:
  assumes "tunable tn d" "ds_mode_auto (d_ds_mode d)" and sync: "d_direct_sampling d = wanted_ds d (d_freq d)" and n: "3 \<le> n"
    and 1: "run_state (rtlsdr_set_center_freq64 usb tn n freq) d = (res1, d1)"
    and 2: "run_state (rtlsdr_set_center_freq64 usb tn n freq) d1 = (res2, d2)"
  shows "d_direct_sampling d1 = d_direct_sampling d \<and> (d_freq d1 = freq \<longrightarrow> d_direct_sampling d2 = wanted_ds d freq)"
proof -
  have ds: "0 \<le> d_direct_sampling d" by (simp only: sync wanted_ds_nonneg)
  obtain r :: int where "settings d1 = (settings d)\<lparr>d_freq := if r = 0 then freq else 0,
       d_direct_sampling := if ds_mode_auto (d_ds_mode d) \<and> d_direct_sampling d \<noteq> wanted_ds d freq
         then wanted_ds d (d_freq d) else d_direct_sampling d\<rparr>"
    using center_freq64_run [OF assms(1) ds n 1] by blast
  then have s1: "settings d1 = (settings d)\<lparr>d_freq := if r = 0 then freq else 0, d_direct_sampling := d_direct_sampling d\<rparr>"
    by (simp only: sync [symmetric] if_cancel)
  note t1 = tunable_settings [OF assms(1) s1]
  have ds1: "0 \<le> d_direct_sampling d1" using t1(3) ds by simp
  obtain r' :: int where s2: "settings d2 = (settings d1)\<lparr>d_freq := if r' = 0 then freq else 0,
       d_direct_sampling := if ds_mode_auto (d_ds_mode d1) \<and> d_direct_sampling d1 \<noteq> wanted_ds d1 freq
         then wanted_ds d1 (d_freq d1) else d_direct_sampling d1\<rparr>"
    using center_freq64_run [OF t1(1) ds1 n 2] by blast
  show ?thesis
    using t1(3,4) tunable_settings(3) [OF t1(1) s2] assms(2) wanted_ds_settings [OF t1(4,5)] by auto
qed

theorem rtl_ds_lags_witness:
  "wanted_ds sim_dev_auto 100000000 = 0
   \<and> d_direct_sampling (state_of (rtlsdr_set_center_freq64 sim_usb sim_tuners 3 100000000) sim_dev_auto) = 1"
proof -
  obtain res1 d1 where 1: "run_state (rtlsdr_set_center_freq64 sim_usb sim_tuners 3 100000000) sim_dev_auto = (res1, d1)" by fastforce
  obtain res2 d2 where 2: "run_state (rtlsdr_set_center_freq64 sim_usb sim_tuners 3 100000000) d1 = (res2, d2)" by fastforce
  have a: "ds_mode_auto (d_ds_mode sim_dev_auto)" "d_direct_sampling sim_dev_auto = wanted_ds sim_dev_auto (d_freq sim_dev_auto)"
    "d_direct_sampling sim_dev_auto = 1" "wanted_ds sim_dev_auto 100000000 = 0"
    by (simp_all add: sim_dev_auto_def ds_mode_auto_def wanted_ds_def)
  show ?thesis using rtl_ds_lags [OF sim_tunable(2) a(1,2) _ 1 2] 1 a(3,4) by simp
qed


lemma direct_sampling_body_settings:
  assumes "tunable tn d" "0 \<le> on" "3 \<le> n" "\<not> ds_mode_auto (d_ds_mode d)"
  obtains r x d' where "run_state (rtlsdr_set_direct_sampling usb tn n on) d = (Some r, d')"
    "settings d' = (settings d)\<lparr>d_freq := x, d_direct_sampling := on\<rparr>"
proof -
  define sw where "sw = (if on \<noteq> 0 then direct_sampling_on usb tn on else direct_sampling_off usb tn)"
  define d1 where "d1 = state_of sw d"
  have s1: "settings d1 = (settings d)\<lparr>d_freq := d_freq d, d_direct_sampling := on\<rparr>"
    unfolding d1_def sw_def by (rule direct_sampling_settings [OF assms(1)])
  note t1 = tunable_settings [OF assms(1) s1]
  obtain res d2 where run: "run_state (rtlsdr_set_center_freq64 usb tn n (d_freq d)) d1 = (res, d2)" by fastforce
  have ds: "0 \<le> d_direct_sampling d1" using t1(3) assms(2) by simp
  obtain r where r: "res = Some r" "settings d2 = (settings d1)\<lparr>d_freq := if r = 0 then d_freq d else 0, d_direct_sampling := d_direct_sampling d1\<rparr>"
    using center_freq64_run [OF t1(1) ds assms(3) run] assms(4) t1(4) by auto
  have "run_state (rtlsdr_set_direct_sampling usb tn n on) d = (Some (result_of sw d OR r), d2)"
    unfolding rtlsdr_set_direct_sampling_def direct_sampling_body_def sw_def [symmetric]
    using run r(1) t1(2) by (simp flip: d1_def)
  moreover have "settings d2 = (settings d)\<lparr>d_freq := if r = 0 then d_freq d else 0, d_direct_sampling := on\<rparr>"
    unfolding r(2) t1(3) s1 by simp
  ultimately show thesis by (rule that)
qed

text \<open>
  C18.  \<open>rtlsdr_set_ds_mode\<close>: with a frequency set, the mode and threshold are stored (the default of the
  tuner for threshold 0) and direct sampling ends in the static mode asked for or, in an automatic mode, in
  what the current frequency calls for; without a frequency the call is refused with -2 and nothing changes.
\<close>

theorem rtl_set_ds_mode_effect:
  assumes d: "tunable tn d" "0 \<le> d_direct_sampling d" and n: "3 \<le> n"
    and run: "run_state (rtlsdr_set_ds_mode usb tn n mode threshold) d = (res, d')"
  shows "if d_freq d = 0 then res = Some (-2) \<and> d' = d
    else \<exists>r. res = Some r \<and> d_ds_mode d' = mode
      \<and> d_ds_threshold d' = (if threshold = 0 then default_ds_threshold (d_tuner_type d) else threshold)
      \<and> d_direct_sampling d' = (if ds_mode_auto mode then wanted_ds d' (d_freq d) else ds_mode_code mode)
      \<and> d_freq d' = (if r = 0 then d_freq d else 0)"
proof (cases "d_freq d = 0")
  case True
  then show ?thesis using run by (simp add: rtlsdr_set_ds_mode_def)
next
  case False
  define thr where "thr = (if threshold = 0 then default_ds_threshold (d_tuner_type d) else threshold)"
  define d1 where "d1 = d\<lparr>d_ds_mode := mode, d_ds_threshold := thr\<rparr>"
  have d1: "tunable tn d1" "0 \<le> d_direct_sampling d1"
    using d by (simp_all add: d1_def tunable_def rtlsdr_get_tuner_clock_def rtlsdr_get_xtal_freq_def)
  have code: "0 \<le> ds_mode_code mode" by (simp add: ds_mode_code_def split: rtlsdr_ds_mode.split)
  obtain r x d2 where 2: "run_state (if \<not> ds_mode_auto mode then rtlsdr_set_direct_sampling usb tn n (ds_mode_code mode)
        else ret (Some 0)) d1 = (Some r, d2)"
    "settings d2 = (settings d1)\<lparr>d_freq := x, d_direct_sampling := if ds_mode_auto mode then d_direct_sampling d else ds_mode_code mode\<rparr>"
    "ds_mode_auto mode \<Longrightarrow> x = d_freq d"
  proof (cases "ds_mode_auto mode")
    case True
    have "settings d1 = (settings d1)\<lparr>d_freq := d_freq d, d_direct_sampling := d_direct_sampling d\<rparr>"
      by (cases d) (simp add: d1_def settings_def)
    then show thesis using that [of 0 d1 "d_freq d"] True by simp
  next
    case False
    then have "\<not> ds_mode_auto (d_ds_mode d1)" by (simp add: d1_def)
    then obtain r x d2 where *: "run_state (rtlsdr_set_direct_sampling usb tn n (ds_mode_code mode)) d1 = (Some r, d2)"
      "settings d2 = (settings d1)\<lparr>d_freq := x, d_direct_sampling := ds_mode_code mode\<rparr>"
      using direct_sampling_body_settings [OF d1(1) code n] by metis
    show thesis by (rule that [of r d2 x]) (simp_all only: * False if_True if_False not_False_eq_True)
  qed
  note t2 = tunable_settings [OF d1(1) 2(2)]
  have ds: "0 \<le> d_direct_sampling d2" using t2(3) d(2) code by simp
  have run2: "run_state (rtlsdr_set_center_freq64 usb tn n (d_freq d)) d2 = (res, d')"
  proof -
    define m where "m = (if \<not> ds_mode_auto mode then rtlsdr_set_direct_sampling usb tn n (ds_mode_code mode) else ret (Some 0))"
    have "run_state m d1 = (Some r, d2)" using 2(1) by (simp only: m_def)
    then show ?thesis
      using run False unfolding rtlsdr_set_ds_mode_def Let_def m_def [symmetric] by (simp add: d1_def thr_def cong: if_cong)
  qed
  obtain r' where r': "res = Some r'" "settings d' = (settings d2)\<lparr>d_freq := if r' = 0 then d_freq d else 0,
       d_direct_sampling := if ds_mode_auto (d_ds_mode d2) \<and> d_direct_sampling d2 \<noteq> wanted_ds d2 (d_freq d)
         then wanted_ds d2 (d_freq d2) else d_direct_sampling d2\<rparr>"
    using center_freq64_run [OF t2(1) ds n run2] by blast
  note t3 = tunable_settings [OF t2(1) r'(2)]
  have m: "d_ds_mode d2 = mode" "d_ds_threshold d2 = thr" using t2(4,5) by (simp_all add: d1_def)
  have "d_direct_sampling d' = (if ds_mode_auto mode then wanted_ds d' (d_freq d) else ds_mode_code mode)"
    using t3(3) t2(2,3) 2(3) m(1) wanted_ds_settings [OF t3(4,5)] by (cases "ds_mode_auto mode") simp_all
  then show ?thesis
    using False r'(1) t3(2,4,5) m unfolding thr_def by simp
qed

theorem rtl_set_ds_mode_effect_witness:
  "\<exists>r d'. run_state (rtlsdr_set_ds_mode sim_usb sim_tuners 3 RTLSDR_DS_Q_BELOW 0) sim_dev_auto = (Some r, d')
    \<and> d_ds_threshold d' = 28800000 \<and> d_direct_sampling d' = 2"
proof -
  obtain res d' where run: "run_state (rtlsdr_set_ds_mode sim_usb sim_tuners 3 RTLSDR_DS_Q_BELOW 0) sim_dev_auto = (res, d')" by fastforce
  have d: "0 \<le> d_direct_sampling sim_dev_auto" "d_freq sim_dev_auto = 10000000" "d_tuner_type sim_dev_auto = RTLSDR_TUNER_FC0012"
    by (simp_all add: sim_dev_auto_def sim_dev_fields)
  show ?thesis
    using rtl_set_ds_mode_effect [OF sim_tunable(2) d(1) _ run] run d(2,3)
    by (auto simp: ds_mode_auto_def wanted_ds_def default_ds_threshold_def)
qed

text \<open>
  C19.  The 32-bit call has the result and the effect of the 64-bit call on the same frequency, for a device whose own tuner has no
  64-bit tuning function (every entry of the table but those of the R820T and R828D), when the functions of that tuner
  return and keep the settings of the device, at a tuner clock of at least 2 kHz and with the repeater idle.
\<close>

theorem rtl_center_freq_32_64:
  assumes "tunable tn d" "tn_set_freq64 (tn (d_tuner_type d)) = None" "3 \<le> n"
  shows "run_state (rtlsdr_set_center_freq usb tn n freq) d = run_state (rtlsdr_set_center_freq64 usb tn (Suc n) (ucast freq)) d"
  using assms(2) by (intro after_update_cong [OF assms(1,3)] tune_center_eq) simp

theorem rtl_center_freq_32_64_witness:
  "tn_set_freq64 (sim_tuners (d_tuner_type sim_dev0)) = None \<and>
   run_state (rtlsdr_set_center_freq sim_usb sim_tuners 3 100000000) sim_dev0 =
     run_state (rtlsdr_set_center_freq64 sim_usb sim_tuners 4 100000000) sim_dev0"
proof -
  have none: "tn_set_freq64 (sim_tuners (d_tuner_type sim_dev0)) = None" by (simp add: sim_tuners_def sim_dev0_def)
  have "run_state (rtlsdr_set_center_freq sim_usb sim_tuners 3 100000000) sim_dev0 =
      run_state (rtlsdr_set_center_freq64 sim_usb sim_tuners (Suc 3) (ucast (100000000 :: u32))) sim_dev0"
    by (rule rtl_center_freq_32_64 [OF sim_tunable(1) none]) simp
  moreover have "Suc 3 = 4" "ucast (100000000 :: u32) = (100000000 :: u64)" by simp_all
  ultimately show ?thesis using none by (simp only: simp_thms)
qed

end
