(* ===== verification/Soft_Agc.thy ===== *)
theory Soft_Agc
  imports Rtl_Api "HOL-Library.Sublist"
begin

text \<open>
  The soft AGC of \<^verbatim>\<open>src/librtlsdr/src/librtlsdr.c\<close>: the streaming callback looks for the highest tuner gain that does not
  overdrive the converter, from a histogram of the received bytes, and a second thread applies the gains it asks for.  The two
  threads and the calls of the library interleave; a step of the model is a callback, one access of the worker thread
  to the shared variables, or a call.
\<close>

section \<open>Model\<close>

text \<open>
  The worker thread: about to wait, in \<open>pthread_cond_wait\<close>, woken up, about to apply a gain, gain applied, ended.
\<close>

datatype worker_pc = WORKER_LOOP | WORKER_WAIT | WORKER_WOKEN | WORKER_APPLY | WORKER_APPLIED | WORKER_EXIT

text \<open>
  \<open>struct softagc_state\<close>, with the device it belongs to: its fields \<open>softAgcMode\<close>, \<open>agcState\<close>, \<open>deadTimeSps\<close> and
  \<open>scanTimeSps\<close>, which the calls of the library change as well, are in the device record.  \<open>a_applied\<close> is a history
  variable, the gains given to the tuner, latest first.
\<close>

record 'h softagc_state =
  a_dev :: "'h rtlsdr_dev"
  a_exit_command_thread :: bool
  a_command_newGain :: int
  a_command_changeGain :: bool
  a_scanTimeMs :: rat
  a_deadTimeMs :: rat
  a_remainingDeadSps :: int
  a_remainingScanSps :: int
  a_numInHisto :: int
  a_histo :: "int list"
  a_gainIdx :: int
  a_worker :: worker_pc
  a_applied :: "int list"

abbreviation INT_MAX :: int where
  "INT_MAX \<equiv> 2147483647"

definition fits_int :: "int \<Rightarrow> bool" where
  "fits_int n \<longleftrightarrow> - 2147483648 \<le> n \<and> n \<le> INT_MAX"

abbreviation agc_state :: "'h softagc_state \<Rightarrow> softagc_stateT" where
  "agc_state s \<equiv> d_agc_state (a_dev s)"

definition set_agc_state :: "softagc_stateT \<Rightarrow> 'h softagc_state \<Rightarrow> 'h softagc_state" where
  "set_agc_state st s = s\<lparr>a_dev := (a_dev s)\<lparr>d_agc_state := st\<rparr>\<rparr>"

text \<open>A signal wakes the worker if it waits, and is lost otherwise.\<close>

definition safe_cond_signal :: "'h softagc_state \<Rightarrow> 'h softagc_state" where
  "safe_cond_signal s = (if a_worker s = WORKER_WAIT then s\<lparr>a_worker := WORKER_WOKEN\<rparr> else s)"

text \<open>\<open>(int)( (ms * dev->rate) / 1000 )\<close> in \<open>float\<close>; \<open>None\<close> for a value that is no \<open>int\<close>.\<close>

definition time_sps :: "rat \<Rightarrow> u32 \<Rightarrow> int option" where
  "time_sps ms rate =
     (let n = dbl_trunc (sgl (sgl (ms * sgl (of_int (uint rate))) / 1000)) in if fits_int n then Some n else None)"

definition clear_histo :: "'h softagc_state \<Rightarrow> 'h softagc_state" where
  "clear_histo s = s\<lparr>a_remainingDeadSps := INT_MAX, a_remainingScanSps := d_agc_scan_sps (a_dev s),
     a_numInHisto := 0, a_histo := replicate 16 0\<rparr>"

text \<open>Ask the worker for the gain at an index of the table.\<close>

definition command_gain :: "int \<Rightarrow> 'h softagc_state \<Rightarrow> 'h softagc_state option" where
  "command_gain i s =
     (let gains = get_tuner_gains (d_tuner_type (a_dev s))
      in if 0 \<le> i \<and> i < int (length gains)
         then Some (safe_cond_signal (s\<lparr>a_gainIdx := i, a_command_newGain := gains ! nat i, a_command_changeGain := True\<rparr>))
         else None)"

text \<open>The scan and the dead time in samples, computed when they are not set.\<close>

definition agc_times :: "'h softagc_state \<Rightarrow> (int \<times> int) option" where
  "agc_times s =
     (let d = a_dev s
      in case (if d_agc_scan_sps d = 0 then time_sps (a_scanTimeMs s) (d_rate d) else Some (d_agc_scan_sps d)) of
           None \<Rightarrow> None
         | Some scan \<Rightarrow> map_option (Pair scan)
             (if d_agc_dead_sps d = 0 then time_sps (a_deadTimeMs s) (d_rate d) else Some (d_agc_dead_sps d)))"

definition softagc_reset :: "'h softagc_state \<Rightarrow> (bool \<times> 'h softagc_state) option" where
  "softagc_reset s =
     (let d = a_dev s; numGains = length (get_tuner_gains (d_tuner_type d))
      in if numGains = 0 then Some (True, s)
         else if numGains = 1 then
           Some (True, s\<lparr>a_dev := d\<lparr>d_agc_mode := SOFTAGC_OFF, d_agc_state := SOFTSTATE_OFF\<rparr>\<rparr>)
         else case agc_times s of
           None \<Rightarrow> None
         | Some (scan, dead) \<Rightarrow>
             map_option (\<lambda>s. (False, set_agc_state SOFTSTATE_RESET_CONT s))
               (command_gain (int numGains - 1)
                 (clear_histo (s\<lparr>a_dev := d\<lparr>d_agc_scan_sps := scan, d_agc_dead_sps := dead\<rparr>\<rparr>))))"

text \<open>The amplitude class of a byte, 0 around the middle 127.5 and 15 at the ends.\<close>

definition histo_class :: "u8 \<Rightarrow> nat" where
  "histo_class b = (if b \<ge> 128 then (unat b - 128) div 8 else (127 - unat b) div 8)"

definition count_byte :: "u8 \<Rightarrow> int list \<Rightarrow> int list" where
  "count_byte b histo = histo[histo_class b := histo ! histo_class b + 1]"

definition distrib :: "int list \<Rightarrow> nat \<Rightarrow> int" where
  "distrib histo k = sum_list (drop k histo)"

text \<open>The three tests, with the order in which C evaluates them; \<open>None\<close> is an overflow.\<close>

definition share_test :: "int \<Rightarrow> int \<Rightarrow> int \<Rightarrow> bool option \<Rightarrow> bool option" where
  "share_test m x n next = (if \<not> fits_int (m * x) then None else if m * x \<ge> n then Some True else next)"

definition oversteered :: "int list \<Rightarrow> int \<Rightarrow> bool option" where
  "oversteered histo n =
     share_test 64 (distrib histo 15) n (share_test 16 (distrib histo 12) n (share_test 4 (distrib histo 8) n (Some False)))"

definition keep_block :: "'h softagc_state \<Rightarrow> bool" where
  "keep_block s \<longleftrightarrow> agc_state s \<noteq> SOFTSTATE_RESET_CONT"

text \<open>The end of the scan time without oversteering.\<close>

definition softagc_scanned :: "'h softagc_state \<Rightarrow> bool \<times> 'h softagc_state" where
  "softagc_scanned s =
     (if a_remainingScanSps s < 0 then
        (let s = s\<lparr>a_remainingScanSps := 0\<rparr>
         in case d_agc_mode (a_dev s) of
              SOFTAGC_AUTO_ATTEN \<Rightarrow> (True, set_agc_state SOFTSTATE_ON s)
            | SOFTAGC_AUTO \<Rightarrow> (True, set_agc_state SOFTSTATE_ON s)
            | _ \<Rightarrow> (True, if agc_state s = SOFTSTATE_OFF \<or> agc_state s = SOFTSTATE_RESET_CONT
                            then set_agc_state SOFTSTATE_OFF s else s))
      else (keep_block s, s))"

text \<open>
  From \<open>finish when arrived at lowest possible gain\<close> on.  The counters only grow, so an increment overflows exactly when
  the sum does.
\<close>

definition softagc_scan :: "u8 list \<Rightarrow> 'h softagc_state \<Rightarrow> (bool \<times> 'h softagc_state) option" where
  "softagc_scan buf s =
     (if a_gainIdx s = 0 \<and> agc_state s = SOFTSTATE_RESET_CONT then Some (True, set_agc_state SOFTSTATE_OFF s)
      else
        let histo = fold count_byte buf (a_histo s); n = a_numInHisto s + int (length buf);
            scan = a_remainingScanSps s - int (length buf div 2);
            s = s\<lparr>a_histo := histo, a_numInHisto := n, a_remainingScanSps := scan\<rparr>
        in if \<not> list_all fits_int histo \<or> \<not> fits_int n \<or> \<not> fits_int scan \<or> \<not> fits_int (distrib histo 8) then None
           else case oversteered histo n of
             None \<Rightarrow> None
           | Some True \<Rightarrow>
               if 0 < a_gainIdx s then
                 map_option (\<lambda>s. (keep_block s, s)) (command_gain (a_gainIdx s - 1) (clear_histo s))
               else Some (keep_block s, s)
           | Some False \<Rightarrow> Some (softagc_scanned s))"

text \<open>
  The callback's decision on a block: whether to hand it to the application.  A negative dead time moves
  the buffer pointer before the buffer.
\<close>

definition softagc :: "u8 list \<Rightarrow> 'h softagc_state \<Rightarrow> (bool \<times> 'h softagc_state) option" where
  "softagc buf s =
     (if agc_state s = SOFTSTATE_INIT then Some (False, set_agc_state SOFTSTATE_RESET s)
      else if agc_state s = SOFTSTATE_RESET then softagc_reset s
      else if a_remainingDeadSps s = INT_MAX then Some (False, s)
      else if a_remainingDeadSps s \<ge> int (length buf div 2) \<and> a_remainingDeadSps s \<noteq> 0 then
        Some (keep_block s, s\<lparr>a_remainingDeadSps := a_remainingDeadSps s - int (length buf div 2)\<rparr>)
      else if a_remainingDeadSps s < 0 then None
      else softagc_scan (drop (2 * nat (a_remainingDeadSps s)) buf) (s\<lparr>a_remainingDeadSps := 0\<rparr>))"

text \<open>The branch of \<open>_libusb_callback\<close> for a completed transfer, as far as the AGC is concerned.\<close>

definition callback_block :: "u8 list \<Rightarrow> 'h softagc_state \<Rightarrow> (bool \<times> 'h softagc_state) option" where
  "callback_block buf s = (if agc_state s \<noteq> SOFTSTATE_OFF then softagc buf s else Some (True, s))"

subsection \<open>The worker thread\<close>

definition softagc_control_worker ::
    "'h usb_ops \<Rightarrow> (rtlsdr_tuner \<Rightarrow> 'h rtlsdr_dev tuner_iface) \<Rightarrow> 'h softagc_state \<Rightarrow> 'h softagc_state" where
  "softagc_control_worker usb tn s =
     (case a_worker s of
        WORKER_LOOP \<Rightarrow> s\<lparr>a_worker := WORKER_WAIT\<rparr>
      | WORKER_WAIT \<Rightarrow> s
      | WORKER_WOKEN \<Rightarrow>
          if a_exit_command_thread s then s\<lparr>a_worker := WORKER_EXIT\<rparr>
          else if a_command_changeGain s then s\<lparr>a_command_changeGain := False, a_worker := WORKER_APPLY\<rparr>
          else s\<lparr>a_worker := WORKER_LOOP\<rparr>
      | WORKER_APPLY \<Rightarrow>
          s\<lparr>a_dev := state_of (rtlsdr_set_tuner_gain usb tn (a_command_newGain s)) (a_dev s),
            a_applied := a_command_newGain s # a_applied s, a_worker := WORKER_APPLIED\<rparr>
      | WORKER_APPLIED \<Rightarrow> s\<lparr>a_remainingDeadSps := d_agc_dead_sps (a_dev s), a_worker := WORKER_LOOP\<rparr>
      | WORKER_EXIT \<Rightarrow> s)"

definition softagc_init ::
    "'h usb_ops \<Rightarrow> (rtlsdr_tuner \<Rightarrow> 'h rtlsdr_dev tuner_iface) \<Rightarrow> 'h softagc_state \<Rightarrow> 'h softagc_state" where
  "softagc_init usb tn s =
     s\<lparr>a_exit_command_thread := False, a_command_newGain := 0, a_command_changeGain := False, a_worker := WORKER_LOOP,
       a_dev := state_of (rtlsdr_set_tuner_gain_mode usb tn 1) (a_dev s)\<rparr>"

text \<open>Up to \<open>pthread_join\<close>, which waits for the worker to end.\<close>

definition softagc_uninit :: "'h softagc_state \<Rightarrow> 'h softagc_state" where
  "softagc_uninit s =
     (if d_agc_mode (a_dev s) = SOFTAGC_OFF then s else safe_cond_signal (s\<lparr>a_exit_command_thread := True\<rparr>))"

subsection \<open>Interleavings\<close>

text \<open>
  A completed transfer, a step of the worker, a wake-up without a signal (which \<open>pthread_cond_wait\<close> allows), a change of a setting that restarts the
  AGC, the end of the AGC.
\<close>

datatype agc_event = BLOCK "u8 list" | WORKER | SPURIOUS | RESTART | UNINIT

definition agc_exec ::
    "'h usb_ops \<Rightarrow> (rtlsdr_tuner \<Rightarrow> 'h rtlsdr_dev tuner_iface) \<Rightarrow> agc_event \<Rightarrow> 'h softagc_state \<Rightarrow> 'h softagc_state option" where
  "agc_exec usb tn e s =
     (case e of
        BLOCK buf \<Rightarrow> map_option snd (callback_block buf s)
      | WORKER \<Rightarrow> Some (softagc_control_worker usb tn s)
      | SPURIOUS \<Rightarrow> Some (if a_worker s = WORKER_WAIT then s\<lparr>a_worker := WORKER_WOKEN\<rparr> else s)
      | RESTART \<Rightarrow> Some (s\<lparr>a_dev := state_of (reactivate_softagc SOFTSTATE_RESET) (a_dev s)\<rparr>)
      | UNINIT \<Rightarrow> Some (softagc_uninit s))"

fun agc_run ::
    "'h usb_ops \<Rightarrow> (rtlsdr_tuner \<Rightarrow> 'h rtlsdr_dev tuner_iface) \<Rightarrow> agc_event list \<Rightarrow> 'h softagc_state \<Rightarrow> 'h softagc_state option" where
  "agc_run usb tn [] s = Some s"
| "agc_run usb tn (e # es) s = (case agc_exec usb tn e s of None \<Rightarrow> None | Some s' \<Rightarrow> agc_run usb tn es s')"

section \<open>The histogram\<close>

text \<open>The histogram of a list of bytes, and the share of extreme values that calls for less gain, stated on the bytes.\<close>

definition histogram :: "u8 list \<Rightarrow> int list" where
  "histogram xs = map (\<lambda>k. int (length (filter (\<lambda>b. histo_class b = k) xs))) [0..<16]"

definition share_of :: "(u8 \<Rightarrow> bool) \<Rightarrow> nat \<Rightarrow> u8 list \<Rightarrow> bool" where
  "share_of P m xs \<longleftrightarrow> length xs \<le> m * length (filter P xs)"

definition hot :: "u8 list \<Rightarrow> bool" where
  "hot xs \<longleftrightarrow> share_of (\<lambda>b. b < 8 \<or> b \<ge> 248) 64 xs \<or> share_of (\<lambda>b. b < 32 \<or> b \<ge> 224) 16 xs
     \<or> share_of (\<lambda>b. b < 64 \<or> b \<ge> 192) 4 xs"

lemma histo_class_less: "histo_class b < 16"
  using unsigned_less [where ?'a = nat, of b] by (auto simp: histo_class_def)

lemma histo_class_ge: "histo_class b \<ge> k \<longleftrightarrow> unat b < 128 - 8 * k \<or> unat b \<ge> 128 + 8 * k" if "k \<le> 15"
proof -
  have "(128 \<le> b) = (128 \<le> unat b)" by (simp add: word_le_nat_alt)
  then show ?thesis
    using unsigned_less [where ?'a = nat, of b] that by (auto simp: histo_class_def)
qed

lemma count_byte_histogram: "count_byte b (histogram xs) = histogram (xs @ [b])"
  using histo_class_less [of b] by (auto simp: count_byte_def histogram_def intro!: nth_equalityI)

lemma fold_count_byte: "fold count_byte ys (histogram xs) = histogram (xs @ ys)"
  by (induction ys arbitrary: xs) (simp_all add: count_byte_histogram)

lemma histogram_Nil: "histogram [] = replicate 16 0"
  by (simp add: histogram_def map_replicate_const)

lemma distrib_histogram: "distrib (histogram xs) k = int (length (filter (\<lambda>b. k \<le> histo_class b) xs))"
proof (cases "k \<le> 16")
  case True
  have "sum_list (map (\<lambda>j. int (length (filter (\<lambda>b. histo_class b = j) xs))) [k..<16])
      = int (length (filter (\<lambda>b. k \<le> histo_class b) xs))"
  proof (induction xs)
    case (Cons b xs)
    have "sum_list (map (\<lambda>j. (if histo_class b = j then 1 else 0) + int (length (filter (\<lambda>b. histo_class b = j) xs))) [k..<16])
        = (if k \<le> histo_class b then 1 else 0) + sum_list (map (\<lambda>j. int (length (filter (\<lambda>b. histo_class b = j) xs))) [k..<16])"
      unfolding sum_list_addf using histo_class_less [of b] by (simp add: interv_sum_list_conv_sum_set_nat)
    moreover have "int (length (filter (\<lambda>b. histo_class b = j) (b # xs)))
        = (if histo_class b = j then 1 else 0) + int (length (filter (\<lambda>b. histo_class b = j) xs))" for j by simp
    ultimately show ?case using Cons.IH by simp
  qed simp
  then show ?thesis by (simp add: distrib_def histogram_def drop_map)
next
  case False
  then have "\<not> k \<le> histo_class b" for b using histo_class_less [of b] by simp
  then show ?thesis using False by (simp add: distrib_def histogram_def)
qed

lemma share_class:
  assumes "k \<le> 15"
  shows "int (length xs) \<le> int m * distrib (histogram xs) k
    \<longleftrightarrow> share_of (\<lambda>b. unat b < 128 - 8 * k \<or> unat b \<ge> 128 + 8 * k) m xs"
  by (simp add: share_of_def distrib_histogram histo_class_ge [OF assms] flip: of_nat_mult)

lemma oversteered_hot: "oversteered (histogram xs) (int (length xs)) = Some c \<Longrightarrow> c = hot xs"
  using share_class [of 15 xs 64] share_class [of 12 xs 16] share_class [of 8 xs 4]
  by (auto simp: oversteered_def share_test_def hot_def word_less_nat_alt word_le_nat_alt split: if_splits)

section \<open>The search the AGC carries out\<close>

text \<open>
  The specification: starting at the highest gain, bytes received at one gain are collected until they are hot, which rejects
  the gain and moves to the next lower one, or until the scan time is over, which accepts it.  The lowest gain is accepted
  without a test.  In the automatic modes the accepted gain is watched further and can only be lowered.  \<open>s_rejected\<close>
  keeps for each rejected gain the bytes that rejected it.
\<close>

datatype search_phase = SEARCHING | TRACKING | SETTLED

record gain_search =
  s_phase :: search_phase
  s_index :: nat
  s_samples :: "u8 list"
  s_counted :: int
  s_rejected :: "(nat \<times> u8 list) list"

definition search_start :: "nat \<Rightarrow> gain_search" where
  "search_start n = \<lparr>s_phase = SEARCHING, s_index = n - 1, s_samples = [], s_counted = 0, s_rejected = []\<rparr>"

inductive search_step :: "int \<Rightarrow> bool \<Rightarrow> u8 list \<Rightarrow> gain_search \<Rightarrow> gain_search \<Rightarrow> bool" for scan auto ys where
  lowest: "s_phase a = SEARCHING \<Longrightarrow> s_index a = 0 \<Longrightarrow> search_step scan auto ys a (a\<lparr>s_phase := SETTLED\<rparr>)"
| reject: "s_phase a \<noteq> SETTLED \<Longrightarrow> 0 < s_index a \<Longrightarrow> hot (s_samples a @ ys) \<Longrightarrow>
    search_step scan auto ys a (a\<lparr>s_index := s_index a - 1, s_samples := [], s_counted := 0,
      s_rejected := (s_index a, s_samples a @ ys) # s_rejected a\<rparr>)"
| loud: "s_phase a = TRACKING \<Longrightarrow> s_index a = 0 \<Longrightarrow> hot (s_samples a @ ys) \<Longrightarrow>
    search_step scan auto ys a (a\<lparr>s_samples := s_samples a @ ys, s_counted := s_counted a + int (length ys div 2)\<rparr>)"
| listen: "s_phase a = TRACKING \<or> s_phase a = SEARCHING \<and> 0 < s_index a \<Longrightarrow> \<not> hot (s_samples a @ ys) \<Longrightarrow>
    s_counted a + int (length ys div 2) \<le> scan \<Longrightarrow>
    search_step scan auto ys a (a\<lparr>s_samples := s_samples a @ ys, s_counted := s_counted a + int (length ys div 2)\<rparr>)"
| accept: "s_phase a = TRACKING \<or> s_phase a = SEARCHING \<and> 0 < s_index a \<Longrightarrow> \<not> hot (s_samples a @ ys) \<Longrightarrow>
    scan < s_counted a + int (length ys div 2) \<Longrightarrow>
    search_step scan auto ys a (a\<lparr>s_phase := if auto then TRACKING else SETTLED, s_samples := s_samples a @ ys, s_counted := scan\<rparr>)"

inductive search_run :: "int \<Rightarrow> bool \<Rightarrow> u8 list list \<Rightarrow> gain_search \<Rightarrow> gain_search \<Rightarrow> bool" for scan auto where
  run_Nil: "search_run scan auto [] a a"
| run_Cons: "search_step scan auto ys a b \<Longrightarrow> search_run scan auto yss b c \<Longrightarrow> search_run scan auto (ys # yss) a c"

subsection \<open>The simulation\<close>

fun phase_state :: "search_phase \<Rightarrow> softagc_stateT" where
  "phase_state SEARCHING = SOFTSTATE_RESET_CONT"
| "phase_state TRACKING = SOFTSTATE_ON"
| "phase_state SETTLED = SOFTSTATE_OFF"

definition auto_mode :: "'h rtlsdr_dev \<Rightarrow> bool" where
  "auto_mode d \<longleftrightarrow> d_agc_mode d = SOFTAGC_AUTO_ATTEN \<or> d_agc_mode d = SOFTAGC_AUTO"

text \<open>
  The protocol between callback and worker: a command is outstanding only while the callback discards blocks, and once it
  counts bytes the tuner has been given the gain they are counted for.
\<close>

definition outstanding :: "'h softagc_state \<Rightarrow> bool" where
  "outstanding s \<longleftrightarrow> a_command_changeGain s \<or> a_worker s = WORKER_APPLY \<or> a_worker s = WORKER_APPLIED"

definition handshake :: "int \<Rightarrow> 'h softagc_state \<Rightarrow> bool" where
  "handshake gain s \<longleftrightarrow> (outstanding s \<longrightarrow> a_remainingDeadSps s = INT_MAX)
     \<and> (a_command_changeGain s \<longrightarrow> a_worker s \<noteq> WORKER_APPLY \<and> a_worker s \<noteq> WORKER_APPLIED)
     \<and> (a_command_changeGain s \<or> a_worker s = WORKER_APPLY \<longrightarrow> a_command_newGain s = gain)
     \<and> (a_worker s = WORKER_APPLIED \<or> a_remainingDeadSps s \<noteq> INT_MAX \<longrightarrow> (\<exists>gs. a_applied s = gain # gs))"

abbreviation agc_gains :: "'h softagc_state \<Rightarrow> int list" where
  "agc_gains s \<equiv> get_tuner_gains (d_tuner_type (a_dev s))"

definition agc_rel :: "gain_search \<Rightarrow> 'h softagc_state \<Rightarrow> bool" where
  "agc_rel a s \<longleftrightarrow> agc_state s = phase_state (s_phase a) \<and> (s_phase a = TRACKING \<longrightarrow> auto_mode (a_dev s))
     \<and> a_gainIdx s = int (s_index a) \<and> s_index a < length (agc_gains s)
     \<and> a_histo s = histogram (s_samples a) \<and> a_numInHisto s = int (length (s_samples a))
     \<and> a_remainingScanSps s = d_agc_scan_sps (a_dev s) - s_counted a
     \<and> handshake (agc_gains s ! s_index a) s"

text \<open>What the AGC uses of the device besides its state.\<close>

definition agc_view :: "'h rtlsdr_dev \<Rightarrow> rtlsdr_tuner \<times> softagc_mode \<times> u32 \<times> int \<times> int" where
  "agc_view d = (d_tuner_type d, d_agc_mode d, d_rate d, d_agc_scan_sps d, d_agc_dead_sps d)"

lemma set_gain_view:
  assumes "polite_tuner (tn (d_tuner_type d))"
  shows "agc_view (state_of (rtlsdr_set_tuner_gain usb tn gain) d) = agc_view d
    \<and> d_agc_state (state_of (rtlsdr_set_tuner_gain usb tn gain) d) = d_agc_state d"
proof (cases "tn_set_gain (tn (d_tuner_type d))")
  case None
  then show ?thesis by (simp add: rtlsdr_set_tuner_gain_def)
next
  case (Some f)
  define d' where "d' = state_of (with_repeater usb (f gain)) d"
  have "settings d' = (settings d)\<lparr>d_i2c_repeater_on := 0\<rparr>"
    unfolding d'_def by (rule with_repeater_settings) (rule polite_tuner.set_gain [OF assms Some])
  then have "agc_view d' = agc_view d \<and> d_agc_state d' = d_agc_state d"
    by (cases d; cases d') (simp add: settings_def agc_view_def)
  then show ?thesis by (simp add: rtlsdr_set_tuner_gain_def Some d'_def)
qed

text \<open>A step that leaves the counters and the state of the AGC alone and only moves the handshake on.\<close>

definition same_search :: "'h softagc_state \<Rightarrow> 'h softagc_state \<Rightarrow> bool" where
  "same_search s s' \<longleftrightarrow> agc_view (a_dev s') = agc_view (a_dev s) \<and> agc_state s' = agc_state s \<and> a_gainIdx s' = a_gainIdx s
     \<and> a_histo s' = a_histo s \<and> a_numInHisto s' = a_numInHisto s \<and> a_remainingScanSps s' = a_remainingScanSps s"

lemma agc_rel_same:
  assumes "agc_rel a s" "same_search s s'"
    and "handshake (agc_gains s ! s_index a) s \<Longrightarrow>
      handshake (agc_gains s ! s_index a) s'"
  shows "agc_rel a s'"
  using assms by (simp add: agc_rel_def same_search_def agc_view_def auto_mode_def Let_def)

lemma agc_rel_dead: "agc_rel a s \<Longrightarrow> a_remainingDeadSps s \<noteq> INT_MAX \<Longrightarrow> agc_rel a (s\<lparr>a_remainingDeadSps := n\<rparr>)"
  by (rule agc_rel_same) (auto simp: same_search_def handshake_def outstanding_def)

lemma worker_same:
  assumes "polite_tuner (tn (d_tuner_type (a_dev s)))"
  shows "same_search s (softagc_control_worker usb tn s)"
  using set_gain_view [of tn "a_dev s", OF assms]
  by (auto simp: softagc_control_worker_def same_search_def split: worker_pc.split)

lemma worker_handshake: "handshake g s \<Longrightarrow> handshake g (softagc_control_worker usb tn s)"
  by (auto simp: softagc_control_worker_def handshake_def outstanding_def split: worker_pc.split)

lemma command_gain_Some:
  assumes "command_gain i s = Some s'"
  shows "same_search (s\<lparr>a_gainIdx := i\<rparr>) s'" "0 \<le> i" "i < int (length (agc_gains s))"
    "\<not> outstanding s \<Longrightarrow> a_remainingDeadSps s = INT_MAX \<Longrightarrow> handshake (agc_gains s ! nat i) s'"
  using assms by (auto simp: command_gain_def safe_cond_signal_def same_search_def handshake_def outstanding_def Let_def split: if_splits)

lemma handshake_quiet: "handshake g s \<Longrightarrow> a_remainingDeadSps s \<noteq> INT_MAX \<Longrightarrow> \<not> outstanding s"
  by (simp add: handshake_def)

text \<open>A command to go to a gain with an empty histogram.\<close>

lemma command_rel:
  assumes "command_gain (int j) (clear_histo s) = Some s'" "\<not> outstanding s"
    and "agc_state s = phase_state (s_phase a)" "s_phase a = TRACKING \<longrightarrow> auto_mode (a_dev s)"
  shows "agc_rel (a\<lparr>s_index := j, s_samples := [], s_counted := 0, s_rejected := r\<rparr>) s' \<and> agc_view (a_dev s') = agc_view (a_dev s)"
proof -
  have "\<not> outstanding (clear_histo s)" "a_remainingDeadSps (clear_histo s) = INT_MAX" "a_dev (clear_histo s) = a_dev s"
    using assms(2) by (simp_all add: clear_histo_def outstanding_def)
  then show ?thesis
    using command_gain_Some [OF assms(1)] assms(3,4)
    by (auto simp: agc_rel_def same_search_def agc_view_def auto_mode_def clear_histo_def histogram_Nil)
qed

lemma scanned_simulates:
  fixes s :: "'h softagc_state"
  assumes rel: "agc_rel a s" and dead: "a_remainingDeadSps s \<noteq> INT_MAX" and active: "s_phase a \<noteq> SETTLED"
    and i: "\<not> (s_phase a = SEARCHING \<and> s_index a = 0)"
    and cool: "\<not> hot (s_samples a @ ys)"
    and s1: "s1 = s\<lparr>a_histo := histogram (s_samples a @ ys), a_numInHisto := int (length (s_samples a @ ys)),
      a_remainingScanSps := a_remainingScanSps s - int (length ys div 2)\<rparr>"
  shows "\<exists>a'. search_step (d_agc_scan_sps (a_dev s)) (auto_mode (a_dev s)) ys a a' \<and> agc_rel a' (snd (softagc_scanned s1))
    \<and> agc_view (a_dev (snd (softagc_scanned s1))) = agc_view (a_dev s)"
proof -
  let ?scan = "d_agc_scan_sps (a_dev s)" and ?auto = "auto_mode (a_dev s)"
  have ph: "s_phase a = TRACKING \<or> s_phase a = SEARCHING \<and> 0 < s_index a" using active i by (cases "s_phase a") auto
  have rem: "a_remainingScanSps s = ?scan - s_counted a" and st: "agc_state s = phase_state (s_phase a)"
    and tr: "s_phase a = TRACKING \<longrightarrow> ?auto" using rel by (simp_all add: agc_rel_def Let_def)
  show ?thesis
  proof (cases "?scan < s_counted a + int (length ys div 2)")
    case True
    let ?a = "a\<lparr>s_phase := if ?auto then TRACKING else SETTLED, s_samples := s_samples a @ ys, s_counted := ?scan\<rparr>"
    have "search_step ?scan ?auto ys a ?a" by (rule search_step.accept [OF ph cool True])
    moreover define s2 where "s2 = set_agc_state (if ?auto then SOFTSTATE_ON else SOFTSTATE_OFF) (s1\<lparr>a_remainingScanSps := 0\<rparr>)"
    moreover have "snd (softagc_scanned s1) = s2"
      using ph st tr True rem unfolding s2_def s1
      by (cases "d_agc_mode (a_dev s)") (auto simp: softagc_scanned_def auto_mode_def Let_def)
    moreover have "agc_rel ?a s2"
      using rel unfolding s2_def s1 by (simp add: agc_rel_def auto_mode_def set_agc_state_def handshake_def outstanding_def Let_def)
    moreover have "agc_view (a_dev s2) = agc_view (a_dev s)" unfolding s2_def s1 by (simp add: set_agc_state_def agc_view_def)
    ultimately show ?thesis by metis
  next
    case False
    then have le: "s_counted a + int (length ys div 2) \<le> ?scan" by simp
    let ?a = "a\<lparr>s_samples := s_samples a @ ys, s_counted := s_counted a + int (length ys div 2)\<rparr>"
    have "search_step ?scan ?auto ys a ?a" by (rule search_step.listen [OF ph cool le])
    moreover have "softagc_scanned s1 = (keep_block s1, s1)"
      using le rem unfolding s1 by (simp add: softagc_scanned_def)
    moreover have "agc_rel ?a s1"
      using rel by (simp add: s1 agc_rel_def auto_mode_def handshake_def outstanding_def Let_def)
    ultimately show ?thesis by (auto simp: s1 agc_view_def)
  qed
qed

lemma scan_simulates:
  assumes rel: "agc_rel a s" and dead: "a_remainingDeadSps s \<noteq> INT_MAX" and active: "s_phase a \<noteq> SETTLED"
    and run: "softagc_scan ys s = Some (keep, s')"
  shows "\<exists>a'. search_step (d_agc_scan_sps (a_dev s)) (auto_mode (a_dev s)) ys a a' \<and> agc_rel a' s' \<and> agc_view (a_dev s') = agc_view (a_dev s)"
proof -
  let ?scan = "d_agc_scan_sps (a_dev s)" and ?auto = "auto_mode (a_dev s)"
  have r: "agc_state s = phase_state (s_phase a)" "s_phase a = TRACKING \<longrightarrow> auto_mode (a_dev s)"
    "a_gainIdx s = int (s_index a)" "a_histo s = histogram (s_samples a)" "a_numInHisto s = int (length (s_samples a))"
    "\<not> outstanding s"
    using rel dead handshake_quiet by (auto simp: agc_rel_def Let_def)
  show ?thesis
  proof (cases "s_phase a = SEARCHING \<and> s_index a = 0")
    case True
    then have "s' = set_agc_state SOFTSTATE_OFF s" using run r by (simp add: softagc_scan_def)
    then have "agc_rel (a\<lparr>s_phase := SETTLED\<rparr>) s'" "agc_view (a_dev s') = agc_view (a_dev s)"
      using rel True by (auto simp: agc_rel_def set_agc_state_def agc_view_def handshake_def outstanding_def)
    then show ?thesis using search_step.lowest [of a ?scan ?auto ys] True by metis
  next
    case False
    define s1 where "s1 = s\<lparr>a_histo := histogram (s_samples a @ ys), a_numInHisto := int (length (s_samples a @ ys)),
      a_remainingScanSps := a_remainingScanSps s - int (length ys div 2)\<rparr>"
    have nf: "\<not> (a_gainIdx s = 0 \<and> agc_state s = SOFTSTATE_RESET_CONT)"
      using False r active by (cases "s_phase a") auto
    have "oversteered (histogram (s_samples a @ ys)) (int (length (s_samples a @ ys))) \<noteq> None"
    proof
      assume "oversteered (histogram (s_samples a @ ys)) (int (length (s_samples a @ ys))) = None"
      then show False using run nf by (simp add: softagc_scan_def r(3-5) fold_count_byte Let_def split: if_splits)
    qed
    then obtain c where c: "oversteered (histogram (s_samples a @ ys)) (int (length (s_samples a @ ys))) = Some c" by auto
    have res: "(if c then if 0 < a_gainIdx s then map_option (\<lambda>s. (keep_block s, s)) (command_gain (a_gainIdx s - 1) (clear_histo s1))
        else Some (keep_block s1, s1) else Some (softagc_scanned s1)) = Some (keep, s')"
      using run nf c by (cases c) (auto simp: softagc_scan_def r(3-5) fold_count_byte Let_def s1_def split: if_splits)
    have h: "hot (s_samples a @ ys) = c" using oversteered_hot [OF c] by simp
    consider (down) "c" "0 < s_index a" | (floor) "c" "s_index a = 0" | (cool) "\<not> c" by auto
    then show ?thesis
    proof cases
      case down
      then have "command_gain (int (s_index a - 1)) (clear_histo s1) = Some s'"
        using res r(3) by (auto simp: of_nat_diff)
      moreover have "\<not> outstanding s1" "agc_state s1 = phase_state (s_phase a)" "s_phase a = TRACKING \<longrightarrow> auto_mode (a_dev s1)"
        using r by (simp_all add: s1_def outstanding_def)
      ultimately show ?thesis
        using command_rel search_step.reject [OF active down(2), of ys ?scan ?auto] h down(1) by (fastforce simp: s1_def)
    next
      case floor
      then have ph: "s_phase a = TRACKING" using False active by (cases "s_phase a") auto
      have "agc_rel (a\<lparr>s_samples := s_samples a @ ys, s_counted := s_counted a + int (length ys div 2)\<rparr>) s1"
        using rel by (simp add: s1_def agc_rel_def auto_mode_def handshake_def outstanding_def Let_def)
      then show ?thesis
        using search_step.loud [OF ph floor(2), of ys ?scan ?auto] h floor res r(3) by (auto simp: s1_def agc_view_def)
    next
      case cool
      then have "\<not> hot (s_samples a @ ys)" using h by simp
      from scanned_simulates [OF rel dead active False this s1_def] show ?thesis using cool res by auto
    qed
  qed
qed

text \<open>What the specification guarantees: every gain above the current one has been rejected by hot bytes, in order.\<close>

definition search_inv :: "nat \<Rightarrow> gain_search \<Rightarrow> bool" where
  "search_inv n a \<longleftrightarrow> s_index a < n \<and> map fst (s_rejected a) = [Suc (s_index a)..<n] \<and> list_all (hot \<circ> snd) (s_rejected a)
     \<and> (s_phase a = SETTLED \<longrightarrow> s_index a = 0 \<or> \<not> hot (s_samples a))"

lemma search_inv_start: "0 < n \<Longrightarrow> search_inv n (search_start n)"
  by (simp add: search_inv_def search_start_def)

lemma search_inv_step: "search_step scan auto ys a b \<Longrightarrow> search_inv n a \<Longrightarrow> search_inv n b"
  by (induction rule: search_step.induct) (auto simp: search_inv_def upt_conv_Cons)

lemma search_inv_run: "search_run scan auto yss a b \<Longrightarrow> search_inv n a \<Longrightarrow> search_inv n b"
  by (induction rule: search_run.induct) (auto intro: search_inv_step)

subsection \<open>Runs\<close>

fun blocks :: "agc_event list \<Rightarrow> u8 list list" where
  "blocks [] = []"
| "blocks (BLOCK b # es) = b # blocks es"
| "blocks (_ # es) = blocks es"

lemma block_simulates:
  assumes rel: "agc_rel a s" and run: "callback_block buf s = Some (keep, s')"
  shows "agc_view (a_dev s') = agc_view (a_dev s) \<and> (agc_rel a s' \<or>
    (\<exists>k a'. search_step (d_agc_scan_sps (a_dev s)) (auto_mode (a_dev s)) (drop k buf) a a' \<and> agc_rel a' s'))"
proof (cases "s_phase a = SETTLED \<or> a_remainingDeadSps s = INT_MAX")
  case True
  then have "s' = s" using rel run
    by (cases "s_phase a") (auto simp: agc_rel_def callback_block_def softagc_def)
  then show ?thesis using rel by simp
next
  case False
  then have st: "agc_state s \<in> {SOFTSTATE_RESET_CONT, SOFTSTATE_ON}"
    using rel by (cases "s_phase a") (auto simp: agc_rel_def)
  let ?dead = "a_remainingDeadSps s"
  show ?thesis
  proof (cases "?dead \<ge> int (length buf div 2) \<and> ?dead \<noteq> 0")
    case wait: True
    then have s': "s' = s\<lparr>a_remainingDeadSps := ?dead - int (length buf div 2)\<rparr>"
      using run st False by (auto simp: callback_block_def softagc_def)
    have "agc_rel a s'"
      unfolding s' by (rule agc_rel_dead [OF rel]) (use False in simp)
    then show ?thesis by (simp add: s')
  next
    case scan: False
    define s1 where "s1 = s\<lparr>a_remainingDeadSps := 0\<rparr>"
    have "agc_rel a s1"
      unfolding s1_def by (rule agc_rel_dead [OF rel]) (use False in simp)
    moreover have "softagc_scan (drop (2 * nat ?dead) buf) s1 = Some (keep, s')"
      using run st False scan by (auto simp: callback_block_def softagc_def s1_def split: if_splits)
    ultimately have "\<exists>a'. search_step (d_agc_scan_sps (a_dev s1)) (auto_mode (a_dev s1)) (drop (2 * nat ?dead) buf) a a'
        \<and> agc_rel a' s' \<and> agc_view (a_dev s') = agc_view (a_dev s1)"
      using False by (intro scan_simulates) (auto simp: s1_def)
    then show ?thesis by (auto simp: s1_def)
  qed
qed

lemma signal_keeps:
  "same_search s (safe_cond_signal s)" "handshake g s \<Longrightarrow> handshake g (safe_cond_signal s)"
  "same_search s (s\<lparr>a_exit_command_thread := x\<rparr>)" "handshake g (s\<lparr>a_exit_command_thread := x\<rparr>) = handshake g s"
  by (simp_all add: safe_cond_signal_def same_search_def handshake_def outstanding_def)

lemma agc_exec_simps:
  "agc_exec usb tn WORKER s = Some (softagc_control_worker usb tn s)" "agc_exec usb tn SPURIOUS s = Some (safe_cond_signal s)"
  "agc_exec usb tn UNINIT s = Some (softagc_uninit s)"
  by (simp_all add: agc_exec_def safe_cond_signal_def)

lemma uninit_keeps: "same_search s (softagc_uninit s)" "handshake g s \<Longrightarrow> handshake g (softagc_uninit s)"
proof -
  show "same_search s (softagc_uninit s)"
    by (simp add: softagc_uninit_def safe_cond_signal_def same_search_def)
  show "handshake g s \<Longrightarrow> handshake g (softagc_uninit s)"
    by (simp add: softagc_uninit_def signal_keeps)
qed

lemma other_simulates:
  assumes "agc_rel a s" "polite_tuner (tn (d_tuner_type (a_dev s)))" "agc_exec usb tn e s = Some s'" "e \<in> {WORKER, SPURIOUS, UNINIT}"
  shows "agc_view (a_dev s') = agc_view (a_dev s)" "agc_rel a s'"
proof -
  have "same_search s s'" "\<And>g. handshake g s \<Longrightarrow> handshake g s'"
    using assms(3,4) worker_same [of tn s usb, OF assms(2)] worker_handshake uninit_keeps signal_keeps(1,2)
    by (auto simp: agc_exec_simps)
  then show "agc_view (a_dev s') = agc_view (a_dev s)" "agc_rel a s'"
    using agc_rel_same [OF assms(1)] by (auto simp: same_search_def)
qed

lemma view_eqD:
  assumes "agc_view d' = agc_view d"
  shows "d_tuner_type d' = d_tuner_type d" "d_agc_scan_sps d' = d_agc_scan_sps d" "auto_mode d' = auto_mode d" "d_agc_dead_sps d' = d_agc_dead_sps d"
    "d_agc_mode d' = d_agc_mode d" "d_rate d' = d_rate d"
  using assms by (simp_all add: agc_view_def auto_mode_def)

lemma run_simulates:
  assumes "agc_rel a s" "polite_tuner (tn (d_tuner_type (a_dev s)))" "RESTART \<notin> set es" "agc_run usb tn es s = Some s'"
  shows "\<exists>yss bs a'. subseq bs (blocks es) \<and> list_all2 suffix yss bs \<and> agc_rel a' s' \<and> agc_view (a_dev s') = agc_view (a_dev s)
    \<and> search_run (d_agc_scan_sps (a_dev s)) (auto_mode (a_dev s)) yss a a'"
  using assms
proof (induction es arbitrary: a s)
  case Nil
  then show ?case by (auto intro!: exI [of _ "[]"] search_run.run_Nil)
next
  case (Cons e es)
  then obtain s1 where s1: "agc_exec usb tn e s = Some s1" "agc_run usb tn es s1 = Some s'" by (auto split: option.splits)
  have stutter: ?case if rel: "agc_rel a s1" and v: "agc_view (a_dev s1) = agc_view (a_dev s)" and sub: "\<And>bs. subseq bs (blocks es) \<Longrightarrow> subseq bs (blocks (e # es))"
  proof -
    have "polite_tuner (tn (d_tuner_type (a_dev s1)))" using Cons.prems(2) view_eqD(1) [OF v] by simp
    then show ?thesis using Cons.IH [OF rel _ _ s1(2)] Cons.prems(3) v view_eqD [OF v] sub by fastforce
  qed
  show ?case
  proof (cases e)
    case (BLOCK buf)
    obtain keep where b: "callback_block buf s = Some (keep, s1)" using s1(1) BLOCK by (auto simp: agc_exec_def)
    have v: "agc_view (a_dev s1) = agc_view (a_dev s)" using block_simulates [OF Cons.prems(1) b] by simp
    show ?thesis
    proof (cases "agc_rel a s1")
      case True
      then show ?thesis by (rule stutter [OF _ v]) (simp add: BLOCK list_emb_Cons)
    next
      case False
      then obtain k a1 where step: "search_step (d_agc_scan_sps (a_dev s)) (auto_mode (a_dev s)) (drop k buf) a a1" "agc_rel a1 s1"
        using block_simulates [OF Cons.prems(1) b] by blast
      have "polite_tuner (tn (d_tuner_type (a_dev s1)))" using Cons.prems(2) view_eqD(1) [OF v] by simp
      then obtain yss bs a' where r: "subseq bs (blocks es)" "list_all2 suffix yss bs" "agc_rel a' s'"
        "agc_view (a_dev s') = agc_view (a_dev s1)" "search_run (d_agc_scan_sps (a_dev s1)) (auto_mode (a_dev s1)) yss a1 a'"
        using Cons.IH [OF step(2) _ _ s1(2)] Cons.prems(3) by auto
      then have "search_run (d_agc_scan_sps (a_dev s)) (auto_mode (a_dev s)) (drop k buf # yss) a a'"
        using step(1) view_eqD [OF v] by (auto intro: search_run.run_Cons)
      moreover have "subseq (buf # bs) (blocks (e # es))" "list_all2 suffix (drop k buf # yss) (buf # bs)"
        using r(1,2) by (simp_all add: BLOCK suffix_drop)
      ultimately show ?thesis using r(3,4) v by metis
    qed
  next
    case RESTART
    then show ?thesis using Cons.prems(3) by simp
  qed (use other_simulates [OF Cons.prems(1,2) s1(1)] stutter in auto)
qed

lemma reset_starts:
  assumes "agc_state s = SOFTSTATE_RESET" "\<not> outstanding s" "2 \<le> length (agc_gains s)" "callback_block buf s = Some (keep, s')"
  obtains scan dead where "agc_times s = Some (scan, dead)" "agc_rel (search_start (length (agc_gains s))) s'"
    "agc_view (a_dev s') = agc_view ((a_dev s)\<lparr>d_agc_scan_sps := scan, d_agc_dead_sps := dead\<rparr>)"
    "a_worker s' = a_worker (safe_cond_signal s)" "a_command_changeGain s'" "a_exit_command_thread s' = a_exit_command_thread s"
proof -
  let ?n = "length (agc_gains s)"
  have n: "agc_gains s \<noteq> []" "length (agc_gains s) \<noteq> 1" using assms(3) by auto
  obtain scan dead where t: "agc_times s = Some (scan, dead)"
    using assms(1,4) n by (auto simp: callback_block_def softagc_def softagc_reset_def Let_def split: option.splits)
  define s1 where "s1 = s\<lparr>a_dev := (a_dev s)\<lparr>d_agc_scan_sps := scan, d_agc_dead_sps := dead\<rparr>\<rparr>"
  define s2 where "s2 = set_agc_state SOFTSTATE_RESET_CONT s1"
  have "map_option (\<lambda>s. (False, set_agc_state SOFTSTATE_RESET_CONT s)) (command_gain (int (?n - 1)) (clear_histo s1)) = Some (keep, s')"
    using assms(1,3,4) n t by (simp add: callback_block_def softagc_def softagc_reset_def Let_def s1_def of_nat_diff)
  then obtain s3 where s3: "command_gain (int (?n - 1)) (clear_histo s1) = Some s3" "s' = set_agc_state SOFTSTATE_RESET_CONT s3"
    by auto
  have eq: "command_gain (int (?n - 1)) (clear_histo s2) = Some s'"
    using s3 by (auto simp: command_gain_def clear_histo_def s2_def set_agc_state_def safe_cond_signal_def Let_def split: if_splits)
  have "\<not> outstanding s2" "agc_state s2 = SOFTSTATE_RESET_CONT" "agc_view (a_dev s2) = agc_view (a_dev s1)"
    using assms(2) by (simp_all add: s2_def s1_def set_agc_state_def outstanding_def agc_view_def)
  then have rel: "agc_rel (search_start ?n) s'" "agc_view (a_dev s') = agc_view (a_dev s1)"
    using command_rel [OF eq, of "search_start ?n" "[]"] by (simp_all add: search_start_def)
  have "a_worker s' = a_worker (safe_cond_signal s)" "a_command_changeGain s'" "a_exit_command_thread s' = a_exit_command_thread s"
    using eq by (auto simp: command_gain_def safe_cond_signal_def clear_histo_def s2_def s1_def set_agc_state_def Let_def split: if_splits)
  then show ?thesis using that t rel by (simp add: s1_def)
qed

lemma waiting_step:
  assumes "agc_state s = SOFTSTATE_RESET" "\<not> outstanding s" "e \<in> {WORKER, SPURIOUS, UNINIT}" "agc_exec usb tn e s = Some s'"
  shows "agc_state s' = SOFTSTATE_RESET" "\<not> outstanding s'" "a_dev s' = a_dev s"
proof -
  have "a_dev (softagc_control_worker usb tn s) = a_dev s \<and> \<not> outstanding (softagc_control_worker usb tn s)"
    using assms(2) by (cases "a_worker s") (simp_all add: outstanding_def softagc_control_worker_def)
  moreover have "a_dev (safe_cond_signal s) = a_dev s \<and> \<not> outstanding (safe_cond_signal s)"
    using assms(2) by (simp add: outstanding_def safe_cond_signal_def)
  moreover have "a_dev (softagc_uninit s) = a_dev s \<and> \<not> outstanding (softagc_uninit s)"
    using assms(2) by (simp add: outstanding_def softagc_uninit_def safe_cond_signal_def)
  ultimately have "a_dev s' = a_dev s \<and> \<not> outstanding s'" using assms(3,4) by (auto simp: agc_exec_simps)
  then show "agc_state s' = SOFTSTATE_RESET" "\<not> outstanding s'" "a_dev s' = a_dev s" using assms(1) by simp_all
qed

lemma reset_run_simulates:
  assumes "agc_state s0 = SOFTSTATE_RESET" "\<not> outstanding s0" "2 \<le> length (agc_gains s0)"
    and "polite_tuner (tn (d_tuner_type (a_dev s0)))" "RESTART \<notin> set es" "agc_run usb tn es s0 = Some s" "agc_state s \<noteq> SOFTSTATE_RESET"
  shows "\<exists>yss bs a. subseq bs (blocks es) \<and> list_all2 suffix yss bs \<and> agc_rel a s
    \<and> search_run (d_agc_scan_sps (a_dev s)) (auto_mode (a_dev s0)) yss (search_start (length (agc_gains s0))) a"
  using assms
proof (induction es arbitrary: s0)
  case Nil
  then show ?case by simp
next
  case (Cons e es)
  then obtain s1 where s1: "agc_exec usb tn e s0 = Some s1" "agc_run usb tn es s1 = Some s" by (auto split: option.splits)
  consider (BLOCK) buf where "e = BLOCK buf" | (other) "e \<in> {WORKER, SPURIOUS, UNINIT}" using Cons.prems(5) by (cases e) auto
  then show ?case
  proof cases
    case BLOCK
    obtain keep where "callback_block buf s0 = Some (keep, s1)" using s1(1) BLOCK by (auto simp: agc_exec_def)
    then obtain scan dead where r: "agc_rel (search_start (length (agc_gains s0))) s1"
        "agc_view (a_dev s1) = agc_view ((a_dev s0)\<lparr>d_agc_scan_sps := scan, d_agc_dead_sps := dead\<rparr>)"
      using reset_starts [OF Cons.prems(1-3)] by metis
    then have "auto_mode (a_dev s1) = auto_mode (a_dev s0)" "d_tuner_type (a_dev s1) = d_tuner_type (a_dev s0)"
      by (simp_all add: agc_view_def auto_mode_def)
    then obtain yss bs a' where "subseq bs (blocks es)" "list_all2 suffix yss bs" "agc_rel a' s" "agc_view (a_dev s) = agc_view (a_dev s1)"
        "search_run (d_agc_scan_sps (a_dev s1)) (auto_mode (a_dev s0)) yss (search_start (length (agc_gains s0))) a'"
      using Cons.prems(4,5) run_simulates [OF r(1) _ _ s1(2)] by auto
    moreover from this have "subseq bs (blocks (e # es))" using BLOCK by (simp add: list_emb_Cons)
    ultimately show ?thesis using view_eqD(2) by metis
  next
    case other
    then have "blocks (e # es) = blocks es" by auto
    then show ?thesis using Cons.IH [of s1] waiting_step [OF Cons.prems(1,2) other s1(1)] Cons.prems(3-7) s1(2) by simp
  qed
qed

end
