(* ===== verification/Rtl_Stream.thy ===== *)
theory Rtl_Stream
  imports Soft_Agc "HOL-Library.Multiset"
begin

text \<open>
  Asynchronous streaming of \<^verbatim>\<open>src/librtlsdr/src/librtlsdr.c\<close>: \<open>rtlsdr_read_async\<close> keeps a number of USB transfers
  in the air, \<open>_libusb_callback\<close> hands completed ones to the application and submits them again, \<open>rtlsdr_cancel_async\<close>,
  called from any thread, ends the loop.

  The model is a state machine.  Its program counter is the place in \<open>rtlsdr_read_async\<close> where libusb is called next; an
  event is the answer of libusb to that call, the completion of a transfer (which runs the callback), a call from
  another thread, or a step of the soft AGC.  What libusb may answer is stated apart from the machine, by \<open>libusb_allows\<close>.
\<close>

section \<open>Model\<close>

subsection \<open>Data\<close>

datatype libusb_transfer_status =
  LIBUSB_TRANSFER_COMPLETED | LIBUSB_TRANSFER_ERROR | LIBUSB_TRANSFER_TIMED_OUT | LIBUSB_TRANSFER_CANCELLED
| LIBUSB_TRANSFER_STALL | LIBUSB_TRANSFER_NO_DEVICE | LIBUSB_TRANSFER_OVERFLOW

datatype rtlsdr_async_status = RTLSDR_INACTIVE | RTLSDR_CANCELING | RTLSDR_RUNNING

text \<open>
  A transfer: its field \<open>status\<close>, whether libusb has it (it was submitted and its callback has not run yet), and
  whether libusb has accepted to cancel it since.  A block of memory comes from \<open>libusb_dev_mem_alloc\<close> or from \<open>malloc\<close>.
\<close>

record libusb_transfer =
  t_status :: libusb_transfer_status
  t_flying :: bool
  t_canceled :: bool

datatype mem_block = DEV_MEM nat | HEAP_MEM nat

primrec is_dev_mem :: "mem_block \<Rightarrow> bool" where
  "is_dev_mem (DEV_MEM _) = True"
| "is_dev_mem (HEAP_MEM _) = False"

text \<open>
  Where \<open>rtlsdr_read_async\<close> is: not running; about to submit a transfer; in \<open>libusb_handle_events_timeout_completed\<close>; about to
  cancel a transfer; handling events after that, with the result of the cancellation; handling the last events.
\<close>

datatype read_pc = PC_IDLE | PC_SUBMIT nat | PC_EVENTS | PC_CANCEL nat | PC_SETTLE nat int | PC_LAST

text \<open>
  The fields of \<open>struct rtlsdr_dev\<close> for streaming, with those of the soft AGC and the device in \<open>x_agc\<close>; an array of
  pointers is a map, \<open>None\<close> the null pointer.  \<open>x_pc\<close>, \<open>x_r\<close> and \<open>x_next_status\<close> are the locals of
  \<open>rtlsdr_read_async\<close>; after its return \<open>x_r\<close> is the result.  The application's callback is represented by
  the one thing it does to the library, a call of \<open>rtlsdr_cancel_async\<close>, made or not as a function of the blocks it
  got so far; \<open>x_delivered\<close> lists them.  \<open>x_live\<close> holds the allocated buffers.
\<close>

record 'h stream =
  x_agc :: "'h softagc_state"
  x_xfer_buf_num :: u32
  x_xfer_buf_len :: u32
  x_xfer :: "(nat \<rightharpoonup> libusb_transfer) option"
  x_xfer_buf :: "(nat \<rightharpoonup> mem_block) option"
  x_cb :: "(u8 list list \<Rightarrow> bool) option"
  x_async_status :: rtlsdr_async_status
  x_async_cancel :: bool
  x_use_zerocopy :: bool
  x_dev_lost :: bool
  x_xfer_errors :: u32
  x_pc :: read_pc
  x_r :: int
  x_next_status :: rtlsdr_async_status
  x_live :: "mem_block list"
  x_fresh :: nat
  x_delivered :: "u8 list list"

definition DEFAULT_BUF_NUMBER :: u32 where "DEFAULT_BUF_NUMBER = 15"
definition DEFAULT_BUF_LENGTH :: u32 where "DEFAULT_BUF_LENGTH = 16 * 32 * 512"
definition LIBUSB_ERROR_NOT_FOUND :: int where "LIBUSB_ERROR_NOT_FOUND = -5"
definition LIBUSB_ERROR_INTERRUPTED :: int where "LIBUSB_ERROR_INTERRUPTED = -10"
definition ENOMEM :: int where "ENOMEM = 12"

abbreviation xfer_indices :: "'h stream \<Rightarrow> nat list" where
  "xfer_indices s \<equiv> [0..<unat (x_xfer_buf_num s)]"

abbreviation xfer_at :: "'h stream \<Rightarrow> nat \<Rightarrow> libusb_transfer option" where
  "xfer_at s i \<equiv> Option.bind (x_xfer s) (\<lambda>a. a i)"

abbreviation buf_at :: "'h stream \<Rightarrow> nat \<Rightarrow> mem_block option" where
  "buf_at s i \<equiv> Option.bind (x_xfer_buf s) (\<lambda>a. a i)"

definition flying :: "'h stream \<Rightarrow> nat \<Rightarrow> bool" where
  "flying s i \<longleftrightarrow> (case xfer_at s i of None \<Rightarrow> False | Some t \<Rightarrow> t_flying t)"

text \<open>A transfer libusb has accepted to cancel and still has; one it has and was not asked to cancel.\<close>

definition pending :: "'h stream \<Rightarrow> nat \<Rightarrow> bool" where
  "pending s i \<longleftrightarrow> (case xfer_at s i of None \<Rightarrow> False | Some t \<Rightarrow> t_flying t \<and> t_canceled t)"

definition loose :: "'h stream \<Rightarrow> nat \<Rightarrow> bool" where
  "loose s i \<longleftrightarrow> (case xfer_at s i of None \<Rightarrow> False | Some t \<Rightarrow> t_flying t \<and> \<not> t_canceled t)"

definition set_xfer :: "nat \<Rightarrow> (libusb_transfer \<Rightarrow> libusb_transfer) \<Rightarrow> 'h stream \<Rightarrow> 'h stream" where
  "set_xfer i f s = s\<lparr>x_xfer := map_option (\<lambda>a. a(i := map_option f (a i))) (x_xfer s)\<rparr>"

definition set_buf :: "nat \<Rightarrow> mem_block option \<Rightarrow> 'h stream \<Rightarrow> 'h stream" where
  "set_buf i b s = s\<lparr>x_xfer_buf := map_option (\<lambda>a. a(i := b)) (x_xfer_buf s)\<rparr>"

subsection \<open>Buffers\<close>

text \<open>Which allocations succeed: the array of transfers, each transfer, the array of buffers, each zero-copy and each plain buffer.\<close>

record mem_answers =
  m_xfer :: bool
  m_transfer :: "nat \<Rightarrow> bool"
  m_xfer_buf :: bool
  m_dev_mem :: "nat \<Rightarrow> bool"
  m_malloc :: "nat \<Rightarrow> bool"

definition new_block :: "(nat \<Rightarrow> mem_block) \<Rightarrow> nat \<Rightarrow> 'h stream \<Rightarrow> 'h stream" where
  "new_block kind i s =
     set_buf i (Some (kind (x_fresh s))) (s\<lparr>x_live := kind (x_fresh s) # x_live s, x_fresh := x_fresh s + 1\<rparr>)"

text \<open>\<open>libusb_dev_mem_free\<close> or \<open>free\<close>; \<open>None\<close> for a block that is not allocated, or by the other allocator.\<close>

definition free_block :: "bool \<Rightarrow> mem_block \<Rightarrow> 'h stream \<Rightarrow> 'h stream option" where
  "free_block zc b s = (if b \<in> set (x_live s) \<and> is_dev_mem b = zc then Some (s\<lparr>x_live := remove1 b (x_live s)\<rparr>) else None)"

primrec alloc_zerocopy :: "(nat \<Rightarrow> bool) \<Rightarrow> nat list \<Rightarrow> 'h stream \<Rightarrow> 'h stream" where
  "alloc_zerocopy ok [] s = s"
| "alloc_zerocopy ok (i # is) s =
     (if ok i then alloc_zerocopy ok is (new_block DEV_MEM i s) else set_buf i None s\<lparr>x_use_zerocopy := False\<rparr>)"

primrec free_bufs :: "bool \<Rightarrow> nat list \<Rightarrow> 'h stream \<Rightarrow> 'h stream option" where
  "free_bufs zc [] s = Some s"
| "free_bufs zc (i # is) s =
     (case buf_at s i of None \<Rightarrow> free_bufs zc is s | Some b \<Rightarrow> Option.bind (free_block zc b s) (free_bufs zc is))"

primrec alloc_heap :: "(nat \<Rightarrow> bool) \<Rightarrow> nat list \<Rightarrow> 'h stream \<Rightarrow> int \<times> 'h stream" where
  "alloc_heap ok [] s = (0, s)"
| "alloc_heap ok (i # is) s =
     (if ok i then alloc_heap ok is (new_block HEAP_MEM i s) else (- ENOMEM, set_buf i None s))"

text \<open>The array of transfers; \<open>None\<close> is a write through a null pointer.\<close>

definition alloc_transfers :: "mem_answers \<Rightarrow> 'h stream \<Rightarrow> 'h stream option" where
  "alloc_transfers m s =
     (if x_xfer s \<noteq> None then Some s
      else if \<not> m_xfer m then None
      else Some (s\<lparr>x_xfer := Some (\<lambda>i. if i < unat (x_xfer_buf_num s) \<and> m_transfer m i
             then Some \<lparr>t_status = LIBUSB_TRANSFER_COMPLETED, t_flying = False, t_canceled = False\<rparr> else None)\<rparr>))"

definition rtlsdr_alloc_async_buffers :: "mem_answers \<Rightarrow> 'h stream \<Rightarrow> (int \<times> 'h stream) option" where
  "rtlsdr_alloc_async_buffers m s =
     Option.bind (alloc_transfers m s) (\<lambda>s.
       if x_xfer_buf s \<noteq> None then Some (-2, s)
       else if \<not> m_xfer_buf m then None
       else
         let s = alloc_zerocopy (m_dev_mem m) (xfer_indices s) (s\<lparr>x_xfer_buf := Some Map.empty, x_use_zerocopy := True\<rparr>)
         in if x_use_zerocopy s then Some (0, s)
            else map_option (\<lambda>s. alloc_heap (m_malloc m) (xfer_indices s) s) (free_bufs True (xfer_indices s) s))"

text \<open>A transfer that libusb has must not be freed.\<close>

definition rtlsdr_free_async_buffers :: "'h stream \<Rightarrow> 'h stream option" where
  "rtlsdr_free_async_buffers s =
     (if list_ex (flying s) (xfer_indices s) then None
      else map_option (\<lambda>s. s\<lparr>x_xfer_buf := None\<rparr>) (free_bufs (x_use_zerocopy s) (xfer_indices s) (s\<lparr>x_xfer := None\<rparr>)))"

subsection \<open>The calls and the callback\<close>

definition rtlsdr_cancel_async :: "'h stream \<Rightarrow> int \<times> 'h stream" where
  "rtlsdr_cancel_async s =
     (if x_async_status s = RTLSDR_RUNNING then (0, s\<lparr>x_async_status := RTLSDR_CANCELING, x_async_cancel := True\<rparr>)
      else (-2, s))"

text \<open>\<open>dev->cb(xfer->buffer, xfer->actual_length, dev->cb_ctx)\<close>\<close>

definition hand_over :: "u8 list \<Rightarrow> 'h stream \<Rightarrow> 'h stream" where
  "hand_over buf s =
     (case x_cb s of
        None \<Rightarrow> s
      | Some cb \<Rightarrow>
          let s = s\<lparr>x_delivered := x_delivered s @ [buf]\<rparr>
          in if cb (x_delivered s) then snd (rtlsdr_cancel_async s) else s)"

definition transfer_failed :: "libusb_transfer_status \<Rightarrow> 'h stream \<Rightarrow> 'h stream" where
  "transfer_failed st s =
     (let s = (if st = LIBUSB_TRANSFER_ERROR then s\<lparr>x_xfer_errors := x_xfer_errors s + 1\<rparr> else s)
      in if x_xfer_errors s \<ge> x_xfer_buf_num s \<or> st = LIBUSB_TRANSFER_NO_DEVICE
         then snd (rtlsdr_cancel_async (s\<lparr>x_dev_lost := True\<rparr>)) else s)"

text \<open>The callback for transfer \<open>i\<close>; \<open>resubmitted\<close> is what \<open>libusb_submit_transfer\<close> answers.\<close>

definition libusb_callback ::
    "nat \<Rightarrow> libusb_transfer_status \<Rightarrow> u8 list \<Rightarrow> int \<Rightarrow> 'h stream \<Rightarrow> 'h stream option" where
  "libusb_callback i st buf resubmitted s =
     (if st = LIBUSB_TRANSFER_COMPLETED then
        map_option (\<lambda>(keepBlock, agc).
            let s = s\<lparr>x_agc := agc\<rparr>; s = (if keepBlock then hand_over buf s else s)
            in set_xfer i (\<lambda>t. t\<lparr>t_flying := resubmitted \<ge> 0\<rparr>) s\<lparr>x_xfer_errors := 0\<rparr>)
          (callback_block buf (x_agc s))
      else if st \<noteq> LIBUSB_TRANSFER_CANCELLED then Some (transfer_failed st s)
      else Some s)"

text \<open>
  \<open>rtlsdr_read_async\<close> up to the first \<open>libusb_submit_transfer\<close>, or its result when it returns at once.  The result
  of the allocation is not looked at.
\<close>

definition rtlsdr_read_async ::
    "(u8 list list \<Rightarrow> bool) option \<Rightarrow> u32 \<Rightarrow> u32 \<Rightarrow> mem_answers \<Rightarrow> 'h stream \<Rightarrow> (int option \<times> 'h stream) option" where
  "rtlsdr_read_async cb buf_num buf_len m s =
     (if x_async_status s \<noteq> RTLSDR_INACTIVE then Some (Some (-2), s)
      else map_option (\<lambda>(_, s). (None, s))
        (rtlsdr_alloc_async_buffers m
          (s\<lparr>x_async_status := RTLSDR_RUNNING, x_async_cancel := False, x_cb := cb,
             x_xfer_buf_num := (if buf_num > 0 then buf_num else DEFAULT_BUF_NUMBER),
             x_xfer_buf_len := (if buf_len > 0 \<and> buf_len mod 512 = 0 then buf_len else DEFAULT_BUF_LENGTH),
             x_pc := PC_SUBMIT 0, x_r := 0, x_next_status := RTLSDR_INACTIVE\<rparr>)))"

definition rtlsdr_wait_async ::
    "(u8 list list \<Rightarrow> bool) option \<Rightarrow> mem_answers \<Rightarrow> 'h stream \<Rightarrow> (int option \<times> 'h stream) option" where
  "rtlsdr_wait_async cb m s = rtlsdr_read_async cb 0 0 m s"

text \<open>
  The body of the submission loop.  A null transfer is written through, a buffer that is no longer allocated is given
  to the kernel.
\<close>

definition submit_one :: "nat \<Rightarrow> int \<Rightarrow> 'h stream \<Rightarrow> 'h stream option" where
  "submit_one i r s =
     (if xfer_at s i = None \<or> (case buf_at s i of None \<Rightarrow> False | Some b \<Rightarrow> b \<notin> set (x_live s)) then None
      else if r < 0 then Some (s\<lparr>x_r := r, x_async_status := RTLSDR_CANCELING, x_pc := PC_EVENTS\<rparr>)
      else Some (set_xfer i (\<lambda>t. t\<lparr>t_flying := True\<rparr>)
        (s\<lparr>x_r := r, x_pc := (if i + 1 < unat (x_xfer_buf_num s) then PC_SUBMIT (i + 1) else PC_EVENTS)\<rparr>)))"

text \<open>The end of \<open>rtlsdr_read_async\<close>.\<close>

definition read_finish :: "'h stream \<Rightarrow> 'h stream option" where
  "read_finish s =
     map_option (\<lambda>s. s\<lparr>x_async_status := x_next_status s, x_pc := PC_IDLE\<rparr>) (rtlsdr_free_async_buffers s)"

text \<open>The cancellation loop from transfer \<open>i\<close> on, up to the next call of \<open>libusb_cancel_transfer\<close>.\<close>

definition to_cancel :: "'h stream \<Rightarrow> nat \<Rightarrow> bool" where
  "to_cancel s i \<longleftrightarrow> (case xfer_at s i of None \<Rightarrow> False | Some t \<Rightarrow> t_status t \<noteq> LIBUSB_TRANSFER_CANCELLED)"

definition cancel_from :: "nat \<Rightarrow> 'h stream \<Rightarrow> 'h stream" where
  "cancel_from i s =
     (case List.find (to_cancel s) [i..<unat (x_xfer_buf_num s)] of
        Some j \<Rightarrow> s\<lparr>x_pc := PC_CANCEL j\<rparr>
      | None \<Rightarrow> s\<lparr>x_pc := (if x_dev_lost s \<or> x_next_status s = RTLSDR_INACTIVE then PC_LAST else PC_EVENTS)\<rparr>)"

text \<open>After the call of \<open>libusb_handle_events_timeout_completed\<close> at the head of the loop.\<close>

definition events_handled :: "int \<Rightarrow> 'h stream \<Rightarrow> 'h stream option" where
  "events_handled r s =
     (let s = s\<lparr>x_r := r\<rparr>
      in if r < 0 then if r = LIBUSB_ERROR_INTERRUPTED then Some s else read_finish s
         else if x_async_status s = RTLSDR_CANCELING then
           let s = s\<lparr>x_next_status := RTLSDR_INACTIVE\<rparr>
           in if x_xfer s = None then read_finish s else Some (cancel_from 0 s)
         else Some s)"

text \<open>After the call that follows a cancellation with the result \<open>r\<close>.\<close>

definition settled :: "nat \<Rightarrow> int \<Rightarrow> 'h stream \<Rightarrow> 'h stream" where
  "settled i r s = cancel_from (i + 1) (if r < 0 then s else s\<lparr>x_next_status := RTLSDR_CANCELING\<rparr>)"

text \<open>
  \<open>rtlsdr_close\<close> up to the calls that give the handle back to libusb; \<open>None\<close> while it waits for the stream to become
  inactive.
\<close>

definition rtlsdr_close ::
    "'h usb_ops \<Rightarrow> (rtlsdr_tuner \<Rightarrow> 'h rtlsdr_dev tuner_iface) \<Rightarrow> 'h stream \<Rightarrow> (int \<times> 'h stream) option" where
  "rtlsdr_close usb tn s =
     (if x_dev_lost s then Some (0, s\<lparr>x_agc := softagc_uninit (x_agc s)\<rparr>)
      else if x_async_status s \<noteq> RTLSDR_INACTIVE then None
      else let a = x_agc s
           in Some (0, s\<lparr>x_agc := softagc_uninit (a\<lparr>a_dev := state_of (rtlsdr_deinit_baseband usb tn) (a_dev a)\<rparr>)\<rparr>))"

subsection \<open>The machine\<close>

text \<open>
  The events: a transfer ends, with the answer to its resubmission; the answers to the three calls; \<open>rtlsdr_cancel_async\<close>
  and \<open>rtlsdr_read_async\<close> from some thread; a step of the soft AGC's worker or a call that concerns the AGC.
\<close>

datatype stream_event =
  XFER_DONE nat libusb_transfer_status "u8 list" int
| SUBMITTED int
| CANCELED int
| EVENTS_DONE int
| CANCEL_CALL
| READ_CALL "(u8 list list \<Rightarrow> bool) option" u32 u32 mem_answers
| OTHER agc_event

definition stream_exec ::
    "'h usb_ops \<Rightarrow> (rtlsdr_tuner \<Rightarrow> 'h rtlsdr_dev tuner_iface) \<Rightarrow> stream_event \<Rightarrow> 'h stream \<Rightarrow> 'h stream option" where
  "stream_exec usb tn e s =
     (case e of
        XFER_DONE i st buf r \<Rightarrow>
          libusb_callback i st buf r (set_xfer i (\<lambda>_. \<lparr>t_status = st, t_flying = False, t_canceled = False\<rparr>) s)
      | SUBMITTED r \<Rightarrow> (case x_pc s of PC_SUBMIT i \<Rightarrow> submit_one i r s | _ \<Rightarrow> Some s)
      | CANCELED r \<Rightarrow>
          (case x_pc s of
             PC_CANCEL i \<Rightarrow> Some (set_xfer i (\<lambda>t. if r \<ge> 0 then t\<lparr>t_canceled := True\<rparr> else t) (s\<lparr>x_r := r, x_pc := PC_SETTLE i r\<rparr>))
           | _ \<Rightarrow> Some s)
      | EVENTS_DONE r \<Rightarrow>
          (case x_pc s of
             PC_EVENTS \<Rightarrow> events_handled r s
           | PC_SETTLE i r' \<Rightarrow> Some (settled i r' s)
           | PC_LAST \<Rightarrow> read_finish s
           | _ \<Rightarrow> Some s)
      | CANCEL_CALL \<Rightarrow> Some (snd (rtlsdr_cancel_async s))
      | READ_CALL cb buf_num buf_len m \<Rightarrow> map_option snd (rtlsdr_read_async cb buf_num buf_len m s)
      | OTHER e \<Rightarrow> map_option (\<lambda>a. s\<lparr>x_agc := a\<rparr>) (agc_exec usb tn e (x_agc s)))"

primrec stream_run ::
    "'h usb_ops \<Rightarrow> (rtlsdr_tuner \<Rightarrow> 'h rtlsdr_dev tuner_iface) \<Rightarrow> stream_event list \<Rightarrow> 'h stream \<Rightarrow> 'h stream option" where
  "stream_run usb tn [] s = Some s"
| "stream_run usb tn (e # es) s = Option.bind (stream_exec usb tn e s) (stream_run usb tn es)"

text \<open>
  The documented behaviour of libusb: it answers the call that is made, completes only transfers it has, and cancels only
  transfers it has.  A completion does not belong to a block of the AGC's own making.
\<close>

definition libusb_allows :: "stream_event \<Rightarrow> 'h stream \<Rightarrow> bool" where
  "libusb_allows e s =
     (case e of
        XFER_DONE i st buf r \<Rightarrow> flying s i
      | SUBMITTED r \<Rightarrow> (case x_pc s of PC_SUBMIT i \<Rightarrow> True | _ \<Rightarrow> False)
      | CANCELED r \<Rightarrow> (case x_pc s of PC_CANCEL i \<Rightarrow> r \<ge> 0 \<longrightarrow> flying s i | _ \<Rightarrow> False)
      | EVENTS_DONE r \<Rightarrow> (case x_pc s of PC_EVENTS \<Rightarrow> True | PC_SETTLE i r' \<Rightarrow> True | PC_LAST \<Rightarrow> True | _ \<Rightarrow> False)
      | OTHER (BLOCK buf) \<Rightarrow> False
      | _ \<Rightarrow> True)"

section \<open>Allocation\<close>

text \<open>The blocks an array of buffers holds.\<close>

abbreviation held :: "(nat \<rightharpoonup> mem_block) \<Rightarrow> nat list \<Rightarrow> mem_block multiset" where
  "held a is \<equiv> mset (List.map_filter a is)"

lemma held_cong: "(\<And>i. i \<in> set is \<Longrightarrow> a i = b i) \<Longrightarrow> held a is = held b is"
  by (induction "is") (auto simp: List.map_filter_simps split: option.split)

lemma held_None: "(\<And>i. i \<in> set is \<Longrightarrow> a i = None) \<Longrightarrow> held a is = {#}"
  by (induction "is") (auto simp: List.map_filter_simps)

lemma held_in: "i \<in> set is \<Longrightarrow> a i = Some b \<Longrightarrow> b \<in># held a is"
  by (induction "is") (auto simp: List.map_filter_simps split: option.split)

lemma free_bufs_ok:
  assumes "x_xfer_buf s = Some a" "mset (x_live s) = base + held a is"
    "\<forall>i \<in> set is. \<forall>b. a i = Some b \<longrightarrow> is_dev_mem b = zc"
  shows "\<exists>l. free_bufs zc is s = Some (s\<lparr>x_live := l\<rparr>) \<and> mset l = base"
  using assms
proof (induction "is" arbitrary: s)
  case Nil
  then show ?case by (intro exI [of _ "x_live s"]) (simp add: List.map_filter_simps)
next
  case (Cons i "is")
  show ?case
  proof (cases "a i")
    case None
    then show ?thesis using Cons.IH [OF Cons.prems(1)] Cons.prems by (simp add: List.map_filter_simps)
  next
    case (Some b)
    then have live: "mset (x_live s) = add_mset b (base + held a is)" using Cons.prems(2) by (simp add: List.map_filter_simps)
    then have "b \<in># mset (x_live s)" by simp
    then have "b \<in> set (x_live s)" by simp
    then have "free_block zc b s = Some (s\<lparr>x_live := remove1 b (x_live s)\<rparr>)"
      using Cons.prems(3) Some by (simp add: free_block_def)
    then show ?thesis
      using Cons.IH [of "s\<lparr>x_live := remove1 b (x_live s)\<rparr>"] Cons.prems(1,3) live Some by simp
  qed
qed

lemma alloc_zerocopy_spec:
  assumes "x_xfer_buf s = Some a" "distinct is" "\<And>i. i \<in> set is \<Longrightarrow> a i = None"
  shows "\<exists>a' l f. alloc_zerocopy ok is s
      = s\<lparr>x_xfer_buf := Some a', x_live := l, x_fresh := f, x_use_zerocopy := x_use_zerocopy s \<and> list_all ok is\<rparr>
    \<and> mset l = mset (x_live s) + held a' is \<and> (\<forall>i. i \<notin> set is \<longrightarrow> a' i = a i)
    \<and> (\<forall>i \<in> set is. \<forall>b. a' i = Some b \<longrightarrow> is_dev_mem b) \<and> (list_all ok is \<longrightarrow> (\<forall>i \<in> set is. a' i \<noteq> None))"
  using assms
proof (induction "is" arbitrary: s a)
  case Nil
  then show ?case
    by (intro exI [of _ a] exI [of _ "x_live s"] exI [of _ "x_fresh s"]) (simp add: List.map_filter_simps)
next
  case (Cons i "is")
  show ?case
  proof (cases "ok i")
    case False
    have a: "a(i := None) = a" using Cons.prems(3) by auto
    have "held a (i # is) = {#}" by (rule held_None) (use Cons.prems(3) in auto)
    with False a show ?thesis
      using Cons.prems
      by (intro exI [of _ a] exI [of _ "x_live s"] exI [of _ "x_fresh s"]) (simp add: set_buf_def)
  next
    case True
    define b where "b = DEV_MEM (x_fresh s)"
    have nb: "new_block DEV_MEM i s = s\<lparr>x_xfer_buf := Some (a(i \<mapsto> b)), x_live := b # x_live s, x_fresh := x_fresh s + 1\<rparr>"
      using Cons.prems(1) by (simp add: new_block_def set_buf_def b_def)
    have buf1: "x_xfer_buf (new_block DEV_MEM i s) = Some (a(i \<mapsto> b))" and dist: "distinct is"
      using nb Cons.prems by auto
    have none1: "(a(i \<mapsto> b)) j = None" if "j \<in> set is" for j
      using Cons.prems that by auto
    obtain a' l f where IH: "alloc_zerocopy ok is (new_block DEV_MEM i s)
        = (new_block DEV_MEM i s)\<lparr>x_xfer_buf := Some a', x_live := l, x_fresh := f,
            x_use_zerocopy := x_use_zerocopy (new_block DEV_MEM i s) \<and> list_all ok is\<rparr>"
      "mset l = mset (x_live (new_block DEV_MEM i s)) + held a' is" "\<And>j. j \<notin> set is \<Longrightarrow> a' j = (a(i \<mapsto> b)) j"
      "\<And>j b. j \<in> set is \<Longrightarrow> a' j = Some b \<Longrightarrow> is_dev_mem b" "list_all ok is \<Longrightarrow> \<forall>j \<in> set is. a' j \<noteq> None"
      using Cons.IH [of "new_block DEV_MEM i s" "a(i \<mapsto> b)"] buf1 dist none1 by blast
    have a'i: "a' i = Some b" using IH(3) [of i] Cons.prems(2) by simp
    then have "held a' (i # is) = add_mset b (held a' is)" by (simp add: List.map_filter_simps)
    with IH a'i True nb show ?thesis
      by (intro exI [of _ a'] exI [of _ l] exI [of _ f]) (auto simp: b_def)
  qed
qed

lemma alloc_heap_spec:
  assumes "x_xfer_buf s = Some a" "distinct is" "list_all ok is"
  shows "\<exists>a' l f. alloc_heap ok is s = (0, s\<lparr>x_xfer_buf := Some a', x_live := l, x_fresh := f\<rparr>)
    \<and> mset l = mset (x_live s) + held a' is \<and> (\<forall>i. i \<notin> set is \<longrightarrow> a' i = a i)
    \<and> (\<forall>i \<in> set is. \<exists>b. a' i = Some b \<and> \<not> is_dev_mem b)"
  using assms
proof (induction "is" arbitrary: s a)
  case Nil
  then show ?case
    by (intro exI [of _ a] exI [of _ "x_live s"] exI [of _ "x_fresh s"]) (simp add: List.map_filter_simps)
next
  case (Cons i "is")
  define b where "b = HEAP_MEM (x_fresh s)"
  have nb: "new_block HEAP_MEM i s = s\<lparr>x_xfer_buf := Some (a(i \<mapsto> b)), x_live := b # x_live s, x_fresh := x_fresh s + 1\<rparr>"
    using Cons.prems(1) by (simp add: new_block_def set_buf_def b_def)
  have buf1: "x_xfer_buf (new_block HEAP_MEM i s) = Some (a(i \<mapsto> b))" and rest: "distinct is" "list_all ok is"
    using nb Cons.prems by auto
  obtain a' l f where IH: "alloc_heap ok is (new_block HEAP_MEM i s)
      = (0, (new_block HEAP_MEM i s)\<lparr>x_xfer_buf := Some a', x_live := l, x_fresh := f\<rparr>)"
    "mset l = mset (x_live (new_block HEAP_MEM i s)) + held a' is" "\<And>j. j \<notin> set is \<Longrightarrow> a' j = (a(i \<mapsto> b)) j"
    "\<And>j. j \<in> set is \<Longrightarrow> \<exists>b. a' j = Some b \<and> \<not> is_dev_mem b"
    using Cons.IH [of "new_block HEAP_MEM i s" "a(i \<mapsto> b)"] buf1 rest by blast
  have a'i: "a' i = Some b" using IH(3) [of i] Cons.prems(2) by simp
  then have "held a' (i # is) = add_mset b (held a' is)" by (simp add: List.map_filter_simps)
  with IH a'i nb show ?case
    using Cons.prems(3) by (intro exI [of _ a'] exI [of _ l] exI [of _ f]) (auto simp: b_def)
qed

text \<open>The buffers of a stream: each transfer has one of the right kind, beside the blocks \<open>base\<close> that are not the stream's.\<close>

definition owns :: "mem_block multiset \<Rightarrow> 'h stream \<Rightarrow> bool" where
  "owns base s \<longleftrightarrow> (\<exists>a. x_xfer_buf s = Some a \<and> mset (x_live s) = base + held a (xfer_indices s)
     \<and> (\<forall>i < unat (x_xfer_buf_num s). \<exists>b. a i = Some b \<and> is_dev_mem b = x_use_zerocopy s))"

definition mem_ok :: "mem_answers \<Rightarrow> bool" where
  "mem_ok m \<longleftrightarrow> m_xfer m \<and> m_xfer_buf m \<and> (\<forall>i. m_transfer m i) \<and> (\<forall>i. m_malloc m i)"

definition new_transfers :: "nat \<Rightarrow> nat \<rightharpoonup> libusb_transfer" where
  "new_transfers n = (\<lambda>i. if i < n then Some \<lparr>t_status = LIBUSB_TRANSFER_COMPLETED, t_flying = False, t_canceled = False\<rparr> else None)"

lemma alloc_owns:
  assumes "x_xfer s = None" "x_xfer_buf s = None" "mem_ok m"
  shows "\<exists>a l f z s'. rtlsdr_alloc_async_buffers m s = Some (0, s')
    \<and> s' = s\<lparr>x_xfer := Some (new_transfers (unat (x_xfer_buf_num s))), x_xfer_buf := Some a, x_live := l, x_fresh := f, x_use_zerocopy := z\<rparr>
    \<and> owns (mset (x_live s)) s'"
proof -
  define n where "n = unat (x_xfer_buf_num s)"
  define s1 where "s1 = s\<lparr>x_xfer := Some (new_transfers n), x_xfer_buf := Some Map.empty, x_use_zerocopy := True\<rparr>"
  obtain a l f where zc: "alloc_zerocopy (m_dev_mem m) [0..<n] s1
      = s1\<lparr>x_xfer_buf := Some a, x_live := l, x_fresh := f, x_use_zerocopy := list_all (m_dev_mem m) [0..<n]\<rparr>"
    "mset l = mset (x_live s) + held a [0..<n]" "\<forall>i \<in> set [0..<n]. \<forall>b. a i = Some b \<longrightarrow> is_dev_mem b"
    "list_all (m_dev_mem m) [0..<n] \<longrightarrow> (\<forall>i \<in> set [0..<n]. a i \<noteq> None)"
    using alloc_zerocopy_spec [of s1 Map.empty "[0..<n]" "m_dev_mem m"] by (auto simp: s1_def)
  have alloc: "rtlsdr_alloc_async_buffers m s =
      (let s2 = alloc_zerocopy (m_dev_mem m) [0..<n] s1
       in if x_use_zerocopy s2 then Some (0, s2)
          else map_option (\<lambda>s. alloc_heap (m_malloc m) (xfer_indices s) s) (free_bufs True [0..<n] s2))"
    using assms zc(1)
    by (simp add: rtlsdr_alloc_async_buffers_def alloc_transfers_def mem_ok_def s1_def n_def new_transfers_def Let_def)
  show ?thesis
  proof (cases "list_all (m_dev_mem m) [0..<n]")
    case True
    have "\<exists>b. a i = Some b \<and> is_dev_mem b" if "i < n" for i
      using zc(3,4) True that by (metis atLeastLessThan_iff atLeast_upt lessThan_iff not_Some_eq)
    then show ?thesis
      using zc(1,2) alloc True
      by (intro exI [of _ a] exI [of _ l] exI [of _ f] exI [of _ True] exI) (auto simp: s1_def owns_def n_def)
  next
    case False
    define s2 where "s2 = s1\<lparr>x_xfer_buf := Some a, x_live := l, x_fresh := f, x_use_zerocopy := False\<rparr>"
    obtain l2 where free: "free_bufs True [0..<n] s2 = Some (s2\<lparr>x_live := l2\<rparr>)" "mset l2 = mset (x_live s)"
      using free_bufs_ok [of s2 a "mset (x_live s)" "[0..<n]" True] zc(2,3) by (auto simp: s2_def)
    obtain a' l' f' where heap: "alloc_heap (m_malloc m) [0..<n] (s2\<lparr>x_live := l2\<rparr>)
        = (0, s2\<lparr>x_live := l2\<rparr>\<lparr>x_xfer_buf := Some a', x_live := l', x_fresh := f'\<rparr>)"
      "mset l' = mset l2 + held a' [0..<n]" "\<forall>i \<in> set [0..<n]. \<exists>b. a' i = Some b \<and> \<not> is_dev_mem b"
      using alloc_heap_spec [of "s2\<lparr>x_live := l2\<rparr>" a "[0..<n]" "m_malloc m"] assms(3)
      by (auto simp: s2_def mem_ok_def list_all_iff)
    have "rtlsdr_alloc_async_buffers m s = Some (0, s2\<lparr>x_live := l2\<rparr>\<lparr>x_xfer_buf := Some a', x_live := l', x_fresh := f'\<rparr>)"
      using alloc zc(1) False free(1) heap(1) by (simp add: s1_def s2_def n_def)
    then show ?thesis
      using heap(2,3) free(2)
      by (intro exI [of _ a'] exI [of _ l'] exI [of _ f'] exI [of _ False] exI) (auto simp: s1_def s2_def owns_def n_def)
  qed
qed

lemma free_owns:
  assumes "owns base s" "\<And>i. \<not> flying s i"
  shows "\<exists>l. rtlsdr_free_async_buffers s = Some (s\<lparr>x_xfer := None, x_xfer_buf := None, x_live := l\<rparr>) \<and> mset l = base"
proof -
  obtain a where a: "x_xfer_buf s = Some a" "mset (x_live s) = base + held a (xfer_indices s)"
    "\<forall>i < unat (x_xfer_buf_num s). \<exists>b. a i = Some b \<and> is_dev_mem b = x_use_zerocopy s"
    using assms(1) by (auto simp: owns_def)
  obtain l where "free_bufs (x_use_zerocopy s) (xfer_indices s) (s\<lparr>x_xfer := None\<rparr>) = Some (s\<lparr>x_xfer := None, x_live := l\<rparr>)"
    "mset l = base"
    using free_bufs_ok [of "s\<lparr>x_xfer := None\<rparr>" a base "xfer_indices s" "x_use_zerocopy s"] a by force
  then show ?thesis
    using assms(2) by (intro exI [of _ l]) (simp add: rtlsdr_free_async_buffers_def list_ex_iff)
qed

section \<open>Well-behaved runs\<close>

text \<open>
  Conditions under which a stream is expected to work.  Of libusb, its documentation: \<open>libusb_cancel_transfer\<close> accepts a
  transfer libusb has, and answers \<open>LIBUSB_ERROR_NOT_FOUND\<close> for one that is not in progress, already complete, or already
  cancelled; it returns before the cancellation is complete, and the callback runs at some later time with the status
  \<open>LIBUSB_TRANSFER_CANCELLED\<close>.  Of the rest: event handling does not fail, no failure makes the callback give up the device, the AGC's
  counters do not overflow, \<open>malloc\<close> succeeds (zero-copy memory need not be available).
\<close>

definition orderly :: "stream_event \<Rightarrow> 'h stream \<Rightarrow> bool" where
  "orderly e s \<longleftrightarrow> libusb_allows e s \<and>
     (case e of
        XFER_DONE i st buf r \<Rightarrow>
          (pending s i \<longrightarrow> st = LIBUSB_TRANSFER_CANCELLED) \<and>
          (if st = LIBUSB_TRANSFER_COMPLETED then callback_block buf (x_agc s) \<noteq> None
           else st \<noteq> LIBUSB_TRANSFER_CANCELLED \<longrightarrow> \<not> x_dev_lost (transfer_failed st s))
      | CANCELED r \<Rightarrow>
          (case x_pc s of PC_CANCEL i \<Rightarrow> r = (if loose s i then 0 else LIBUSB_ERROR_NOT_FOUND) | _ \<Rightarrow> True)
      | EVENTS_DONE r \<Rightarrow> x_pc s = PC_EVENTS \<longrightarrow> r \<ge> 0 \<or> r = LIBUSB_ERROR_INTERRUPTED
      | READ_CALL cb buf_num buf_len m \<Rightarrow> mem_ok m
      | _ \<Rightarrow> True)"

primrec along :: "(stream_event \<Rightarrow> 'h stream \<Rightarrow> bool) \<Rightarrow>
    'h usb_ops \<Rightarrow> (rtlsdr_tuner \<Rightarrow> 'h rtlsdr_dev tuner_iface) \<Rightarrow> stream_event list \<Rightarrow> 'h stream \<Rightarrow> bool" where
  "along P usb tn [] s \<longleftrightarrow> True"
| "along P usb tn (e # es) s \<longleftrightarrow> P e s \<and> (case stream_exec usb tn e s of None \<Rightarrow> True | Some s' \<Rightarrow> along P usb tn es s')"

text \<open>
  The invariant: a transfer libusb has was last completed successfully, if at all; a transfer passed by the
  cancellation loop that is still with libusb is being cancelled, unless the loop will run again.
\<close>

definition transfers_ok :: "'h stream \<Rightarrow> bool" where
  "transfers_ok s \<longleftrightarrow> (\<forall>i. (xfer_at s i \<noteq> None) = (i < unat (x_xfer_buf_num s)))
     \<and> (\<forall>i t. xfer_at s i = Some t \<longrightarrow> t_flying t \<longrightarrow> t_status t = LIBUSB_TRANSFER_COMPLETED)"

definition pc_ok :: "'h stream \<Rightarrow> bool" where
  "pc_ok s =
     (let n = unat (x_xfer_buf_num s); passed = (\<lambda>i. x_next_status s = RTLSDR_INACTIVE \<longrightarrow> (\<forall>j < i. \<not> loose s j))
      in case x_pc s of
           PC_SUBMIT i \<Rightarrow> i < n \<and> (\<forall>j. i \<le> j \<longrightarrow> j < n \<longrightarrow> xfer_at s j = new_transfers n j)
         | PC_CANCEL i \<Rightarrow> i < n \<and> passed i
         | PC_SETTLE i r \<Rightarrow> i < n \<and> passed i \<and> \<not> loose s i
         | PC_LAST \<Rightarrow> x_next_status s = RTLSDR_INACTIVE \<and> (\<forall>j. \<not> loose s j)
         | _ \<Rightarrow> True)"

definition stream_inv :: "mem_block multiset \<Rightarrow> 'h stream \<Rightarrow> bool" where
  "stream_inv base s \<longleftrightarrow> \<not> x_dev_lost s \<and>
     (if x_pc s = PC_IDLE then
        x_xfer s = None \<and> x_xfer_buf s = None \<and> mset (x_live s) = base \<and> x_async_status s = RTLSDR_INACTIVE
      else 0 < x_xfer_buf_num s \<and> transfers_ok s \<and> owns base s \<and> x_async_status s \<noteq> RTLSDR_INACTIVE \<and> pc_ok s)"

lemma set_xfer_sel [simp]:
  "x_agc (set_xfer i f s) = x_agc s" "x_xfer_buf_num (set_xfer i f s) = x_xfer_buf_num s" "x_xfer_buf (set_xfer i f s) = x_xfer_buf s"
  "x_async_status (set_xfer i f s) = x_async_status s" "x_use_zerocopy (set_xfer i f s) = x_use_zerocopy s"
  "x_dev_lost (set_xfer i f s) = x_dev_lost s" "x_pc (set_xfer i f s) = x_pc s" "x_next_status (set_xfer i f s) = x_next_status s"
  "x_live (set_xfer i f s) = x_live s" "x_delivered (set_xfer i f s) = x_delivered s" "x_cb (set_xfer i f s) = x_cb s"
  "x_xfer_errors (set_xfer i f s) = x_xfer_errors s"
  by (simp_all add: set_xfer_def)

lemma xfer_at_set_xfer: "xfer_at (set_xfer i f s) j = (if j = i then map_option f (xfer_at s i) else xfer_at s j)"
  by (cases "x_xfer s") (auto simp: set_xfer_def)

text \<open>Fields the invariant does not look at.\<close>

lemma flying_frame [simp]:
  "flying (s\<lparr>x_agc := a\<rparr>) i = flying s i" "flying (s\<lparr>x_xfer_errors := k\<rparr>) i = flying s i" "flying (s\<lparr>x_delivered := d\<rparr>) i = flying s i"
  "flying (s\<lparr>x_r := r\<rparr>) i = flying s i" "flying (s\<lparr>x_next_status := st\<rparr>) i = flying s i" "flying (s\<lparr>x_pc := pc\<rparr>) i = flying s i"
  "flying (s\<lparr>x_async_status := st\<rparr>) i = flying s i" "flying (s\<lparr>x_async_cancel := c\<rparr>) i = flying s i"
  "flying (s\<lparr>x_dev_lost := l\<rparr>) i = flying s i"
  by (simp_all add: flying_def)

lemma loose_frame [simp]:
  "loose (s\<lparr>x_agc := a\<rparr>) i = loose s i" "loose (s\<lparr>x_xfer_errors := k\<rparr>) i = loose s i" "loose (s\<lparr>x_delivered := d\<rparr>) i = loose s i"
  "loose (s\<lparr>x_r := r\<rparr>) i = loose s i" "loose (s\<lparr>x_next_status := st\<rparr>) i = loose s i" "loose (s\<lparr>x_pc := pc\<rparr>) i = loose s i"
  "loose (s\<lparr>x_async_status := st\<rparr>) i = loose s i" "loose (s\<lparr>x_async_cancel := c\<rparr>) i = loose s i"
  "loose (s\<lparr>x_dev_lost := l\<rparr>) i = loose s i"
  by (simp_all add: loose_def)

lemma stream_inv_frame [simp]:
  "stream_inv base (s\<lparr>x_agc := a\<rparr>) = stream_inv base s" "stream_inv base (s\<lparr>x_xfer_errors := k\<rparr>) = stream_inv base s"
  "stream_inv base (s\<lparr>x_delivered := d\<rparr>) = stream_inv base s" "stream_inv base (s\<lparr>x_r := r\<rparr>) = stream_inv base s"
  by (simp_all add: stream_inv_def transfers_ok_def owns_def pc_ok_def Let_def cong: read_pc.case_cong)

lemma stream_inv_cancel: "stream_inv base s \<Longrightarrow> stream_inv base (snd (rtlsdr_cancel_async s))"
  by (simp add: rtlsdr_cancel_async_def stream_inv_def transfers_ok_def owns_def pc_ok_def Let_def cong: read_pc.case_cong split: if_splits)

lemma stream_inv_hand_over: "stream_inv base s \<Longrightarrow> stream_inv base (hand_over buf s)"
  by (auto simp: hand_over_def Let_def intro: stream_inv_cancel split: option.split)

lemma stream_inv_failed: "stream_inv base s \<Longrightarrow> \<not> x_dev_lost (transfer_failed st s) \<Longrightarrow> stream_inv base (transfer_failed st s)"
  by (auto simp: transfer_failed_def rtlsdr_cancel_async_def Let_def split: if_splits)

subsection \<open>Every event keeps the invariant\<close>

lemma flying_xfer: "flying s i \<longleftrightarrow> (\<exists>t. xfer_at s i = Some t \<and> t_flying t)"
  by (simp add: flying_def split: option.split)

lemma loose_xfer: "loose s i \<longleftrightarrow> (\<exists>t. xfer_at s i = Some t \<and> t_flying t \<and> \<not> t_canceled t)"
  by (simp add: loose_def split: option.split)

lemma pending_xfer: "pending s i \<longleftrightarrow> (\<exists>t. xfer_at s i = Some t \<and> t_flying t \<and> t_canceled t)"
  by (simp add: pending_def split: option.split)

lemma flying_iff: "flying s i \<longleftrightarrow> loose s i \<or> pending s i"
  by (auto simp: flying_xfer loose_xfer pending_xfer)

lemma loose_set_xfer:
  "loose (set_xfer i (\<lambda>_. t) s) j = (if j = i then xfer_at s i \<noteq> None \<and> t_flying t \<and> \<not> t_canceled t else loose s j)"
  by (auto simp: loose_xfer xfer_at_set_xfer)

lemma loose_canceled:
  "loose (set_xfer i (\<lambda>t. if b then t\<lparr>t_canceled := True\<rparr> else t) s) j = (loose s j \<and> \<not> (b \<and> j = i))"
  by (cases "xfer_at s i") (auto simp: loose_def xfer_at_set_xfer)

lemma flying_set_xfer:
  "flying (set_xfer i (\<lambda>_. t) s) j = (if j = i then xfer_at s i \<noteq> None \<and> t_flying t else flying s j)"
  by (auto simp: flying_xfer xfer_at_set_xfer)

lemma transfer_ends:
  assumes inv: "stream_inv base s" and fl: "flying s i" and t: "t_flying t \<longrightarrow> t_status t = LIBUSB_TRANSFER_COMPLETED \<and> loose s i"
  shows "stream_inv base (set_xfer i (\<lambda>_. t) s)"
proof -
  have pc: "x_pc s \<noteq> PC_IDLE" using inv fl by (auto simp: stream_inv_def flying_xfer)
  then have ok: "transfers_ok s" "pc_ok s" and rest: "\<not> x_dev_lost s" "0 < x_xfer_buf_num s" "owns base s" "x_async_status s \<noteq> RTLSDR_INACTIVE"
    using inv by (simp_all add: stream_inv_def)
  have sub: "loose (set_xfer i (\<lambda>_. t) s) j \<Longrightarrow> loose s j" for j
    using t by (auto simp: loose_set_xfer split: if_splits)
  have "transfers_ok (set_xfer i (\<lambda>_. t) s)"
    using ok(1) t fl by (auto simp: transfers_ok_def xfer_at_set_xfer split: if_splits)
  moreover have "xfer_at (set_xfer i (\<lambda>_. t) s) j = new_transfers n j" if "xfer_at s j = new_transfers n j" "j < n" for j n
    using that fl by (auto simp: xfer_at_set_xfer flying_xfer new_transfers_def)
  then have "pc_ok (set_xfer i (\<lambda>_. t) s)"
    using ok(2) sub by (cases "x_pc s") (auto simp: pc_ok_def Let_def)
  moreover have "owns base (set_xfer i (\<lambda>_. t) s)" using rest(3) by (simp add: owns_def)
  ultimately show ?thesis using rest pc by (simp add: stream_inv_def)
qed

lemma hand_over_set_xfer: "hand_over buf (set_xfer i f s) = set_xfer i f (hand_over buf s)"
  by (simp add: hand_over_def rtlsdr_cancel_async_def set_xfer_def Let_def split: option.split)

lemma transfer_failed_set_xfer: "transfer_failed st (set_xfer i f s) = set_xfer i f (transfer_failed st s)"
  by (simp add: transfer_failed_def rtlsdr_cancel_async_def set_xfer_def Let_def)

lemma set_xfer_frame:
  "(set_xfer i f s)\<lparr>x_agc := a\<rparr> = set_xfer i f (s\<lparr>x_agc := a\<rparr>)"
  "(set_xfer i f s)\<lparr>x_xfer_errors := k\<rparr> = set_xfer i f (s\<lparr>x_xfer_errors := k\<rparr>)"
  by (simp_all add: set_xfer_def)

lemma set_xfer_twice: "set_xfer i f (set_xfer i (\<lambda>_. t) s) = set_xfer i (\<lambda>_. f t) s"
  by (cases "x_xfer s") (auto simp: set_xfer_def fun_eq_iff option.map_comp o_def)

lemma flying_hand_over [simp]: "flying (hand_over buf s) i = flying s i"
  by (simp add: hand_over_def rtlsdr_cancel_async_def Let_def split: option.split)

lemma flying_transfer_failed [simp]: "flying (transfer_failed st s) i = flying s i"
  by (simp add: transfer_failed_def rtlsdr_cancel_async_def Let_def)

lemma loose_hand_over [simp]: "loose (hand_over buf s) i = loose s i"
  by (simp add: hand_over_def rtlsdr_cancel_async_def Let_def split: option.split)

lemma loose_transfer_failed [simp]: "loose (transfer_failed st s) i = loose s i"
  by (simp add: transfer_failed_def rtlsdr_cancel_async_def Let_def)

text \<open>The callback on a transfer that has just ended, with the transfer's last state.\<close>

lemma callback_result:
  "stream_exec usb tn (XFER_DONE i st buf r) s =
     (if st = LIBUSB_TRANSFER_COMPLETED then
        map_option (\<lambda>(keepBlock, agc).
            set_xfer i (\<lambda>_. \<lparr>t_status = st, t_flying = r \<ge> 0, t_canceled = False\<rparr>)
              ((if keepBlock then hand_over buf (s\<lparr>x_agc := agc\<rparr>) else s\<lparr>x_agc := agc\<rparr>)\<lparr>x_xfer_errors := 0\<rparr>))
          (callback_block buf (x_agc s))
      else Some (set_xfer i (\<lambda>_. \<lparr>t_status = st, t_flying = False, t_canceled = False\<rparr>)
        (if st = LIBUSB_TRANSFER_CANCELLED then s else transfer_failed st s)))"
  by (cases "callback_block buf (x_agc s)")
    (auto simp: stream_exec_def libusb_callback_def Let_def set_xfer_frame hand_over_set_xfer set_xfer_twice transfer_failed_set_xfer)

lemma inv_xfer_done:
  assumes "stream_inv base s" "orderly (XFER_DONE i st buf r) s"
  shows "\<exists>s'. stream_exec usb tn (XFER_DONE i st buf r) s = Some s' \<and> stream_inv base s'"
proof (cases "st = LIBUSB_TRANSFER_COMPLETED")
  case True
  then obtain k a where "callback_block buf (x_agc s) = Some (k, a)"
    using assms(2) by (auto simp: orderly_def)
  then show ?thesis
    using True assms by (auto simp: callback_result orderly_def libusb_allows_def flying_iff intro!: transfer_ends stream_inv_hand_over)
next
  case False
  then show ?thesis
    using assms by (auto simp: callback_result orderly_def libusb_allows_def intro!: transfer_ends stream_inv_failed)
qed

lemma cancel_from_cases:
  obtains (cancel) j where "i \<le> j" "j < unat (x_xfer_buf_num s)" "to_cancel s j" "\<And>k. i \<le> k \<Longrightarrow> k < j \<Longrightarrow> \<not> to_cancel s k"
      "cancel_from i s = s\<lparr>x_pc := PC_CANCEL j\<rparr>"
    | (last) "\<And>k. i \<le> k \<Longrightarrow> k < unat (x_xfer_buf_num s) \<Longrightarrow> \<not> to_cancel s k"
      "cancel_from i s = s\<lparr>x_pc := (if x_dev_lost s \<or> x_next_status s = RTLSDR_INACTIVE then PC_LAST else PC_EVENTS)\<rparr>"
proof (cases "List.find (to_cancel s) [i..<unat (x_xfer_buf_num s)]")
  case None
  then have "\<not> to_cancel s k" if "i \<le> k" "k < unat (x_xfer_buf_num s)" for k
    using that by (auto simp: find_None_iff)
  with None show ?thesis by (intro last) (simp_all add: cancel_from_def)
next
  case (Some j)
  then obtain k where k: "k < unat (x_xfer_buf_num s) - i" "to_cancel s (i + k)" "j = i + k" "\<And>l. l < k \<Longrightarrow> \<not> to_cancel s (i + l)"
    by (auto simp: find_Some_iff)
  have "\<not> to_cancel s l" if "i \<le> l" "l < j" for l
    using k(4) [of "l - i"] that k(3) by simp
  with k Some show ?thesis by (intro cancel [of j]) (simp_all add: cancel_from_def)
qed

lemma not_to_cancel: "transfers_ok s \<Longrightarrow> \<not> to_cancel s i \<Longrightarrow> \<not> loose s i"
  by (auto simp: to_cancel_def loose_xfer transfers_ok_def)

lemma flying_less: "transfers_ok s \<Longrightarrow> flying s i \<Longrightarrow> i < unat (x_xfer_buf_num s)"
  by (auto simp: flying_xfer transfers_ok_def)

lemma loose_less: "transfers_ok s \<Longrightarrow> loose s i \<Longrightarrow> i < unat (x_xfer_buf_num s)"
  by (rule flying_less) (simp_all add: flying_iff)

lemma inv_cancel_from:
  assumes "transfers_ok s" "owns base s" "0 < x_xfer_buf_num s" "x_async_status s \<noteq> RTLSDR_INACTIVE" "\<not> x_dev_lost s"
    "x_next_status s = RTLSDR_INACTIVE \<Longrightarrow> \<forall>j < i. \<not> loose s j"
  shows "stream_inv base (cancel_from i s)"
proof (cases rule: cancel_from_cases [of i s])
  case (cancel j)
  have "\<forall>k < j. \<not> loose s k" if "x_next_status s = RTLSDR_INACTIVE"
    using assms(6) [OF that] cancel(4) not_to_cancel [OF assms(1)] by (meson not_le)
  then show ?thesis
    using assms cancel by (simp add: stream_inv_def transfers_ok_def owns_def pc_ok_def)
next
  case last
  have "\<not> loose s k" if "x_next_status s = RTLSDR_INACTIVE" for k
    using assms(6) [OF that] last(1) [of k] not_to_cancel [OF assms(1)] loose_less [OF assms(1)] by (meson not_le)
  then show ?thesis
    using assms last by (auto simp: stream_inv_def transfers_ok_def owns_def pc_ok_def)
qed

lemma stream_inv_running:
  "stream_inv base s \<Longrightarrow> x_pc s \<noteq> PC_IDLE \<Longrightarrow>
    transfers_ok s \<and> owns base s \<and> 0 < x_xfer_buf_num s \<and> x_async_status s \<noteq> RTLSDR_INACTIVE \<and> \<not> x_dev_lost s \<and> pc_ok s"
  by (simp add: stream_inv_def)

lemma owns_live: "owns base s \<Longrightarrow> i < unat (x_xfer_buf_num s) \<Longrightarrow> \<exists>b. buf_at s i = Some b \<and> b \<in> set (x_live s)"
  using held_in [of i "xfer_indices s"] by (fastforce simp: owns_def simp flip: set_mset_mset)

lemma inv_submitted:
  assumes inv: "stream_inv base s" and pc: "x_pc s = PC_SUBMIT i"
  shows "\<exists>s'. submit_one i r s = Some s' \<and> stream_inv base s'"
proof -
  have ok: "transfers_ok s" "owns base s" "0 < x_xfer_buf_num s" "x_async_status s \<noteq> RTLSDR_INACTIVE" "\<not> x_dev_lost s" "pc_ok s"
    using stream_inv_running [OF inv] pc by simp_all
  then have i: "i < unat (x_xfer_buf_num s)"
    and new: "\<And>j. i \<le> j \<Longrightarrow> j < unat (x_xfer_buf_num s) \<Longrightarrow> xfer_at s j = new_transfers (unat (x_xfer_buf_num s)) j"
    using pc by (auto simp: pc_ok_def Let_def)
  have xi: "xfer_at s i = Some \<lparr>t_status = LIBUSB_TRANSFER_COMPLETED, t_flying = False, t_canceled = False\<rparr>"
    using new [of i] i by (simp add: new_transfers_def)
  have buf: "\<not> (case buf_at s i of None \<Rightarrow> False | Some b \<Rightarrow> b \<notin> set (x_live s))"
    using owns_live [OF ok(2) i] by auto
  define s1 where "s1 = s\<lparr>x_r := r, x_pc := (if i + 1 < unat (x_xfer_buf_num s) then PC_SUBMIT (i + 1) else PC_EVENTS)\<rparr>"
  have at1: "xfer_at (set_xfer i f s1) j = (if j = i then map_option f (xfer_at s i) else xfer_at s j)" for f j
    by (simp add: xfer_at_set_xfer s1_def)
  have "stream_inv base (set_xfer i (\<lambda>t. t\<lparr>t_flying := True\<rparr>) s1)"
    using ok(1-5) new i xi
    by (simp add: stream_inv_def pc_ok_def transfers_ok_def owns_def at1 Let_def cong: read_pc.case_cong) (simp add: s1_def at1)
  moreover have "stream_inv base (s\<lparr>x_r := r, x_async_status := RTLSDR_CANCELING, x_pc := PC_EVENTS\<rparr>)"
    using ok(1-5) by (simp add: stream_inv_def pc_ok_def transfers_ok_def owns_def)
  ultimately show ?thesis using xi buf by (auto simp: submit_one_def s1_def)
qed

lemma inv_finish:
  assumes "transfers_ok s" "owns base s" "\<And>i. \<not> flying s i" "x_next_status s = RTLSDR_INACTIVE" "\<not> x_dev_lost s"
  shows "\<exists>s'. read_finish s = Some s' \<and> stream_inv base s'"
proof -
  obtain l where "rtlsdr_free_async_buffers s = Some (s\<lparr>x_xfer := None, x_xfer_buf := None, x_live := l\<rparr>)" "mset l = base"
    using free_owns [OF assms(2,3)] by blast
  then show ?thesis using assms(4,5) by (simp add: read_finish_def stream_inv_def)
qed

lemma inv_events_done:
  assumes inv: "stream_inv base s" and e: "orderly (EVENTS_DONE r) s"
  shows "case stream_exec usb tn (EVENTS_DONE r) s of None \<Rightarrow> x_pc s = PC_LAST \<and> (\<exists>i. pending s i) | Some s' \<Rightarrow> stream_inv base s'"
proof (cases "x_pc s")
  case PC_EVENTS
  have ok: "transfers_ok s" "owns base s" "0 < x_xfer_buf_num s" "x_async_status s \<noteq> RTLSDR_INACTIVE" "\<not> x_dev_lost s"
    using stream_inv_running [OF inv] PC_EVENTS by simp_all
  have "xfer_at s 0 \<noteq> None" using ok(1,3) unat_gt_0 [of "x_xfer_buf_num s"] by (simp add: transfers_ok_def word_neq_0_conv)
  then have x: "x_xfer s \<noteq> None" by (cases "x_xfer s") auto
  have "stream_inv base (cancel_from 0 (s\<lparr>x_r := r, x_next_status := RTLSDR_INACTIVE\<rparr>))"
    using ok by (intro inv_cancel_from) (simp_all add: transfers_ok_def owns_def)
  then show ?thesis
    using PC_EVENTS e x inv by (auto simp: stream_exec_def events_handled_def orderly_def Let_def)
next
  case (PC_SETTLE i r')
  have ok: "transfers_ok s" "owns base s" "0 < x_xfer_buf_num s" "x_async_status s \<noteq> RTLSDR_INACTIVE" "\<not> x_dev_lost s"
    and pc: "x_next_status s = RTLSDR_INACTIVE \<longrightarrow> (\<forall>j < i. \<not> loose s j)" "\<not> loose s i"
    using stream_inv_running [OF inv] PC_SETTLE by (simp_all add: pc_ok_def Let_def)
  have "stream_inv base (settled i r' s)"
    unfolding settled_def using ok pc
    by (intro inv_cancel_from) (auto simp: transfers_ok_def owns_def less_Suc_eq split: if_splits)
  then show ?thesis using PC_SETTLE by (simp add: stream_exec_def)
next
  case PC_LAST
  show ?thesis
  proof (cases "\<exists>i. pending s i")
    case True
    then have "list_ex (flying s) (xfer_indices s)"
      using flying_less [of s] stream_inv_running [OF inv] PC_LAST by (auto simp: list_ex_iff flying_iff)
    then show ?thesis using PC_LAST True by (simp add: stream_exec_def read_finish_def rtlsdr_free_async_buffers_def)
  next
    case False
    then show ?thesis
      using PC_LAST stream_inv_running [OF inv] inv_finish [of s base] by (auto simp: stream_exec_def pc_ok_def flying_iff)
  qed
qed (use e in \<open>simp_all add: orderly_def libusb_allows_def\<close>)

lemma inv_read_call:
  assumes inv: "stream_inv base s" and m: "mem_ok m"
  shows "\<exists>s'. stream_exec usb tn (READ_CALL cb buf_num buf_len m) s = Some s' \<and> stream_inv base s'"
proof (cases "x_async_status s = RTLSDR_INACTIVE")
  case False
  then show ?thesis using inv by (simp add: stream_exec_def rtlsdr_read_async_def)
next
  case True
  define s1 where "s1 = s\<lparr>x_async_status := RTLSDR_RUNNING, x_async_cancel := False, x_cb := cb,
     x_xfer_buf_num := (if buf_num > 0 then buf_num else DEFAULT_BUF_NUMBER),
     x_xfer_buf_len := (if buf_len > 0 \<and> buf_len mod 512 = 0 then buf_len else DEFAULT_BUF_LENGTH),
     x_pc := PC_SUBMIT 0, x_r := 0, x_next_status := RTLSDR_INACTIVE\<rparr>"
  have idle: "x_xfer s = None" "x_xfer_buf s = None" "mset (x_live s) = base" "\<not> x_dev_lost s"
    using inv True by (auto simp: stream_inv_def split: if_splits)
  have num: "0 < x_xfer_buf_num s1" by (simp add: s1_def DEFAULT_BUF_NUMBER_def)
  have s1: "x_xfer s1 = None" "x_xfer_buf s1 = None" "x_live s1 = x_live s" "\<not> x_dev_lost s1" "x_pc s1 = PC_SUBMIT 0"
    "x_async_status s1 = RTLSDR_RUNNING"
    using idle by (simp_all add: s1_def)
  obtain a l f z s2 where alloc: "rtlsdr_alloc_async_buffers m s1 = Some (0, s2)" "owns base s2"
    and s2: "s2 = s1\<lparr>x_xfer := Some (new_transfers (unat (x_xfer_buf_num s1))), x_xfer_buf := Some a, x_live := l, x_fresh := f, x_use_zerocopy := z\<rparr>"
    using alloc_owns [OF s1(1,2) m] s1(3) idle(3) by auto
  have "stream_inv base s2"
    using alloc(2) num s1 unat_gt_0 [of "x_xfer_buf_num s1"]
    by (auto simp: s2 stream_inv_def transfers_ok_def pc_ok_def new_transfers_def Let_def)
  then show ?thesis
    using alloc(1) True by (simp add: stream_exec_def rtlsdr_read_async_def s1_def)
qed

text \<open>
  An event keeps the invariant, or it is the return of \<open>rtlsdr_read_async\<close> that frees a transfer whose cancellation
  libusb has not finished.
\<close>

lemma stream_inv_exec:
  assumes inv: "stream_inv base s" and e: "orderly e s"
  shows "case stream_exec usb tn e s of
      None \<Rightarrow> (\<exists>r. e = EVENTS_DONE r) \<and> x_pc s = PC_LAST \<and> (\<exists>i. pending s i)
    | Some s' \<Rightarrow> stream_inv base s'"
proof (cases e)
  case (SUBMITTED r)
  then obtain i where "x_pc s = PC_SUBMIT i" using e by (auto simp: orderly_def libusb_allows_def split: read_pc.splits)
  then show ?thesis using inv_submitted [OF inv, of i r] SUBMITTED by (auto simp: stream_exec_def)
next
  case (CANCELED r)
  then obtain i where pc: "x_pc s = PC_CANCEL i" "r < 0 \<longrightarrow> \<not> loose s i"
    using e by (auto simp: orderly_def libusb_allows_def LIBUSB_ERROR_NOT_FOUND_def split: read_pc.splits)
  define s1 where "s1 = set_xfer i (\<lambda>t. if r \<ge> 0 then t\<lparr>t_canceled := True\<rparr> else t) (s\<lparr>x_r := r, x_pc := PC_SETTLE i r\<rparr>)"
  have "loose s1 j \<longleftrightarrow> loose s j \<and> j \<noteq> i" for j
    using pc(2) by (auto simp: s1_def loose_canceled)
  moreover have "transfers_ok s1"
    using stream_inv_running [OF inv] pc(1) by (auto simp: s1_def transfers_ok_def xfer_at_set_xfer split: if_splits)
  ultimately have "stream_inv base s1"
    using stream_inv_running [OF inv] pc(1) by (simp add: stream_inv_def pc_ok_def owns_def Let_def) (simp add: s1_def)
  then show ?thesis using CANCELED pc(1) by (simp add: stream_exec_def s1_def)
next
  case (OTHER a)
  then obtain a' where "agc_exec usb tn a (x_agc s) = Some a'"
    using e by (cases a) (auto simp: orderly_def libusb_allows_def agc_exec_def)
  then show ?thesis using inv OTHER by (simp add: stream_exec_def)
next
  case CANCEL_CALL
  then show ?thesis using stream_inv_cancel [OF inv] by (simp add: stream_exec_def)
next
  case (READ_CALL cb buf_num buf_len m)
  then show ?thesis using inv_read_call [OF inv, of m usb tn cb buf_num buf_len] e by (auto simp: orderly_def)
next
  case (XFER_DONE i st buf r)
  then show ?thesis using inv_xfer_done [OF inv, of i st buf r usb tn] e by auto
next
  case (EVENTS_DONE r)
  then show ?thesis using inv_events_done [OF inv, of r usb tn] e by (auto split: option.splits)
qed

lemma stream_inv_last: "stream_inv base s \<Longrightarrow> x_pc s = PC_LAST \<Longrightarrow> flying s i \<Longrightarrow> pending s i"
  by (auto simp: stream_inv_def pc_ok_def flying_iff)

text \<open>The same over runs: \<open>ds\<close> is the part up to the event that fails.\<close>

lemma stream_inv_run:
  assumes "stream_inv base s" "along orderly usb tn es s"
  shows "case stream_run usb tn es s of
      None \<Rightarrow> \<exists>ds r fs t. es = ds @ EVENTS_DONE r # fs \<and> stream_run usb tn ds s = Some t \<and> stream_inv base t \<and> x_pc t = PC_LAST \<and> (\<exists>i. pending t i)
    | Some s' \<Rightarrow> stream_inv base s'"
  using assms
proof (induction es arbitrary: s)
  case (Cons e es)
  show ?case
  proof (cases "stream_exec usb tn e s")
    case None
    then obtain r where "e = EVENTS_DONE r" "x_pc s = PC_LAST" "\<exists>i. pending s i"
      using stream_inv_exec [OF Cons.prems(1), of e usb tn] Cons.prems(2) by auto
    then show ?thesis using None Cons.prems(1) by (simp add: exI [of _ "[]"])
  next
    case (Some s1)
    then have "stream_inv base s1" "along orderly usb tn es s1"
      using stream_inv_exec [OF Cons.prems(1), of e usb tn] Cons.prems(2) by auto
    note IH = Cons.IH [OF this]
    show ?thesis
    proof (cases "stream_run usb tn es s1")
      case None
      then obtain ds r fs t where "es = ds @ EVENTS_DONE r # fs" "stream_run usb tn ds s1 = Some t" "stream_inv base t" "x_pc t = PC_LAST" "\<exists>i. pending t i"
        using IH by (simp only: option.case) blast
      then have "e # es = (e # ds) @ EVENTS_DONE r # fs \<and> stream_run usb tn (e # ds) s = Some t \<and> stream_inv base t \<and> x_pc t = PC_LAST \<and> (\<exists>i. pending t i)"
        using Some by simp
      moreover have "stream_run usb tn (e # es) s = None" using None Some by simp
      ultimately show ?thesis by (simp only: option.case) blast
    qed (use IH Some in simp)
  qed
qed simp

end
