(* ===== verification/Soft_Agc_Runs.thy ===== *)
theory Soft_Agc_Runs
  imports Soft_Agc
begin

text \<open>
  Runs of the soft AGC: it ends when the worker thread is scheduled, it can stop for ever when a signal is lost, and its counters
  overflow in the automatic modes.
\<close>

section \<open>The search ends\<close>

text \<open>A schedule in which the worker serves each command before the next block arrives.\<close>

definition served :: "u8 list list \<Rightarrow> agc_event list" where
  "served bs = concat (map (\<lambda>b. BLOCK b # replicate 4 WORKER) bs)"

definition calm :: "'h softagc_state \<Rightarrow> bool" where
  "calm s \<longleftrightarrow> a_worker s = WORKER_WAIT \<and> \<not> a_command_changeGain s \<and> \<not> a_exit_command_thread s"

lemma agc_run_append: "agc_run usb tn (es @ fs) s = (case agc_run usb tn es s of None \<Rightarrow> None | Some s' \<Rightarrow> agc_run usb tn fs s')"
  by (induction es arbitrary: s) (simp_all split: option.split)

lemma agc_run_workers: "agc_run usb tn (replicate n WORKER) s = Some ((softagc_control_worker usb tn ^^ n) s)"
  by (induction n arbitrary: s) (simp_all add: agc_exec_simps funpow_swap1)

lemma worker_idle: "calm s \<Longrightarrow> (softagc_control_worker usb tn ^^ n) s = s"
  by (induction n) (simp_all add: calm_def softagc_control_worker_def)

lemma worker_serves:
  assumes "a_worker s = WORKER_WOKEN" "a_command_changeGain s" "\<not> a_exit_command_thread s" "polite_tuner (tn (d_tuner_type (a_dev s)))"
  shows "calm ((softagc_control_worker usb tn ^^ 4) s)"
    "a_remainingDeadSps ((softagc_control_worker usb tn ^^ 4) s) = d_agc_dead_sps (a_dev s)"
proof -
  have "d_agc_dead_sps (state_of (rtlsdr_set_tuner_gain usb tn g) (a_dev s)) = d_agc_dead_sps (a_dev s)" for g
    using view_eqD(4) set_gain_view [of tn "a_dev s", OF assms(4)] by blast
  then show "calm ((softagc_control_worker usb tn ^^ 4) s)"
    "a_remainingDeadSps ((softagc_control_worker usb tn ^^ 4) s) = d_agc_dead_sps (a_dev s)"
    using assms(1-3) by (simp_all add: calm_def softagc_control_worker_def eval_nat_numeral)
qed

lemma workers_simulate:
  assumes "agc_rel a s" "polite_tuner (tn (d_tuner_type (a_dev s)))"
  shows "agc_rel a ((softagc_control_worker usb tn ^^ n) s) \<and> agc_view (a_dev ((softagc_control_worker usb tn ^^ n) s)) = agc_view (a_dev s)"
proof (induction n)
  case (Suc n)
  let ?t = "(softagc_control_worker usb tn ^^ n) s"
  have "polite_tuner (tn (d_tuner_type (a_dev ?t)))" using Suc assms(2) view_eqD(1) by metis
  then show ?case using other_simulates [of a ?t tn usb WORKER "softagc_control_worker usb tn ?t"] Suc by (simp add: agc_exec_simps)
qed (simp add: assms)

text \<open>The four outcomes of a scanned block.\<close>

lemma scan_cases:
  assumes "softagc_scan ys s = Some (keep, s')"
  obtains (lowest) "s' = set_agc_state SOFTSTATE_OFF s"
  | (down) h n r where "command_gain (a_gainIdx s - 1) (clear_histo (s\<lparr>a_histo := h, a_numInHisto := n, a_remainingScanSps := r\<rparr>)) = Some s'"
  | (loud) h n r where "s' = s\<lparr>a_histo := h, a_numInHisto := n, a_remainingScanSps := r\<rparr>"
  | (quiet) h n r where "softagc_scanned (s\<lparr>a_histo := h, a_numInHisto := n, a_remainingScanSps := r\<rparr>) = (keep, s')"
proof (cases "a_gainIdx s = 0 \<and> agc_state s = SOFTSTATE_RESET_CONT")
  case True
  then show ?thesis using assms lowest by (simp add: softagc_scan_def)
next
  case False
  define h n r where "h = fold count_byte ys (a_histo s)" "n = a_numInHisto s + int (length ys)"
    "r = a_remainingScanSps s - int (length ys div 2)"
  note eq = assms [unfolded softagc_scan_def Let_def if_not_P [OF False], folded h_n_r_def]
  show ?thesis
  proof (cases "oversteered h n")
    case None
    then show ?thesis using eq by (simp split: if_splits)
  next
    case (Some c)
    then show ?thesis using eq down [of r n h] loud [of r n h] quiet [of r n h] by (cases c) (auto split: if_splits)
  qed
qed

text \<open>What a scanned block does to the handshake.\<close>

definition same_worker :: "'h softagc_state \<Rightarrow> 'h softagc_state \<Rightarrow> bool" where
  "same_worker s s' \<longleftrightarrow> a_gainIdx s' = a_gainIdx s \<and> a_remainingDeadSps s' = a_remainingDeadSps s \<and> a_worker s' = a_worker s
     \<and> a_command_changeGain s' = a_command_changeGain s \<and> a_exit_command_thread s' = a_exit_command_thread s"

lemma scan_effect:
  assumes "softagc_scan ys s = Some (keep, s')"
  shows "same_worker s s' \<or> a_gainIdx s' = a_gainIdx s - 1 \<and> a_worker s' = a_worker (safe_cond_signal s) \<and> a_command_changeGain s'
      \<and> a_exit_command_thread s' = a_exit_command_thread s"
  using assms
proof (cases rule: scan_cases)
  case (down h n r)
  then show ?thesis by (auto simp: command_gain_def clear_histo_def safe_cond_signal_def Let_def split: if_splits)
next
  case (quiet h n r)
  have "same_worker t (snd (softagc_scanned t))" for t :: "'a softagc_state"
    by (simp add: same_worker_def softagc_scanned_def set_agc_state_def Let_def split: softagc_mode.split)
  from this [of "s\<lparr>a_histo := h, a_numInHisto := n, a_remainingScanSps := r\<rparr>"] show ?thesis
    unfolding quiet by (simp add: same_worker_def)
qed (simp_all add: same_worker_def set_agc_state_def)

lemma histogram_bound: "x \<in> set (histogram xs) \<Longrightarrow> 0 \<le> x \<and> x \<le> int (length xs)"
  by (auto simp: histogram_def)

lemma distrib_bound: "0 \<le> distrib (histogram xs) k" "distrib (histogram xs) k \<le> int (length xs)"
  by (simp_all add: distrib_histogram)

lemma oversteered_defined:
  assumes "64 * int (length xs) \<le> INT_MAX"
  shows "oversteered (histogram xs) (int (length xs)) = Some (hot xs)"
proof -
  have "fits_int (m * distrib (histogram xs) k)" if "0 \<le> m" "m \<le> 64" for m k
  proof -
    have "m * distrib (histogram xs) k \<le> 64 * int (length xs)" "0 \<le> m * distrib (histogram xs) k"
      using that distrib_bound [of xs k] by (auto intro: mult_mono)
    then show ?thesis using assms by (simp add: fits_int_def)
  qed
  then have "\<exists>c. oversteered (histogram xs) (int (length xs)) = Some c" by (auto simp: oversteered_def share_test_def)
  then show ?thesis using oversteered_hot by blast
qed

text \<open>No counter overflows as long as the histogram stays small.\<close>

lemma scan_defined:
  assumes rel: "agc_rel a s" and small: "64 * int (length (s_samples a @ ys)) \<le> INT_MAX"
    and r: "fits_int (a_remainingScanSps s - int (length ys div 2))"
  shows "\<exists>keep s'. softagc_scan ys s = Some (keep, s')"
proof -
  let ?xs = "s_samples a @ ys"
  have h: "fold count_byte ys (a_histo s) = histogram ?xs" "a_numInHisto s + int (length ys) = int (length ?xs)"
    using rel by (simp_all add: agc_rel_def fold_count_byte)
  have fits: "list_all fits_int (histogram ?xs)" "fits_int (int (length ?xs))" "fits_int (distrib (histogram ?xs) 8)"
    using small distrib_bound [of ?xs 8] histogram_bound [of _ ?xs] by (fastforce simp: fits_int_def list_all_iff)+
  have cmd: "\<exists>s'. command_gain (a_gainIdx s - 1) (clear_histo (s\<lparr>a_histo := h, a_numInHisto := n, a_remainingScanSps := q\<rparr>)) = Some s'"
    if "0 < a_gainIdx s" for h n q
    using rel that by (auto simp: command_gain_def clear_histo_def agc_rel_def)
  have "softagc_scan ys s \<noteq> None"
    using cmd unfolding softagc_scan_def Let_def h oversteered_defined [OF small]
    by (cases "hot ?xs") (use fits in \<open>auto simp: r simp del: of_nat_add length_append\<close>)
  then show ?thesis by auto
qed

inductive_cases search_stepE: "search_step scan auto ys a b"

text \<open>A block that keeps the search going either adds to the bytes of the current gain or rejects it.\<close>

lemma search_step_going:
  assumes "search_step scan auto ys a b" "s_phase a = SEARCHING" "s_phase b = SEARCHING"
  shows "s_index b = s_index a \<and> s_samples b = s_samples a @ ys \<and> s_counted b = s_counted a + int (length ys div 2) \<and> s_counted b \<le> scan
    \<or> Suc (s_index b) = s_index a \<and> s_samples b = [] \<and> s_counted b = 0"
  using assms by (auto elim!: search_stepE split: if_splits)

lemma search_step_done:
  "search_step scan auto ys a b \<Longrightarrow> s_phase a = SEARCHING \<Longrightarrow> s_phase b \<noteq> SEARCHING \<Longrightarrow> s_index b = s_index a"
  by (auto elim!: search_stepE)

text \<open>The end of a search: in the automatic modes a gain above the lowest is watched further, otherwise the AGC is done.\<close>

definition verdict :: "bool \<Rightarrow> gain_search \<Rightarrow> bool" where
  "verdict auto a \<longleftrightarrow> s_phase a = (if auto \<and> 0 < s_index a then TRACKING else SETTLED)"

lemma search_step_verdict:
  "search_step scan auto ys a b \<Longrightarrow> s_phase a = SEARCHING \<Longrightarrow> s_phase b \<noteq> SEARCHING \<Longrightarrow> verdict auto b"
  by (auto simp: verdict_def elim!: search_stepE)

definition searching :: "int \<Rightarrow> int \<Rightarrow> 'h softagc_state \<Rightarrow> gain_search \<Rightarrow> bool" where
  "searching D S s a \<longleftrightarrow> agc_rel a s \<and> calm s \<and> s_phase a = SEARCHING \<and> int (length (s_samples a)) = 2 * s_counted a
     \<and> s_counted a \<le> S \<and> 0 \<le> a_remainingDeadSps s \<and> a_remainingDeadSps s \<le> D
     \<and> d_agc_dead_sps (a_dev s) = D \<and> d_agc_scan_sps (a_dev s) = S"

text \<open>A bound on the blocks that are left.\<close>

definition search_left :: "int \<Rightarrow> int \<Rightarrow> 'h softagc_state \<Rightarrow> gain_search \<Rightarrow> int" where
  "search_left D S s a = a_gainIdx s * (D + S + 2) + a_remainingDeadSps s + (S - s_counted a) + 1"

lemma served_one:
  "callback_block b s = Some (keep, s1) \<Longrightarrow> agc_run usb tn (served [b]) s = Some ((softagc_control_worker usb tn ^^ 4) s1)"
  by (simp add: served_def agc_exec_def agc_run_workers)

lemma search_block_scan:
  assumes "searching D S s a" "0 \<le> D" "D < INT_MAX" "0 \<le> S" "64 * (2 * S + int L) \<le> INT_MAX" "polite_tuner (tn (d_tuner_type (a_dev s)))"
    and ys: "even (length ys)" "2 \<le> length ys" "length ys \<le> L"
    and run: "callback_block b s = softagc_scan ys (s\<lparr>a_remainingDeadSps := 0\<rparr>)"
  shows "\<exists>s' a'. agc_run usb tn (served [b]) s = Some s' \<and> agc_rel a' s' \<and> agc_view (a_dev s') = agc_view (a_dev s)
    \<and> (if s_phase a' = SEARCHING then searching D S s' a' \<and> search_left D S s' a' < search_left D S s a
       else a_remainingDeadSps s' \<noteq> INT_MAX \<and> verdict (auto_mode (a_dev s)) a')"
proof -
  have sr: "agc_rel a s" "calm s" "s_phase a = SEARCHING" "int (length (s_samples a)) = 2 * s_counted a" "s_counted a \<le> S"
    "0 \<le> a_remainingDeadSps s" "a_remainingDeadSps s \<le> D" "d_agc_dead_sps (a_dev s) = D" "d_agc_scan_sps (a_dev s) = S"
    using assms(1) by (simp_all add: searching_def)
  define s1 where "s1 = s\<lparr>a_remainingDeadSps := 0\<rparr>"
  have rel: "agc_rel a s1"
    unfolding s1_def by (rule agc_rel_dead) (use sr assms(3) in auto)
  have rem: "a_remainingScanSps s1 = S - s_counted a" using rel sr(9) unfolding s1_def by (simp add: agc_rel_def)
  have nonneg: "0 \<le> s_counted a" using sr(4) by simp
  have "64 * int (length (s_samples a @ ys)) \<le> INT_MAX" "fits_int (a_remainingScanSps s1 - int (length ys div 2))"
    using rem nonneg sr(4,5) ys assms(4,5) by (simp_all add: fits_int_def)
  then obtain keep s2 where s2: "softagc_scan ys s1 = Some (keep, s2)" using scan_defined [OF rel] by blast
  obtain a' where a': "search_step S (auto_mode (a_dev s1)) ys a a'" "agc_rel a' s2" "agc_view (a_dev s2) = agc_view (a_dev s)"
    using scan_simulates [OF rel _ _ s2] sr(3,9) by (auto simp: s1_def)
  have pol: "polite_tuner (tn (d_tuner_type (a_dev s2)))" using assms(6) view_eqD(1) [OF a'(3)] by simp
  define s' where "s' = (softagc_control_worker usb tn ^^ 4) s2"
  have run': "agc_run usb tn (served [b]) s = Some s'"
    unfolding s'_def using served_one run s2 by (simp add: s1_def)
  have rel': "agc_rel a' s'" "agc_view (a_dev s') = agc_view (a_dev s)"
    using workers_simulate [where tn = tn and usb = usb and n = 4, OF a'(2) pol] a'(3) by (simp_all add: s'_def)
  have going: "searching D S s' a' \<and> search_left D S s' a' < search_left D S s a" if ph: "s_phase a' = SEARCHING"
  proof -
    have g: "a_gainIdx s = int (s_index a)" "a_gainIdx s2 = int (s_index a')" "a_gainIdx s' = int (s_index a')"
      using sr a'(2) rel'(1) by (simp_all add: agc_rel_def)
    have times: "d_agc_dead_sps (a_dev s') = D" "d_agc_scan_sps (a_dev s') = S" using sr view_eqD [OF rel'(2)] by simp_all
    from scan_effect [OF s2] show ?thesis
    proof
      assume same: "same_worker s1 s2"
      then have "calm s2" using sr by (simp add: same_worker_def s1_def calm_def)
      then have s': "s' = s2" unfolding s'_def by (rule worker_idle)
      have "s_index a' = s_index a" "a_remainingDeadSps s2 = 0" using same g by (simp_all add: same_worker_def s1_def)
      then show ?thesis
        using search_step_going [OF a'(1) _ ph] sr rel' g times ys ph \<open>calm s2\<close> unfolding s'
        by (auto simp: searching_def search_left_def elim!: evenE)
    next
      assume c: "a_gainIdx s2 = a_gainIdx s1 - 1 \<and> a_worker s2 = a_worker (safe_cond_signal s1) \<and> a_command_changeGain s2
        \<and> a_exit_command_thread s2 = a_exit_command_thread s1"
      then have "a_worker s2 = WORKER_WOKEN" "a_command_changeGain s2" "\<not> a_exit_command_thread s2"
        using sr by (simp_all add: s1_def safe_cond_signal_def calm_def)
      note w = worker_serves [where tn = tn and usb = usb, OF this pol, folded s'_def]
      have "s_index a \<noteq> s_index a'" using c g by (simp add: s1_def)
      then have "int (s_index a) = int (s_index a') + 1" "s_samples a' = [] \<and> s_counted a' = 0"
        using search_step_going [OF a'(1) _ ph] sr by auto
      moreover have "a_remainingDeadSps s' = D" using w(2) sr view_eqD(4) [OF a'(3)] by simp
      ultimately show ?thesis
        using sr rel' g times w(1) ph assms(2,4) by (simp add: searching_def search_left_def algebra_simps)
    qed
  qed
  moreover have "a_remainingDeadSps s' \<noteq> INT_MAX" if ph: "s_phase a' \<noteq> SEARCHING"
  proof -
    have "a_gainIdx s2 = a_gainIdx s1"
      using search_step_done [OF a'(1) sr(3) ph] rel a'(2) by (simp add: agc_rel_def)
    then have "same_worker s1 s2" using scan_effect [OF s2] by auto
    then have "calm s2" "a_remainingDeadSps s2 = 0" using sr(2) by (simp_all add: same_worker_def s1_def calm_def)
    then show ?thesis using worker_idle [of s2 4 usb tn] by (simp add: s'_def)
  qed
  moreover have "verdict (auto_mode (a_dev s)) a'" if "s_phase a' \<noteq> SEARCHING"
    using search_step_verdict [OF a'(1) sr(3) that] by (simp add: s1_def)
  ultimately show ?thesis using run' rel' by (intro exI [of _ s'] exI [of _ a']) simp
qed

lemma search_block:
  assumes sr: "searching D S s a" and "0 \<le> D" "D < INT_MAX" "0 \<le> S" "64 * (2 * S + int L) \<le> INT_MAX" "polite_tuner (tn (d_tuner_type (a_dev s)))"
    and b: "even (length b)" "2 \<le> length b" "length b \<le> L"
  shows "\<exists>s' a'. agc_run usb tn (served [b]) s = Some s' \<and> agc_rel a' s' \<and> agc_view (a_dev s') = agc_view (a_dev s)
    \<and> (if s_phase a' = SEARCHING then searching D S s' a' \<and> search_left D S s' a' < search_left D S s a
       else a_remainingDeadSps s' \<noteq> INT_MAX \<and> verdict (auto_mode (a_dev s)) a')"
proof -
  let ?dead = "a_remainingDeadSps s"
  have s: "agc_rel a s" "calm s" "agc_state s = SOFTSTATE_RESET_CONT" "0 \<le> ?dead" "?dead < INT_MAX" "s_phase a = SEARCHING"
    using sr assms(3) by (auto simp: searching_def agc_rel_def)
  show ?thesis
  proof (cases "?dead \<ge> int (length b div 2) \<and> ?dead \<noteq> 0")
    case True
    define s1 where "s1 = s\<lparr>a_remainingDeadSps := ?dead - int (length b div 2)\<rparr>"
    have "callback_block b s = Some (False, s1)"
      using s True by (simp add: callback_block_def softagc_def keep_block_def s1_def)
    moreover have "calm s1" using s by (simp add: s1_def calm_def)
    ultimately have "agc_run usb tn (served [b]) s = Some s1" using served_one worker_idle by metis
    moreover have "agc_rel a s1"
      unfolding s1_def by (rule agc_rel_dead) (use s in auto)
    moreover have "searching D S s1 a" "search_left D S s1 a < search_left D S s a"
      using sr True b \<open>calm s1\<close> \<open>agc_rel a s1\<close> by (auto simp: searching_def search_left_def s1_def elim!: evenE)
    ultimately show ?thesis using s(6) by (intro exI [of _ s1] exI [of _ a]) (simp add: s1_def)
  next
    case False
    define ys where "ys = drop (2 * nat ?dead) b"
    have "callback_block b s = softagc_scan ys (s\<lparr>a_remainingDeadSps := 0\<rparr>)"
      using s False by (auto simp: callback_block_def softagc_def ys_def)
    moreover have "even (length ys)" "2 \<le> length ys" "length ys \<le> L"
      using b s False by (auto simp: ys_def elim!: evenE)
    ultimately show ?thesis using search_block_scan [where tn = tn, OF assms(1-6)] by blast
  qed
qed

lemma search_left_pos: "searching D S s a \<Longrightarrow> 0 \<le> D \<Longrightarrow> 0 \<le> S \<Longrightarrow> 0 < search_left D S s a"
  by (auto simp: searching_def search_left_def agc_rel_def intro!: add_nonneg_pos add_nonneg_nonneg)

lemma search_blocks:
  assumes "0 \<le> D" "D < INT_MAX" "0 \<le> S" "64 * (2 * S + int L) \<le> INT_MAX"
    and "searching D S s a" "polite_tuner (tn (d_tuner_type (a_dev s)))"
    and "\<And>b. b \<in> set bs \<Longrightarrow> even (length b) \<and> 2 \<le> length b \<and> length b \<le> L" "search_left D S s a \<le> int (length bs)"
  shows "\<exists>k s' a'. k \<le> length bs \<and> agc_run usb tn (served (take k bs)) s = Some s' \<and> agc_rel a' s'
    \<and> agc_view (a_dev s') = agc_view (a_dev s) \<and> s_phase a' \<noteq> SEARCHING \<and> a_remainingDeadSps s' \<noteq> INT_MAX
    \<and> verdict (auto_mode (a_dev s)) a'"
  using assms(5-8)
proof (induction bs arbitrary: s a)
  case Nil
  then show ?case using search_left_pos [OF Nil(1) assms(1,3)] by simp
next
  case (Cons b bs)
  have "even (length b)" "2 \<le> length b" "length b \<le> L" using Cons.prems(3) by simp_all
  from search_block [where tn = tn and usb = usb, OF Cons.prems(1) assms(1-4) Cons.prems(2) this]
  obtain s1 a1 where s1: "agc_run usb tn (served [b]) s = Some s1" "agc_rel a1 s1" "agc_view (a_dev s1) = agc_view (a_dev s)"
    "if s_phase a1 = SEARCHING then searching D S s1 a1 \<and> search_left D S s1 a1 < search_left D S s a
     else a_remainingDeadSps s1 \<noteq> INT_MAX \<and> verdict (auto_mode (a_dev s)) a1" by auto
  show ?case
  proof (cases "s_phase a1 = SEARCHING")
    case False
    then show ?thesis using s1 by (intro exI [of _ 1] exI [of _ s1] exI [of _ a1]) simp
  next
    case True
    have "polite_tuner (tn (d_tuner_type (a_dev s1)))" using Cons.prems(2) view_eqD(1) [OF s1(3)] by simp
    then obtain k s' a' where k: "k \<le> length bs" "agc_run usb tn (served (take k bs)) s1 = Some s'" "agc_rel a' s'"
      "agc_view (a_dev s') = agc_view (a_dev s1)" "s_phase a' \<noteq> SEARCHING" "a_remainingDeadSps s' \<noteq> INT_MAX"
      "verdict (auto_mode (a_dev s)) a'"
      using view_eqD(3) [OF s1(3)] Cons.IH [of s1 a1] Cons.prems(3,4) s1(4) True by auto
    moreover have "agc_run usb tn (served (take (Suc k) (b # bs))) s = Some s'"
      using s1(1) k(2) agc_run_append [of usb tn "served [b]" "served (take k bs)" s] by (simp add: served_def)
    ultimately show ?thesis using s1(3) by (intro exI [of _ "Suc k"] exI [of _ s'] exI [of _ a']) simp
  qed
qed

text \<open>The block that resets the AGC, and the worker's first steps.\<close>

lemma reset_block:
  assumes reset: "agc_state s = SOFTSTATE_RESET" and calm: "calm s" and n: "2 \<le> length (agc_gains s)"
    and times: "agc_times s = Some (S, D)"
  obtains keep s1 where "callback_block b s = Some (keep, s1)" "agc_rel (search_start (length (agc_gains s))) s1"
    "a_worker s1 = WORKER_WOKEN" "a_command_changeGain s1" "\<not> a_exit_command_thread s1"
    "d_tuner_type (a_dev s1) = d_tuner_type (a_dev s)" "d_agc_scan_sps (a_dev s1) = S" "d_agc_dead_sps (a_dev s1) = D"
    "auto_mode (a_dev s1) = auto_mode (a_dev s)"
proof -
  have "callback_block b s \<noteq> None"
    using reset n times by (auto simp: callback_block_def softagc_def softagc_reset_def command_gain_def clear_histo_def Let_def)
  then obtain keep s1 where s1: "callback_block b s = Some (keep, s1)" by auto
  have out: "\<not> outstanding s" using calm by (simp add: calm_def outstanding_def)
  from reset_starts [OF reset out n s1] times
  have r: "agc_rel (search_start (length (agc_gains s))) s1"
    "agc_view (a_dev s1) = agc_view ((a_dev s)\<lparr>d_agc_scan_sps := S, d_agc_dead_sps := D\<rparr>)"
    "a_worker s1 = WORKER_WOKEN" "a_command_changeGain s1" "\<not> a_exit_command_thread s1"
    using calm by (auto simp: calm_def safe_cond_signal_def)
  show ?thesis by (rule that [OF s1 r(1,3-5)]) (use view_eqD [OF r(2)] in \<open>simp_all add: auto_mode_def\<close>)
qed

lemma reset_served:
  assumes "agc_state s = SOFTSTATE_RESET" "calm s" and n: "2 \<le> length (agc_gains s)"
    and polite: "polite_tuner (tn (d_tuner_type (a_dev s)))" and times: "agc_times s = Some (S, D)" "0 \<le> S" "0 \<le> D"
  obtains s2 where "agc_run usb tn (served [b]) s = Some s2" "searching D S s2 (search_start (length (agc_gains s)))"
    "d_tuner_type (a_dev s2) = d_tuner_type (a_dev s)" "auto_mode (a_dev s2) = auto_mode (a_dev s)"
    "search_left D S s2 (search_start (length (agc_gains s))) = int (length (agc_gains s)) * (D + S + 2) - 1"
proof -
  let ?n = "length (agc_gains s)"
  obtain keep s1 where s1: "callback_block b s = Some (keep, s1)" "agc_rel (search_start ?n) s1"
    "a_worker s1 = WORKER_WOKEN" "a_command_changeGain s1" "\<not> a_exit_command_thread s1"
    and v: "d_tuner_type (a_dev s1) = d_tuner_type (a_dev s)" "d_agc_scan_sps (a_dev s1) = S" "d_agc_dead_sps (a_dev s1) = D"
      "auto_mode (a_dev s1) = auto_mode (a_dev s)"
    using reset_block [OF assms(1-3) times(1)] .
  have pol: "polite_tuner (tn (d_tuner_type (a_dev s1)))" using polite v(1) by simp
  define s2 where "s2 = (softagc_control_worker usb tn ^^ 4) s1"
  have sim: "agc_rel (search_start ?n) s2" "agc_view (a_dev s2) = agc_view (a_dev s1)"
    using workers_simulate [where tn = tn and usb = usb and n = 4, OF s1(2) pol] by (simp_all add: s2_def)
  have w: "calm s2" "a_remainingDeadSps s2 = D"
    using worker_serves [where tn = tn and usb = usb, OF s1(3-5) pol] v(3) by (simp_all add: s2_def)
  have "a_gainIdx s2 = int ?n - 1" using sim(1) n by (simp add: agc_rel_def search_start_def of_nat_diff)
  then have "search_left D S s2 (search_start ?n) = int ?n * (D + S + 2) - 1"
    unfolding search_left_def w(2) by (simp add: search_start_def left_diff_distrib)
  moreover have "searching D S s2 (search_start ?n)"
    using sim(1) w times view_eqD [OF sim(2)] v by (simp add: searching_def search_start_def)
  ultimately show ?thesis using that served_one [OF s1(1), of usb tn] view_eqD(1,3) [OF sim(2)] v(1,4) by (simp add: s2_def)
qed

lemma search_ends:
  fixes s :: "'h softagc_state"
  assumes reset: "agc_state s = SOFTSTATE_RESET" "calm s" "2 \<le> length (agc_gains s)"
    and polite: "polite_tuner (tn (d_tuner_type (a_dev s)))"
    and times: "agc_times s = Some (S, D)" "0 \<le> S" "0 \<le> D" "D < INT_MAX" "64 * (2 * S + int L) \<le> INT_MAX"
    and bs: "\<And>b. b \<in> set bs \<Longrightarrow> even (length b) \<and> 2 \<le> length b \<and> length b \<le> L" "int (length (agc_gains s)) * (D + S + 2) < int (length bs)"
  shows "\<exists>k s'. k \<le> length bs \<and> agc_run usb tn (served (take k bs)) s = Some s' \<and> agc_state s' = (if auto_mode (a_dev s) \<and> 0 < a_gainIdx s' then SOFTSTATE_ON else SOFTSTATE_OFF)
    \<and> (\<exists>gs. a_applied s' = agc_gains s ! nat (a_gainIdx s') # gs)"
proof -
  let ?n = "length (agc_gains s)"
  obtain b bs' where b: "bs = b # bs'" using bs(2) times(2,3) by (cases bs) (simp_all add: mult_less_0_iff)
  obtain s2 where s2: "agc_run usb tn (served [b]) s = Some s2" "searching D S s2 (search_start ?n)"
    "d_tuner_type (a_dev s2) = d_tuner_type (a_dev s)" "auto_mode (a_dev s2) = auto_mode (a_dev s)" "search_left D S s2 (search_start ?n) = int ?n * (D + S + 2) - 1"
    using reset_served [where tn = tn and usb = usb, OF reset polite times(1-3)] .
  have "polite_tuner (tn (d_tuner_type (a_dev s2)))" using polite s2(3) by simp
  moreover have "even (length c) \<and> 2 \<le> length c \<and> length c \<le> L" if "c \<in> set bs'" for c using bs(1) that b by simp
  moreover have "search_left D S s2 (search_start ?n) \<le> int (length bs')" using s2(5) bs(2) b by simp
  ultimately obtain k s' a' where k: "k \<le> length bs'" "agc_run usb tn (served (take k bs')) s2 = Some s'" "agc_rel a' s'"
    "agc_view (a_dev s') = agc_view (a_dev s2)" "s_phase a' \<noteq> SEARCHING" "a_remainingDeadSps s' \<noteq> INT_MAX"
    "verdict (auto_mode (a_dev s2)) a'"
    using search_blocks [where tn = tn and usb = usb and s = s2 and bs = bs', OF times(3,4,2,5) s2(2)] by blast
  have "agc_run usb tn (served (take (Suc k) bs)) s = Some s'"
    using s2(1) k(2) agc_run_append [of usb tn "served [b]" "served (take k bs')" s] by (simp add: served_def b)
  moreover have "agc_state s' = (if auto_mode (a_dev s) \<and> 0 < a_gainIdx s' then SOFTSTATE_ON else SOFTSTATE_OFF)"
    using k(3,7) s2(4) by (simp add: agc_rel_def verdict_def split: if_splits)
  moreover have "\<exists>gs. a_applied s' = agc_gains s ! nat (a_gainIdx s') # gs"
    using k(3,6) view_eqD(1) [OF k(4)] s2(3) by (simp add: agc_rel_def handshake_def)
  ultimately show ?thesis using k(1) b by (intro exI [of _ "Suc k"] exI [of _ s']) simp
qed

section \<open>A lost signal\<close>

text \<open>With a command that the worker does not know of, all blocks are discarded and nothing changes any more.\<close>

definition deaf :: "'h softagc_state \<Rightarrow> bool" where
  "deaf s \<longleftrightarrow> a_worker s = WORKER_WAIT \<and> agc_state s = SOFTSTATE_RESET_CONT \<and> a_remainingDeadSps s = INT_MAX"

lemma deaf_block: "deaf s \<Longrightarrow> callback_block b s = Some (False, s)"
  by (simp add: deaf_def callback_block_def softagc_def)

lemma deaf_run: "deaf s \<Longrightarrow> set es \<subseteq> insert WORKER (range BLOCK) \<Longrightarrow> agc_run usb tn es s = Some s"
  by (induction es) (auto simp: agc_exec_def deaf_block, auto simp: deaf_def softagc_control_worker_def)

lemma hot_full_scale: "hot [255, 255]"
  by (simp add: hot_def share_of_def)

lemma worker_loops:
  assumes "a_worker s = WORKER_WOKEN" "a_command_changeGain s" "\<not> a_exit_command_thread s" "polite_tuner (tn (d_tuner_type (a_dev s)))"
  shows "a_worker ((softagc_control_worker usb tn ^^ 3) s) = WORKER_LOOP"
    "a_remainingDeadSps ((softagc_control_worker usb tn ^^ 3) s) = d_agc_dead_sps (a_dev s)"
proof -
  have "d_agc_dead_sps (state_of (rtlsdr_set_tuner_gain usb tn g) (a_dev s)) = d_agc_dead_sps (a_dev s)" for g
    using view_eqD(4) set_gain_view [of tn "a_dev s", OF assms(4)] by blast
  then show "a_worker ((softagc_control_worker usb tn ^^ 3) s) = WORKER_LOOP"
    "a_remainingDeadSps ((softagc_control_worker usb tn ^^ 3) s) = d_agc_dead_sps (a_dev s)"
    using assms(1-3) by (simp_all add: softagc_control_worker_def eval_nat_numeral)
qed

text \<open>A loud block that arrives while the worker is between two waits.\<close>

lemma signal_lost:
  assumes rel: "agc_rel (search_start n) s" and n: "2 \<le> n" and w: "a_worker s = WORKER_LOOP"
    and dead: "0 \<le> a_remainingDeadSps s" "a_remainingDeadSps s < INT_MAX" and scan: "0 \<le> d_agc_scan_sps (a_dev s)" "d_agc_scan_sps (a_dev s) \<le> INT_MAX"
    and b: "b = replicate (2 * nat (a_remainingDeadSps s) + 2) 255"
  obtains keep s' where "callback_block b s = Some (keep, s')" "deaf (softagc_control_worker usb tn s')" "a_command_changeGain s'"
proof -
  define s1 where "s1 = s\<lparr>a_remainingDeadSps := 0\<rparr>"
  have st: "agc_state s = SOFTSTATE_RESET_CONT" using rel by (simp add: agc_rel_def search_start_def)
  have ys: "drop (2 * nat (a_remainingDeadSps s)) b = [255, 255]"
    unfolding b drop_replicate by (simp add: eval_nat_numeral)
  have run: "callback_block b s = softagc_scan [255, 255] s1"
    using st dead by (auto simp: callback_block_def softagc_def ys s1_def) (auto simp: b)
  have rel1: "agc_rel (search_start n) s1" unfolding s1_def by (rule agc_rel_dead [OF rel]) (use dead in simp)
  have "a_remainingScanSps s1 = d_agc_scan_sps (a_dev s)" using rel1 by (simp add: agc_rel_def s1_def search_start_def)
  then obtain keep s2 where s2: "softagc_scan [255, 255] s1 = Some (keep, s2)"
    using scan_defined [OF rel1, of "[255, 255]"] scan by (auto simp: fits_int_def search_start_def)
  obtain a' where a': "search_step (d_agc_scan_sps (a_dev s1)) (auto_mode (a_dev s1)) [255, 255] (search_start n) a'" "agc_rel a' s2"
    using scan_simulates [OF rel1 _ _ s2] by (auto simp: s1_def search_start_def)
  have r: "s_index a' \<noteq> s_index (search_start n)" "s_phase a' = SEARCHING"
    using a'(1) hot_full_scale n by (auto simp: search_start_def elim!: search_stepE)
  have "\<not> same_worker s1 s2" using rel1 a'(2) r(1) by (simp add: same_worker_def agc_rel_def)
  then have c: "a_worker s2 = WORKER_LOOP" "a_command_changeGain s2"
    using scan_effect [OF s2] w by (auto simp: s1_def safe_cond_signal_def)
  then have "a_remainingDeadSps s2 = INT_MAX" "agc_state s2 = SOFTSTATE_RESET_CONT"
    using a'(2) r(2) by (simp_all add: agc_rel_def handshake_def outstanding_def)
  then have "deaf (softagc_control_worker usb tn s2)" using c by (simp add: deaf_def softagc_control_worker_def)
  then show ?thesis using that run s2 c(2) by simp
qed

section \<open>Watching a quiet signal\<close>

definition quiet :: "u8 list \<Rightarrow> bool" where
  "quiet xs \<longleftrightarrow> (\<forall>b \<in> set xs. 64 \<le> b \<and> b < 192)"

lemma quiet_append [simp]: "quiet (xs @ ys) \<longleftrightarrow> quiet xs \<and> quiet ys"
  by (auto simp: quiet_def)

lemma quiet_not_hot:
  assumes "quiet xs" "xs \<noteq> []"
  shows "\<not> hot xs"
proof -
  have none: "filter (\<lambda>b. b < lo \<or> hi \<le> b) xs = []" if "lo \<le> 64" "192 \<le> hi" for lo hi
    using assms(1) that by (auto simp: filter_empty_conv quiet_def dest: order_trans less_le_trans)
  show ?thesis using assms(2) by (simp add: hot_def share_of_def none)
qed

lemma tracking_block:
  assumes rel: "agc_rel a s" and tr: "s_phase a = TRACKING" and dead: "a_remainingDeadSps s = 0"
    and q: "quiet (s_samples a @ b)" "b \<noteq> []" and run: "callback_block b s = Some (keep, s')"
  shows "\<exists>a'. agc_rel a' s' \<and> s_phase a' = TRACKING \<and> a_remainingDeadSps s' = 0 \<and> s_samples a' = s_samples a @ b
    \<and> int (length (s_samples a')) \<le> INT_MAX"
proof -
  have st: "agc_state s = SOFTSTATE_ON" "auto_mode (a_dev s)" "a_numInHisto s = int (length (s_samples a))"
    using rel tr by (simp_all add: agc_rel_def)
  have same: "s\<lparr>a_remainingDeadSps := 0\<rparr> = s" using dead by (cases s) simp
  have scan: "softagc_scan b s = Some (keep, s')" using run st dead unfolding callback_block_def softagc_def same by simp
  then have "fits_int (a_numInHisto s + int (length b))"
    using st(1) by (auto simp: softagc_scan_def Let_def split: if_splits)
  then have bound: "int (length (s_samples a @ b)) \<le> INT_MAX" using st(3) by (simp add: fits_int_def)
  obtain a' where a': "search_step (d_agc_scan_sps (a_dev s)) True b a a'" "agc_rel a' s'"
    using scan_simulates [OF rel _ _ scan] tr dead st(2) by auto
  then have "s_phase a' = TRACKING \<and> s_samples a' = s_samples a @ b \<and> s_index a' = s_index a"
    using quiet_not_hot [OF q(1)] q(2) tr by (auto elim!: search_stepE)
  moreover have "a_gainIdx s' = a_gainIdx s" using calculation rel a'(2) by (simp add: agc_rel_def)
  ultimately show ?thesis using scan_effect [OF scan] a'(2) bound dead by (auto simp: same_worker_def)
qed

section \<open>A simulated device\<close>

text \<open>An FC0012 with a reset AGC, a scan time of 4 and a dead time of 2 samples; and the same while it watches the fourth gain.\<close>

definition sim_agc :: "sim_hw softagc_state" where
  "sim_agc = \<lparr>a_dev = sim_dev0\<lparr>d_agc_mode := SOFTAGC_ON_CHANGE, d_agc_state := SOFTSTATE_RESET, d_agc_scan_sps := 4, d_agc_dead_sps := 2\<rparr>,
     a_exit_command_thread = False, a_command_newGain = 0, a_command_changeGain = False, a_scanTimeMs = 100, a_deadTimeMs = 1,
     a_remainingDeadSps = 0, a_remainingScanSps = 0, a_numInHisto = 0, a_histo = replicate 16 0, a_gainIdx = 0,
     a_worker = WORKER_WAIT, a_applied = []\<rparr>"

definition sim_agc_on :: "sim_hw softagc_state" where
  "sim_agc_on = sim_agc\<lparr>a_dev := (a_dev sim_agc)\<lparr>d_agc_mode := SOFTAGC_AUTO, d_agc_state := SOFTSTATE_ON\<rparr>, a_gainIdx := 3,
     a_remainingScanSps := 4, a_applied := [179]\<rparr>"

lemma sim_agc_sel:
  "agc_state sim_agc = SOFTSTATE_RESET" "calm sim_agc" "length (agc_gains sim_agc) = 5" "agc_times sim_agc = Some (4, 2)"
  "\<not> outstanding sim_agc" "d_tuner_type (a_dev sim_agc) = RTLSDR_TUNER_FC0012" "auto_mode (a_dev sim_agc) = False"
  by (simp_all add: sim_agc_def calm_def outstanding_def agc_times_def auto_mode_def get_tuner_gains_def sim_dev_fields)

lemma sim_agc_polite: "polite_tuner (sim_tuners (d_tuner_type (a_dev sim_agc)))"
  unfolding sim_agc_sel(6) sim_tuners_def by (rule fc0012_tuner.polite_tuner_axioms)

lemma sim_agc_on_rel:
  "agc_rel \<lparr>s_phase = TRACKING, s_index = 3, s_samples = [], s_counted = 0, s_rejected = []\<rparr> sim_agc_on"
  "a_remainingDeadSps sim_agc_on = 0" "a_numInHisto sim_agc_on = 0"
  by (simp_all add: sim_agc_on_def sim_agc_def agc_rel_def handshake_def outstanding_def auto_mode_def get_tuner_gains_def
    sim_dev_fields histogram_Nil)

section \<open>Properties\<close>

text \<open>
  C10.  The soft AGC carries out the gain search.  Whatever way the callback, the worker thread, wake-ups and the end of the
  AGC interleave, every state it reaches after a reset matches a state of the search: the bytes the histogram
  stands for come from the ends of received blocks, in order, while the tuner had been given the gain under test; each gain above the current
  one was rejected because its bytes were hot (at least 1/64 of them in the outermost sixteenth, 1/16 in the outermost quarter or 1/4 in the
  outermost half), and a gain the search settles on is the lowest or was not hot over the scan time.
\<close>

theorem softagc_refines_search:
  assumes "agc_state s0 = SOFTSTATE_RESET" "\<not> outstanding s0" "2 \<le> length (agc_gains s0)"
    and "polite_tuner (tn (d_tuner_type (a_dev s0)))" "RESTART \<notin> set es" "agc_run usb tn es s0 = Some s" "agc_state s \<noteq> SOFTSTATE_RESET"
  shows "\<exists>yss bs a. subseq bs (blocks es) \<and> list_all2 suffix yss bs
    \<and> search_run (d_agc_scan_sps (a_dev s)) (auto_mode (a_dev s0)) yss (search_start (length (agc_gains s0))) a
    \<and> agc_rel a s \<and> search_inv (length (agc_gains s0)) a"
proof -
  obtain yss bs a where r: "subseq bs (blocks es)" "list_all2 suffix yss bs" "agc_rel a s"
    "search_run (d_agc_scan_sps (a_dev s)) (auto_mode (a_dev s0)) yss (search_start (length (agc_gains s0))) a"
    using reset_run_simulates [where tn = tn, OF assms] by blast
  then have "search_inv (length (agc_gains s0)) a" using assms(3) by (intro search_inv_run [OF r(4)] search_inv_start) linarith
  then show ?thesis using r by blast
qed

theorem softagc_refines_search_witness:
  "\<exists>es s yss bs a. agc_run sim_usb sim_tuners es sim_agc = Some s \<and> agc_state s \<in> {SOFTSTATE_OFF, SOFTSTATE_ON}
    \<and> subseq bs (blocks es) \<and> list_all2 suffix yss bs \<and> search_run (d_agc_scan_sps (a_dev s)) False yss (search_start 5) a
    \<and> agc_rel a s \<and> search_inv 5 a"
proof -
  obtain k s where "agc_run sim_usb sim_tuners (served (take k (replicate 41 [128, 128, 255, 128]))) sim_agc = Some s"
    and st: "agc_state s \<in> {SOFTSTATE_OFF, SOFTSTATE_ON}"
    using search_ends [of sim_agc sim_tuners 4 2 4 "replicate 41 [128, 128, 255, 128]" sim_usb] sim_agc_sel sim_agc_polite by auto
  then obtain es where es: "agc_run sim_usb sim_tuners es sim_agc = Some s" "RESTART \<notin> set es"
    using that [of "served (take k (replicate 41 [128, 128, 255, 128]))"] by (simp add: served_def)
  from softagc_refines_search [of sim_agc sim_tuners es sim_usb s] es st sim_agc_sel sim_agc_polite
  have "\<exists>yss bs a. subseq bs (blocks es) \<and> list_all2 suffix yss bs \<and> search_run (d_agc_scan_sps (a_dev s)) False yss (search_start 5) a
    \<and> agc_rel a s \<and> search_inv 5 a" by auto
  then show ?thesis using es(1) st by blast
qed

text \<open>
  C11.  The soft AGC comes to an end.  If the worker gets to run between two blocks, then after a reset
  \<open>numGains * (dead + scan + 2) + 1\<close> blocks of at least one sample suffice to finish the search (dead and scan time in samples), without an overflow
  on the way when 64 times the bytes of a scan time and of one block together fit an \<open>int\<close>; the AGC is then on if it is in one of the automatic modes and has not reached the lowest gain, and off
  otherwise, and the gain last given to the tuner is the one selected.
\<close>

theorem softagc_finishes:
  fixes s :: "'h softagc_state"
  assumes reset: "agc_state s = SOFTSTATE_RESET" "calm s" "2 \<le> length (agc_gains s)"
    and polite: "polite_tuner (tn (d_tuner_type (a_dev s)))"
    and times: "agc_times s = Some (S, D)" "0 \<le> S" "0 \<le> D" "D < INT_MAX" "64 * (2 * S + int L) \<le> INT_MAX"
    and bs: "\<And>b. b \<in> set bs \<Longrightarrow> even (length b) \<and> 2 \<le> length b \<and> length b \<le> L" "int (length (agc_gains s)) * (D + S + 2) < int (length bs)"
  shows "\<exists>k s'. k \<le> length bs \<and> agc_run usb tn (served (take k bs)) s = Some s' \<and> agc_state s' = (if auto_mode (a_dev s) \<and> 0 < a_gainIdx s' then SOFTSTATE_ON else SOFTSTATE_OFF)
    \<and> (\<exists>gs. a_applied s' = agc_gains s ! nat (a_gainIdx s') # gs)"
  using search_ends [where tn = tn, OF assms] .

theorem softagc_finishes_witness:
  "\<exists>k s'. k \<le> 41 \<and> agc_run sim_usb sim_tuners (served (take k (replicate 41 [128, 128, 128, 128]))) sim_agc = Some s'
    \<and> agc_state s' = (if auto_mode (a_dev sim_agc) \<and> 0 < a_gainIdx s' then SOFTSTATE_ON else SOFTSTATE_OFF)"
  using softagc_finishes [of sim_agc sim_tuners 4 2 4 "replicate 41 [128, 128, 128, 128]" sim_usb] sim_agc_sel sim_agc_polite
  by auto

text \<open>
  C26.  A command can be lost.  The worker waits on the condition variable without looking at \<open>command_changeGain\<close> first, so
  a signal sent between the end of one command and the next wait wakes nobody.  From every reset state there is a schedule that
  leads to a state with a pending command in which, without spurious wake-ups or calls of the library, every further block is discarded for ever.
\<close>

theorem softagc_lost_wakeup:
  assumes reset: "agc_state s = SOFTSTATE_RESET" "calm s" "2 \<le> length (agc_gains s)"
    and polite: "polite_tuner (tn (d_tuner_type (a_dev s)))"
    and times: "agc_times s = Some (S, D)" "0 \<le> S" "S \<le> INT_MAX" "0 \<le> D" "D < INT_MAX"
  shows "\<exists>es s'. set es \<subseteq> insert WORKER (range BLOCK) \<and> agc_run usb tn es s = Some s' \<and> a_command_changeGain s'
    \<and> (\<forall>b. callback_block b s' = Some (False, s')) \<and> (\<forall>fs. set fs \<subseteq> insert WORKER (range BLOCK) \<longrightarrow> agc_run usb tn fs s' = Some s')"
proof -
  let ?n = "length (agc_gains s)"
  obtain keep s1 where s1: "callback_block [] s = Some (keep, s1)" "agc_rel (search_start ?n) s1"
    "a_worker s1 = WORKER_WOKEN" "a_command_changeGain s1" "\<not> a_exit_command_thread s1"
    and v: "d_tuner_type (a_dev s1) = d_tuner_type (a_dev s)" "d_agc_scan_sps (a_dev s1) = S" "d_agc_dead_sps (a_dev s1) = D"
      "auto_mode (a_dev s1) = auto_mode (a_dev s)"
    using reset_block [OF reset times(1)] .
  have pol: "polite_tuner (tn (d_tuner_type (a_dev s1)))" using polite v(1) by simp
  define s2 where "s2 = (softagc_control_worker usb tn ^^ 3) s1"
  note sim = workers_simulate [where tn = tn and usb = usb and n = 3, OF s1(2) pol, folded s2_def]
  note w = worker_loops [where tn = tn and usb = usb, OF s1(3-5) pol, folded s2_def]
  define b where "b = replicate (2 * nat (a_remainingDeadSps s2) + 2) (255 :: u8)"
  obtain keep' s3 where s3: "callback_block b s2 = Some (keep', s3)" "deaf (softagc_control_worker usb tn s3)" "a_command_changeGain s3"
    using signal_lost [of ?n s2 b usb tn] sim w v times(2-5) reset(3) view_eqD(2) b_def by metis
  let ?es = "BLOCK [] # replicate 3 WORKER @ [BLOCK b, WORKER]"
  have "agc_run usb tn ?es s = Some (softagc_control_worker usb tn s3)"
    using s1(1) s3(1) by (simp add: agc_exec_def agc_run_append agc_run_workers s2_def)
  moreover have "set ?es \<subseteq> insert WORKER (range BLOCK)" by auto
  moreover have "a_command_changeGain (softagc_control_worker usb tn s3)" using s3(2,3)
    by (auto simp: deaf_def softagc_control_worker_def split: worker_pc.splits if_splits)
  ultimately show ?thesis using deaf_block [OF s3(2)] deaf_run [OF s3(2)] by blast
qed

theorem softagc_lost_wakeup_witness:
  "\<exists>es s'. agc_run sim_usb sim_tuners es sim_agc = Some s' \<and> a_command_changeGain s' \<and> (\<forall>b. callback_block b s' = Some (False, s'))"
  using softagc_lost_wakeup [of sim_agc sim_tuners 4 2 sim_usb] sim_agc_sel sim_agc_polite by auto

text \<open>
  C27.  In the automatic modes the histogram is not cleared when the scan time is over, so with a steady quiet signal
  \<open>numInHisto\<close> grows by each block until the addition overflows, once \<open>2 ^ 31\<close> bytes have been counted.
\<close>

theorem softagc_auto_overflows:
  assumes "agc_rel a s" "s_phase a = TRACKING" "a_remainingDeadSps s = 0" "quiet (s_samples a)" "quiet b" "b \<noteq> []"
    and "INT_MAX < a_numInHisto s + int n * int (length b)" "a_numInHisto s \<le> INT_MAX"
  shows "agc_run usb tn (replicate n (BLOCK b)) s = None"
  using assms
proof (induction n arbitrary: s a)
  case (Suc n)
  show ?case
  proof (cases "callback_block b s")
    case (Some r)
    obtain keep s' where r: "r = (keep, s')" by fastforce
    obtain a' where a': "agc_rel a' s'" "s_phase a' = TRACKING" "a_remainingDeadSps s' = 0" "s_samples a' = s_samples a @ b"
      "int (length (s_samples a')) \<le> INT_MAX"
      using tracking_block [OF Suc.prems(1-3) _ Suc.prems(6)] Suc.prems(4,5) Some r by auto
    then have "a_numInHisto s' = a_numInHisto s + int (length b)" "a_numInHisto s' \<le> INT_MAX"
      using Suc.prems(1) by (simp_all add: agc_rel_def)
    then have "agc_run usb tn (replicate n (BLOCK b)) s' = None"
      using a' Suc.prems(4-7) by (intro Suc.IH [of a']) (auto simp: algebra_simps)
    then show ?thesis using Some r by (simp add: agc_exec_def)
  qed (simp add: agc_exec_def)
qed simp

theorem softagc_auto_overflows_witness:
  "agc_run sim_usb sim_tuners (replicate 536870912 (BLOCK [128, 128, 128, 128])) sim_agc_on = None"
  by (rule softagc_auto_overflows [OF sim_agc_on_rel(1)]) (simp_all add: quiet_def sim_agc_on_rel)

end
