(* ===== verification/Rtl_Stream_Runs.thy ===== *)
theory Rtl_Stream_Runs
  imports Rtl_Stream Soft_Agc_Runs
begin

text \<open>
  What streaming guarantees, over all sequences of events: no access to freed memory and no leak in well-behaved runs, with one
  exception, the blocks handed to the application, the return after a cancellation; and the runs in which the loop starves,
  frees a transfer libusb still has, stays in the cancelling state, or uses freed buffers.
\<close>

section \<open>The blocks handed to the application\<close>

text \<open>The soft AGC's part of a run, and the blocks it lets through.\<close>

definition agc_part :: "stream_event \<Rightarrow> agc_event list" where
  "agc_part e =
     (case e of
        XFER_DONE i st buf r \<Rightarrow> if st = LIBUSB_TRANSFER_COMPLETED then [BLOCK buf] else []
      | OTHER a \<Rightarrow> [a]
      | _ \<Rightarrow> [])"

abbreviation agc_trace :: "stream_event list \<Rightarrow> agc_event list" where
  "agc_trace es \<equiv> concat (map agc_part es)"

definition passes :: "agc_event \<Rightarrow> 'h softagc_state \<Rightarrow> u8 list list" where
  "passes e a =
     (case e of BLOCK buf \<Rightarrow> (case callback_block buf a of Some (True, _) \<Rightarrow> [buf] | _ \<Rightarrow> []) | _ \<Rightarrow> [])"

primrec passed_blocks ::
    "'h usb_ops \<Rightarrow> (rtlsdr_tuner \<Rightarrow> 'h rtlsdr_dev tuner_iface) \<Rightarrow> agc_event list \<Rightarrow> 'h softagc_state \<Rightarrow> u8 list list" where
  "passed_blocks usb tn [] a = []"
| "passed_blocks usb tn (e # es) a =
     passes e a @ (case agc_exec usb tn e a of None \<Rightarrow> [] | Some a' \<Rightarrow> passed_blocks usb tn es a')"

definition is_read :: "stream_event \<Rightarrow> bool" where
  "is_read e = (case e of READ_CALL cb buf_num buf_len m \<Rightarrow> True | _ \<Rightarrow> False)"

lemma cancel_async_frame [simp]:
  "x_agc (snd (rtlsdr_cancel_async s)) = x_agc s" "x_delivered (snd (rtlsdr_cancel_async s)) = x_delivered s"
  "x_cb (snd (rtlsdr_cancel_async s)) = x_cb s" "x_pc (snd (rtlsdr_cancel_async s)) = x_pc s"
  "x_xfer_buf_num (snd (rtlsdr_cancel_async s)) = x_xfer_buf_num s" "x_next_status (snd (rtlsdr_cancel_async s)) = x_next_status s"
  "flying (snd (rtlsdr_cancel_async s)) i = flying s i" "loose (snd (rtlsdr_cancel_async s)) i = loose s i"
  by (simp_all add: rtlsdr_cancel_async_def)

lemma failed_frame [simp]:
  "x_agc (transfer_failed st s) = x_agc s" "x_delivered (transfer_failed st s) = x_delivered s" "x_cb (transfer_failed st s) = x_cb s"
  "x_pc (transfer_failed st s) = x_pc s" "x_xfer_buf_num (transfer_failed st s) = x_xfer_buf_num s"
  "x_next_status (transfer_failed st s) = x_next_status s"
  by (simp_all add: transfer_failed_def Let_def)

lemma hand_over_frame [simp]:
  "x_agc (hand_over buf s) = x_agc s" "x_cb (hand_over buf s) = x_cb s" "x_pc (hand_over buf s) = x_pc s"
  "x_xfer_buf_num (hand_over buf s) = x_xfer_buf_num s" "x_next_status (hand_over buf s) = x_next_status s"
  by (simp_all add: hand_over_def Let_def split: option.split)

lemma hand_over_delivered: "x_cb s = Some cb \<Longrightarrow> x_delivered (hand_over buf s) = x_delivered s @ [buf]"
  by (simp add: hand_over_def Let_def)

lemma free_bufs_frame:
  "free_bufs zc is s = Some s' \<Longrightarrow>
    x_agc s' = x_agc s \<and> x_delivered s' = x_delivered s \<and> x_cb s' = x_cb s \<and> x_next_status s' = x_next_status s"
proof (induction "is" arbitrary: s)
  case (Cons i "is")
  then show ?case by (fastforce simp: free_block_def split: option.splits if_splits bind_splits)
qed simp

lemma read_finish_frame:
  "read_finish s = Some s' \<Longrightarrow>
    x_agc s' = x_agc s \<and> x_delivered s' = x_delivered s \<and> x_cb s' = x_cb s \<and> x_pc s' = PC_IDLE \<and> x_async_status s' = x_next_status s"
  using free_bufs_frame [of "x_use_zerocopy s" "xfer_indices s" "s\<lparr>x_xfer := None\<rparr>"]
  by (auto simp: read_finish_def rtlsdr_free_async_buffers_def split: if_splits)

lemma cancel_from_frame [simp]:
  "x_agc (cancel_from i s) = x_agc s" "x_delivered (cancel_from i s) = x_delivered s" "x_cb (cancel_from i s) = x_cb s"
  "x_async_status (cancel_from i s) = x_async_status s" "x_xfer_buf_num (cancel_from i s) = x_xfer_buf_num s"
  "x_next_status (cancel_from i s) = x_next_status s" "loose (cancel_from i s) j = loose s j"
  by (simp_all add: cancel_from_def split: option.split)

lemma xfer_done_run:
  assumes "stream_exec usb tn (XFER_DONE i st buf r) s = Some s'" "x_cb s = Some cb"
  shows "agc_run usb tn (agc_part (XFER_DONE i st buf r)) (x_agc s) = Some (x_agc s') \<and> x_cb s' = Some cb
    \<and> x_delivered s' = x_delivered s @ passed_blocks usb tn (agc_part (XFER_DONE i st buf r)) (x_agc s)"
proof (cases "st = LIBUSB_TRANSFER_COMPLETED")
  case True
  then obtain k a where "callback_block buf (x_agc s) = Some (k, a)" using assms(1) by (auto simp: callback_result)
  then show ?thesis
    using True assms hand_over_delivered [of "s\<lparr>x_agc := a\<rparr>" cb buf]
    by (cases k) (auto simp: callback_result agc_part_def passes_def agc_exec_def)
next
  case False
  then show ?thesis using assms by (auto simp: callback_result agc_part_def)
qed

lemma exec_run:
  assumes "stream_exec usb tn e s = Some s'" "x_cb s = Some cb" "\<not> is_read e"
  shows "agc_run usb tn (agc_part e) (x_agc s) = Some (x_agc s') \<and> x_cb s' = Some cb
    \<and> (libusb_allows e s \<longrightarrow> x_delivered s' = x_delivered s @ passed_blocks usb tn (agc_part e) (x_agc s))"
proof (cases e)
  case (XFER_DONE i st buf r)
  then show ?thesis using xfer_done_run assms(1,2) by metis
next
  case (SUBMITTED r)
  then show ?thesis
    using assms by (auto simp: agc_part_def stream_exec_def submit_one_def split: read_pc.splits if_splits)
next
  case (EVENTS_DONE r)
  then show ?thesis
    using assms read_finish_frame
    by (fastforce simp: agc_part_def stream_exec_def events_handled_def settled_def Let_def split: read_pc.splits if_splits)
next
  case (OTHER a)
  then show ?thesis
    using assms by (auto simp: agc_part_def stream_exec_def libusb_allows_def passes_def split: agc_event.splits)
qed (use assms in \<open>auto simp: agc_part_def stream_exec_def is_read_def split: read_pc.splits\<close>)

lemma passed_blocks_append:
  "agc_run usb tn es a = Some a' \<Longrightarrow> passed_blocks usb tn (es @ fs) a = passed_blocks usb tn es a @ passed_blocks usb tn fs a'"
  by (induction es arbitrary: a) (auto split: option.splits)

lemma stream_run_agc:
  assumes "stream_run usb tn es s = Some s'" "x_cb s = Some cb" "\<not> list_ex is_read es" "along libusb_allows usb tn es s"
  shows "agc_run usb tn (agc_trace es) (x_agc s) = Some (x_agc s')
    \<and> x_delivered s' = x_delivered s @ passed_blocks usb tn (agc_trace es) (x_agc s)"
  using assms
proof (induction es arbitrary: s)
  case (Cons e es)
  then obtain s1 where s1: "stream_exec usb tn e s = Some s1" "stream_run usb tn es s1 = Some s'"
    by (auto split: bind_splits)
  have "agc_run usb tn (agc_part e) (x_agc s) = Some (x_agc s1)" "x_cb s1 = Some cb"
    "x_delivered s1 = x_delivered s @ passed_blocks usb tn (agc_part e) (x_agc s)"
    using exec_run [OF s1(1) Cons.prems(2)] Cons.prems(3,4) by auto
  with Cons.IH [of s1] Cons.prems(3,4) s1 show ?case
    by (simp add: agc_run_append passed_blocks_append)
qed simp

definition completed_block :: "stream_event \<Rightarrow> u8 list list" where
  "completed_block e = (case e of XFER_DONE i LIBUSB_TRANSFER_COMPLETED buf r \<Rightarrow> [buf] | _ \<Rightarrow> [])"

definition is_other :: "stream_event \<Rightarrow> bool" where
  "is_other e = (case e of OTHER a \<Rightarrow> True | _ \<Rightarrow> False)"

lemma passed_blocks_off:
  assumes "agc_state a = SOFTSTATE_OFF" "\<not> list_ex is_other es"
  shows "passed_blocks usb tn (agc_trace es) a = concat (map completed_block es)"
  using assms(2)
proof (induction es)
  case (Cons e es)
  have "callback_block buf a = Some (True, a)" for buf using assms(1) by (simp add: callback_block_def)
  then have "passed_blocks usb tn (agc_part e @ fs) a = completed_block e @ passed_blocks usb tn fs a" for fs
    using Cons.prems
    by (auto simp: agc_part_def completed_block_def passes_def agc_exec_def is_other_def split: stream_event.splits libusb_transfer_status.splits)
  with Cons show ?case by simp
qed simp

section \<open>After a cancellation\<close>

text \<open>
  Well-behaved runs in which no signal interrupts the event handling and streaming is not started again.  When libusb
  finishes a cancellation it has accepted is left open.
\<close>

definition settling :: "stream_event \<Rightarrow> 'h stream \<Rightarrow> bool" where
  "settling e s \<longleftrightarrow> orderly e s \<and>
     (case e of
        EVENTS_DONE r \<Rightarrow> x_pc s = PC_EVENTS \<longrightarrow> r \<ge> 0
      | READ_CALL cb buf_num buf_len m \<Rightarrow> False
      | _ \<Rightarrow> True)"

text \<open>The answers to calls of \<open>rtlsdr_read_async\<close>, and a bound on their number.\<close>

definition is_answer :: "stream_event \<Rightarrow> bool" where
  "is_answer e = (case e of SUBMITTED r \<Rightarrow> True | CANCELED r \<Rightarrow> True | EVENTS_DONE r \<Rightarrow> True | _ \<Rightarrow> False)"

definition answers_left :: "'h stream \<Rightarrow> nat" where
  "answers_left s =
     (let n = unat (x_xfer_buf_num s); air = (\<exists>i. loose s i); again = (\<lambda>b. if b then 2 * n + 2 else 0)
      in case x_pc s of
           PC_IDLE \<Rightarrow> 0
         | PC_SUBMIT i \<Rightarrow> (n - i) + 4 * n + 4
         | PC_EVENTS \<Rightarrow> 2 * n + 2 + again air
         | PC_CANCEL i \<Rightarrow> 2 * (n - i) + 1 + again (air \<or> x_next_status s \<noteq> RTLSDR_INACTIVE)
         | PC_SETTLE i r \<Rightarrow> 2 * (n - i) + again (air \<or> x_next_status s \<noteq> RTLSDR_INACTIVE \<or> r \<ge> 0)
         | PC_LAST \<Rightarrow> 1)"

definition ending :: "'h stream \<Rightarrow> bool" where
  "ending s \<longleftrightarrow> (x_pc s \<noteq> PC_IDLE \<longrightarrow> x_async_status s = RTLSDR_CANCELING)
     \<and> (case x_pc s of PC_CANCEL i \<Rightarrow> \<forall>j < i. \<not> loose s j | PC_SETTLE i r \<Rightarrow> \<forall>j < i. \<not> loose s j | _ \<Rightarrow> True)"

text \<open>An event that changes nothing but which transfers have ended; transfers that are being cancelled need no further call.\<close>

lemma answers_left_mono:
  assumes "x_pc s' = x_pc s" "x_xfer_buf_num s' = x_xfer_buf_num s" "x_next_status s' = x_next_status s"
    "\<And>i. loose s' i \<Longrightarrow> loose s i" "x_async_status s = RTLSDR_CANCELING \<Longrightarrow> x_async_status s' = RTLSDR_CANCELING" "ending s"
  shows "ending s' \<and> answers_left s' \<le> answers_left s"
proof -
  have "ending s'" using assms by (auto simp: ending_def split: read_pc.splits)
  moreover have "answers_left s' \<le> answers_left s" using assms by (auto simp: answers_left_def Let_def split: read_pc.split)
  ultimately show ?thesis by simp
qed

lemma canceling_kept [simp]:
  "x_async_status s = RTLSDR_CANCELING \<Longrightarrow> x_async_status (hand_over buf s) = RTLSDR_CANCELING"
  "x_async_status s = RTLSDR_CANCELING \<Longrightarrow> x_async_status (transfer_failed st s) = RTLSDR_CANCELING"
  "x_async_status s = RTLSDR_CANCELING \<Longrightarrow> x_async_status (snd (rtlsdr_cancel_async s)) = RTLSDR_CANCELING"
  by (simp_all add: hand_over_def transfer_failed_def rtlsdr_cancel_async_def Let_def split: option.split)

lemma xfer_done_frame:
  assumes "stream_exec usb tn (XFER_DONE i st buf r) s = Some s'"
  shows "x_pc s' = x_pc s" "x_xfer_buf_num s' = x_xfer_buf_num s" "x_next_status s' = x_next_status s"
    "(st = LIBUSB_TRANSFER_COMPLETED \<Longrightarrow> loose s i) \<Longrightarrow> loose s' j \<Longrightarrow> loose s j" "x_async_status s = RTLSDR_CANCELING \<Longrightarrow> x_async_status s' = RTLSDR_CANCELING"
  using assms by (auto simp: callback_result loose_set_xfer split: if_splits)

lemma cancel_from_left:
  assumes "transfers_ok s" "x_async_status s = RTLSDR_CANCELING" "\<forall>j < i. \<not> loose s j"
    "again = ((\<exists>i. loose s i) \<or> x_next_status s \<noteq> RTLSDR_INACTIVE)" "i \<le> unat (x_xfer_buf_num s)"
  shows "ending (cancel_from i s)
    \<and> answers_left (cancel_from i s) \<le> 2 * (unat (x_xfer_buf_num s) - i) + 1 + (if again then 2 * unat (x_xfer_buf_num s) + 2 else 0)"
proof (cases rule: cancel_from_cases [of i s])
  case (cancel j)
  have "\<forall>k < j. \<not> loose s k" using assms(3) cancel(4) not_to_cancel [OF assms(1)] by (meson not_le)
  then show ?thesis using assms cancel by (simp add: ending_def answers_left_def Let_def)
next
  case last
  have "\<not> loose s k" for k
    using assms(3) last(1) [of k] not_to_cancel [OF assms(1)] loose_less [OF assms(1)] by (meson not_le)
  then show ?thesis
    using assms last by (cases "x_next_status s") (auto simp: ending_def answers_left_def Let_def)
qed

lemma submit_left:
  assumes "stream_inv base s" "x_pc s = PC_SUBMIT i" "ending s" "submit_one i r s = Some s'"
  shows "ending s' \<and> answers_left s' < answers_left s"
proof -
  have "i < unat (x_xfer_buf_num s)" using assms(1,2) by (simp add: stream_inv_def pc_ok_def Let_def)
  then show ?thesis
    using assms by (auto simp: submit_one_def ending_def answers_left_def Let_def split: if_splits)
qed

lemma events_left:
  assumes inv: "stream_inv base s" and e: "settling (EVENTS_DONE r) s" and "ending s"
    and s': "stream_exec usb tn (EVENTS_DONE r) s = Some s'"
  shows "ending s' \<and> answers_left s' < answers_left s"
proof (cases "x_pc s")
  case PC_EVENTS
  then have ok: "transfers_ok s" "x_async_status s = RTLSDR_CANCELING" "0 < unat (x_xfer_buf_num s)" and r: "r \<ge> 0"
    using stream_inv_running [OF inv] \<open>ending s\<close> e by (simp_all add: ending_def settling_def word_less_nat_alt)
  then have "xfer_at s 0 \<noteq> None" by (simp add: transfers_ok_def)
  then have "x_xfer s \<noteq> None" by (cases "x_xfer s") auto
  then have "s' = cancel_from 0 (s\<lparr>x_r := r, x_next_status := RTLSDR_INACTIVE\<rparr>)"
    using s' PC_EVENTS ok r by (auto simp: stream_exec_def events_handled_def Let_def)
  then show ?thesis
    using cancel_from_left [of "s\<lparr>x_r := r, x_next_status := RTLSDR_INACTIVE\<rparr>" 0] ok PC_EVENTS
    by (auto simp: answers_left_def [of s] Let_def transfers_ok_def split: if_splits)
next
  case (PC_SETTLE i r')
  have ok: "transfers_ok s" "x_async_status s = RTLSDR_CANCELING" "i < unat (x_xfer_buf_num s)"
    and passed: "\<forall>j < i. \<not> loose s j" "\<not> loose s i"
    using stream_inv_running [OF inv] \<open>ending s\<close> e PC_SETTLE by (simp_all add: ending_def settling_def pc_ok_def Let_def)
  define s1 where "s1 = (if r' < 0 then s else s\<lparr>x_next_status := RTLSDR_CANCELING\<rparr>)"
  have s1: "transfers_ok s1" "x_async_status s1 = RTLSDR_CANCELING" "x_xfer_buf_num s1 = x_xfer_buf_num s" "loose s1 j = loose s j"
    "x_next_status s1 \<noteq> RTLSDR_INACTIVE \<longleftrightarrow> x_next_status s \<noteq> RTLSDR_INACTIVE \<or> r' \<ge> 0" for j
    using ok by (auto simp: s1_def transfers_ok_def)
  have "ending (cancel_from (i + 1) s1) \<and> answers_left (cancel_from (i + 1) s1) \<le> 2 * (unat (x_xfer_buf_num s) - (i + 1)) + 1
      + (if (\<exists>i. loose s i) \<or> x_next_status s \<noteq> RTLSDR_INACTIVE \<or> r' \<ge> 0 then 2 * unat (x_xfer_buf_num s) + 2 else 0)"
    using cancel_from_left [of s1 "i + 1", OF s1(1,2) _ refl] ok(3) passed by (simp add: s1(3-5) less_Suc_eq cong: if_cong)
  moreover have "s' = cancel_from (i + 1) s1" using s' PC_SETTLE by (simp add: stream_exec_def settled_def s1_def)
  moreover have "answers_left s = 2 * (unat (x_xfer_buf_num s) - i)
      + (if (\<exists>i. loose s i) \<or> x_next_status s \<noteq> RTLSDR_INACTIVE \<or> r' \<ge> 0 then 2 * unat (x_xfer_buf_num s) + 2 else 0)"
    using PC_SETTLE by (simp add: answers_left_def Let_def)
  ultimately show ?thesis using ok(3) by (auto split: if_splits)
next
  case PC_LAST
  then have "x_pc s' = PC_IDLE" using s' read_finish_frame [of s s'] by (simp add: stream_exec_def)
  then show ?thesis using PC_LAST by (simp add: ending_def answers_left_def Let_def)
qed (use e in \<open>simp_all add: settling_def orderly_def libusb_allows_def\<close>)

lemma exec_left:
  assumes inv: "stream_inv base s" and e: "settling e s" and end_s: "ending s" and s': "stream_exec usb tn e s = Some s'"
  shows "ending s' \<and> answers_left s' + (if is_answer e then 1 else 0) \<le> answers_left s"
proof (cases e)
  case (XFER_DONE i st buf r)
  then have "flying s i" "pending s i \<longrightarrow> st = LIBUSB_TRANSFER_CANCELLED"
    using e by (auto simp: settling_def orderly_def libusb_allows_def)
  then have "st = LIBUSB_TRANSFER_COMPLETED \<Longrightarrow> loose s i" by (auto simp: flying_iff)
  then show ?thesis
    using answers_left_mono [of s' s] xfer_done_frame [of usb tn i st buf r s s'] end_s s' XFER_DONE by (auto simp: is_answer_def)
next
  case (SUBMITTED r)
  then obtain i where "x_pc s = PC_SUBMIT i"
    using e by (auto simp: settling_def orderly_def libusb_allows_def split: read_pc.splits)
  then show ?thesis
    using submit_left [OF inv _ end_s] s' SUBMITTED by (fastforce simp: stream_exec_def is_answer_def)
next
  case (CANCELED r)
  then obtain i where pc: "x_pc s = PC_CANCEL i" "r = (if loose s i then 0 else LIBUSB_ERROR_NOT_FOUND)"
    using e by (auto simp: settling_def orderly_def libusb_allows_def split: read_pc.splits)
  then have left: "loose s' j \<longleftrightarrow> loose s j \<and> j \<noteq> i" for j
    using s' CANCELED by (auto simp: stream_exec_def loose_canceled LIBUSB_ERROR_NOT_FOUND_def)
  show ?thesis
    using end_s s' pc CANCELED left
    by (auto simp: stream_exec_def ending_def answers_left_def is_answer_def LIBUSB_ERROR_NOT_FOUND_def Let_def)
next
  case (EVENTS_DONE r)
  then show ?thesis using events_left [OF inv _ end_s] e s' by (fastforce simp: is_answer_def)
next
  case CANCEL_CALL
  then show ?thesis using answers_left_mono [of s' s] end_s s' by (auto simp: stream_exec_def is_answer_def)
next
  case (OTHER a)
  then show ?thesis using answers_left_mono [of s' s] end_s s' by (auto simp: stream_exec_def is_answer_def)
next
  case (READ_CALL cb buf_num buf_len m)
  then show ?thesis using e by (simp add: settling_def)
qed

lemma run_left:
  assumes "stream_inv base s" "ending s" "along settling usb tn es s" "stream_run usb tn es s = Some s'"
  shows "stream_inv base s' \<and> ending s' \<and> answers_left s' + length (filter is_answer es) \<le> answers_left s"
  using assms
proof (induction es arbitrary: s)
  case (Cons e es)
  obtain s1 where s1: "stream_exec usb tn e s = Some s1" "stream_run usb tn es s1 = Some s'"
    using Cons.prems(4) by (auto split: bind_splits)
  have e: "settling e s" "along settling usb tn es s1" using Cons.prems(3) s1(1) by simp_all
  then have ord: "orderly e s" by (simp add: settling_def)
  have "stream_inv base s1" using stream_inv_exec [OF Cons.prems(1) ord, of usb tn] s1(1) by simp
  moreover have "ending s1" "answers_left s1 + (if is_answer e then 1 else 0) \<le> answers_left s"
    using exec_left [OF Cons.prems(1) e(1) Cons.prems(2) s1(1)] by auto
  ultimately show ?case using Cons.IH [OF _ _ e(2) s1(2)] by (auto split: if_splits)
qed simp

lemma stream_run_append: "stream_run usb tn (es @ fs) s = Option.bind (stream_run usb tn es s) (stream_run usb tn fs)"
  by (induction es arbitrary: s) (auto split: bind_splits)

lemma along_append:
  "stream_run usb tn es s = Some s' \<Longrightarrow> along P usb tn (es @ fs) s \<longleftrightarrow> along P usb tn es s \<and> along P usb tn fs s'"
  by (induction es arbitrary: s) (auto split: option.splits bind_splits)

lemma along_orderly: "along settling usb tn es s \<Longrightarrow> along orderly usb tn es s"
  by (induction es arbitrary: s) (auto simp: settling_def split: option.splits)

text \<open>libusb can finish the cancellations that are pending, and a run that has not returned can go on until it has.\<close>

lemma pending_finish:
  assumes "stream_inv base s"
  shows "\<exists>fs t. along settling usb tn fs s \<and> stream_run usb tn fs s = Some t \<and> x_pc t = x_pc s
    \<and> (\<forall>i. flying t i \<longrightarrow> flying s i) \<and> (\<forall>i < n. \<not> pending t i)"
  using assms
proof (induction n arbitrary: s)
  case 0
  then show ?case by (intro exI [of _ "[]"] exI [of _ s]) simp
next
  case (Suc n)
  obtain fs t where t: "along settling usb tn fs s" "stream_run usb tn fs s = Some t" "x_pc t = x_pc s"
    "\<forall>i. flying t i \<longrightarrow> flying s i" "\<forall>i < n. \<not> pending t i"
    using Suc.IH [OF Suc.prems] by blast
  show ?case
  proof (cases "pending t n")
    case False
    then show ?thesis using t by (intro exI [of _ fs] exI [of _ t]) (auto simp: less_Suc_eq)
  next
    case True
    let ?e = "XFER_DONE n LIBUSB_TRANSFER_CANCELLED [] 0"
    define u where "u = set_xfer n (\<lambda>_. \<lparr>t_status = LIBUSB_TRANSFER_CANCELLED, t_flying = False, t_canceled = False\<rparr>) t"
    have u: "stream_exec usb tn ?e t = Some u" by (simp add: callback_result u_def)
    have "settling ?e t" using True by (simp add: settling_def orderly_def libusb_allows_def flying_iff)
    then have "along settling usb tn (fs @ [?e]) s" "stream_run usb tn (fs @ [?e]) s = Some u"
      using t(1,2) u by (simp_all add: along_append [OF t(2)] stream_run_append)
    moreover have "\<not> pending u i" if "i < Suc n" for i
      using that t(5) by (auto simp: u_def pending_def xfer_at_set_xfer less_Suc_eq split: option.splits)
    moreover have "flying u i \<longrightarrow> flying s i" for i using t(4) by (simp add: u_def flying_set_xfer)
    ultimately show ?thesis using t(3) by (intro exI [of _ "fs @ [?e]"] exI [of _ u]) (simp add: u_def)
  qed
qed

lemma settling_progress:
  assumes inv: "stream_inv base s" and pc: "x_pc s \<noteq> PC_IDLE"
  shows "\<exists>fs t. along settling usb tn fs s \<and> stream_run usb tn fs s = Some t \<and> list_ex is_answer fs"
proof (cases "x_pc s = PC_LAST")
  case True
  obtain fs t where t: "along settling usb tn fs s" "stream_run usb tn fs s = Some t" "x_pc t = PC_LAST"
    "\<forall>i < unat (x_xfer_buf_num s). \<not> pending t i" "\<forall>i. flying t i \<longrightarrow> flying s i"
    using pending_finish [OF inv, of usb tn "unat (x_xfer_buf_num s)"] True by auto
  have "\<not> flying s i" if "\<not> i < unat (x_xfer_buf_num s)" for i
    using that flying_less stream_inv_running [OF inv pc] by blast
  then have "\<not> pending t i" for i using t(4,5) flying_iff by blast
  moreover have inv_t: "stream_inv base t"
    using stream_inv_run [OF inv along_orderly [OF t(1)]] t(2) by simp
  moreover have "settling (EVENTS_DONE 0) t" using t(3) by (simp add: settling_def orderly_def libusb_allows_def)
  ultimately obtain u where "stream_exec usb tn (EVENTS_DONE 0) t = Some u"
    using stream_inv_exec [OF inv_t, of "EVENTS_DONE 0" usb tn] by (auto simp: settling_def split: option.splits)
  with \<open>settling (EVENTS_DONE 0) t\<close> t(1,2) show ?thesis
    by (intro exI [of _ "fs @ [EVENTS_DONE 0]"] exI [of _ u]) (simp add: along_append [OF t(2)] stream_run_append is_answer_def)
next
  case False
  define e where "e = (case x_pc s of PC_SUBMIT i \<Rightarrow> SUBMITTED 0
    | PC_CANCEL i \<Rightarrow> CANCELED (if loose s i then 0 else LIBUSB_ERROR_NOT_FOUND) | _ \<Rightarrow> EVENTS_DONE 0)"
  have e: "settling e s" "is_answer e"
    using pc False
    by (cases "x_pc s"; simp add: e_def settling_def orderly_def libusb_allows_def is_answer_def LIBUSB_ERROR_NOT_FOUND_def flying_iff)+
  then obtain t where "stream_exec usb tn e s = Some t"
    using stream_inv_exec [OF inv, of e usb tn] False by (auto simp: settling_def split: option.splits)
  with e show ?thesis by (intro exI [of _ "[e]"] exI [of _ t]) simp
qed

lemma settling_returns:
  assumes "stream_inv base s" "ending s"
  shows "\<exists>fs t. along settling usb tn fs s \<and> stream_run usb tn fs s = Some t \<and> x_pc t = PC_IDLE \<and> x_async_status t = RTLSDR_INACTIVE"
  using assms
proof (induction "answers_left s" arbitrary: s rule: less_induct)
  case less
  show ?case
  proof (cases "x_pc s = PC_IDLE")
    case True
    then show ?thesis using less.prems by (intro exI [of _ "[]"] exI [of _ s]) (simp add: stream_inv_def)
  next
    case False
    obtain fs t where t: "along settling usb tn fs s" "stream_run usb tn fs s = Some t" "list_ex is_answer fs"
      using settling_progress [OF less.prems(1) False] by blast
    then have "0 < length (filter is_answer fs)" by (auto simp: list_ex_iff filter_empty_conv)
    then have "stream_inv base t" "ending t" "answers_left t < answers_left s"
      using run_left [OF less.prems t(1,2)] by linarith+
    then obtain gs u where "along settling usb tn gs t" "stream_run usb tn gs t = Some u" "x_pc u = PC_IDLE" "x_async_status u = RTLSDR_INACTIVE"
      using less.hyps by blast
    then show ?thesis
      using t by (intro exI [of _ "fs @ gs"] exI [of _ u]) (simp add: along_append [OF t(2)] stream_run_append)
  qed
qed

section \<open>Properties\<close>

definition stream_idle :: "'h stream \<Rightarrow> bool" where
  "stream_idle s \<longleftrightarrow> x_pc s = PC_IDLE \<and> x_async_status s = RTLSDR_INACTIVE \<and> x_xfer s = None \<and> x_xfer_buf s = None \<and> \<not> x_dev_lost s"

lemma stream_idle_inv: "stream_idle s \<Longrightarrow> stream_inv (mset (x_live s)) s"
  by (simp add: stream_idle_def stream_inv_def)

text \<open>A state for the examples: nothing allocated, the soft AGC off.\<close>

definition sim_stream :: "sim_hw stream" where
  "sim_stream = \<lparr>x_agc = sim_agc\<lparr>a_dev := sim_dev0\<rparr>, x_xfer_buf_num = 0, x_xfer_buf_len = 0, x_xfer = None, x_xfer_buf = None, x_cb = None,
     x_async_status = RTLSDR_INACTIVE, x_async_cancel = False, x_use_zerocopy = False, x_dev_lost = False, x_xfer_errors = 0,
     x_pc = PC_IDLE, x_r = 0, x_next_status = RTLSDR_INACTIVE, x_live = [], x_fresh = 0, x_delivered = []\<rparr>"

definition sim_mem :: mem_answers where
  "sim_mem = \<lparr>m_xfer = True, m_transfer = (\<lambda>_. True), m_xfer_buf = True, m_dev_mem = (\<lambda>i. i \<noteq> 1), m_malloc = (\<lambda>_. True)\<rparr>"

lemma sim_stream_idle: "stream_idle sim_stream"
  by (simp add: stream_idle_def sim_stream_def)

lemma sim_callback: "callback_block buf (sim_agc\<lparr>a_dev := sim_dev0\<rparr>) = Some (True, sim_agc\<lparr>a_dev := sim_dev0\<rparr>)"
  by (simp add: callback_block_def sim_dev0_def)

lemma upt_eval: "[0..<2] = [0, Suc 0]" "[Suc 0..<2] = [Suc 0]" "[0..<3] = [0, Suc 0, 2]" "[Suc 0..<3] = [Suc 0, 2]" "[2..<3] = [2]"
  by (simp_all add: upt_rec)

lemmas stream_eval =
  Let_def upt_eval sim_stream_def sim_mem_def sim_callback mem_ok_def settling_def orderly_def libusb_allows_def libusb_callback_def stream_exec_def rtlsdr_read_async_def
  rtlsdr_alloc_async_buffers_def alloc_transfers_def new_block_def set_buf_def free_block_def submit_one_def set_xfer_def
  events_handled_def cancel_from_def to_cancel_def settled_def read_finish_def rtlsdr_free_async_buffers_def rtlsdr_cancel_async_def
  hand_over_def transfer_failed_def flying_def pending_def loose_def LIBUSB_ERROR_NOT_FOUND_def LIBUSB_ERROR_INTERRUPTED_def ENOMEM_def

text \<open>Two buffers, the second without zero-copy memory; one block is received, then the stream is cancelled.\<close>

definition sim_session :: "stream_event list" where
  "sim_session = [READ_CALL (Some (\<lambda>_. False)) 2 512 sim_mem, SUBMITTED 0, SUBMITTED 0,
     XFER_DONE 0 LIBUSB_TRANSFER_COMPLETED [1, 2] 0, CANCEL_CALL, EVENTS_DONE 0,
     CANCELED 0, XFER_DONE 0 LIBUSB_TRANSFER_CANCELLED [] 0, EVENTS_DONE 0,
     CANCELED 0, XFER_DONE 1 LIBUSB_TRANSFER_CANCELLED [] 0, EVENTS_DONE 0, EVENTS_DONE 0, EVENTS_DONE 0]"

lemma sim_session_orderly: "along orderly usb tn sim_session sim_stream"
  by (simp add: sim_session_def stream_eval)

lemma sim_session_run: "\<exists>s. stream_run usb tn sim_session sim_stream = Some s \<and> x_pc s = PC_IDLE \<and> x_delivered s = [[1, 2]]"
  by (simp add: sim_session_def stream_eval)

text \<open>
  C12.  Memory safety of streaming.  In a run in which libusb behaves as its documentation says (in particular a cancellation is
  refused, with \<open>LIBUSB_ERROR_NOT_FOUND\<close>, exactly for a transfer that libusb does not have or is cancelling already, and a
  transfer being cancelled ends with the status \<open>LIBUSB_TRANSFER_CANCELLED\<close> at some later time), \<open>malloc\<close> succeeds, event
  handling does not fail, the device is not given up as lost and the AGC's counters do not overflow, of any length, with any interleaving of completions,
  cancellations, restarts and steps of the soft AGC, and whether or not zero-copy memory is available: no buffer is freed twice or
  by the wrong allocator, no null pointer is used, every transfer libusb has owns an allocated buffer, and when
  \<open>rtlsdr_read_async\<close> has returned all it allocated is freed and the device is inactive again.  The one exception:
  the last call of \<open>rtlsdr_read_async\<close> before it returns finds transfers that libusb is still cancelling, which are then
  freed; transfers that libusb has and was not asked to cancel are never freed.
\<close>

theorem stream_memory_safe:
  assumes "stream_idle s" "along orderly usb tn es s"
  shows "case stream_run usb tn es s of
      Some s' \<Rightarrow> (\<forall>i. flying s' i \<longrightarrow> (\<exists>b. buf_at s' i = Some b \<and> b \<in> set (x_live s')))
        \<and> (x_pc s' = PC_IDLE \<longrightarrow> stream_idle s' \<and> mset (x_live s') = mset (x_live s))
    | None \<Rightarrow> \<exists>ds r fs t. es = ds @ EVENTS_DONE r # fs \<and> stream_run usb tn ds s = Some t \<and> x_pc t = PC_LAST
        \<and> (\<exists>i. pending t i) \<and> (\<forall>i. flying t i \<longrightarrow> pending t i)"
proof (cases "stream_run usb tn es s")
  case None
  then show ?thesis
    using stream_inv_run [OF stream_idle_inv [OF assms(1)] assms(2)] stream_inv_last by (simp only: option.case) blast
next
  case (Some s')
  have inv: "stream_inv (mset (x_live s)) s'"
    using stream_inv_run [OF stream_idle_inv [OF assms(1)] assms(2)] Some by simp
  have "\<exists>b. buf_at s' i = Some b \<and> b \<in> set (x_live s')" if "flying s' i" for i
  proof -
    have "x_pc s' \<noteq> PC_IDLE" using inv that by (auto simp: stream_inv_def flying_xfer)
    then show ?thesis using stream_inv_running [OF inv] flying_less [OF _ that] owns_live by blast
  qed
  moreover have "x_pc s' = PC_IDLE \<longrightarrow> stream_idle s' \<and> mset (x_live s') = mset (x_live s)"
    using inv by (simp add: stream_inv_def stream_idle_def)
  ultimately show ?thesis using Some by simp
qed

theorem stream_memory_safe_witness:
  "stream_idle sim_stream \<and> along orderly sim_usb sim_tuners sim_session sim_stream
    \<and> (\<exists>s'. stream_run sim_usb sim_tuners sim_session sim_stream = Some s' \<and> stream_idle s' \<and> x_live s' = [])"
proof -
  obtain s' where "stream_run sim_usb sim_tuners sim_session sim_stream = Some s'" "x_pc s' = PC_IDLE"
    using sim_session_run by blast
  then show ?thesis
    using stream_memory_safe [OF sim_stream_idle sim_session_orderly, of sim_usb sim_tuners] sim_stream_idle sim_session_orderly [of sim_usb sim_tuners]
    by (auto simp: sim_stream_def)
qed

text \<open>
  C14.  The stream hands over exactly the blocks the soft AGC lets through, in the order of their completion, and its AGC
  makes a run of the soft AGC model on the completed blocks (so the properties of that model apply); with the AGC off
  the application gets every completed block.
\<close>

theorem stream_hands_over:
  assumes "stream_run usb tn es s = Some s'" "x_cb s = Some cb" "\<not> list_ex is_read es" "along libusb_allows usb tn es s"
  shows "agc_run usb tn (agc_trace es) (x_agc s) = Some (x_agc s')
    \<and> x_delivered s' = x_delivered s @ passed_blocks usb tn (agc_trace es) (x_agc s)
    \<and> (agc_state (x_agc s) = SOFTSTATE_OFF \<and> \<not> list_ex is_other es \<longrightarrow>
      x_delivered s' = x_delivered s @ concat (map completed_block es))"
  using stream_run_agc [OF assms] passed_blocks_off by auto

theorem stream_hands_over_witness:
  "\<exists>s s'. stream_run sim_usb sim_tuners (take 3 sim_session) sim_stream = Some s
    \<and> stream_run sim_usb sim_tuners (drop 3 sim_session) s = Some s' \<and> x_delivered s' = [[1, 2]]"
proof -
  have "\<exists>s s'. stream_run sim_usb sim_tuners (take 3 sim_session) sim_stream = Some s \<and> x_cb s = Some (\<lambda>_. False)
      \<and> agc_state (x_agc s) = SOFTSTATE_OFF \<and> x_delivered s = [] \<and> along libusb_allows sim_usb sim_tuners (drop 3 sim_session) s
      \<and> stream_run sim_usb sim_tuners (drop 3 sim_session) s = Some s'"
    by (simp add: sim_session_def stream_eval) (simp add: sim_dev0_def)
  then obtain s s' where s: "stream_run sim_usb sim_tuners (take 3 sim_session) sim_stream = Some s"
    "stream_run sim_usb sim_tuners (drop 3 sim_session) s = Some s'" "x_cb s = Some (\<lambda>_. False)"
    "agc_state (x_agc s) = SOFTSTATE_OFF" "x_delivered s = []" "along libusb_allows sim_usb sim_tuners (drop 3 sim_session) s"
    by blast
  moreover have "\<not> list_ex is_read (drop 3 sim_session)" "\<not> list_ex is_other (drop 3 sim_session)"
    "concat (map completed_block (drop 3 sim_session)) = [[1, 2]]"
    by (simp_all add: sim_session_def is_read_def is_other_def completed_block_def)
  ultimately show ?thesis using stream_hands_over [OF s(2,3)] by auto
qed

text \<open>
  C13.  \<open>rtlsdr_cancel_async\<close> ends the stream: when the status has become \<open>RTLSDR_CANCELING\<close> while transfers
  are submitted or awaited, then in a well-behaved run (libusb as documented, \<open>malloc\<close> succeeding, event handling that does not fail, no lost device and
  no overflow in the AGC, as for memory safety), in which no signal interrupts the event handling either,
  \<open>rtlsdr_read_async\<close> makes at most \<open>5 n + 4\<close> more calls of libusb for \<open>n\<close> transfers, however late libusb finishes the
  cancellations it accepts; after its return the status is \<open>RTLSDR_INACTIVE\<close>, and until then it can always go on to its return.
  A run that stops before stops at the last call, with a transfer that libusb is still cancelling (and which the code would free).
\<close>

theorem stream_cancel_returns:
  assumes "stream_idle s0" "along orderly usb tn es0 s0" "stream_run usb tn es0 s0 = Some s"
    "x_async_status s = RTLSDR_CANCELING" "x_pc s = PC_EVENTS \<or> (\<exists>i. x_pc s = PC_SUBMIT i)" "along settling usb tn es s"
  shows "case stream_run usb tn es s of
      Some s' \<Rightarrow> length (filter is_answer es) \<le> 5 * unat (x_xfer_buf_num s) + 4
        \<and> (x_pc s' = PC_IDLE \<longrightarrow> x_async_status s' = RTLSDR_INACTIVE)
        \<and> (\<exists>fs t. along settling usb tn (es @ fs) s \<and> stream_run usb tn (es @ fs) s = Some t
            \<and> x_pc t = PC_IDLE \<and> x_async_status t = RTLSDR_INACTIVE)
    | None \<Rightarrow> \<exists>ds r fs t. es = ds @ EVENTS_DONE r # fs \<and> stream_run usb tn ds s = Some t \<and> x_pc t = PC_LAST
        \<and> (\<exists>i. pending t i) \<and> (\<forall>i. flying t i \<longrightarrow> pending t i) \<and> length (filter is_answer ds) < 5 * unat (x_xfer_buf_num s) + 4"
proof -
  have inv: "stream_inv (mset (x_live s0)) s"
    using stream_inv_run [OF stream_idle_inv [OF assms(1)] assms(2)] assms(3) by simp
  have ending: "ending s" using assms(4,5) by (auto simp: ending_def)
  have bound: "answers_left s \<le> 5 * unat (x_xfer_buf_num s) + 4" using assms(5) by (auto simp: answers_left_def Let_def)
  show ?thesis
  proof (cases "stream_run usb tn es s")
    case None
    then obtain ds r fs t where t: "es = ds @ EVENTS_DONE r # fs" "stream_run usb tn ds s = Some t" "x_pc t = PC_LAST" "\<exists>i. pending t i"
      "stream_inv (mset (x_live s0)) t"
      using stream_inv_run [OF inv along_orderly [OF assms(6)]] by (simp only: option.case) blast
    then have "along settling usb tn ds s" using assms(6) along_append [OF t(2), of settling "EVENTS_DONE r # fs"] by simp
    then have "answers_left t + length (filter is_answer ds) \<le> answers_left s" using run_left [OF inv ending _ t(2)] by blast
    moreover have "answers_left t = 1" using t(3) by (simp add: answers_left_def Let_def)
    ultimately show ?thesis using None t bound stream_inv_last [OF t(5,3)] by (simp only: option.case) force
  next
    case (Some s')
    note left = run_left [OF inv ending assms(6) Some]
    then obtain fs t where t: "along settling usb tn fs s'" "stream_run usb tn fs s' = Some t" "x_pc t = PC_IDLE" "x_async_status t = RTLSDR_INACTIVE"
      using settling_returns [of _ s' usb tn] by blast
    then have "along settling usb tn (es @ fs) s \<and> stream_run usb tn (es @ fs) s = Some t"
      using assms(6) Some by (simp add: along_append [OF Some] stream_run_append)
    moreover have "x_pc s' = PC_IDLE \<longrightarrow> x_async_status s' = RTLSDR_INACTIVE" using left by (simp add: stream_inv_def)
    ultimately show ?thesis using Some left bound t(3,4) by (auto simp: option.case)
  qed
qed

theorem stream_cancel_returns_witness:
  "\<exists>s s'. stream_run sim_usb sim_tuners (take 5 sim_session) sim_stream = Some s
    \<and> stream_run sim_usb sim_tuners (drop 5 sim_session) s = Some s' \<and> x_pc s' = PC_IDLE
    \<and> length (filter is_answer (drop 5 sim_session)) \<le> 14"
proof -
  have "\<exists>s s'. stream_run sim_usb sim_tuners (take 5 sim_session) sim_stream = Some s \<and> x_async_status s = RTLSDR_CANCELING
      \<and> x_pc s = PC_EVENTS \<and> x_xfer_buf_num s = 2 \<and> along settling sim_usb sim_tuners (drop 5 sim_session) s
      \<and> stream_run sim_usb sim_tuners (drop 5 sim_session) s = Some s' \<and> x_pc s' = PC_IDLE"
    by (simp add: sim_session_def stream_eval)
  then obtain s s' where s: "stream_run sim_usb sim_tuners (take 5 sim_session) sim_stream = Some s" "x_async_status s = RTLSDR_CANCELING"
    "x_pc s = PC_EVENTS" "x_xfer_buf_num s = 2" "along settling sim_usb sim_tuners (drop 5 sim_session) s"
    "stream_run sim_usb sim_tuners (drop 5 sim_session) s = Some s'" "x_pc s' = PC_IDLE"
    by blast
  have "along orderly sim_usb sim_tuners (take 5 sim_session) sim_stream"
    using sim_session_orderly along_append [OF s(1), of orderly "drop 5 sim_session"] by simp
  then show ?thesis using stream_cancel_returns [OF sim_stream_idle _ s(1,2) _ s(5)] s by auto
qed

definition starving :: "'h stream \<Rightarrow> bool" where
  "starving s \<longleftrightarrow> x_pc s = PC_EVENTS \<and> x_async_status s = RTLSDR_RUNNING \<and> (\<forall>i. \<not> flying s i)"

definition unattended :: "stream_event \<Rightarrow> 'h stream \<Rightarrow> bool" where
  "unattended e s \<longleftrightarrow> libusb_allows e s \<and> e \<noteq> CANCEL_CALL \<and> (\<forall>r. e = EVENTS_DONE r \<longrightarrow> r \<ge> 0 \<or> r = LIBUSB_ERROR_INTERRUPTED)"

lemma starving_exec:
  assumes "starving s" "unattended e s"
  shows "\<exists>s'. stream_exec usb tn e s = Some s' \<and> starving s' \<and> x_delivered s' = x_delivered s"
proof (cases e)
  case (OTHER a)
  then obtain a' where "agc_exec usb tn a (x_agc s) = Some a'"
    using assms(2) by (cases a) (auto simp: unattended_def libusb_allows_def agc_exec_def)
  then show ?thesis using assms OTHER by (simp add: stream_exec_def starving_def)
next
  case (EVENTS_DONE r)
  then show ?thesis using assms by (auto simp: stream_exec_def starving_def unattended_def events_handled_def Let_def)
qed (use assms in \<open>auto simp: stream_exec_def starving_def unattended_def libusb_allows_def rtlsdr_read_async_def\<close>)

text \<open>
  C28.  A stream can starve: once every transfer has ended without being submitted again while the status is still
  \<open>RTLSDR_RUNNING\<close>, nothing is delivered any more and the loop does not end, as long as event handling reports no error other than an
  interruption by a signal, until the application calls \<open>rtlsdr_cancel_async\<close>.  Failed transfers are not submitted again, and the counter that should notice
  the loss is reset by every completed transfer.
\<close>

theorem stream_starves:
  assumes "starving s" "along unattended usb tn es s"
  shows "\<exists>s'. stream_run usb tn es s = Some s' \<and> x_pc s' = PC_EVENTS \<and> x_async_status s' = RTLSDR_RUNNING \<and> x_delivered s' = x_delivered s"
  using assms
proof (induction es arbitrary: s)
  case (Cons e es)
  then show ?case using starving_exec [of s e usb tn] by fastforce
qed (simp add: starving_def)

text \<open>Two buffers, two errors with a completed transfer between them.\<close>

definition sim_starved :: "stream_event list" where
  "sim_starved = [READ_CALL (Some (\<lambda>_. False)) 2 512 sim_mem, SUBMITTED 0, SUBMITTED 0,
     XFER_DONE 0 LIBUSB_TRANSFER_ERROR [] 0, XFER_DONE 1 LIBUSB_TRANSFER_COMPLETED [1, 2] 0, XFER_DONE 1 LIBUSB_TRANSFER_ERROR [] 0]"

theorem stream_starves_witness:
  "\<exists>s s'. along orderly sim_usb sim_tuners sim_starved sim_stream \<and> stream_run sim_usb sim_tuners sim_starved sim_stream = Some s
    \<and> stream_run sim_usb sim_tuners (replicate 100 (EVENTS_DONE 0)) s = Some s' \<and> x_async_status s' = RTLSDR_RUNNING \<and> x_delivered s' = [[1, 2]]"
proof -
  have "\<exists>s. stream_run sim_usb sim_tuners sim_starved sim_stream = Some s \<and> starving s \<and> x_delivered s = [[1, 2]]"
    by (simp add: sim_starved_def starving_def stream_eval word_le_nat_alt)
  moreover have "along orderly sim_usb sim_tuners sim_starved sim_stream"
    by (simp add: sim_starved_def stream_eval word_le_nat_alt)
  ultimately obtain s where s: "stream_run sim_usb sim_tuners sim_starved sim_stream = Some s" "starving s" "x_delivered s = [[1, 2]]"
    "along orderly sim_usb sim_tuners sim_starved sim_stream"
    by blast
  have "along unattended usb tn (replicate k (EVENTS_DONE 0)) t" if "starving t" for k usb tn and t :: "sim_hw stream"
    using that
  proof (induction k arbitrary: t)
    case (Suc k)
    then have "unattended (EVENTS_DONE 0) t" by (simp add: starving_def unattended_def libusb_allows_def)
    then show ?case using Suc starving_exec [of t "EVENTS_DONE 0" usb tn] by auto
  qed simp
  then show ?thesis using stream_starves [OF s(2), of sim_usb sim_tuners "replicate 100 (EVENTS_DONE 0)"] s by auto
qed

text \<open>
  C29.  libusb may refuse a cancellation because the transfer is already being cancelled.  The loop takes every refusal for
  a transfer that is not with libusb: with libusb behaving as documented and memory available, a run is
  possible in which a transfer is freed that libusb still has.
\<close>

theorem stream_frees_flying:
  assumes "stream_idle s" "mem_ok m"
  shows "\<exists>es. along libusb_allows usb tn es s \<and> stream_run usb tn (butlast es) s \<noteq> None \<and> stream_run usb tn es s = None
    \<and> hd es = READ_CALL cb 1 512 m \<and> (\<forall>r. EVENTS_DONE r \<in> set es \<longrightarrow> r = 0)"
proof -
  let ?es = "[READ_CALL cb 1 512 m, SUBMITTED 0, CANCEL_CALL, EVENTS_DONE 0, CANCELED 0, EVENTS_DONE 0,
    EVENTS_DONE 0, CANCELED (- 5), EVENTS_DONE 0, EVENTS_DONE 0]"
  define s1 where "s1 = s\<lparr>x_async_status := RTLSDR_RUNNING, x_async_cancel := False, x_cb := cb, x_xfer_buf_num := 1,
     x_xfer_buf_len := 512, x_pc := PC_SUBMIT 0, x_r := 0, x_next_status := RTLSDR_INACTIVE\<rparr>"
  obtain a l f z where alloc: "rtlsdr_alloc_async_buffers m s1 = Some (0, s1\<lparr>x_xfer := Some (new_transfers 1), x_xfer_buf := Some a,
       x_live := l, x_fresh := f, x_use_zerocopy := z\<rparr>)"
    "owns (mset (x_live s)) (s1\<lparr>x_xfer := Some (new_transfers 1), x_xfer_buf := Some a, x_live := l, x_fresh := f, x_use_zerocopy := z\<rparr>)"
    using alloc_owns [of s1 m] assms by (auto simp: s1_def stream_idle_def)
  obtain b where b: "a 0 = Some b" "b \<in> set l"
    using owns_live [OF alloc(2), of 0] by (auto simp: s1_def)
  note eval = stream_exec_def rtlsdr_read_async_def alloc(1) [unfolded s1_def] submit_one_def set_xfer_def new_transfers_def b
    rtlsdr_cancel_async_def events_handled_def cancel_from_def to_cancel_def settled_def read_finish_def rtlsdr_free_async_buffers_def
    flying_def libusb_allows_def Let_def
  have "stream_run usb tn (butlast ?es) s \<noteq> None" "stream_run usb tn ?es s = None" "along libusb_allows usb tn ?es s"
    using assms(1) by (simp_all add: stream_idle_def eval)
  then show ?thesis by (intro exI [of _ ?es]) simp
qed

theorem stream_frees_flying_witness:
  "\<exists>es. along libusb_allows sim_usb sim_tuners es sim_stream \<and> stream_run sim_usb sim_tuners es sim_stream = None
    \<and> hd es = READ_CALL None 1 512 sim_mem"
  using stream_frees_flying [OF sim_stream_idle, of sim_mem sim_usb sim_tuners None] by (auto simp: sim_mem_def mem_ok_def)

lemma idle_cancelling_exec:
  assumes "x_pc s = PC_IDLE" "x_async_status s = RTLSDR_CANCELING" "stream_exec usb tn e s = Some s'"
  shows "x_pc s' = PC_IDLE \<and> x_async_status s' = RTLSDR_CANCELING
    \<and> (libusb_allows e s \<and> x_xfer s = None \<longrightarrow> x_xfer s' = None \<and> x_dev_lost s' = x_dev_lost s)"
proof (cases e)
  case (XFER_DONE i st buf r)
  then show ?thesis
    using assms xfer_done_frame [of usb tn i st buf r s s'] by (auto simp: libusb_allows_def flying_def)
qed (use assms in \<open>auto simp: stream_exec_def rtlsdr_read_async_def rtlsdr_cancel_async_def\<close>)

lemma idle_cancelling_run:
  assumes "x_pc s = PC_IDLE" "x_async_status s = RTLSDR_CANCELING" "stream_run usb tn es s = Some s'"
  shows "x_pc s' = PC_IDLE \<and> x_async_status s' = RTLSDR_CANCELING
    \<and> (along libusb_allows usb tn es s \<and> x_xfer s = None \<longrightarrow> x_xfer s' = None \<and> x_dev_lost s' = x_dev_lost s)"
  using assms
proof (induction es arbitrary: s)
  case (Cons e es)
  then obtain t where t: "stream_exec usb tn e s = Some t" "stream_run usb tn es t = Some s'" by (auto split: bind_splits)
  with Cons.IH [of t] idle_cancelling_exec [OF Cons.prems(1,2) t(1)] show ?case by auto
qed simp

text \<open>
  C30.  A stream that leaves the loop while it is cancelling (event handling failed, or the device was lost) is never inactive
  again: every later \<open>rtlsdr_read_async\<close> on the device returns \<open>-2\<close> at once, whatever happens in between, and unless the
  device was lost \<open>rtlsdr_close\<close> waits for ever.
\<close>

theorem stream_stays_cancelling:
  assumes "x_pc s = PC_IDLE" "x_async_status s = RTLSDR_CANCELING" "stream_run usb tn es s = Some s'"
  shows "rtlsdr_read_async cb buf_num buf_len m s' = Some (Some (-2), s') \<and> rtlsdr_cancel_async s' = (-2, s')
    \<and> (along libusb_allows usb tn es s \<and> x_xfer s = None \<and> \<not> x_dev_lost s \<longrightarrow> rtlsdr_close usb tn s' = None)"
  using idle_cancelling_run [OF assms] by (simp add: rtlsdr_read_async_def rtlsdr_cancel_async_def rtlsdr_close_def)

theorem stream_stays_cancelling_witness:
  "\<exists>s. stream_run sim_usb sim_tuners [READ_CALL None 1 512 sim_mem, SUBMITTED 0, CANCEL_CALL, EVENTS_DONE 0, CANCELED 0,
      XFER_DONE 0 LIBUSB_TRANSFER_CANCELLED [] 0, EVENTS_DONE 0, EVENTS_DONE (- 1)] sim_stream = Some s
    \<and> rtlsdr_read_async None 1 512 sim_mem s = Some (Some (-2), s) \<and> rtlsdr_close sim_usb sim_tuners s = None"
proof -
  have "\<exists>s. stream_run sim_usb sim_tuners [READ_CALL None 1 512 sim_mem, SUBMITTED 0, CANCEL_CALL, EVENTS_DONE 0, CANCELED 0,
      XFER_DONE 0 LIBUSB_TRANSFER_CANCELLED [] 0, EVENTS_DONE 0, EVENTS_DONE (- 1)] sim_stream = Some s
    \<and> x_pc s = PC_IDLE \<and> x_async_status s = RTLSDR_CANCELING \<and> x_xfer s = None \<and> \<not> x_dev_lost s"
    by (simp add: stream_eval)
  then show ?thesis using stream_stays_cancelling [where es = "[]" and usb = sim_usb and tn = sim_tuners] by fastforce
qed

text \<open>
  \<open>_rtlsdr_alloc_async_buffers\<close> does not clear the pointers of zero-copy buffers it has freed, and
  \<open>rtlsdr_read_async\<close> ignores its result: when zero-copy memory runs out at the third of three buffers and the first
  \<open>malloc\<close> fails, a freed buffer is submitted to the kernel.
\<close>

lemma stream_submits_freed:
  assumes "stream_idle s" "x_live s = []"
    "m = \<lparr>m_xfer = True, m_transfer = (\<lambda>_. True), m_xfer_buf = True, m_dev_mem = (\<lambda>i. i < 2), m_malloc = (\<lambda>i. i \<noteq> 0)\<rparr>"
  shows "stream_run usb tn [READ_CALL cb 3 512 m, SUBMITTED 0] s \<noteq> None"
    and "stream_run usb tn [READ_CALL cb 3 512 m, SUBMITTED 0, SUBMITTED r] s = None"
  using assms by (simp_all add: stream_idle_def stream_eval)

end
