(* ===== verification/R82xx_Tune.thy ===== *)
theory R82xx_Tune
  imports R82xx
begin

text \<open>
  What the calls of the R820T/R828D driver achieve on a chip that answers: the PLL divider and the band filters
  after tuning, the gains the gain loops select, the bandwidth selected from the table.  All of it is proved on the shadow registers, whose
  agreement with the chip is the invariant of the theory \<open>R82xx\<close>.
\<close>

section \<open>The divider value\<close>

text \<open>The PLL divider as the data sheet reads registers 0x14 to 0x16, scaled by 65536.\<close>

definition pll_divider :: "(u8 \<Rightarrow> u8) \<Rightarrow> int" where
  "pll_divider regs =
     65536 * (4 * uint (regs 0x14 AND 0x3f) + uint (drop_bit 6 (regs 0x14)) + 13)
     + 256 * uint (regs 0x16) + uint (regs 0x15)"

lemma halvings_values:
  "halvings 2 = 0" "halvings 4 = 1" "halvings 8 = 2" "halvings 16 = 3" "halvings 32 = 4" "halvings 64 = 5"
  by code_simp+

lemma mix_div_found:
  assumes "27657 \<le> k" "k < 1770000"
  shows "\<exists>e. 1 \<le> e \<and> e \<le> 6 \<and> mix_div_loop k 3540000 1 = (2 ^ e, of_nat (e - 1))
    \<and> 1770000 \<le> k * 2 ^ e \<and> k * 2 ^ e < 3540000"
proof -
  have w: "wrap32 (k * 2) = k * 2" "wrap32 (k * 4) = k * 4" "wrap32 (k * 8) = k * 8" "wrap32 (k * 16) = k * 16"
    "wrap32 (k * 32) = k * 32" "wrap32 (k * 64) = k * 64"
    using assms by (simp_all add: wrap_simps)
  note steps = mix_div_loop.simps [of k _ "Suc 0"] mix_div_loop.simps [of k _ 2] numeral_2_eq_2 [symmetric]
    mix_div_loop.simps [of k _ 3] mix_div_loop.simps [of k _ 4] mix_div_loop.simps [of k _ 5] mix_div_loop.simps [of k _ 6] halvings_values w
  consider "885000 \<le> k" | "442500 \<le> k" "k < 885000" | "221250 \<le> k" "k < 442500" | "110625 \<le> k" "k < 221250"
    | "55313 \<le> k" "k < 110625" | "k < 55313"
    by linarith
  then show ?thesis
  proof cases
    case 1
    then show ?thesis using assms by (intro exI [of _ 1]) (simp add: steps)
  next
    case 2
    then show ?thesis using assms by (intro exI [of _ 2]) (simp add: steps)
  next
    case 3
    then show ?thesis using assms by (intro exI [of _ 3]) (simp add: steps)
  next
    case 4
    then show ?thesis using assms by (intro exI [of _ 4]) (simp add: steps)
  next
    case 5
    then show ?thesis using assms by (intro exI [of _ 5]) (simp add: steps)
  next
    case 6
    then show ?thesis using assms by (intro exI [of _ 6]) (simp add: steps)
  qed
qed

lemma vco_div_rounds:
  assumes "0 < x" "x < 2147483648" "0 \<le> f" "f * int m < 8589934592"
  shows "\<bar>2 * x * r82xx_vco_div x f m - 65536 * (f * int m)\<bar> \<le> x"
proof -
  have p: "0 \<le> f * int m" using assms(3) by simp
  then have "r82xx_vco_div x f m = (x + 65536 * (f * int m)) div (2 * x)"
    using assms by (simp add: r82xx_vco_div_def wrap_simps)
  moreover have "2 * x * (y div (2 * x)) = y - y mod (2 * x)" for y
    by (simp add: minus_mod_eq_mult_div [symmetric])
  ultimately have "2 * x * r82xx_vco_div x f m = x + 65536 * (f * int m) - (x + 65536 * (f * int m)) mod (2 * x)"
    by simp
  then show ?thesis
    using pos_mod_bound [of "2 * x" "x + 65536 * (f * int m)"] pos_mod_sign [of "2 * x" "x + 65536 * (f * int m)"] assms(1)
    by linarith
qed

lemma mix_div_range:
  assumes "27656500 \<le> f" "f < 1769999500"
  obtains e where "1 \<le> e" "e \<le> 6" "r82xx_mix_div 0 f = (2 ^ e, of_nat (e - 1))"
    "1769968000 \<le> f * 2 ^ e" "f * 2 ^ e \<le> 3540031000"
proof -
  define k where "k = (f + 500) div 1000"
  have k: "27657 \<le> k" "k < 1770000" "1000 * k \<le> f + 500" "f + 500 < 1000 * k + 1000"
    using assms unfolding k_def by linarith+
  have d: "r82xx_mix_div 0 f = mix_div_loop k 3540000 1"
    using assms by (simp add: r82xx_mix_div_def wrap_simps k_def)
  obtain e where e: "1 \<le> e" "e \<le> 6" "mix_div_loop k 3540000 1 = (2 ^ e, of_nat (e - 1))"
    "1770000 \<le> k * 2 ^ e" "k * 2 ^ e < 3540000"
    using mix_div_found [OF k(1,2)] by blast
  have p: "(0 :: int) < 2 ^ e" "(2 :: int) ^ e \<le> 64"
    using e(2) power_increasing [of e 6 "2 :: int"] by simp_all
  have "1000 * (k * 2 ^ e) \<le> f * 2 ^ e + 500 * 2 ^ e"
    using mult_right_mono [OF k(3), of "2 ^ e"] by (simp add: algebra_simps)
  moreover have "f * 2 ^ e + 500 * 2 ^ e \<le> 1000 * (k * 2 ^ e) + 1000 * 2 ^ e"
    using mult_right_mono [OF less_imp_le [OF k(4)], of "2 ^ e"] by (simp add: algebra_simps)
  ultimately have "1769968000 \<le> f * 2 ^ e" "f * 2 ^ e \<le> 3540031000"
    using e(4,5) p by linarith+
  then show thesis using that e d by simp
qed

lemma pll_values:
  assumes f: "27656500 \<le> f" "f < 1769999500"
    and x: "3541000000 * pr \<le> 256 * x" "x \<le> 60000000" "pr = 1 \<or> pr = 2"
  obtains e v where "1 \<le> e" "e \<le> 6" "r82xx_mix_div 0 f = (2 ^ e, of_nat (e - 1))"
    "1769968000 \<le> f * 2 ^ e" "f * 2 ^ e \<le> 3540031000"
    "r82xx_vco_div x f (2 ^ e) = v" "13 \<le> v div 65536" "v div 65536 \<le> 128 div pr - 1"
    "\<bar>2 * x * v - 65536 * (f * 2 ^ e)\<bar> \<le> x"
proof -
  obtain e where e: "1 \<le> e" "e \<le> 6" "r82xx_mix_div 0 f = (2 ^ e, of_nat (e - 1))"
    "1769968000 \<le> f * 2 ^ e" "f * 2 ^ e \<le> 3540031000"
    using mix_div_range [OF f] by blast
  define v where "v = r82xx_vco_div x f (2 ^ e)"
  have x0: "13832032 \<le> x" using x(1,3) by auto
  have v: "\<bar>2 * x * v - 65536 * (f * 2 ^ e)\<bar> \<le> x"
    using vco_div_rounds [of x f "2 ^ e"] x0 x(2) f e(5) by (simp add: v_def)
  have "13 * 65536 \<le> v"
  proof (rule ccontr)
    assume "\<not> 13 * 65536 \<le> v"
    then have "2 * x * v \<le> 2 * x * (13 * 65536)" using x0 by simp
    then show False using v e(4) x(2) by linarith
  qed
  moreover have "v < 128 div pr * 65536"
  proof (rule ccontr)
    assume "\<not> v < 128 div pr * 65536"
    then have "2 * x * (128 div pr * 65536) \<le> 2 * x * v" using x0 by simp
    then have "2 * x * (128 div pr * 65536) \<le> x + 65536 * 3540031000" using v e(5) by linarith
    then show False using x(3) x(1) by (elim disjE) simp_all
  qed
  ultimately have "13 \<le> v div 65536" "v div 65536 \<le> 128 div pr - 1"
    by (simp_all add: zle_div_iff zdiv_less_iff flip: zless_iff_Suc_zadd)
  then show thesis using that e v v_def by blast
qed

lemma reg_14_decodes:
  assumes "13 \<le> n" "n \<le> 127"
  shows "4 * uint (r82xx_reg_14 n AND 0x3f) + uint (drop_bit 6 (r82xx_reg_14 n)) + 13 = n"
proof -
  define ni si where "ni = (n - 13) div 4" and "si = (n - 13) mod 4"
  have b: "0 \<le> ni" "ni \<le> 28" "0 \<le> si" "si \<le> 3" "n = 4 * ni + si + 13"
    using assms by (simp_all add: ni_def si_def)
  have "r82xx_reg_14 n = word_of_int (ni + si * 64)"
    using assms b by (simp add: r82xx_reg_14_def c_quot_def wrap_simps Let_def flip: ni_def)
  then have "uint (r82xx_reg_14 n) = (ni + si * 64) mod 256"
    by (simp only: uint_word_of_int) simp
  then have "uint (r82xx_reg_14 n) = ni + si * 64"
    using b by simp
  then show ?thesis
    using b by (simp add: uint_and unsigned_drop_bit_eq and_low_bits drop_bit_eq_div uint_div_distrib)
qed

section \<open>What tuning changes\<close>

text \<open>
  \<open>frame J p q\<close>: between \<open>p\<close> and \<open>q\<close> only the shadow registers with an index in \<open>J\<close> and the bookkeeping of
  the PLL have changed.
\<close>

definition frame :: "nat set \<Rightarrow> 'd r82xx_state \<Rightarrow> 'd r82xx_state \<Rightarrow> bool" where
  "frame J p q \<longleftrightarrow>
     drv q = (drv p)\<lparr>r_regs := r_regs q, r_last_vco_curr := r_last_vco_curr q, r_has_lock := r_has_lock q,
       r_tuner_pll_set := r_tuner_pll_set q\<rparr>
     \<and> (\<forall>j. j \<notin> J \<longrightarrow> r_regs q ! j = r_regs p ! j)"

lemma frame_refl: "frame J p p"
  by (simp add: frame_def drv_def r82xx_priv.truncate_def)

lemma frame_trans: "frame J p q \<Longrightarrow> frame K q r \<Longrightarrow> frame (J \<union> K) p r"
  by (simp add: frame_def)

lemma frame_mono: "frame J p q \<Longrightarrow> J \<subseteq> K \<Longrightarrow> frame K p q"
  by (auto simp: frame_def)

lemma frame_marks [simp]:
  "frame J p (q\<lparr>r_tuner_pll_set := b\<rparr>) \<longleftrightarrow> frame J p q"
  "frame J p (q\<lparr>r_has_lock := b\<rparr>) \<longleftrightarrow> frame J p q"
  "frame J p (q\<lparr>r_last_vco_curr := c\<rparr>) \<longleftrightarrow> frame J p q"
  by (auto simp: frame_def drv_def r82xx_priv.truncate_def)

lemma frame_sel:
  assumes "frame J p q"
  shows "r_cfg q = r_cfg p" "r_xtal_cap_sel q = r_xtal_cap_sel p" "r_disable_dither q = r_disable_dither p"
    "r_int_freq q = r_int_freq p" "r_if_band_center_freq q = r_if_band_center_freq p" "r_sideband q = r_sideband p"
    "r_rf_freq q = r_rf_freq p" "r_tuner_harmonic q = r_tuner_harmonic p" "r_input q = r_input p"
    "j \<notin> J \<Longrightarrow> r_regs q ! j = r_regs p ! j"
  using assms by (simp_all add: frame_def drv_def r82xx_priv.truncate_def)

context rafael_chip
begin

lemma write_frame:
  assumes "ok p" "5 \<le> uint reg" "uint reg < 37"
  shows "frame {nat (uint reg - 5)} p (state_of (r82xx_write_reg_mask io reg v m) p)"
    and "frame {nat (uint reg - 5)} p (state_of (r82xx_write_reg io reg v) p)"
    and "r_regs (state_of (r82xx_write_reg io reg v) p) ! nat (uint reg - 5) = v"
    and "r_regs (state_of (r82xx_write_reg_mask io reg v m) p) ! nat (uint reg - 5) =
      masked (r_regs p ! nat (uint reg - 5)) m v"
proof -
  have l: "length (r_regs p) = 32" "nat (uint reg - 5) < 32"
    using assms by (simp_all add: shadow_ok_def bus_ok_def)
  have w: "r_regs (state_of (r82xx_write_reg io reg v) p) = (r_regs p)[nat (uint reg - 5) := v]"
    using arg_cong [OF write_reg(3) [OF assms, of v], of r_regs] by simp
  have m: "r_regs (state_of (r82xx_write_reg_mask io reg v m) p) =
      (r_regs p)[nat (uint reg - 5) := masked (r_regs p ! nat (uint reg - 5)) m v]"
    using arg_cong [OF write_reg_mask(3) [OF assms, of v m], of r_regs] by simp
  have k: "r_last_vco_curr (drv s) = r_last_vco_curr s" "r_has_lock (drv s) = r_has_lock s"
    "r_tuner_pll_set (drv s) = r_tuner_pll_set s" for s :: "'a r82xx_state"
    by (simp_all add: drv_def r82xx_priv.truncate_def)
  have f: "frame {i} p s" if "drv s = (drv p)\<lparr>r_regs := (r_regs p)[i := x]\<rparr>" for i s x
  proof -
    have "r_regs s = (r_regs p)[i := x]" "r_last_vco_curr s = r_last_vco_curr p" "r_has_lock s = r_has_lock p"
      "r_tuner_pll_set s = r_tuner_pll_set p"
      using arg_cong [OF that, of r_regs] arg_cong [OF that, of r_last_vco_curr] arg_cong [OF that, of r_has_lock]
        arg_cong [OF that, of r_tuner_pll_set] by (simp_all add: k)
    then show ?thesis using that by (simp add: frame_def flip: k)
  qed
  show "frame {nat (uint reg - 5)} p (state_of (r82xx_write_reg_mask io reg v m) p)"
    "frame {nat (uint reg - 5)} p (state_of (r82xx_write_reg io reg v) p)"
    using f [OF write_reg(3) [OF assms, of v]] f [OF write_reg_mask(3) [OF assms, of v m]] by simp_all
  show "r_regs (state_of (r82xx_write_reg io reg v) p) ! nat (uint reg - 5) = v"
    "r_regs (state_of (r82xx_write_reg_mask io reg v m) p) ! nat (uint reg - 5) =
      masked (r_regs p ! nat (uint reg - 5)) m v"
    using l w m by simp_all
qed

lemma read_frame: "ok p \<Longrightarrow> n \<le> 5 \<Longrightarrow> frame {} p (state_of (r82xx_read io reg n) p)"
  using status_read(4) [of p n reg] frame_refl [of "{}" p]
  by (simp add: frame_def) (simp add: drv_def r82xx_priv.truncate_def)

end

lemma masked_and:
  "m AND k = 0 \<Longrightarrow> masked old m v AND k = old AND k" "masked old m v AND m = v AND m"
  unfolding masked_def by (auto simp: bit_eq_iff bit_simps)

context rafael_chip
begin

text \<open>A call that succeeds, keeps the shadow and changes only the registers \<open>J\<close>.\<close>

abbreviation "goes J m p \<equiv> result_of m p = 0 \<and> ok (state_of m p) \<and> frame J p (state_of m p)"

lemma goes_then:
  "goes J m p \<Longrightarrow> goes K n (state_of m p) \<Longrightarrow> J \<union> K \<subseteq> L \<Longrightarrow> goes L (nonneg_then m n) p"
  using frame_mono [OF frame_trans [of J p "state_of m p" K "state_of n (state_of m p)"], of L] by auto

lemma goes_write:
  "ok p \<Longrightarrow> 5 \<le> uint reg \<Longrightarrow> uint reg < 37 \<Longrightarrow> nat (uint reg - 5) \<in> J \<Longrightarrow> goes J (r82xx_write_reg io reg v) p"
  "ok p \<Longrightarrow> 5 \<le> uint reg \<Longrightarrow> uint reg < 37 \<Longrightarrow> nat (uint reg - 5) \<in> J \<Longrightarrow> goes J (r82xx_write_reg_mask io reg v m) p"
  using frame_mono [OF write_frame(1) [of p reg v m], of J] frame_mono [OF write_frame(2) [of p reg v], of J]
  by (auto simp: write_reg write_reg_mask)

lemma goes_current: "ok p \<Longrightarrow> goes {13} (vco_current io c) p"
  using goes_write(2) [of p "0x12" "{13}" c "0xe0"] frame_refl [of "{13}" p]
  by (auto simp: vco_current_def)

lemma goes_mux:
  assumes p: "ok p" and rg: "rg = choose_range (uint f div 1000000) (hd freq_ranges) (tl freq_ranges)"
  shows "goes {11, 18, 21, 22} (r82xx_set_mux io f) p"
    and "r_regs (state_of (r82xx_set_mux io f) p) ! 18 AND 0x08 = fr_open_d rg AND 0x08"
    and "r_regs (state_of (r82xx_set_mux io f) p) ! 21 AND 0xc3 = fr_rf_mux_ploy rg AND 0xc3"
    and "r_regs (state_of (r82xx_set_mux io f) p) ! 22 = fr_tf_c rg"
proof -
  define p1 where "p1 = state_of (r82xx_write_reg_mask io 0x17 (fr_open_d rg) 0x08) p"
  define p2 where "p2 = state_of (r82xx_write_reg_mask io 0x1a (fr_rf_mux_ploy rg) 0xc3) p1"
  define p3 where "p3 = state_of (r82xx_write_reg io 0x1b (fr_tf_c rg)) p2"
  define p4 where "p4 = state_of (r82xx_write_reg_mask io 0x10 (xtal_cap_bits (r_xtal_cap_sel p) rg) 0x0b) p3"
  have 1: "goes {18} (r82xx_write_reg_mask io 0x17 (fr_open_d rg) 0x08) p" "ok p1" "frame {18} p p1"
    using goes_write(2) [OF p, of "0x17" "{18}"] by (simp_all add: p1_def)
  have 2: "goes {21} (r82xx_write_reg_mask io 0x1a (fr_rf_mux_ploy rg) 0xc3) p1" "ok p2" "frame {21} p1 p2"
    using goes_write(2) [OF 1(2), of "0x1a" "{21}"] by (simp_all add: p2_def)
  have 3: "goes {22} (r82xx_write_reg io 0x1b (fr_tf_c rg)) p2" "ok p3" "frame {22} p2 p3"
    using goes_write(1) [OF 2(2), of "0x1b" "{22}"] by (simp_all add: p3_def)
  have 4: "goes {11} (r82xx_write_reg_mask io 0x10 (xtal_cap_bits (r_xtal_cap_sel p) rg) 0x0b) p3" "frame {11} p3 p4"
    using goes_write(2) [OF 3(2), of "0x10" "{11}"] by (simp_all add: p4_def)
  have run: "run_state (r82xx_set_mux io f) p = (0, p4)"
    using 1(1) 2(1) 3(1) 4(1)
    by (simp add: r82xx_set_mux_def Let_def prod_eq_iff p4_def p3_def p2_def p1_def flip: rg)
  show "goes {11, 18, 21, 22} (r82xx_set_mux io f) p"
    using run 4(1) frame_mono [OF frame_trans [OF frame_trans [OF frame_trans [OF 1(3) 2(3)] 3(3)] 4(2)], of "{11, 18, 21, 22}"]
    by (simp add: p4_def)
  have v: "r_regs p1 ! 18 AND 0x08 = fr_open_d rg AND 0x08" "r_regs p2 ! 21 AND 0xc3 = fr_rf_mux_ploy rg AND 0xc3"
    "r_regs p3 ! 22 = fr_tf_c rg"
    using write_frame(4) [OF p, of "0x17"] write_frame(4) [OF 1(2), of "0x1a"] write_frame(3) [OF 2(2), of "0x1b"]
    by (simp_all add: p1_def p2_def p3_def masked_and)
  show "r_regs (state_of (r82xx_set_mux io f) p) ! 18 AND 0x08 = fr_open_d rg AND 0x08"
    "r_regs (state_of (r82xx_set_mux io f) p) ! 21 AND 0xc3 = fr_rf_mux_ploy rg AND 0xc3"
    "r_regs (state_of (r82xx_set_mux io f) p) ! 22 = fr_tf_c rg"
    using run v frame_sel(10) [OF 2(3)] frame_sel(10) [OF 3(3)] frame_sel(10) [OF 4(2)] by simp_all
qed

lemma goes_div:
  assumes p: "ok p"
  shows "goes {13, 15, 16, 17} (write_vco_div io nint sdm) p"
    and "r_regs (state_of (write_vco_div io nint sdm) p) ! 15 = r82xx_reg_14 nint"
    and "r_regs (state_of (write_vco_div io nint sdm) p) ! 16 = word_of_int (sdm AND 0xff)"
    and "r_regs (state_of (write_vco_div io nint sdm) p) ! 17 = word_of_int (sdm div 256)"
proof -
  define p1 where "p1 = state_of (r82xx_write_reg io 0x14 (r82xx_reg_14 nint)) p"
  define val where "val = (let val = (if sdm = 0 then 0x08 else 0x00)
    in if r_disable_dither p1 then val OR 0x10 else val :: u8)"
  define p2 where "p2 = state_of (r82xx_write_reg_mask io 0x12 val 0x18) p1"
  define p3 where "p3 = state_of (r82xx_write_reg io 0x16 (word_of_int (sdm div 256))) p2"
  define p4 where "p4 = state_of (r82xx_write_reg io 0x15 (word_of_int (sdm AND 0xff))) p3"
  have 1: "goes {15} (r82xx_write_reg io 0x14 (r82xx_reg_14 nint)) p" "ok p1" "frame {15} p p1"
    using goes_write(1) [OF p, of "0x14" "{15}"] by (simp_all add: p1_def)
  have 2: "goes {13} (r82xx_write_reg_mask io 0x12 val 0x18) p1" "ok p2" "frame {13} p1 p2"
    using goes_write(2) [OF 1(2), of "0x12" "{13}"] by (simp_all add: p2_def)
  have 3: "goes {17} (r82xx_write_reg io 0x16 (word_of_int (sdm div 256))) p2" "ok p3" "frame {17} p2 p3"
    using goes_write(1) [OF 2(2), of "0x16" "{17}"] by (simp_all add: p3_def)
  have 4: "goes {16} (r82xx_write_reg io 0x15 (word_of_int (sdm AND 0xff))) p3" "frame {16} p3 p4"
    using goes_write(1) [OF 3(2), of "0x15" "{16}"] by (simp_all add: p4_def)
  have run: "run_state (write_vco_div io nint sdm) p = (0, p4)"
    using 1(1) 2(1) 3(1) 4(1)
    by (simp add: write_vco_div_def prod_eq_iff p4_def p3_def p2_def val_def Let_def flip: p1_def)
  show "goes {13, 15, 16, 17} (write_vco_div io nint sdm) p"
    using run 4(1) frame_mono [OF frame_trans [OF frame_trans [OF frame_trans [OF 1(3) 2(3)] 3(3)] 4(2)], of "{13, 15, 16, 17}"]
    by (simp add: p4_def)
  have v: "r_regs p1 ! 15 = r82xx_reg_14 nint" "r_regs p3 ! 17 = word_of_int (sdm div 256)"
    "r_regs p4 ! 16 = word_of_int (sdm AND 0xff)"
    using write_frame(3) [OF p, of "0x14"] write_frame(3) [OF 2(2), of "0x16"] write_frame(3) [OF 3(2), of "0x15"]
    by (simp_all add: p1_def p3_def p4_def)
  show "r_regs (state_of (write_vco_div io nint sdm) p) ! 15 = r82xx_reg_14 nint"
    "r_regs (state_of (write_vco_div io nint sdm) p) ! 16 = word_of_int (sdm AND 0xff)"
    "r_regs (state_of (write_vco_div io nint sdm) p) ! 17 = word_of_int (sdm div 256)"
    using run v frame_sel(10) [OF 2(3)] frame_sel(10) [OF 3(3)] frame_sel(10) [OF 4(2)] by simp_all
qed

end

context locking_chip
begin

lemma lock_read:
  assumes "ok p" "3 \<le> n" "n \<le> 5"
  shows "snd (result_of (r82xx_read io reg n) p) ! 2 AND 0x40 \<noteq> 0"
proof -
  have b: "length (take n (drop 1 (r_buf p))) = n" "up (r_rtl_dev p)" "c_i2c_addr (r_cfg p) = addr"
    using assms by (simp_all add: shadow_ok_def bus_ok_def)
  then show ?thesis
    using assms status_lock [of "r_rtl_dev p" "take n (drop 1 (r_buf p))"]
      status_ack [of "r_rtl_dev p" "take n (drop 1 (r_buf p))"]
    by (simp add: r82xx_read_def split_beta)
qed

lemma goes_finish:
  assumes p: "ok p"
  shows "goes {21} (finish_pll io c0 c1) p"
    and "r_has_lock (state_of (finish_pll io c0 c1) p)"
    and "r_regs (state_of (finish_pll io c0 c1) p) ! 21 AND 0xc3 = r_regs p ! 21 AND 0xc3"
proof -
  define p1 where "p1 = p\<lparr>r_tuner_pll_set := True\<rparr>"
  define p2 where "p2 = (state_of (r82xx_read io 0x00 3) p1)\<lparr>r_has_lock := True\<rparr>"
  define p3 where "p3 = state_of (r82xx_write_reg_mask io 0x1a 0x08 0x08) p2"
  have 1: "ok p1" "frame {} p p1"
    using p by (simp_all add: p1_def frame_refl)
  have 2: "ok p2" "frame {} p1 p2" "r_has_lock p2"
    using status_read(3) [OF 1(1), of 3] read_frame [OF 1(1), of 3] by (simp_all add: p2_def)
  have 3: "goes {21} (r82xx_write_reg_mask io 0x1a 0x08 0x08) p2" "frame {21} p2 p3"
    using goes_write(2) [OF 2(1), of "0x1a" "{21}"] by (simp_all add: p3_def)
  have c: "run_state (check_lock io c0 c1) p1 =
      ((0, snd (result_of (r82xx_read io 0x00 3) p1)), state_of (r82xx_read io 0x00 3) p1)"
    using lock_read [OF 1(1), of 3 0] status_read(1) [OF 1(1), of 3 0] by (simp add: check_lock_def split_beta)
  have run: "run_state (finish_pll io c0 c1) p = (0, p3)"
    using 3(1) c lock_read [OF 1(1), of 3 0]
    by (simp add: finish_pll_def mark_pll_def mark_lock_def prod_eq_iff p3_def p2_def flip: p1_def)
  have "frame {21} p p3"
    using frame_trans [OF frame_trans [OF 1(2) 2(2)] 3(2)] by simp
  then show "goes {21} (finish_pll io c0 c1) p"
    using run 3(1) by (simp add: p3_def)
  have "r_has_lock p3"
    using arg_cong [OF write_reg_mask(3) [OF 2(1), of "0x1a" "0x08" "0x08"], of r_has_lock] 2(3)
    by (simp add: p3_def drv_def r82xx_priv.truncate_def)
  then show "r_has_lock (state_of (finish_pll io c0 c1) p)"
    using run by simp
  have "r_regs p3 ! 21 AND 0xc3 = r_regs p ! 21 AND 0xc3"
    using write_frame(4) [OF 2(1), of "0x1a"] frame_sel(10) [OF 1(2), of 21] frame_sel(10) [OF 2(2), of 21]
    by (simp add: p3_def masked_and)
  then show "r_regs (state_of (finish_pll io c0 c1) p) ! 21 AND 0xc3 = r_regs p ! 21 AND 0xc3"
    using run by simp
qed

end

context locking_chip
begin

lemma set_pll_tunes:
  assumes p: "ok p" and alg: "c_vco_algo (r_cfg p) = 0"
    and f: "27656500 \<le> uint freq" "uint freq < 1769999500"
    and x: "x = uint (c_xtal (r_cfg p))" "pr = vco_power_ref (c_rafael_chip (r_cfg p))"
      "3541000000 * pr \<le> 256 * x" "x \<le> 60000000"
  obtains e q v where "run_state (r82xx_set_pll io freq) p = (Some 0, q)" "ok q"
    "frame {11, 13, 15, 16, 17, 21} p q" "r_has_lock q"
    "r_regs q ! 21 AND 0xc3 = r_regs p ! 21 AND 0xc3"
    "1 \<le> e" "e \<le> 6" "1769968000 \<le> uint freq * 2 ^ e" "uint freq * 2 ^ e \<le> 3540031000"
    "\<bar>2 * x * v - 65536 * (uint freq * 2 ^ e)\<bar> \<le> x"
    "13 \<le> v div 65536" "v div 65536 \<le> 127"
    "r_regs q ! 15 = r82xx_reg_14 (v div 65536)" "r_regs q ! 16 = word_of_int (v mod 65536 AND 0xff)"
    "r_regs q ! 17 = word_of_int (v mod 65536 div 256)"
proof -
  have pr: "pr = 1 \<or> pr = 2" by (simp add: x(2) vco_power_ref_def)
  obtain e v where e: "1 \<le> e" "e \<le> 6" "r82xx_mix_div 0 (uint freq) = (2 ^ e, of_nat (e - 1))"
    "1769968000 \<le> uint freq * 2 ^ e" "uint freq * 2 ^ e \<le> 3540031000"
    and v: "r82xx_vco_div x (uint freq) (2 ^ e) = v" "13 \<le> v div 65536" "v div 65536 \<le> 128 div pr - 1"
      "\<bar>2 * x * v - 65536 * (uint freq * 2 ^ e)\<bar> \<le> x"
    using pll_values [OF f x(3,4) pr] by blast
  have v127: "v div 65536 \<le> 127" using v(3) pr by auto
  have w: "wrap8 (v div 65536) = v div 65536" "wrap32 (2 * x) \<noteq> 0" "\<not> v div 65536 > 128 div pr - 1"
    using v(2,3) v127 x(3,4) pr by (auto simp: wrap_simps)
  define c0 where "c0 = vco_curr_bits 0x80 (c_vco_curr_min (r_cfg p))"
  define c1 where "c1 = vco_curr_bits 0x60 (c_vco_curr_max (r_cfg p))"
  define p0 where "p0 = p\<lparr>r_tuner_pll_set := False\<rparr>"
  define p1 where "p1 = state_of (r82xx_write_reg_mask io 0x10 0x00 0x10) p0"
  define p2 where "p2 = state_of (r82xx_write_reg_mask io 0x1a 0x00 0x0c) p1"
  define p3 where "p3 = state_of (vco_current io c0) p2"
  define p4 where "p4 = state_of (r82xx_read io 0x00 5) p3"
  define data where "data = snd (result_of (r82xx_read io 0x00 5) p3)"
  define dn where "dn = adjust_div_num pr (data ! 4) (of_nat (e - 1))"
  define p5 where "p5 = state_of (r82xx_write_reg_mask io 0x10 (push_bit 5 dn) 0xe0) p4"
  define p6 where "p6 = state_of (write_vco_div io (v div 65536) (v mod 65536)) p5"
  define p7 where "p7 = state_of (finish_pll io c0 c1) p6"
  have 0: "ok p0" "frame {} p p0" using p by (simp_all add: p0_def frame_refl)
  have 1: "goes {11} (r82xx_write_reg_mask io 0x10 0x00 0x10) p0" "ok p1" "frame {11} p0 p1"
    using goes_write(2) [OF 0(1), of "0x10" "{11}"] by (simp_all add: p1_def)
  have 2: "goes {21} (r82xx_write_reg_mask io 0x1a 0x00 0x0c) p1" "ok p2" "frame {21} p1 p2"
    using goes_write(2) [OF 1(2), of "0x1a" "{21}"] by (simp_all add: p2_def)
  have 3: "goes {13} (vco_current io c0) p2" "ok p3" "frame {13} p2 p3"
    using goes_current [OF 2(2)] by (simp_all add: p3_def)
  have 4: "ok p4" "frame {} p3 p4" "fst (result_of (r82xx_read io 0x00 5) p3) = 0"
    using status_read(1,3) [OF 3(2), of 5] read_frame [OF 3(2), of 5] by (simp_all add: p4_def)
  have 5: "goes {11} (r82xx_write_reg_mask io 0x10 (push_bit 5 dn) 0xe0) p4" "ok p5" "frame {11} p4 p5"
    using goes_write(2) [OF 4(1), of "0x10" "{11}"] by (simp_all add: p5_def)
  have 6: "goes {13, 15, 16, 17} (write_vco_div io (v div 65536) (v mod 65536)) p5" "ok p6"
    "frame {13, 15, 16, 17} p5 p6"
    using goes_div(1) [OF 5(2)] by (simp_all add: p6_def)
  have 7: "goes {21} (finish_pll io c0 c1) p6" "ok p7" "frame {21} p6 p7" "r_has_lock p7"
    "r_regs p7 ! 21 AND 0xc3 = r_regs p6 ! 21 AND 0xc3"
    using goes_finish [OF 6(2)] by (simp_all add: p7_def)
  have runs: "run_state (r82xx_write_reg_mask io 0x10 0x00 0x10) p0 = (0, p1)"
    "run_state (r82xx_write_reg_mask io 0x1a 0x00 0x0c) p1 = (0, p2)" "run_state (vco_current io c0) p2 = (0, p3)"
    "run_state (r82xx_read io 0x00 5) p3 = ((0, data), p4)"
    "run_state (r82xx_write_reg_mask io 0x10 (push_bit 5 dn) 0xe0) p4 = (0, p5)"
    "run_state (write_vco_div io (v div 65536) (v mod 65536)) p5 = (0, p6)"
    "run_state (finish_pll io c0 c1) p6 = (0, p7)"
    using 1(1) 2(1) 3(1) 4(3) 5(1) 6(1) 7(1)
    by (simp_all add: prod_eq_iff p1_def p2_def p3_def p4_def p5_def p6_def p7_def data_def)
  have run: "run_state (r82xx_set_pll io freq) p = (Some 0, p7)"
    by (simp add: r82xx_set_pll_def mark_pll_def Let_def alg e(3) w v(1) runs x(1,2) [symmetric]
        p0_def [symmetric] c0_def [symmetric] c1_def [symmetric] dn_def [symmetric] del: One_nat_def)
  have fr: "frame {11, 13, 15, 16, 17, 21} p p7"
    by (rule frame_mono [OF frame_trans [OF frame_trans [OF frame_trans [OF frame_trans [OF frame_trans [OF
        frame_trans [OF frame_trans [OF 0(2) 1(3)] 2(3)] 3(3)] 4(2)] 5(3)] 6(3)] 7(3)]]) auto
  have r21: "r_regs p7 ! 21 AND 0xc3 = r_regs p ! 21 AND 0xc3"
    using 7(5) frame_sel(10) [OF 6(3), of 21] frame_sel(10) [OF 5(3), of 21] frame_sel(10) [OF 4(2), of 21]
      frame_sel(10) [OF 3(3), of 21] frame_sel(10) [OF 1(3), of 21] write_frame(4) [OF 1(2), of "0x1a" "0x00" "0x0c"]
    by (simp add: p2_def p0_def masked_and)
  have regs: "r_regs p7 ! 15 = r82xx_reg_14 (v div 65536)" "r_regs p7 ! 16 = word_of_int (v mod 65536 AND 0xff)"
    "r_regs p7 ! 17 = word_of_int (v mod 65536 div 256)"
    using goes_div(2-4) [OF 5(2), of "v div 65536" "v mod 65536"] frame_sel(10) [OF 7(3)] runs(6) by simp_all
  show thesis
    by (rule that [OF run 7(2) fr 7(4) r21 e(1,2,4,5) v(4,2) v127 regs])
qed

end

lemma lo_freq_value:
  assumes "r_sideband p = 0 \<or> r_sideband p = 1"
    and lo: "lo = uint freq + (if r_sideband p = 0 then 1 else -1) * uint (r_int_freq p) + r_if_band_center_freq p"
    and "0 \<le> lo" "lo < 18446744073709551616"
  shows "uint (r82xx_lo_freq p 0 freq) = lo"
proof -
  have "word_of_int (uint (r_int_freq p)) = (ucast (r_int_freq p) :: u64)"
    by (simp add: word_of_int_uint)
  then have "r82xx_lo_freq p 0 freq = word_of_int lo"
    using assms(1) by (auto simp: r82xx_lo_freq_def lo)
  then have "uint (r82xx_lo_freq p 0 freq) = lo mod 18446744073709551616"
    by (simp only: uint_word_of_int) simp
  then show ?thesis using assms(3,4) by simp
qed

context locking_chip
begin

lemma select_input_keeps:
  assumes "ok p"
  shows "result_of (r82xx_select_input io f 0) p = 0" "ok (state_of (r82xx_select_input io f 0) p)"
    "j \<noteq> 0 \<Longrightarrow> r_regs (state_of (r82xx_select_input io f 0) p) ! j = r_regs p ! j"
    "r_has_lock (state_of (r82xx_select_input io f 0) p) = r_has_lock p"
    "r_rf_freq (state_of (r82xx_select_input io f 0) p) = r_rf_freq p"
    "r_override_mask (state_of (r82xx_select_input io f 0) p) = r_override_mask p"
proof -
  define a :: u8 where "a = (if f > 345000000 then 0x00 else 0x60)"
  define p1 where "p1 = p\<lparr>r_input := a\<rparr>"
  have p1: "ok p1" using assms by (simp add: p1_def)
  note w = write_reg_mask [OF p1, of "0x05" a "0x60"] write_frame(1) [OF p1, of "0x05" a "0x60"]
  have "r_override_mask (state_of (r82xx_write_reg_mask io 0x05 a 0x60) p1) = r_override_mask p1"
    "r_has_lock (state_of (r82xx_write_reg_mask io 0x05 a 0x60) p1) = r_has_lock p1"
    "r_rf_freq (state_of (r82xx_write_reg_mask io 0x05 a 0x60) p1) = r_rf_freq p1"
    using arg_cong [OF w(3), of r_override_mask] arg_cong [OF w(3), of r_has_lock] arg_cong [OF w(3), of r_rf_freq]
    by (simp_all add: drv_def r82xx_priv.truncate_def)
  then show "result_of (r82xx_select_input io f 0) p = 0" "ok (state_of (r82xx_select_input io f 0) p)"
    "j \<noteq> 0 \<Longrightarrow> r_regs (state_of (r82xx_select_input io f 0) p) ! j = r_regs p ! j"
    "r_has_lock (state_of (r82xx_select_input io f 0) p) = r_has_lock p"
    "r_rf_freq (state_of (r82xx_select_input io f 0) p) = r_rf_freq p"
    "r_override_mask (state_of (r82xx_select_input io f 0) p) = r_override_mask p"
    using assms w(1,2) frame_sel(10) [OF w(4), of j]
    by (simp_all add: r82xx_select_input_def Let_def p1_def a_def)
qed

lemma freq_tunes:
  assumes p: "ok p" and alg: "c_vco_algo (r_cfg p) = 0" and fr: "0 < freq" "freq \<le> 1770000000"
    and lo: "lo = r82xx_lo_freq p 0 freq" "27656500 \<le> uint lo" "uint lo < 1769999500"
    and x: "x = uint (c_xtal (r_cfg p))" "pr = vco_power_ref (c_rafael_chip (r_cfg p))"
      "3541000000 * pr \<le> 256 * x" "x \<le> 60000000"
    and rg: "rg = choose_range (uint lo div 1000000) (hd freq_ranges) (tl freq_ranges)"
  obtains e q v where "run_state (r82xx_set_freq64 io freq) p = (Some 0, q)" "ok q"
    "r_has_lock q" "r_rf_freq q = freq" "r_override_mask q = r_override_mask p"
    "r_regs q ! 18 AND 0x08 = fr_open_d rg AND 0x08" "r_regs q ! 21 AND 0xc3 = fr_rf_mux_ploy rg AND 0xc3"
    "r_regs q ! 22 = fr_tf_c rg"
    "1 \<le> e" "e \<le> 6" "1769968000 \<le> uint lo * 2 ^ e" "uint lo * 2 ^ e \<le> 3540031000"
    "\<bar>2 * x * v - 65536 * (uint lo * 2 ^ e)\<bar> \<le> x"
    "13 \<le> v div 65536" "v div 65536 \<le> 127"
    "r_regs q ! 15 = r82xx_reg_14 (v div 65536)" "r_regs q ! 16 = word_of_int (v mod 65536 AND 0xff)"
    "r_regs q ! 17 = word_of_int (v mod 65536 div 256)"
proof -
  define p1 where "p1 = p\<lparr>r_tuner_pll_set := False, r_tuner_harmonic := 0, r_rf_freq := freq\<rparr>"
  define p2 where "p2 = state_of (r82xx_set_mux io lo) p1"
  have p1: "ok p1" using p by (simp add: p1_def)
  note m = goes_mux [OF p1 rg]
  have p2: "ok p2" "frame {11, 18, 21, 22} p1 p2" and rm: "run_state (r82xx_set_mux io lo) p1 = (0, p2)"
    using m(1) by (simp_all add: p2_def prod_eq_iff)
  have cfg: "r_cfg p2 = r_cfg p" using frame_sel(1) [OF p2(2)] by (simp add: p1_def)
  have u: "uint (ucast lo :: u32) = uint lo"
    using lo(2,3) by (simp add: unsigned_ucast_eq take_bit_int_eq_self)
  obtain e q v where q: "run_state (r82xx_set_pll io (ucast lo)) p2 = (Some 0, q)" "ok q"
    "frame {11, 13, 15, 16, 17, 21} p2 q" "r_has_lock q" "r_regs q ! 21 AND 0xc3 = r_regs p2 ! 21 AND 0xc3"
    and e: "1 \<le> e" "e \<le> 6" "1769968000 \<le> uint lo * 2 ^ e" "uint lo * 2 ^ e \<le> 3540031000"
      "\<bar>2 * x * v - 65536 * (uint lo * 2 ^ e)\<bar> \<le> x" "13 \<le> v div 65536" "v div 65536 \<le> 127"
    and r: "r_regs q ! 15 = r82xx_reg_14 (v div 65536)" "r_regs q ! 16 = word_of_int (v mod 65536 AND 0xff)"
      "r_regs q ! 17 = word_of_int (v mod 65536 div 256)"
    by (rule set_pll_tunes [OF p2(1), where freq = "ucast lo", unfolded cfg u, OF alg lo(2,3) x])
  define q' where "q' = state_of (r82xx_select_input io freq 0) q"
  note s = select_input_keeps [OF q(2), where f = freq, folded q'_def]
  have t: "run_state (r82xx_tune io False freq) p = (Inr (Some 0, lo), q)"
    using rm q(1) lo(1)
    by (simp add: r82xx_tune_def Let_def mark_pll_def harm_sideband_def harm_sideband_xor_def flip: p1_def)
  have run: "run_state (r82xx_set_freq64 io freq) p = (Some 0, q')"
  proof -
    have "\<not> 1770000000 < freq" "freq \<noteq> 0" using fr by (simp_all add: not_less)
    then show ?thesis
      using t q(4) s(1) by (simp add: r82xx_set_freq64_def pll_failed_def q'_def prod_eq_iff)
  qed
  have keep: "r_override_mask q' = r_override_mask p" "r_has_lock q'" "r_rf_freq q' = freq"
    using q(3,4) p2(2) s(4-6) by (simp_all add: frame_def drv_def r82xx_priv.truncate_def p1_def)
  have mux: "r_regs q' ! 18 AND 0x08 = fr_open_d rg AND 0x08" "r_regs q' ! 22 = fr_tf_c rg"
    "r_regs q' ! 21 AND 0xc3 = fr_rf_mux_ploy rg AND 0xc3"
    using m(2-4) frame_sel(10) [OF q(3), of 18] frame_sel(10) [OF q(3), of 22] q(5) s(3) by (simp_all add: p2_def)
  have regs: "r_regs q' ! 15 = r82xx_reg_14 (v div 65536)" "r_regs q' ! 16 = word_of_int (v mod 65536 AND 0xff)"
      "r_regs q' ! 17 = word_of_int (v mod 65536 div 256)"
    using r s(3) by simp_all
  show thesis
    by (rule that [OF run s(2) keep(2,3,1) mux(1,3,2) e regs])
qed

end

lemma divider_decodes:
  assumes "13 \<le> v div 65536" "v div 65536 \<le> 127"
    and "regs 0x14 = r82xx_reg_14 (v div 65536)" "regs 0x15 = word_of_int (v mod 65536 AND 0xff)"
      "regs 0x16 = word_of_int (v mod 65536 div 256)"
  shows "pll_divider regs = v"
proof -
  have "uint (regs 0x15) = v mod 65536 mod 256" "uint (regs 0x16) = v mod 65536 div 256"
    using assms(4,5) by (simp_all add: uint_word_of_int and_low_bits)
  then show ?thesis
    using reg_14_decodes [OF assms(1,2)] by (simp add: pll_divider_def assms(3))
qed

lemma shadow_view:
  assumes "shadow_ok addr up view p" "r_override_mask p = replicate 32 0" "5 \<le> uint r" "uint r < 32"
  shows "view (r_rtl_dev p) r = r_regs p ! nat (uint r - 5)"
proof -
  have "nat (uint r - 5) < 27" "(of_nat (nat (uint r - 5) + 5) :: u8) = r"
    using assms(3,4) by (simp_all add: nat_less_iff)
  moreover have "view (r_rtl_dev p) (of_nat (i + 5)) = r_regs p ! i" if "i < 27" for i
    using assms(1,2) that by (simp add: shadow_ok_def chip_byte_def)
  ultimately show ?thesis by metis
qed

text \<open>A state in which chip and shadow agree on zero.\<close>

definition rsim_ready :: "rsim r82xx_state" where
  "rsim_ready = rsim_state\<lparr>r_rtl_dev := rsim0\<lparr>rs_regs := (\<lambda>_. 0)\<rparr>, r_int_freq := 3570000\<rparr>"

lemma rsim_ready_ok: "shadow_ok 0x34 rsim_up rs_regs rsim_ready"
  by (simp add: shadow_ok_def bus_ok_def chip_byte_def rsim_ready_def rsim_state_def rsim_cfg_def rsim_up_def rsim0_def)

section \<open>Gains\<close>

text \<open>The gains along the loop of \<open>r82xx_get_rf_gain_index\<close>, LNA and mixer in turns.\<close>

definition rf_gain_path :: "int list" where
  "rf_gain_path = [0, 9, 14, 27, 37, 77, 87, 125, 144, 157, 166, 197, 207, 229, 254, 280, 297, 328, 338, 364,
     372, 386, 402, 421, 434, 439, 445, 480, 483, 496]"

lemma rf_gain_index_spec:
  "(case r82xx_get_rf_gain_index gain of (lna, mix) \<Rightarrow>
      r82xx_get_lna_gain_from_index (int lna) + r82xx_get_mixer_gain_from_index (int mix)) =
    (case find (\<lambda>g. gain \<le> g) rf_gain_path of Some g \<Rightarrow> g | None \<Rightarrow> 488)"
  by (simp add: r82xx_get_rf_gain_index_def rf_gain_path_def r82xx_lna_gain_steps_def r82xx_mixer_gain_steps_def
     eval_nat_numeral r82xx_get_lna_gain_from_index_def r82xx_get_mixer_gain_from_index_def gain_from_index_def Let_def)

lemma rf_gain_index_bound:
  "fst (r82xx_get_rf_gain_index gain) \<le> 15" "snd (r82xx_get_rf_gain_index gain) \<le> 15"
proof -
  have "fst (rf_gain_loop gain n t l m) \<le> n + l \<and> snd (rf_gain_loop gain n t l m) \<le> n + m" for n t l m
  proof (induction n arbitrary: t l m)
    case (Suc n)
    show ?case
      using Suc.IH [of "t + r82xx_lna_gain_steps ! Suc l + r82xx_mixer_gain_steps ! Suc m" "Suc l" "Suc m"]
      by (simp add: Let_def)
  qed simp
  from this [of 15 0 0 0]
  show "fst (r82xx_get_rf_gain_index gain) \<le> 15" "snd (r82xx_get_rf_gain_index gain) \<le> 15"
    by (simp_all add: r82xx_get_rf_gain_index_def)
qed

lemma masked_twice: "m AND k = 0 \<Longrightarrow> masked (masked old m a) k b AND (m OR k) = (a AND m) OR (b AND k)"
  unfolding masked_def by (auto simp: bit_eq_iff bit_simps)

lemma gain_bits: "masked (masked old 0x10 a) 0x0f b AND 0x1f = (a AND 0x10) OR (b AND 0x0f)"
  using masked_twice [of "0x10" "0x0f" old a b] by simp

context rafael_chip
begin

text \<open>The manual gain up to the IF mode: the four writes and the read between them.\<close>

lemma goes_manual:
  fixes l x :: u8
  assumes p: "ok p"
  defines "m \<equiv> nonneg_then (seq_masks io [(0x05, 0x10, 0x10), (0x07, 0x00, 0x10)])
      (nonneg_read (r82xx_read io 0x00 4) (\<lambda>_. seq_masks io [(0x05, l, 0x0f), (0x07, x, 0x0f)]))"
  shows "goes {0, 2} m p"
    and "r_regs (state_of m p) ! 0 AND 0x1f = 0x10 OR (l AND 0x0f)"
    and "r_regs (state_of m p) ! 2 AND 0x1f = x AND 0x0f"
proof -
  define p1 where "p1 = state_of (r82xx_write_reg_mask io 0x05 0x10 0x10) p"
  define p2 where "p2 = state_of (r82xx_write_reg_mask io 0x07 0x00 0x10) p1"
  define p3 where "p3 = state_of (r82xx_read io 0x00 4) p2"
  define p4 where "p4 = state_of (r82xx_write_reg_mask io 0x05 l 0x0f) p3"
  define p5 where "p5 = state_of (r82xx_write_reg_mask io 0x07 x 0x0f) p4"
  have 1: "run_state (r82xx_write_reg_mask io 0x05 0x10 0x10) p = (0, p1)" "ok p1" "frame {0} p p1"
    using goes_write(2) [OF p, of "0x05" "{0}"] by (simp_all add: p1_def prod_eq_iff)
  have 2: "run_state (r82xx_write_reg_mask io 0x07 0x00 0x10) p1 = (0, p2)" "ok p2" "frame {2} p1 p2"
    using goes_write(2) [OF 1(2), of "0x07" "{2}"] by (simp_all add: p2_def prod_eq_iff)
  have 3: "fst (result_of (r82xx_read io 0x00 4) p2) = 0" "state_of (r82xx_read io 0x00 4) p2 = p3" "ok p3" "frame {} p2 p3"
    using status_read(1,3) [OF 2(2), of 4] read_frame [OF 2(2), of 4] by (simp_all add: p3_def)
  have 4: "run_state (r82xx_write_reg_mask io 0x05 l 0x0f) p3 = (0, p4)" "ok p4" "frame {0} p3 p4"
    using goes_write(2) [OF 3(3), of "0x05" "{0}"] by (simp_all add: p4_def prod_eq_iff)
  have 5: "run_state (r82xx_write_reg_mask io 0x07 x 0x0f) p4 = (0, p5)" "ok p5" "frame {2} p4 p5"
    using goes_write(2) [OF 4(2), of "0x07" "{2}"] by (simp_all add: p5_def prod_eq_iff)
  have run: "run_state m p = (0, p5)"
    by (simp add: m_def seq_masks_def 1(1) 2(1) 3(1,2) 4(1) 5(1))
  have "frame {0, 2} p p5"
    by (rule frame_mono [OF frame_trans [OF frame_trans [OF frame_trans [OF frame_trans [OF 1(3) 2(3)] 3(4)] 4(3)] 5(3)]]) auto
  then show "goes {0, 2} m p" using run 5(2) by simp
  have "r_regs p5 ! 0 AND 0x1f = 0x10 OR (l AND 0x0f)"
    using write_frame(4) [OF p, of "0x05" "0x10" "0x10"] write_frame(4) [OF 3(3), of "0x05" l "0x0f"]
      frame_sel(10) [OF 2(3), of 0] frame_sel(10) [OF 3(4), of 0] frame_sel(10) [OF 5(3), of 0]
    by (simp add: p1_def [symmetric] p4_def [symmetric] gain_bits)
  moreover have "r_regs p5 ! 2 AND 0x1f = x AND 0x0f"
    using write_frame(4) [OF 1(2), of "0x07" "0x00" "0x10"] write_frame(4) [OF 4(2), of "0x07" x "0x0f"]
      frame_sel(10) [OF 3(4), of 2] frame_sel(10) [OF 4(3), of 2]
    by (simp add: p2_def [symmetric] p5_def [symmetric] gain_bits)
  ultimately show "r_regs (state_of m p) ! 0 AND 0x1f = 0x10 OR (l AND 0x0f)"
    "r_regs (state_of m p) ! 2 AND 0x1f = x AND 0x0f"
    using run by simp_all
qed

lemma if_mode_effect:
  fixes mode :: int
  assumes p: "ok p"
  defines "q \<equiv> state_of (r82xx_set_if_mode io mode) p"
  shows "result_of (r82xx_set_if_mode io mode) p =
      (0, if snd (if_mode_index mode) AND 0x10 \<noteq> 0 then 1 else 0)"
    and "ok q" and "r_regs q ! 7 AND 0x1f = word_of_int (snd (if_mode_index mode)) AND 0x1f"
    and "j \<noteq> 7 \<Longrightarrow> r_regs q ! j = r_regs p ! j"
    and "r_last_LNA_value q = r_last_LNA_value p" "r_last_Mixer_value q = r_last_Mixer_value p"
    and "r_last_if_mode q = fst (if_mode_index mode)" "r_last_VGA_value q = snd (if_mode_index mode)"
    and "r_override_mask q = r_override_mask p"
proof -
  define v :: u8 where "v = word_of_int (snd (if_mode_index mode))"
  define p1 where "p1 = state_of (r82xx_write_reg_mask io 0x0c v 0x1f) p"
  have 1: "run_state (r82xx_write_reg_mask io 0x0c v 0x1f) p = (0, p1)" "ok p1" "frame {7} p p1"
    using goes_write(2) [OF p, of "0x0c" "{7}"] by (simp_all add: p1_def prod_eq_iff)
  have q: "run_state (r82xx_set_if_mode io mode) p =
      ((0, if snd (if_mode_index mode) AND 0x10 \<noteq> 0 then 1 else 0),
       p1\<lparr>r_last_if_mode := fst (if_mode_index mode), r_last_VGA_value := snd (if_mode_index mode)\<rparr>)"
    using 1(1) by (simp add: r82xx_set_if_mode_def Let_def split_beta v_def)
  have d: "r_last_LNA_value p1 = r_last_LNA_value p" "r_last_Mixer_value p1 = r_last_Mixer_value p"
    "r_override_mask p1 = r_override_mask p"
    using 1(3) by (simp_all add: frame_def drv_def r82xx_priv.truncate_def)
  have "r_regs p1 ! 7 AND 0x1f = v AND 0x1f"
    using write_frame(4) [OF p, of "0x0c" v "0x1f"] by (simp add: p1_def [symmetric] masked_and)
  then show "r_regs q ! 7 AND 0x1f = word_of_int (snd (if_mode_index mode)) AND 0x1f"
    using q by (simp add: q_def v_def)
  show "result_of (r82xx_set_if_mode io mode) p =
      (0, if snd (if_mode_index mode) AND 0x10 \<noteq> 0 then 1 else 0)"
    "ok q" "j \<noteq> 7 \<Longrightarrow> r_regs q ! j = r_regs p ! j"
    "r_last_LNA_value q = r_last_LNA_value p" "r_last_Mixer_value q = r_last_Mixer_value p"
    "r_last_if_mode q = fst (if_mode_index mode)" "r_last_VGA_value q = snd (if_mode_index mode)"
    "r_override_mask q = r_override_mask p"
    using q d 1(2) frame_sel(10) [OF 1(3), of j] by (simp_all add: q_def)
qed

lemma manual_gain_effect:
  fixes gain :: int
  assumes p: "ok p"
  defines "q \<equiv> state_of (r82xx_set_gain io 1 gain 0 0 0 0 0) p"
  defines "i \<equiv> r82xx_get_rf_gain_index gain"
  shows "fst (result_of (r82xx_set_gain io 1 gain 0 0 0 0 0) p) = 0" and "ok q"
    and "r_last_LNA_value q = int (fst i)" "r_last_Mixer_value q = int (snd i)"
    and "r_regs q ! 0 AND 0x1f = 0x10 OR (of_nat (fst i) AND 0x0f)"
    and "r_regs q ! 2 AND 0x1f = of_nat (snd i) AND 0x0f"
    and "r_override_mask q = r_override_mask p"
proof -
  define m where "m = nonneg_then (seq_masks io [(0x05, 0x10, 0x10), (0x07, 0x00, 0x10)])
      (nonneg_read (r82xx_read io 0x00 4) (\<lambda>_.
        seq_masks io [(0x05, word_of_int (int (fst i)), 0x0f), (0x07, word_of_int (int (snd i)), 0x0f)]))"
  define p1 where "p1 = state_of m p"
  define p2 where "p2 = p1\<lparr>r_last_manual_gain := 1, r_last_extended_mode := 0, r_last_LNA_value := int (fst i),
    r_last_Mixer_value := int (snd i)\<rparr>"
  note g = goes_manual [OF p, of "word_of_int (int (fst i))" "word_of_int (int (snd i))", folded m_def]
  have 1: "run_state m p = (0, p1)" "ok p2" using g(1) by (simp_all add: p1_def p2_def prod_eq_iff)
  have run: "run_state (r82xx_set_gain io 1 gain 0 0 0 0 0) p = run_state (r82xx_set_if_mode io (r_last_if_mode p)) p2"
    using 1(1) by (simp add: r82xx_set_gain_def split_beta m_def p2_def i_def)
  note e = if_mode_effect [OF 1(2), where mode = "r_last_if_mode p"]
  have r: "r_regs p2 ! 0 AND 0x1f = 0x10 OR (of_nat (fst i) AND 0x0f)" "r_regs p2 ! 2 AND 0x1f = of_nat (snd i) AND 0x0f"
    "r_override_mask p2 = r_override_mask p"
    using g by (simp_all add: p2_def p1_def frame_def drv_def r82xx_priv.truncate_def)
  show "fst (result_of (r82xx_set_gain io 1 gain 0 0 0 0 0) p) = 0" "ok q"
    "r_last_LNA_value q = int (fst i)" "r_last_Mixer_value q = int (snd i)"
    "r_regs q ! 0 AND 0x1f = 0x10 OR (of_nat (fst i) AND 0x0f)"
    "r_regs q ! 2 AND 0x1f = of_nat (snd i) AND 0x0f" "r_override_mask q = r_override_mask p"
    using e r by (simp_all add: run q_def) (simp_all add: p2_def)
qed

end

lemma if_gain_index_spec:
  "r82xx_get_if_gain_index gain =
     (if gain \<le> -47 then 0 else if gain \<le> -21 then 2 else if gain \<le> 9 then 4 else if gain \<le> 44 then 6
      else if gain \<le> 57 then 8 else if gain \<le> 89 then 10 else if gain \<le> 123 then 12 else if gain \<le> 160 then 14
      else 16)"
  by (simp add: r82xx_get_if_gain_index_def VGA_BASE_GAIN_def r82xx_vga_gain_steps_def if_gain_loop.simps [of gain]
      eval_nat_numeral)

section \<open>Bandwidths\<close>

lemma choose_if_nearest:
  assumes "sorted_wrt (\<lambda>a b. if_edge a < if_edge b) (i # is)" "\<And>a. a \<in> set (i # is) \<Longrightarrow> even (if_edge a)"
    and "j \<in> set (i # is)"
  shows "\<bar>bw - if_edge (choose_if bw i is)\<bar> \<le> \<bar>bw - if_edge j\<bar>"
  using assms
proof (induction "is" arbitrary: i j)
  case Nil
  then show ?case by simp
next
  case (Cons i' "is")
  have m: "2 * ((if_edge i' + if_edge i) div 2) = if_edge i' + if_edge i" and lt: "if_edge i < if_edge i'"
    using Cons.prems(1,2) by auto
  show ?case
  proof (cases "bw < (if_edge i' + if_edge i) div 2")
    case True
    then have "if_edge i' \<le> if_edge j" if "j \<noteq> i"
      using that Cons.prems(1,3) by (auto intro: less_imp_le)
    then show ?thesis using True m lt by (cases "j = i") auto
  next
    case False
    have IH: "\<bar>bw - if_edge (choose_if bw i' is)\<bar> \<le> \<bar>bw - if_edge k\<bar>" if "k \<in> set (i' # is)" for k
      using Cons.IH [of i' k] Cons.prems(1,2) that by auto
    show ?thesis
    proof (cases "j = i")
      case True
      then show ?thesis using IH [of i'] False m lt by auto
    next
      case False': False
      then show ?thesis using IH [of j] Cons.prems(3) False by auto
    qed
  qed
qed

lemma choose_if_in: "choose_if bw i is \<in> set (i # is)"
  by (induction bw i "is" rule: choose_if.induct) auto

lemma IFi_props:
  "sorted_wrt (\<lambda>a b. if_edge a < if_edge b) IFi" "\<forall>a \<in> set IFi. even (if_edge a)"
  "\<forall>a \<in> set IFi. if_edge a = if_bw a * 1000 \<and> 0 < if_bw a \<and> if_bw a \<le> 5000
     \<and> 0 < if_fif a + if_fc a \<and> if_fif a + if_fc a \<le> 4000"
  "hd IFi # tl IFi = IFi"
  by (simp_all add: IFi_def if_edge_def)

context rafael_chip
begin

lemma bandwidth_effect:
  assumes p: "ok p" and b: "r82xx_bandwidth bw = (applied, r0a, r0b, r1e, ifreq)" and a: "app \<noteq> 0"
  obtains q where "run_state (r82xx_set_bandwidth io bw app) p = ((sint ifreq, applied), q)" "ok q"
    "r_int_freq q = ifreq" "r_regs q ! 5 AND 0x0f = r0a AND 0x0f" "r_regs q ! 6 AND 0xef = r0b AND 0xef"
    "r_regs q ! 25 AND 0x40 = r1e AND 0x40" "r_override_mask q = r_override_mask p"
proof -
  define p0 where "p0 = p\<lparr>r_int_freq := ifreq\<rparr>"
  define p1 where "p1 = state_of (r82xx_write_reg_mask io 0x0a r0a 0x0f) p0"
  define p2 where "p2 = state_of (r82xx_write_reg_mask io 0x0b r0b 0xef) p1"
  define p3 where "p3 = state_of (r82xx_write_reg_mask io 0x1e r1e 0x40) p2"
  have 0: "ok p0" using p by (simp add: p0_def)
  have 1: "run_state (r82xx_write_reg_mask io 0x0a r0a 0x0f) p0 = (0, p1)" "ok p1" "frame {5} p0 p1"
    using goes_write(2) [OF 0, of "0x0a" "{5}"] by (simp_all add: p1_def prod_eq_iff)
  have 2: "run_state (r82xx_write_reg_mask io 0x0b r0b 0xef) p1 = (0, p2)" "ok p2" "frame {6} p1 p2"
    using goes_write(2) [OF 1(2), of "0x0b" "{6}"] by (simp_all add: p2_def prod_eq_iff)
  have 3: "run_state (r82xx_write_reg_mask io 0x1e r1e 0x40) p2 = (0, p3)" "ok p3" "frame {25} p2 p3"
    using goes_write(2) [OF 2(2), of "0x1e" "{25}"] by (simp_all add: p3_def prod_eq_iff)
  have f: "r_int_freq p3 = ifreq" "r_override_mask p3 = r_override_mask p"
    using 1(3) 2(3) 3(3) by (simp_all add: frame_def drv_def r82xx_priv.truncate_def p0_def)
  have run: "run_state (r82xx_set_bandwidth io bw app) p = ((sint ifreq, applied), p3)"
    using a f(1) by (simp add: r82xx_set_bandwidth_def b r82xx_write_reg_mask_ext_def p0_def [symmetric] 1(1) 2(1) 3(1))
  have "r_regs p3 ! 5 AND 0x0f = r0a AND 0x0f" "r_regs p3 ! 6 AND 0xef = r0b AND 0xef"
    "r_regs p3 ! 25 AND 0x40 = r1e AND 0x40"
    using write_frame(4) [OF 0, of "0x0a" r0a "0x0f"] write_frame(4) [OF 1(2), of "0x0b" r0b "0xef"]
      write_frame(4) [OF 2(2), of "0x1e" r1e "0x40"] frame_sel(10) [OF 2(3), of 5] frame_sel(10) [OF 3(3), of 5]
      frame_sel(10) [OF 3(3), of 6]
    by (simp_all add: p1_def [symmetric] p2_def [symmetric] p3_def [symmetric] masked_and)
  then show thesis using that [OF run 3(2) f(1)] f(2) by simp
qed

end

section \<open>Properties\<close>

text \<open>
  C2. Tuning an R820T/R828D with the default PLL algorithm.  For an RF frequency up to 1770 MHz whose local oscillator
  \<open>lo\<close> (the frequency plus or minus the intermediate frequency, by the sideband, plus the band centre) lies between 27.6565 and
  1769.9995 MHz, and with no register overridden by the user, \<^const>\<open>r82xx_set_freq64\<close> returns 0 on a chip that answers and locks.  The PLL divider then in the registers of the chip is
  the nearest multiple of 1/65536 to the VCO frequency \<open>lo * 2 ^ e\<close> over twice the crystal frequency \<open>x\<close>, for a
  VCO frequency between 1769.968 and 3540.031 MHz, and the tracking filter and the multiplexer are those of the row of
  the range table the oscillator falls in.  The crystal may be any value up to 60 MHz for which the VCO range fits the divider (28.8
  MHz for the R820T, 16 MHz or more for the R828D).
\<close>

theorem r82xx_tunes:
  assumes chip: "locking_chip io addr up view" and p: "shadow_ok addr up view p" "r_override_mask p = replicate 32 0"
    and cfg: "c_vco_algo (r_cfg p) = 0" "x = uint (c_xtal (r_cfg p))"
      "3541000000 * vco_power_ref (c_rafael_chip (r_cfg p)) \<le> 256 * x" "x \<le> 60000000"
    and freq: "0 < freq" "freq \<le> 1770000000" "r_sideband p = 0 \<or> r_sideband p = 1"
    and lo: "lo = uint freq + (if r_sideband p = 0 then 1 else -1) * uint (r_int_freq p) + r_if_band_center_freq p"
      "27656500 \<le> lo" "lo < 1769999500"
  shows "\<exists>q e. run_state (r82xx_set_freq64 io freq) p = (Some 0, q) \<and> r_has_lock q \<and> r_rf_freq q = freq
    \<and> 1 \<le> e \<and> e \<le> 6 \<and> 1769968000 \<le> lo * 2 ^ e \<and> lo * 2 ^ e \<le> 3540031000
    \<and> \<bar>2 * x * pll_divider (view (r_rtl_dev q)) - 65536 * (lo * 2 ^ e)\<bar> \<le> x
    \<and> view (r_rtl_dev q) 0x1b = fr_tf_c (choose_range (lo div 1000000) (hd freq_ranges) (tl freq_ranges))
    \<and> view (r_rtl_dev q) 0x1a AND 0xc3 =
        fr_rf_mux_ploy (choose_range (lo div 1000000) (hd freq_ranges) (tl freq_ranges)) AND 0xc3"
proof -
  have u: "uint (r82xx_lo_freq p 0 freq) = lo"
    using lo_freq_value [OF freq(3) lo(1)] lo(2,3) by simp
  obtain e q v where q: "run_state (r82xx_set_freq64 io freq) p = (Some 0, q)" "shadow_ok addr up view q"
    "r_has_lock q" "r_rf_freq q = freq" "r_override_mask q = r_override_mask p"
    "r_regs q ! 18 AND 0x08 = fr_open_d (choose_range (lo div 1000000) (hd freq_ranges) (tl freq_ranges)) AND 0x08"
    "r_regs q ! 21 AND 0xc3 = fr_rf_mux_ploy (choose_range (lo div 1000000) (hd freq_ranges) (tl freq_ranges)) AND 0xc3"
    "r_regs q ! 22 = fr_tf_c (choose_range (lo div 1000000) (hd freq_ranges) (tl freq_ranges))"
    and e: "1 \<le> e" "e \<le> 6" "1769968000 \<le> lo * 2 ^ e" "lo * 2 ^ e \<le> 3540031000"
      "\<bar>2 * x * v - 65536 * (lo * 2 ^ e)\<bar> \<le> x"
    and v: "13 \<le> v div 65536" "v div 65536 \<le> 127"
    and r: "r_regs q ! 15 = r82xx_reg_14 (v div 65536)" "r_regs q ! 16 = word_of_int (v mod 65536 AND 0xff)"
      "r_regs q ! 17 = word_of_int (v mod 65536 div 256)"
    by (rule locking_chip.freq_tunes [OF chip p(1) cfg(1) freq(1,2) refl, unfolded u, OF lo(2,3) cfg(2) refl cfg(3,4) refl])
  note vw = shadow_view [OF q(2) q(5) [unfolded p(2)]]
  have "pll_divider (view (r_rtl_dev q)) = v"
    using r by (intro divider_decodes [OF v]) (simp_all add: vw)
  then show ?thesis
    using q e by (intro exI [of _ q] exI [of _ e]) (simp add: vw)
qed

theorem r82xx_tunes_witness:
  "\<exists>q e. run_state (r82xx_set_freq64 rsim_io 100000000) rsim_ready = (Some 0, q) \<and> r_has_lock q
    \<and> 1 \<le> e \<and> e \<le> 6
    \<and> \<bar>57600000 * pll_divider (rs_regs (r_rtl_dev q)) - 65536 * (103570000 * 2 ^ e)\<bar> \<le> 28800000
    \<and> rs_regs (r_rtl_dev q) 0x1b = 0x34"
  using r82xx_tunes [OF rsim.locking_chip_axioms rsim_ready_ok, of 28800000 100000000 103570000]
  by (simp add: rsim_ready_def rsim_state_def rsim_cfg_def vco_power_ref_def freq_ranges_def) blast

text \<open>
  C39. Setting a manual gain on an R820T/R828D that answers, with no register overridden by the user, returns 0 and selects, for any requested gain, the smallest of the 30 gains
  along the alternating LNA and mixer steps that is at least the requested one, as \<^const>\<open>r82xx_get_rf_gain\<close> reports it; beyond
  49.6 dB it selects 48.8 dB, because the last mixer step is negative.  The chip has automatic gain switched off in both stages and
  the two selected indices in the low nibbles of registers 5 and 7.
\<close>

theorem r82xx_manual_gain:
  assumes chip: "rafael_chip io addr up view" and p: "shadow_ok addr up view p" "r_override_mask p = replicate 32 0"
  shows "\<exists>q vga. run_state (r82xx_set_gain io 1 gain 0 0 0 0 0) p = ((0, vga), q)
    \<and> r82xx_get_rf_gain q = (case find (\<lambda>g. gain \<le> g) rf_gain_path of Some g \<Rightarrow> g | None \<Rightarrow> 488)
    \<and> view (r_rtl_dev q) 0x05 AND 0x1f = 0x10 OR word_of_int (r_last_LNA_value q)
    \<and> view (r_rtl_dev q) 0x07 AND 0x1f = word_of_int (r_last_Mixer_value q)"
proof -
  define q where "q = state_of (r82xx_set_gain io 1 gain 0 0 0 0 0) p"
  note e = rafael_chip.manual_gain_effect [OF chip p(1), of gain, folded q_def]
  have w: "(of_nat n :: u8) AND 0x0f = of_nat n" if "n \<le> 15" for n
  proof -
    have "(of_nat n :: u8) AND 0x0f = take_bit 4 (of_nat n)"
      by (simp add: take_bit_eq_mask mask_eq_exp_minus_1)
    also have "\<dots> = of_nat n"
      using that by (simp only: take_bit_of_nat) (simp add: take_bit_nat_eq_self)
    finally show ?thesis .
  qed
  have "r82xx_get_rf_gain q = (case find (\<lambda>g. gain \<le> g) rf_gain_path of Some g \<Rightarrow> g | None \<Rightarrow> 488)"
    using rf_gain_index_spec [of gain] e(3,4) by (simp add: r82xx_get_rf_gain_def split_beta)
  then show ?thesis
    using e shadow_view [OF e(2) e(7) [unfolded p(2)]] rf_gain_index_bound [of gain]
    by (intro exI [of _ q] exI [of _ "snd (result_of (r82xx_set_gain io 1 gain 0 0 0 0 0) p)"])
      (simp add: w q_def prod_eq_iff)
qed

theorem r82xx_manual_gain_witness:
  "r82xx_get_rf_gain (state_of (r82xx_set_gain rsim_io 1 300 0 0 0 0 0) rsim_ready) = 328"
  using r82xx_manual_gain [OF rsim.rafael_chip_axioms rsim_ready_ok, of 300]
  by (auto simp: rsim_ready_def rsim_state_def rf_gain_path_def)

text \<open>
  A bandwidth of at most 4.5 MHz selects a row of the filter table that is nearest to it.  With \<open>apply\<close> zero only the selected
  bandwidth is reported and the state stays; otherwise the call returns the intermediate frequency of the row, stores it for the next tuning, and the filter
  bits of registers 0x0a, 0x0b and 0x1e of the chip are those of the row.
\<close>

theorem r82xx_bandwidth_nearest:
  assumes chip: "rafael_chip io addr up view" and p: "shadow_ok addr up view p" "r_override_mask p = replicate 32 0"
    and bw: "bw \<le> 4500000" and app: "app \<noteq> 0"
  shows "\<exists>q i. i \<in> set IFi \<and> (\<forall>j \<in> set IFi. \<bar>bw - 1000 * if_bw i\<bar> \<le> \<bar>bw - 1000 * if_bw j\<bar>)
    \<and> run_state (r82xx_set_bandwidth io bw 0) p = ((0, word_of_int (1000 * if_bw i)), p)
    \<and> run_state (r82xx_set_bandwidth io bw app) p = ((1000 * (if_fif i + if_fc i), word_of_int (1000 * if_bw i)), q)
    \<and> uint (r_int_freq q) = 1000 * (if_fif i + if_fc i)
    \<and> view (r_rtl_dev q) 0x0a AND 0x0f = if_reg10Lo i AND 0x0f
    \<and> view (r_rtl_dev q) 0x0b AND 0xef = if_reg11 i AND 0xef
    \<and> view (r_rtl_dev q) 0x1e AND 0x40 = if_reg30Hi i AND 0x40"
proof -
  define i where "i = choose_if bw (hd IFi) (tl IFi)"
  have i: "i \<in> set IFi" using choose_if_in [of bw "hd IFi" "tl IFi"] IFi_props(4) by (simp add: i_def)
  have n: "\<bar>bw - 1000 * if_bw i\<bar> \<le> \<bar>bw - 1000 * if_bw j\<bar>" if "j \<in> set IFi" for j
    using choose_if_nearest [of "hd IFi" "tl IFi" j bw] IFi_props(1,2,3) i that
    unfolding IFi_props(4) i_def [symmetric] by (simp add: mult.commute)
  have b: "r82xx_bandwidth bw = (word_of_int (1000 * if_bw i), if_reg10Lo i, if_reg11 i, if_reg30Hi i,
      word_of_int (1000 * (if_fif i + if_fc i)))"
    using bw by (simp add: r82xx_bandwidth_def Let_def mult.commute flip: i_def)
  have f: "sint (word_of_int (1000 * (if_fif i + if_fc i)) :: u32) = 1000 * (if_fif i + if_fc i)"
    "uint (word_of_int (1000 * (if_fif i + if_fc i)) :: u32) = 1000 * (if_fif i + if_fc i)"
    using bspec [OF IFi_props(3) i]
    by (simp_all only: signed_of_int uint_word_of_int) (simp_all add: signed_take_bit_int_eq_self)
  obtain q where q: "run_state (r82xx_set_bandwidth io bw app) p =
      ((1000 * (if_fif i + if_fc i), word_of_int (1000 * if_bw i)), q)" "shadow_ok addr up view q"
    "r_int_freq q = word_of_int (1000 * (if_fif i + if_fc i))" "r_regs q ! 5 AND 0x0f = if_reg10Lo i AND 0x0f"
    "r_regs q ! 6 AND 0xef = if_reg11 i AND 0xef" "r_regs q ! 25 AND 0x40 = if_reg30Hi i AND 0x40"
    "r_override_mask q = r_override_mask p"
    by (rule rafael_chip.bandwidth_effect [OF chip p(1) b app, unfolded f])
  have "run_state (r82xx_set_bandwidth io bw 0) p = ((0, word_of_int (1000 * if_bw i)), p)"
    by (simp add: r82xx_set_bandwidth_def b)
  moreover note vw = shadow_view [OF q(2) q(7) [unfolded p(2)]]
  ultimately show ?thesis
    using i n q f(2) by (intro exI [of _ q] exI [of _ i]) (simp add: vw)
qed

theorem r82xx_bandwidth_nearest_witness:
  "\<exists>q. run_state (r82xx_set_bandwidth rsim_io 500000 1) rsim_ready = ((1788000, 470000), q)
    \<and> rs_regs (r_rtl_dev q) 0x0b AND 0xef = 0xe9"
proof -
  obtain q i where q: "i \<in> set IFi" "\<forall>j \<in> set IFi. \<bar>500000 - 1000 * if_bw i\<bar> \<le> \<bar>500000 - 1000 * if_bw j\<bar>"
    "run_state (r82xx_set_bandwidth rsim_io 500000 1) rsim_ready =
      ((1000 * (if_fif i + if_fc i), word_of_int (1000 * if_bw i)), q)"
    "rs_regs (r_rtl_dev q) 0x0b AND 0xef = if_reg11 i AND 0xef"
    using r82xx_bandwidth_nearest [OF rsim.rafael_chip_axioms rsim_ready_ok, of 500000 1]
    by (auto simp: rsim_ready_def rsim_state_def)
  then have "i = IFi ! 3"
    by (auto simp: IFi_def)
  then show ?thesis using q(3,4) by (simp add: IFi_def)
qed

text \<open>
  The IF gain of an R820T/R828D.  The loop of \<^const>\<open>r82xx_get_if_gain_index\<close> advances the index twice per round and
  adds only every other step, so it returns even indices whose gain is far above the one requested (30.0 dB for 10.0 dB, in tenths below),
  and for more than 16.0 dB the index 16, which hands the amplifier to the AGC pin instead of setting a gain.
\<close>

theorem r82xx_if_gain_doubles:
  "r82xx_get_if_gain_index gain =
     (if gain \<le> -47 then 0 else if gain \<le> -21 then 2 else if gain \<le> 9 then 4 else if gain \<le> 44 then 6
      else if gain \<le> 57 then 8 else if gain \<le> 89 then 10 else if gain \<le> 123 then 12 else if gain \<le> 160 then 14
      else 16)
   \<and> r82xx_get_vga_gain_from_index (int (r82xx_get_if_gain_index 100)) = 300
   \<and> if_mode_index 200 = (200, 16) \<and> if_mode_index 0 = (0, 16)"
  by (simp add: if_gain_index_spec if_mode_index_def r82xx_get_vga_gain_from_index_def gain_from_index_def
      VGA_BASE_GAIN_def r82xx_vga_gain_steps_def)

end
