(* ===== verification/Rtl_R820t.thy ===== *)
theory Rtl_R820t
  imports Rtl_Api R82xx_Tune
begin

text \<open>
  The functions of \<^verbatim>\<open>src/librtlsdr/src/librtlsdr.c\<close> that plug the R820T/R828D driver into the library, and the
  calls of the library that exist for these tuners only: band centre, sideband, extended gain, IF mode, dithering,
  harmonic reception, register overrides.  Changing the bandwidth, the band centre or the sideband moves the intermediate frequency, so
  these functions also set it in the demodulator and tune again; the call of \<open>rtlsdr_set_center_freq64\<close> is the argument
  \<open>recenter\<close>.  \<open>None\<close> is a call that stops the program.
\<close>

section \<open>Model\<close>

text \<open>The driver works on \<open>dev->r82xx_p\<close>, whose \<open>rtl_dev\<close> points back to the device.\<close>

definition on_r82xx :: "('h rtlsdr_dev r82xx_state, 'a) state \<Rightarrow> ('h rtlsdr_dev, 'a) state" where
  "on_r82xx m = State (\<lambda>d.
     let (r, p) = run_state m (r82xx_priv.extend (d_r82xx d) (r82xx_state.fields d))
     in (r, (r_rtl_dev p)\<lparr>d_r82xx := r82xx_priv.truncate p\<rparr>))"

definition R820T_I2C_ADDR :: u8 where
  "R820T_I2C_ADDR = 0x34"

definition R828D_I2C_ADDR :: u8 where
  "R828D_I2C_ADDR = 0x74"

definition r820t_init :: "'h usb_ops \<Rightarrow> ('h rtlsdr_dev, int option) state" where
  "r820t_init usb = do {
     _ \<leftarrow> State_Monad.update (\<lambda>d.
       let (addr, chip) = (if d_tuner_type d = RTLSDR_TUNER_R828D then (R828D_I2C_ADDR, CHIP_R828D)
                           else (R820T_I2C_ADDR, CHIP_R820T))
       in d\<lparr>d_r82xx := (d_r82xx d)\<lparr>r_cfg := (r_cfg (d_r82xx d))\<lparr>c_i2c_addr := addr, c_rafael_chip := chip\<rparr>\<rparr>\<rparr>);
     _ \<leftarrow> r82xx_refresh_xtal;
     _ \<leftarrow> State_Monad.update (\<lambda>d.
       d\<lparr>d_r82xx := (d_r82xx d)\<lparr>r_cfg := (r_cfg (d_r82xx d))\<lparr>c_use_predetect := False\<rparr>\<rparr>\<rparr>);
     on_r82xx (r82xx_init (rtl_io usb)) }"

definition r820t_exit :: "'h usb_ops \<Rightarrow> ('h rtlsdr_dev, int) state" where
  "r820t_exit usb = on_r82xx (r82xx_standby (rtl_io usb))"

definition r820t_set_freq64 :: "'h usb_ops \<Rightarrow> u64 \<Rightarrow> ('h rtlsdr_dev, int option) state" where
  "r820t_set_freq64 usb freq =
     returning (on_r82xx (r82xx_set_freq64 (rtl_io usb) freq)) (\<lambda>r. do {
       d \<leftarrow> State_Monad.get;
       case r82xx_flip_rtl_sideband (d_r82xx d) of
         None \<Rightarrow> ret None
       | Some flip \<Rightarrow> do {
           ri \<leftarrow> rtlsdr_set_spectrum_inversion usb (r82xx_get_sideband (d_r82xx d) XOR flip);
           ret (Some (if ri \<noteq> 0 then ri else r)) } })"

definition r820t_set_freq :: "'h usb_ops \<Rightarrow> u32 \<Rightarrow> ('h rtlsdr_dev, int option) state" where
  "r820t_set_freq usb freq = r820t_set_freq64 usb (ucast freq)"

text \<open>The intermediate frequency for the demodulator, \<open>iffreq\<close> in the code.\<close>

definition r820t_if_freq :: "'h rtlsdr_dev \<Rightarrow> int" where
  "r820t_if_freq d =
     (if d_tuner_sideband d \<noteq> 0 then d_tuner_if_freq d - d_if_band_center_freq d
      else d_tuner_if_freq d + d_if_band_center_freq d)"

definition r820t_apply_if ::
    "'h usb_ops \<Rightarrow> (u64 \<Rightarrow> ('h rtlsdr_dev, int option) state) \<Rightarrow> ('h rtlsdr_dev, int option) state" where
  "r820t_apply_if usb recenter = do {
     d \<leftarrow> State_Monad.get;
     r \<leftarrow> rtlsdr_set_if_freq usb (word_of_int (r820t_if_freq d));
     if r \<noteq> 0 then ret (Some r) else recenter (d_freq d) }"

text \<open>The second result is \<open>*applied_bw\<close>.\<close>

definition r820t_set_bw ::
    "'h usb_ops \<Rightarrow> (u64 \<Rightarrow> ('h rtlsdr_dev, int option) state) \<Rightarrow> int \<Rightarrow> int
       \<Rightarrow> ('h rtlsdr_dev, int option \<times> u32) state" where
  "r820t_set_bw usb recenter bw app = do {
     (iffreq, applied_bw) \<leftarrow> on_r82xx (r82xx_set_bandwidth (rtl_io usb) bw app);
     if app = 0 then ret (Some 0, applied_bw)
     else if iffreq < 0 then ret (Some iffreq, applied_bw)
     else do {
       _ \<leftarrow> State_Monad.update (\<lambda>d. d\<lparr>d_tuner_if_freq := iffreq\<rparr>);
       r \<leftarrow> r820t_apply_if usb recenter;
       ret (r, applied_bw) } }"

definition r820t_set_bw_center ::
    "'h usb_ops \<Rightarrow> (u64 \<Rightarrow> ('h rtlsdr_dev, int option) state) \<Rightarrow> int \<Rightarrow> ('h rtlsdr_dev, int option) state" where
  "r820t_set_bw_center usb recenter if_band_center_freq = do {
     iffreq \<leftarrow> on_r82xx (r82xx_set_bw_center if_band_center_freq);
     if iffreq < 0 then ret (Some iffreq)
     else do {
       _ \<leftarrow> State_Monad.update (\<lambda>d. d\<lparr>d_tuner_if_freq := iffreq, d_if_band_center_freq := if_band_center_freq\<rparr>);
       r820t_apply_if usb recenter } }"

text \<open>The library is compiled with \<open>USE_OLD_DAB_IF_GAIN\<close> 1, which leaves out the write to the demodulator.\<close>

definition rtlsdr_vga_control :: "int \<Rightarrow> int \<Rightarrow> ('h rtlsdr_dev, int) state" where
  "rtlsdr_vga_control rc rtl_vga_control = (
     if rc < 0 then ret rc
     else do {
       d \<leftarrow> State_Monad.get;
       if rtl_vga_control \<noteq> d_rtl_vga_control d then do {
         _ \<leftarrow> State_Monad.update (\<lambda>d. d\<lparr>d_rtl_vga_control := rtl_vga_control\<rparr>);
         ret rc }
       else ret rc })"

definition r820t_set_gain :: "'h usb_ops \<Rightarrow> int \<Rightarrow> ('h rtlsdr_dev, int) state" where
  "r820t_set_gain usb gain = do {
     (rc, vga) \<leftarrow> on_r82xx (r82xx_set_gain (rtl_io usb) 1 gain 0 0 0 0 0);
     rtlsdr_vga_control rc vga }"

definition r820t_set_gain_ext :: "'h usb_ops \<Rightarrow> int \<Rightarrow> int \<Rightarrow> int \<Rightarrow> ('h rtlsdr_dev, int) state" where
  "r820t_set_gain_ext usb lna_gain mixer_gain vga_gain = do {
     (rc, vga) \<leftarrow> on_r82xx (r82xx_set_gain (rtl_io usb) 0 0 1 lna_gain mixer_gain vga_gain 0);
     rtlsdr_vga_control rc vga }"

definition r820t_set_if_mode :: "'h usb_ops \<Rightarrow> int \<Rightarrow> ('h rtlsdr_dev, int) state" where
  "r820t_set_if_mode usb if_mode = do {
     (rc, vga) \<leftarrow> on_r82xx (r82xx_set_if_mode (rtl_io usb) if_mode);
     rtlsdr_vga_control rc vga }"

definition r820t_set_gain_mode :: "'h usb_ops \<Rightarrow> int \<Rightarrow> ('h rtlsdr_dev, int) state" where
  "r820t_set_gain_mode usb manual = do {
     (rc, vga) \<leftarrow> on_r82xx (r82xx_set_gain (rtl_io usb) manual 0 0 0 0 0 0);
     rtlsdr_vga_control rc vga }"

definition r820t_get_i2c_register :: "'h rtlsdr_dev \<Rightarrow> int \<Rightarrow> u32" where
  "r820t_get_i2c_register d reg = word_of_int (r82xx_read_cache_reg (d_r82xx d) reg)"

definition r820t_set_i2c_register :: "'h usb_ops \<Rightarrow> u32 \<Rightarrow> u32 \<Rightarrow> u32 \<Rightarrow> ('h rtlsdr_dev, int) state" where
  "r820t_set_i2c_register usb i2c_register data msk = on_r82xx (r82xx_set_i2c_register (rtl_io usb) i2c_register data msk)"

definition r820t_get_i2c_reg_array :: "'h usb_ops \<Rightarrow> nat \<Rightarrow> ('h rtlsdr_dev, int \<times> u8 list) state" where
  "r820t_get_i2c_reg_array usb len = on_r82xx (r82xx_get_i2c_register (rtl_io usb) len)"

definition r820t_set_sideband ::
    "'h usb_ops \<Rightarrow> (u64 \<Rightarrow> ('h rtlsdr_dev, int option) state) \<Rightarrow> int \<Rightarrow> ('h rtlsdr_dev, int option) state" where
  "r820t_set_sideband usb recenter sideband = do {
     r \<leftarrow> on_r82xx (r82xx_set_sideband (rtl_io usb) sideband);
     if r < 0 then ret (Some r)
     else do {
       d \<leftarrow> State_Monad.get;
       case r82xx_flip_rtl_sideband (d_r82xx d) of
         None \<Rightarrow> ret None
       | Some flip \<Rightarrow> do {
           r \<leftarrow> rtlsdr_set_spectrum_inversion usb (sideband XOR flip);
           if r \<noteq> 0 then ret (Some r)
           else if d_freq d = 0 then ret (Some r) else recenter (d_freq d) } } }"

definition r820t_set_i2c_override :: "'h usb_ops \<Rightarrow> u32 \<Rightarrow> u32 \<Rightarrow> u32 \<Rightarrow> ('h rtlsdr_dev, int) state" where
  "r820t_set_i2c_override usb i2c_register data msk = on_r82xx (r82xx_set_i2c_override (rtl_io usb) i2c_register data msk)"

subsection \<open>Calls of the library for these tuners\<close>

text \<open>
  The entries of the table \<open>tuners\<close> these calls go through are null for every other tuner.
\<close>

definition is_r82xx :: "'h rtlsdr_dev \<Rightarrow> bool" where
  "is_r82xx d \<longleftrightarrow> d_tuner_type d = RTLSDR_TUNER_R820T \<or> d_tuner_type d = RTLSDR_TUNER_R828D"

definition rtlsdr_is_tuner_PLL_locked :: "'h usb_ops \<Rightarrow> ('h rtlsdr_dev, int) state" where
  "rtlsdr_is_tuner_PLL_locked usb = do {
     d \<leftarrow> State_Monad.get;
     if \<not> is_r82xx d then ret (-2) else with_repeater usb (on_r82xx (r82xx_is_tuner_locked (rtl_io usb))) }"

definition rtlsdr_set_tuner_band_center ::
    "'h usb_ops \<Rightarrow> (u64 \<Rightarrow> ('h rtlsdr_dev, int option) state) \<Rightarrow> int \<Rightarrow> ('h rtlsdr_dev, int option) state" where
  "rtlsdr_set_tuner_band_center usb recenter if_band_center_freq = do {
     d \<leftarrow> State_Monad.get;
     if \<not> is_r82xx d then ret (Some (-1)) else r820t_set_bw_center usb recenter if_band_center_freq }"

definition rtlsdr_set_tuner_gain_ext :: "'h usb_ops \<Rightarrow> int \<Rightarrow> int \<Rightarrow> int \<Rightarrow> ('h rtlsdr_dev, int) state" where
  "rtlsdr_set_tuner_gain_ext usb lna_gain mixer_gain vga_gain = do {
     d \<leftarrow> State_Monad.get;
     if \<not> is_r82xx d then ret (-1) else with_repeater usb (r820t_set_gain_ext usb lna_gain mixer_gain vga_gain) }"

definition rtlsdr_set_tuner_if_mode :: "'h usb_ops \<Rightarrow> int \<Rightarrow> ('h rtlsdr_dev, int) state" where
  "rtlsdr_set_tuner_if_mode usb if_mode = do {
     d \<leftarrow> State_Monad.get;
     if \<not> is_r82xx d then ret (-1) else with_repeater usb (r820t_set_if_mode usb if_mode) }"

definition rtlsdr_get_tuner_gain :: "'h rtlsdr_dev \<Rightarrow> int" where
  "rtlsdr_get_tuner_gain d =
     (if d_tuner_type d = RTLSDR_TUNER_R820T then r82xx_get_rf_gain (d_r82xx d) else 0)"

definition rtlsdr_set_tuner_sideband ::
    "'h usb_ops \<Rightarrow> (u64 \<Rightarrow> ('h rtlsdr_dev, int option) state) \<Rightarrow> int \<Rightarrow> ('h rtlsdr_dev, int option) state" where
  "rtlsdr_set_tuner_sideband usb recenter sideband = do {
     d \<leftarrow> State_Monad.get;
     if \<not> is_r82xx d then ret (Some 0)
     else returning (with_repeater usb (r820t_set_sideband usb recenter sideband)) (\<lambda>r.
       if r \<noteq> 0 then ret (Some r)
       else do {
         _ \<leftarrow> State_Monad.update (\<lambda>d. d\<lparr>d_tuner_sideband := sideband\<rparr>);
         d \<leftarrow> State_Monad.get;
         r \<leftarrow> rtlsdr_set_if_freq usb (word_of_int (r820t_if_freq d));
         if r \<noteq> 0 then ret (Some r)
         else if d_freq d = 0 then ret (Some r) else recenter (d_freq d) }) }"

text \<open>
  The call tests the pointer \<open>get_i2c_register\<close>, which only these tuners have, and calls \<open>get_i2c_reg_array\<close>, which the
  FC0012 has as well.  The result 0 without data stands for an untouched buffer.
\<close>

definition rtlsdr_get_tuner_i2c_register :: "'h usb_ops \<Rightarrow> nat \<Rightarrow> ('h rtlsdr_dev, int \<times> u8 list) state" where
  "rtlsdr_get_tuner_i2c_register usb len = do {
     d \<leftarrow> State_Monad.get;
     if \<not> is_r82xx d then ret (0, []) else with_repeater usb (r820t_get_i2c_reg_array usb len) }"

definition rtlsdr_set_tuner_i2c_override :: "'h usb_ops \<Rightarrow> u32 \<Rightarrow> u32 \<Rightarrow> u32 \<Rightarrow> ('h rtlsdr_dev, int) state" where
  "rtlsdr_set_tuner_i2c_override usb i2c_register msk data = do {
     d \<leftarrow> State_Monad.get;
     if \<not> is_r82xx d then ret 0 else with_repeater usb (r820t_set_i2c_override usb i2c_register data msk) }"

definition rtlsdr_set_dithering :: "int \<Rightarrow> ('h rtlsdr_dev, int) state" where
  "rtlsdr_set_dithering dither = do {
     d \<leftarrow> State_Monad.get;
     if d_tuner_type d = RTLSDR_TUNER_R820T then on_r82xx (r82xx_set_dither dither) else ret 1 }"

definition rtlsdr_set_harmonic_rx :: "int \<Rightarrow> ('h rtlsdr_dev, int) state" where
  "rtlsdr_set_harmonic_rx harmonic = do {
     d \<leftarrow> State_Monad.get;
     if d_tuner_type d = RTLSDR_TUNER_R820T then
       (if 0 \<le> harmonic \<and> harmonic \<le> 16 then do {
          _ \<leftarrow> State_Monad.update (\<lambda>d.
            d\<lparr>d_r82xx := (d_r82xx d)\<lparr>r_cfg := (r_cfg (d_r82xx d))\<lparr>c_harmonic := harmonic\<rparr>\<rparr>\<rparr>);
          ret 0 }
        else ret (-2))
     else ret (-3) }"

section \<open>Lemmas\<close>

text \<open>
  What the register and PLL functions of the driver leave alone, whatever the bus answers: the configuration and the selected
  harmonic.
\<close>

definition cfg_harm :: "'z r82xx_priv_scheme \<Rightarrow> r82xx_config \<times> int" where
  "cfg_harm p = (r_cfg p, r_tuner_harmonic p)"

lemma cfg_harm_eq: "cfg_harm q = cfg_harm p \<longleftrightarrow> r_cfg q = r_cfg p \<and> r_tuner_harmonic q = r_tuner_harmonic p"
  by (simp add: cfg_harm_def)

lemma keeps_neg [keeps_intros]:
  "keeps f m \<Longrightarrow> keeps f n \<Longrightarrow> keeps f (nonneg_then m n)"
  "keeps f rd \<Longrightarrow> (\<And>v. keeps f (k v)) \<Longrightarrow> keeps f (nonneg_read rd k)"
  "keeps f m \<Longrightarrow> keeps f n' \<Longrightarrow> keeps f (try_then m n')"
  "keeps f rd \<Longrightarrow> (\<And>v. keeps f (k' v)) \<Longrightarrow> keeps f (try_read rd k')"
  by (auto simp: keeps_def)

lemma keeps_on_rtl: "(\<And>d s. f (s\<lparr>r_rtl_dev := d\<rparr>) = f s) \<Longrightarrow> keeps f (on_rtl m)"
  by (simp add: keeps_def)

lemma cfg_write_from: "keeps cfg_harm (r82xx_write_from io reg pos val)"
proof (induction io reg pos val rule: r82xx_write_from.induct)
  case (1 io reg pos val)
  show ?case
    by (subst r82xx_write_from.simps, unfold Let_def) (intro keeps_intros keeps_update keeps_on_rtl 1; simp add: cfg_harm_def)
qed

lemma cfg_regs [keeps_intros]:
  "keeps cfg_harm (r82xx_write_arr io reg val)" "keeps cfg_harm (r82xx_read io reg n)"
  unfolding r82xx_write_arr_def shadow_store_def r82xx_read_def
  by (intro keeps_intros keeps_update keeps_on_rtl cfg_write_from; simp add: Let_def cfg_harm_def)+

lemma cfg_masks [keeps_intros]:
  "keeps cfg_harm (r82xx_write_reg io reg v)" "keeps cfg_harm (r82xx_write_reg_mask io reg v m)"
  "keeps cfg_harm (r82xx_write_reg_mask_ext io reg v m)" "keeps cfg_harm (mark_pll b)" "keeps cfg_harm (mark_lock b)"
  unfolding r82xx_write_reg_def r82xx_write_reg_mask_def r82xx_write_reg_mask_ext_def mark_pll_def mark_lock_def
  by (intro keeps_intros keeps_update; simp add: cfg_harm_def)+

lemma cfg_tuning [keeps_intros]:
  "keeps cfg_harm (r82xx_set_mux io f)" "keeps cfg_harm (vco_current io c)" "keeps cfg_harm (write_vco_div io a b)"
  "keeps cfg_harm (check_lock io c0 c1)" "keeps cfg_harm (finish_pll io c0 c1)"
  "keeps cfg_harm (yc_fraction io rf vf)" "keeps cfg_harm (yc_lock io)" "keeps cfg_harm (r82xx_set_pll_yc io freq)"
  unfolding r82xx_set_mux_def vco_current_def write_vco_div_def check_lock_def finish_pll_def yc_fraction_def yc_lock_def
    r82xx_set_pll_yc_def
  by (intro keeps_intros keeps_update; simp add: cfg_harm_def)+

lemma cfg_pll [keeps_intros]: "keeps cfg_harm (r82xx_set_pll io freq)" "keeps cfg_harm (seq_masks io ws)"
proof -
  show "keeps cfg_harm (r82xx_set_pll io freq)"
    unfolding r82xx_set_pll_def by (intro keeps_intros; simp)
  show "keeps cfg_harm (seq_masks io ws)"
    unfolding seq_masks_def by (induction ws) (auto intro!: keeps_intros simp: split_beta)
qed

lemma cfg_select: "keeps cfg_harm (r82xx_select_input io f rc)"
  unfolding r82xx_select_input_def by (intro keeps_intros keeps_update; simp add: cfg_harm_def)

text \<open>The shadow keeps its 32 bytes, whatever the bus answers: nothing is stored behind its end.\<close>

definition sized :: "'z r82xx_priv_scheme \<Rightarrow> bool" where
  "sized p \<longleftrightarrow> length (r_regs p) = 32"

lemma sized_shadow [preserves_intros]: "preserves sized (shadow_store reg val)"
  by (cases val) (auto simp: preserves_def sized_def shadow_store_def REG_SHADOW_START_def NUM_REGS_def Let_def min_def)

lemma sized_write_from [preserves_intros]: "preserves sized (r82xx_write_from io reg pos val)"
proof (induction io reg pos val rule: r82xx_write_from.induct)
  case (1 io reg pos val)
  show ?case
    by (subst r82xx_write_from.simps, unfold Let_def)
      (intro preserves_intros preserves_update 1; simp add: preserves_def sized_def)
qed

lemma sized_regs [preserves_intros]:
  "preserves sized (r82xx_write_arr io reg val)" "preserves sized (r82xx_write_reg io reg v)"
  "preserves sized (r82xx_write_reg_mask io reg v m)" "preserves sized (r82xx_write_reg_mask_ext io reg v m)"
  "preserves sized (r82xx_read io reg n)" "preserves sized (mark_pll b)" "preserves sized (mark_lock b)"
proof -
  show a: "preserves sized (r82xx_write_arr io reg val)" for reg val
    unfolding r82xx_write_arr_def by (intro preserves_intros)
  then show "preserves sized (r82xx_write_reg io reg v)" by (simp add: r82xx_write_reg_def)
  show "preserves sized (r82xx_write_reg_mask io reg v m)" "preserves sized (r82xx_write_reg_mask_ext io reg v m)"
    unfolding r82xx_write_reg_mask_ext_def r82xx_write_reg_mask_def by (intro preserves_intros a; simp add: Let_def)+
qed (auto simp: preserves_def sized_def r82xx_read_def mark_pll_def mark_lock_def split_beta)

lemma sized_tuning [preserves_intros]:
  "preserves sized (r82xx_set_mux io f)" "preserves sized (vco_current io c)" "preserves sized (write_vco_div io a b)"
  "preserves sized (check_lock io c0 c1)" "preserves sized (finish_pll io c0 c1)"
  "preserves sized (yc_fraction io rf vf)" "preserves sized (yc_lock io)" "preserves sized (r82xx_set_pll_yc io freq)"
  unfolding r82xx_set_mux_def vco_current_def write_vco_div_def check_lock_def finish_pll_def yc_fraction_def yc_lock_def
    r82xx_set_pll_yc_def
  by (intro preserves_intros preserves_update; simp add: sized_def)+

lemma sized_pll [preserves_intros]: "preserves sized (r82xx_set_pll io freq)" "preserves sized (seq_masks io ws)"
proof -
  show "preserves sized (r82xx_set_pll io freq)"
    unfolding r82xx_set_pll_def by (intro preserves_intros; simp)
  show "preserves sized (seq_masks io ws)"
    unfolding seq_masks_def by (induction ws) (auto intro!: preserves_intros simp: split_beta)
qed

lemma sized_freq:
  "preserves sized (r82xx_tune io nh f)" "preserves sized (r82xx_select_input io f rc)"
  "preserves sized (r82xx_set_freq64 io f)"
  unfolding r82xx_set_freq64_def r82xx_tune_def r82xx_select_input_def
  by (intro preserves_intros preserves_update; simp add: sized_def)+

lemma sized_standard [preserves_intros]:
  "preserves sized (calibration_round io)" "preserves sized (r82xx_calibrate io)" "preserves sized (r82xx_set_tv_standard io typ delsys)"
  "preserves sized (r82xx_sysfreq_sel io typ)"
  unfolding r82xx_set_tv_standard_def r82xx_calibrate_def r82xx_sysfreq_sel_def calibration_round_def
  by (intro preserves_intros preserves_update; simp add: sized_def)+

lemma sized_init: "preserves sized (r82xx_init io)"
  unfolding r82xx_init_def by (intro preserves_intros preserves_update; simp add: sized_def r82xx_reset_def)

text \<open>With a usable crystal frequency no PLL call divides by zero.\<close>

definition xtal_ok :: "r82xx_config \<Rightarrow> bool" where
  "xtal_ok cfg \<longleftrightarrow> wrap32 (2 * uint (c_xtal cfg)) \<noteq> 0"

lemma keeps_cfg: "keeps cfg_harm m \<Longrightarrow> r_cfg (state_of m s) = r_cfg s"
  "keeps cfg_harm m \<Longrightarrow> r_tuner_harmonic (state_of m s) = r_tuner_harmonic s"
  by (simp_all add: keeps_def cfg_harm_def)

lemma set_pll_returns:
  assumes "xtal_ok (r_cfg p)"
  shows "\<exists>r. result_of (r82xx_set_pll io freq) p = Some r"
proof -
  have yc: "\<exists>r. result_of (r82xx_set_pll_yc io freq) q = Some r" if "r_cfg q = r_cfg p" for q
    using assms that by (simp add: r82xx_set_pll_yc_def xtal_ok_def mult.commute Let_def)
  have "r_cfg (state_of (vco_current io c) (p\<lparr>r_tuner_pll_set := False\<rparr>)) = r_cfg p" for c
    by (simp add: keeps_cfg(1) [OF cfg_tuning(2)])
  then show ?thesis
    using assms yc by (simp add: r82xx_set_pll_def mark_pll_def Let_def xtal_ok_def split_beta)
qed

lemma harmonic_in_table: "c_harmonic cfg \<le> 16 \<Longrightarrow> \<exists>s. harm_sideband (r82xx_harmonic cfg) = Some s" "harm_sideband 0 = Some 0"
  by (simp_all add: harm_sideband_def r82xx_harmonic_def DEFAULT_HARMONIC_def harm_sideband_xor_def)

lemma run_tune:
  fixes p :: "'d r82xx_state" and f :: u64
  assumes h: "h = (if nh then r82xx_harmonic (r_cfg p) else 0)" and s: "harm_sideband h = Some s"
  defines "p1 \<equiv> p\<lparr>r_tuner_pll_set := False, r_tuner_harmonic := h, r_rf_freq := f\<rparr>"
    and "lo \<equiv> r82xx_lo_freq p s f"
  shows "run_state (r82xx_tune io nh f) p =
    (if result_of (r82xx_set_mux io lo) p1 < 0
     then (Inl (result_of (r82xx_set_mux io lo) p1), state_of (r82xx_set_mux io lo) p1)
     else case run_state (r82xx_set_pll io (if nh then word_of_int (uint lo div r82xx_harmonic (r_cfg p)) else ucast lo))
            (state_of (r82xx_set_mux io lo) p1) of (rc, q) \<Rightarrow> (Inr (rc, lo), q))"
  by (simp add: r82xx_tune_def Let_def mark_pll_def h [symmetric] s p1_def lo_def split_beta cong: if_cong split del: if_split)

lemma tune_returns:
  assumes "xtal_ok (r_cfg p)" "c_harmonic (r_cfg p) \<le> 16"
  shows "result_of (r82xx_tune io nh f) p \<noteq> Inr (None, x)"
    and "r_cfg (state_of (r82xx_tune io nh f) p) = r_cfg p"
    and "r_tuner_harmonic (state_of (r82xx_tune io nh f) p) \<in> {0, r82xx_harmonic (r_cfg p)}"
proof -
  define h where "h = (if nh then r82xx_harmonic (r_cfg p) else 0)"
  obtain s where s: "harm_sideband h = Some s"
    using harmonic_in_table(1) [of "r_cfg p"] harmonic_in_table(2) assms(2) by (cases nh) (auto simp: h_def)
  define p1 where "p1 = p\<lparr>r_tuner_pll_set := False, r_tuner_harmonic := h, r_rf_freq := f\<rparr>"
  define p2 where "p2 = state_of (r82xx_set_mux io (r82xx_lo_freq p s f)) p1"
  have c: "r_cfg p2 = r_cfg p" "r_tuner_harmonic p2 = h"
    by (simp_all add: p2_def keeps_cfg [OF cfg_tuning(1)] p1_def)
  have r: "\<exists>r. result_of (r82xx_set_pll io g) p2 = Some r" for g
    using set_pll_returns [of p2 io g] assms(1) c by simp
  have k: "r_cfg (state_of (r82xx_set_pll io g) p2) = r_cfg p" "r_tuner_harmonic (state_of (r82xx_set_pll io g) p2) = h" for g
    using c by (simp_all add: keeps_cfg [OF cfg_pll(1)])
  have h2: "h \<in> {0, r82xx_harmonic (r_cfg p)}" by (simp add: h_def)
  note run = run_tune [OF h_def s, where io = io and f = f, folded p1_def, folded p2_def]
  show "result_of (r82xx_tune io nh f) p \<noteq> Inr (None, x)"
  proof
    assume "result_of (r82xx_tune io nh f) p = Inr (None, x)"
    then obtain g where "result_of (r82xx_set_pll io g) p2 = None"
      unfolding run by (auto simp: split_beta split: if_splits)
    then show False using r [of g] by simp
  qed
  have "r_cfg (state_of (r82xx_tune io nh f) p) = r_cfg p \<and> r_tuner_harmonic (state_of (r82xx_tune io nh f) p) = h"
    unfolding run split_beta
    by (cases "result_of (r82xx_set_mux io (r82xx_lo_freq p s f)) p1 < 0") (simp_all only: if_True if_False snd_conv k c simp_thms)
  then show "r_cfg (state_of (r82xx_tune io nh f) p) = r_cfg p"
    "r_tuner_harmonic (state_of (r82xx_tune io nh f) p) \<in> {0, r82xx_harmonic (r_cfg p)}"
    using h2 by simp_all
qed

lemma set_freq64_returns:
  assumes "xtal_ok (r_cfg p)" "c_harmonic (r_cfg p) \<le> 16"
  shows "\<exists>r. result_of (r82xx_set_freq64 io freq) p = Some r"
    and "\<exists>s. r82xx_flip_rtl_sideband (state_of (r82xx_set_freq64 io freq) p) = Some s"
proof -
  define nh where "nh = (freq > 1770000000)"
  define f where "f = (if freq = 0 then r_rf_freq p else freq)"
  define p1 where "p1 = state_of (r82xx_tune io nh f) p"
  define p2 where "p2 = state_of (r82xx_tune io True f) p1"
  note t1 = tune_returns [OF assms, where io = io and nh = nh and f = f, folded p1_def]
  have a: "xtal_ok (r_cfg p1)" "c_harmonic (r_cfg p1) \<le> 16" using assms t1(2) by simp_all
  note t2 = tune_returns [OF a, where io = io and nh = True and f = f, folded p2_def, unfolded t1(2)]
  note sel = keeps_cfg(2) [OF cfg_select]
  have flip: "\<exists>s. harm_sideband h = Some s" if "h \<in> {0, r82xx_harmonic (r_cfg p)}" for h
    using that harmonic_in_table(1) [OF assms(2)] harmonic_in_table(2) by auto
  obtain r1 where r1: "result_of (r82xx_tune io nh f) p = r1" by blast
  obtain r2 where r2: "result_of (r82xx_tune io True f) p1 = r2" by blast
  have runs: "run_state (r82xx_tune io nh f) p = (r1, p1)" "run_state (r82xx_tune io True f) p1 = (r2, p2)"
    using r1 r2 by (simp_all add: p1_def p2_def prod_eq_iff)
  have run: "run_state (r82xx_set_freq64 io freq) p = run_state (do {
       r \<leftarrow> (case r1 of Inr (Some rc, lo_freq) \<Rightarrow>
               if pll_failed p1 rc \<and> \<not> nh \<and> lo_freq > 1760000000 then r82xx_tune io True f else ret r1
            | _ \<Rightarrow> ret r1);
       p \<leftarrow> State_Monad.get;
       case r of
         Inl rc \<Rightarrow> ret (Some rc)
       | Inr (None, _) \<Rightarrow> ret None
       | Inr (Some rc, _) \<Rightarrow>
           if pll_failed p rc then ret (Some rc)
           else do { rc \<leftarrow> r82xx_select_input io f rc; ret (Some rc) } }) p1"
    unfolding r82xx_set_freq64_def
    by (simp only: run_bind State_Monad.run_state_get fst_conv snd_conv Let_def nh_def [symmetric] f_def [symmetric] runs)
  show "\<exists>r. result_of (r82xx_set_freq64 io freq) p = Some r"
    using t1(1) t2(1) unfolding run r1 r2 by (auto simp: runs split: sum.splits option.splits prod.splits)
  show "\<exists>s. r82xx_flip_rtl_sideband (state_of (r82xx_set_freq64 io freq) p) = Some s"
    using flip [OF t1(3)] flip [OF t2(3)] unfolding run
    by (auto simp: runs sel r82xx_flip_rtl_sideband_def split: sum.splits option.splits prod.splits)
qed

lemma cfg_calibration: "keeps cfg_harm (calibration_round io)"
  unfolding calibration_round_def by (intro keeps_intros keeps_update; simp add: cfg_harm_def)

lemma calibration_returns:
  assumes "xtal_ok (r_cfg p)"
  shows "result_of (calibration_round io) p \<noteq> Inl None"
proof -
  define p1 where "p1 = (state_of (r82xx_write_reg_mask io 0x0f 0x04 0x04) p)\<lparr>r_tuner_pll_set := False\<rparr>"
  have "r_cfg p1 = r_cfg p" by (simp add: p1_def keeps_cfg(1) [OF cfg_masks(2)])
  then obtain rc where "result_of (r82xx_set_pll io (ucast (r_rf_freq p1))) p1 = Some rc"
    using set_pll_returns [of p1] assms by auto
  then show ?thesis
    by (auto simp: calibration_round_def mark_pll_def p1_def split_beta)
qed

lemma calibrate_returns:
  assumes "xtal_ok (r_cfg p)"
  shows "result_of (r82xx_calibrate io) p \<noteq> Inl None"
  using calibration_returns [OF assms, of io] calibration_returns [of "state_of (calibration_round io) p" io] assms
  by (auto simp: r82xx_calibrate_def keeps_cfg(1) [OF cfg_calibration] split: sum.splits)

lemma init_returns:
  assumes "xtal_ok (r_cfg p)"
  shows "\<exists>r. result_of (r82xx_init io) p = Some r"
proof -
  have tv: "\<exists>r. result_of (r82xx_set_tv_standard io TUNER_DIGITAL_TV 0) q = Some r" if "r_cfg q = r_cfg p" for q
  proof -
    define q1 where "q1 = (state_of (r82xx_write_reg_mask io 0x1d 0x00 0x38) q)\<lparr>r_rf_freq := 56000000,
      r_if_band_center_freq := 0, r_int_freq := 3570000, r_sideband := 0\<rparr>"
    have "r_cfg q1 = r_cfg p" by (simp add: q1_def keeps_cfg(1) [OF cfg_masks(2)] that)
    then have "result_of (r82xx_calibrate io) q1 \<noteq> Inl None"
      using calibrate_returns [of q1 io] assms by simp
    then show ?thesis
      by (auto simp: r82xx_set_tv_standard_def q1_def [symmetric] split: sum.splits)
  qed
  define q where "q = (state_of (r82xx_write_arr io 0x05 r82xx_init_array) (r82xx_reset p))
    \<lparr>r_last_vco_curr := r82xx_init_array ! (0x12 - 0x05) AND 0xe0\<rparr>"
  have "r_cfg q = r_cfg p" by (simp add: q_def keeps_cfg(1) [OF cfg_regs(1)] r82xx_reset_def)
  then obtain rc where "result_of (r82xx_set_tv_standard io TUNER_DIGITAL_TV 0) q = Some rc"
    using tv by blast
  then show ?thesis by (auto simp: r82xx_init_def q_def)
qed

lemma run_on_r82xx:
  "run_state (on_r82xx m) d =
     (let (r, p) = run_state m (r82xx_priv.extend (d_r82xx d) (r82xx_state.fields d))
      in (r, (r_rtl_dev p)\<lparr>d_r82xx := r82xx_priv.truncate p\<rparr>))"
  by (simp add: on_r82xx_def)

lemma extend_sel [simp]:
  "r_cfg (r82xx_priv.extend q x) = r_cfg q" "r_tuner_harmonic (r82xx_priv.extend q x) = r_tuner_harmonic q"
  "r_int_freq (r82xx_priv.extend q x) = r_int_freq q"
  by (simp_all add: r82xx_priv.extend_def)

lemma truncate_sel [simp]:
  "r_cfg (r82xx_priv.truncate q) = r_cfg q" "r_tuner_harmonic (r82xx_priv.truncate q) = r_tuner_harmonic q"
  "r82xx_flip_rtl_sideband (r82xx_priv.truncate q) = r82xx_flip_rtl_sideband q"
  by (simp_all add: r82xx_priv.truncate_def r82xx_flip_rtl_sideband_def)

lemma inversion_r82xx: "d_r82xx (state_of (rtlsdr_set_spectrum_inversion usb b) d) = d_r82xx d"
  by (simp add: rtlsdr_set_spectrum_inversion_def)

lemma r820t_init_run:
  "\<exists>cfg. run_state (r820t_init usb) d = run_state (on_r82xx (r82xx_init (rtl_io usb)))
     (d\<lparr>d_r82xx := (d_r82xx d)\<lparr>r_cfg := cfg\<lparr>c_xtal := snd (rtlsdr_get_xtal_freq d), c_use_predetect := False\<rparr>\<rparr>\<rparr>)"
proof (cases "d_tuner_type d = RTLSDR_TUNER_R828D")
  case True
  then show ?thesis
    by (intro exI [of _ "(r_cfg (d_r82xx d))\<lparr>c_i2c_addr := R828D_I2C_ADDR, c_rafael_chip := CHIP_R828D\<rparr>"])
      (simp add: r820t_init_def r82xx_refresh_xtal_def rtlsdr_get_xtal_freq_def Let_def)
next
  case False
  then show ?thesis
    by (intro exI [of _ "(r_cfg (d_r82xx d))\<lparr>c_i2c_addr := R820T_I2C_ADDR, c_rafael_chip := CHIP_R820T\<rparr>"])
      (simp add: r820t_init_def r82xx_refresh_xtal_def rtlsdr_get_xtal_freq_def Let_def)
qed

lemma on_r82xx_sized:
  assumes "preserves sized m" "length (r_regs (d_r82xx d)) = 32"
  shows "length (r_regs (d_r82xx (state_of (on_r82xx m) d))) = 32"
proof -
  have "sized (r82xx_priv.extend (d_r82xx d) (r82xx_state.fields d))" using assms(2) by (simp add: sized_def r82xx_priv.extend_def)
  then have "sized (state_of m (r82xx_priv.extend (d_r82xx d) (r82xx_state.fields d)))"
    using assms(1) by (simp add: preserves_def)
  then show ?thesis by (simp add: run_on_r82xx split_beta sized_def r82xx_priv.truncate_def)
qed

lemma xtal_okI: "0 < uint (c_xtal cfg) \<Longrightarrow> uint (c_xtal cfg) < 2147483648 \<Longrightarrow> xtal_ok cfg"
  by (simp add: xtal_ok_def wrap_simps)

text \<open>The local oscillator as an integer, on either side of the frequency.\<close>

lemma lo_freq_flip:
  assumes "r_sideband p = 0 \<or> r_sideband p = 1" "s = 0 \<or> s = 1"
    and "lo = uint freq + (if r_sideband p = s then 1 else -1) * uint (r_int_freq p) + r_if_band_center_freq p"
    and "0 \<le> lo" "lo < 18446744073709551616"
  shows "uint (r82xx_lo_freq p s freq) = lo"
proof -
  have "word_of_int (uint (r_int_freq p)) = (ucast (r_int_freq p) :: u64)"
    by (simp add: word_of_int_uint)
  then have "r82xx_lo_freq p s freq = word_of_int lo"
    using assms(1,2) by (auto simp: r82xx_lo_freq_def assms(3))
  then have "uint (r82xx_lo_freq p s freq) = lo mod 18446744073709551616"
    by (simp only: uint_word_of_int) simp
  then show ?thesis using assms(4,5) by simp
qed

lemma truncate_extend_center:
  fixes q :: r82xx_priv
  shows "r82xx_priv.truncate ((r82xx_priv.extend q x)\<lparr>r_if_band_center_freq := c\<rparr>) = q\<lparr>r_if_band_center_freq := c\<rparr>"
  by (cases q) (simp add: r82xx_priv.extend_def r82xx_priv.truncate_def)

text \<open>A device with an R820T that receives at 3.57 MHz below the local oscillator.\<close>

definition sim_dev_r820t :: "sim_hw rtlsdr_dev" where
  "sim_dev_r820t = sim_dev0\<lparr>d_tuner_type := RTLSDR_TUNER_R820T, d_tuner_sideband := 0,
     d_r82xx := (r82xx_priv.truncate rsim_state)\<lparr>r_int_freq := 3570000\<rparr>\<rparr>"

lemma sim_dev_r820t_sel:
  "r_cfg (d_r82xx sim_dev_r820t) = rsim_cfg" "r_int_freq (d_r82xx sim_dev_r820t) = 3570000"
  "r_sideband (d_r82xx sim_dev_r820t) = 0" "d_tuner_sideband sim_dev_r820t = 0"
  "uint (snd (rtlsdr_get_xtal_freq sim_dev_r820t)) = 28800000" "length (r_regs (d_r82xx sim_dev_r820t)) = 32"
  by (simp_all add: sim_dev_r820t_def r82xx_priv.truncate_def rsim_state_def sim_dev0_def rtlsdr_get_xtal_freq_def)

section \<open>Properties\<close>

text \<open>
  C24.  Tuning and initialising the R820T always come back, whatever the chip answers, once the crystal frequency
  is set (positive and below \<open>2 ^ 31\<close>, as the driver doubles it) and the harmonic is one that \<open>rtlsdr_set_harmonic_rx\<close> accepts: no division by zero and no access outside the
  table of harmonics, and nothing is stored outside the 32 bytes of the register shadow (in the model, a store behind its end would make it longer).
\<close>

theorem r820t_never_stops:
  assumes "c_harmonic (r_cfg (d_r82xx d)) \<le> 16"
    and "0 < uint (c_xtal (r_cfg (d_r82xx d)))" "uint (c_xtal (r_cfg (d_r82xx d))) < 2147483648"
    and "0 < uint (snd (rtlsdr_get_xtal_freq d))" "uint (snd (rtlsdr_get_xtal_freq d)) < 2147483648"
    and "length (r_regs (d_r82xx d)) = 32"
  shows "(\<exists>r d'. run_state (r820t_set_freq64 usb freq) d = (Some r, d') \<and> length (r_regs (d_r82xx d')) = 32)
    \<and> (\<exists>r d'. run_state (r820t_init usb) d = (Some r, d') \<and> length (r_regs (d_r82xx d')) = 32)"
proof
  let ?p = "r82xx_priv.extend (d_r82xx d) (r82xx_state.fields d)"
  have "xtal_ok (r_cfg ?p)" "c_harmonic (r_cfg ?p) \<le> 16"
    using assms(1-3) by (simp_all add: xtal_okI)
  note f = set_freq64_returns [OF this, of "rtl_io usb" freq]
  have "length (r_regs (d_r82xx (state_of (on_r82xx (r82xx_set_freq64 (rtl_io usb) freq)) d))) = 32"
    by (rule on_r82xx_sized [OF sized_freq(3) assms(6)])
  with f show "\<exists>r d'. run_state (r820t_set_freq64 usb freq) d = (Some r, d') \<and> length (r_regs (d_r82xx d')) = 32"
    by (auto simp: r820t_set_freq64_def run_on_r82xx inversion_r82xx split_beta Let_def)
  have "xtal_ok (cfg\<lparr>c_xtal := snd (rtlsdr_get_xtal_freq d), c_use_predetect := False\<rparr>)" for cfg
    using assms(4,5) by (simp add: xtal_okI)
  then obtain c where x: "xtal_ok c"
    "run_state (r820t_init usb) d = run_state (on_r82xx (r82xx_init (rtl_io usb))) (d\<lparr>d_r82xx := (d_r82xx d)\<lparr>r_cfg := c\<rparr>\<rparr>)"
    using r820t_init_run [of usb d] by auto
  let ?x = "d\<lparr>d_r82xx := (d_r82xx d)\<lparr>r_cfg := c\<rparr>\<rparr>"
  have "length (r_regs (d_r82xx (state_of (on_r82xx (r82xx_init (rtl_io usb))) ?x))) = 32"
    using assms(6) by (intro on_r82xx_sized [OF sized_init]) simp
  moreover have "\<exists>r. result_of (on_r82xx (r82xx_init (rtl_io usb))) ?x = Some r"
    using init_returns [of "r82xx_priv.extend (d_r82xx ?x) (r82xx_state.fields ?x)" "rtl_io usb"] x(1)
    by (simp add: run_on_r82xx split_beta)
  ultimately show "\<exists>r d'. run_state (r820t_init usb) d = (Some r, d') \<and> length (r_regs (d_r82xx d')) = 32"
    unfolding x(2) by (auto simp: prod_eq_iff)
qed

theorem r820t_never_stops_witness:
  "(\<exists>r d'. run_state (r820t_set_freq64 sim_usb 1766000000) sim_dev_r820t = (Some r, d') \<and> length (r_regs (d_r82xx d')) = 32)
   \<and> (\<exists>r d'. run_state (r820t_init sim_usb) sim_dev_r820t = (Some r, d') \<and> length (r_regs (d_r82xx d')) = 32)"
  by (rule r820t_never_stops) (simp_all add: sim_dev_r820t_sel rsim_cfg_def)

text \<open>
  C25.  Moving the centre of the band makes the demodulator look for the signal where the tuner puts it, for a centre whose
  distance from 0 is less than the intermediate frequency and a received frequency of at least twice the intermediate frequency: the
  intermediate frequency is the distance between the received frequency and the local oscillator, in both sidebands.
  When the tuner receives on a harmonic that flips the spectrum the oscillator lies on the other side and the two
  frequencies agree only for a centre of 0.
\<close>

theorem r820t_if_matches:
  assumes sb: "d_tuner_sideband d = r_sideband (d_r82xx d)" "r_sideband (d_r82xx d) = 0 \<or> r_sideband (d_r82xx d) = 1"
    and i: "0 < uint (r_int_freq (d_r82xx d))" "uint (r_int_freq (d_r82xx d)) < 2147483648" "\<bar>c\<bar> < uint (r_int_freq (d_r82xx d))"
    and f: "2 * uint (r_int_freq (d_r82xx d)) \<le> uint f" "uint f < 9223372036854775808"
    and d1: "d1 = d\<lparr>d_r82xx := (d_r82xx d)\<lparr>r_if_band_center_freq := c\<rparr>,
      d_tuner_if_freq := uint (r_int_freq (d_r82xx d)), d_if_band_center_freq := c\<rparr>"
  shows "run_state (r820t_set_bw_center usb recenter c) d = run_state (r820t_apply_if usb recenter) d1
    \<and> r820t_if_freq d1 = \<bar>uint f - uint (r82xx_lo_freq (d_r82xx d1) 0 f)\<bar>
    \<and> (r820t_if_freq d1 = \<bar>uint f - uint (r82xx_lo_freq (d_r82xx d1) 1 f)\<bar> \<longleftrightarrow> c = 0)"
proof -
  define p where "p = d_r82xx d1"
  have p: "r_sideband p = r_sideband (d_r82xx d)" "r_int_freq p = r_int_freq (d_r82xx d)" "r_if_band_center_freq p = c"
    by (simp_all add: p_def d1)
  have sp: "r_sideband p = 0 \<or> r_sideband p = 1" using sb(2) p(1) by simp
  have s: "sint (r_int_freq (d_r82xx d)) = uint (r_int_freq (d_r82xx d))"
    using i(2) by (simp add: sint_uint) (rule signed_take_bit_int_eq_self, auto intro: order_trans [OF _ uint_ge_0])
  have lo: "uint (r82xx_lo_freq p t f) = uint f + (if r_sideband p = t then 1 else -1) * uint (r_int_freq p) + c"
    if "t = 0 \<or> t = 1" for t
    by (rule lo_freq_flip [OF sp that]) (use i f p in \<open>auto simp: abs_if split: if_splits\<close>)
  have "run_state (r820t_set_bw_center usb recenter c) d = run_state (r820t_apply_if usb recenter) d1"
    by (simp add: r820t_set_bw_center_def r82xx_set_bw_center_def run_on_r82xx s d1 truncate_extend_center)
      (simp add: r82xx_priv.extend_def r82xx_state.fields_def)
  moreover have "r820t_if_freq d1 = (if r_sideband p = 0 then uint (r_int_freq p) + c else uint (r_int_freq p) - c)"
    by (simp add: r820t_if_freq_def d1 p sb(1))
  ultimately show ?thesis
    using lo [of 0] lo [of 1] sp i p(2) unfolding p_def [symmetric] by auto
qed

theorem r820t_if_matches_witness:
  fixes d1 :: "sim_hw rtlsdr_dev"
  defines "d1 \<equiv> sim_dev_r820t\<lparr>d_r82xx := (d_r82xx sim_dev_r820t)\<lparr>r_if_band_center_freq := 100000\<rparr>,
      d_tuner_if_freq := 3570000, d_if_band_center_freq := 100000\<rparr>"
  shows "r820t_if_freq d1 = \<bar>433920000 - uint (r82xx_lo_freq (d_r82xx d1) 0 433920000)\<bar>
    \<and> r820t_if_freq d1 \<noteq> \<bar>433920000 - uint (r82xx_lo_freq (d_r82xx d1) 1 433920000)\<bar>"
  using r820t_if_matches [of sim_dev_r820t 100000 433920000 d1 sim_usb "\<lambda>_. ret (Some 0)"]
  by (simp add: sim_dev_r820t_sel d1_def)

end
