(* ===== verification/Rtl_Open.thy ===== *)
theory Rtl_Open
  imports Rtl_Stream_Runs Rtl_R820t
begin

text \<open>
  Finding, opening and closing devices, \<^verbatim>\<open>src/librtlsdr/src/librtlsdr.c\<close>: the table of known dongles, the enumeration of the
  USB devices that are among them (by number, by name, by serial number), \<open>rtlsdr_open\<close> with its probe for the tuner
  chip, and \<open>rtlsdr_close\<close>.  libusb's answers are an argument: the list of USB devices, the result of opening each,
  the strings of its descriptors.  The devices the list holds do not change during a call.
\<close>

section \<open>Model\<close>

subsection \<open>Known devices\<close>

definition known_devices :: "(u16 \<times> u16 \<times> string) list" where
  "known_devices =
    [(0x0bda, 0x2832, ''Generic RTL2832U''),
     (0x0bda, 0x2838, ''Generic RTL2832U OEM''),
     (0x0413, 0x6680, ''DigitalNow Quad DVB-T PCI-E card''),
     (0x0413, 0x6f0f, ''Leadtek WinFast DTV Dongle mini D''),
     (0x0458, 0x707f, ''Genius TVGo DVB-T03 USB dongle (Ver. B)''),
     (0x0ccd, 0x00a9, ''Terratec Cinergy T Stick Black (rev 1)''),
     (0x0ccd, 0x00b3, ''Terratec NOXON DAB/DAB+ USB dongle (rev 1)''),
     (0x0ccd, 0x00b4, ''Terratec Deutschlandradio DAB Stick''),
     (0x0ccd, 0x00b5, ''Terratec NOXON DAB Stick - Radio Energy''),
     (0x0ccd, 0x00b7, ''Terratec Media Broadcast DAB Stick''),
     (0x0ccd, 0x00b8, ''Terratec BR DAB Stick''),
     (0x0ccd, 0x00b9, ''Terratec WDR DAB Stick''),
     (0x0ccd, 0x00c0, ''Terratec MuellerVerlag DAB Stick''),
     (0x0ccd, 0x00c6, ''Terratec Fraunhofer DAB Stick''),
     (0x0ccd, 0x00d3, ''Terratec Cinergy T Stick RC (Rev.3)''),
     (0x0ccd, 0x00d7, ''Terratec T Stick PLUS''),
     (0x0ccd, 0x00e0, ''Terratec NOXON DAB/DAB+ USB dongle (rev 2)''),
     (0x1209, 0x2832, ''Generic RTL2832U''),
     (0x1554, 0x5020, ''PixelView PV-DT235U(RN)''),
     (0x15f4, 0x0131, ''Astrometa DVB-T/DVB-T2''),
     (0x15f4, 0x0133, ''HanfTek DAB+FM+DVB-T''),
     (0x185b, 0x0620, ''Compro Videomate U620F''),
     (0x185b, 0x0650, ''Compro Videomate U650F''),
     (0x185b, 0x0680, ''Compro Videomate U680F''),
     (0x1b80, 0xd393, ''GIGABYTE GT-U7300''),
     (0x1b80, 0xd394, ''DIKOM USB-DVBT HD''),
     (0x1b80, 0xd395, ''Peak 102569AGPK''),
     (0x1b80, 0xd397, ''KWorld KW-UB450-T USB DVB-T Pico TV''),
     (0x1b80, 0xd398, ''Zaapa ZT-MINDVBZP''),
     (0x1b80, 0xd39d, ''SVEON STV20 DVB-T USB & FM''),
     (0x1b80, 0xd3a4, ''Twintech UT-40''),
     (0x1b80, 0xd3a8, ''ASUS U3100MINI_PLUS_V2''),
     (0x1b80, 0xd3af, ''SVEON STV27 DVB-T USB & FM''),
     (0x1b80, 0xd3b0, ''SVEON STV21 DVB-T USB & FM''),
     (0x1d19, 0x1101, ''Dexatek DK DVB-T Dongle (Logilink VG0002A)''),
     (0x1d19, 0x1102, ''Dexatek DK DVB-T Dongle (MSI DigiVox mini II V3.0)''),
     (0x1d19, 0x1103, ''Dexatek Technology Ltd. DK 5217 DVB-T Dongle''),
     (0x1d19, 0x1104, ''MSI DigiVox Micro HD''),
     (0x1f4d, 0xa803, ''Sweex DVB-T USB''),
     (0x1f4d, 0xb803, ''GTek T803''),
     (0x1f4d, 0xc803, ''Lifeview LV5TDeluxe''),
     (0x1f4d, 0xd286, ''MyGica TD312''),
     (0x1f4d, 0xd803, ''PROlectrix DV107669'')]"

definition find_known_device :: "u16 \<Rightarrow> u16 \<Rightarrow> (u16 \<times> u16 \<times> string) option" where
  "find_known_device vid pid = List.find (\<lambda>(v, p, _). v = vid \<and> p = pid) known_devices"

text \<open>A USB device, by its \<open>idVendor\<close> and \<open>idProduct\<close>.\<close>

type_synonym usb_device = "u16 \<times> u16"

abbreviation dongle :: "usb_device \<Rightarrow> (u16 \<times> u16 \<times> string) option" where
  "dongle dd \<equiv> find_known_device (fst dd) (snd dd)"

text \<open>What the calls below get from libusb.\<close>

record 'h usb_bus =
  b_malloc :: bool
  b_init :: int
  b_devices :: "usb_device list"
  b_open :: "nat \<Rightarrow> int \<times> 'h"
  b_claim :: int
  b_reset :: "'h \<Rightarrow> 'h"
  b_descriptor :: "nat \<Rightarrow> int"
  b_strings :: "nat \<Rightarrow> string \<times> string \<times> string"

subsection \<open>Enumeration\<close>

primrec count_devices :: "usb_device list \<Rightarrow> u32 \<Rightarrow> u32" where
  "count_devices [] device_count = device_count"
| "count_devices (dd # ds) device_count = count_devices ds (if dongle dd \<noteq> None then device_count + 1 else device_count)"

definition rtlsdr_get_device_count :: "'h usb_bus \<Rightarrow> u32" where
  "rtlsdr_get_device_count b = (if b_init b < 0 then 0 else count_devices (b_devices b) 0)"

text \<open>The loop leaves the variable \<open>device\<close> at the dongle it found, or at its value for the last USB device.\<close>

primrec name_loop :: "u32 \<Rightarrow> usb_device list \<Rightarrow> u32 \<Rightarrow> (u16 \<times> u16 \<times> string) option \<Rightarrow> (u16 \<times> u16 \<times> string) option" where
  "name_loop index [] device_count device = device"
| "name_loop index (dd # ds) device_count device =
     (case dongle dd of
        None \<Rightarrow> name_loop index ds device_count None
      | Some k \<Rightarrow> if index = device_count + 1 - 1 then Some k else name_loop index ds (device_count + 1) (Some k))"

definition rtlsdr_get_device_name :: "'h usb_bus \<Rightarrow> u32 \<Rightarrow> string" where
  "rtlsdr_get_device_name b index =
     (if b_init b < 0 then []
      else case name_loop index (b_devices b) 0 None of Some (_, _, name) \<Rightarrow> name | None \<Rightarrow> [])"

text \<open>The position in the list of the dongle with a number; \<open>i\<close> is the position of the first device of the list given.\<close>

primrec strings_loop :: "u32 \<Rightarrow> usb_device list \<Rightarrow> u32 \<Rightarrow> nat \<Rightarrow> nat option" where
  "strings_loop index [] device_count i = None"
| "strings_loop index (dd # ds) device_count i =
     (if dongle dd = None then strings_loop index ds device_count (i + 1)
      else if index = device_count + 1 - 1 then Some i else strings_loop index ds (device_count + 1) (i + 1))"

text \<open>The strings of an opened device; \<open>None\<close> leaves the buffers of the caller alone.\<close>

definition rtlsdr_get_usb_strings :: "'h usb_bus \<Rightarrow> nat \<Rightarrow> int \<times> (string \<times> string \<times> string) option" where
  "rtlsdr_get_usb_strings b i = (if b_descriptor b i < 0 then (-1, None) else (0, Some (b_strings b i)))"

definition rtlsdr_get_device_usb_strings :: "'h usb_bus \<Rightarrow> u32 \<Rightarrow> int \<times> (string \<times> string \<times> string) option" where
  "rtlsdr_get_device_usb_strings b index =
     (if b_init b < 0 then (b_init b, None)
      else case strings_loop index (b_devices b) 0 0 of
        None \<Rightarrow> (b_init b, None)
      | Some i \<Rightarrow> if fst (b_open b i) = 0 then rtlsdr_get_usb_strings b i else (fst (b_open b i), None))"

text \<open>\<open>str\<close> is the buffer of the caller, which a call may leave alone.\<close>

primrec serial_loop :: "'h usb_bus \<Rightarrow> string \<Rightarrow> nat list \<Rightarrow> string \<Rightarrow> int" where
  "serial_loop b serial [] str = -3"
| "serial_loop b serial (i # is) str =
     (let (r, s) = rtlsdr_get_device_usb_strings b (of_nat i);
          str = (case s of None \<Rightarrow> str | Some (_, _, sn) \<Rightarrow> sn)
      in if r = 0 \<and> serial = str then int i else serial_loop b serial is str)"

definition rtlsdr_get_index_by_serial :: "'h usb_bus \<Rightarrow> string \<Rightarrow> string \<Rightarrow> int" where
  "rtlsdr_get_index_by_serial b junk serial =
     (let cnt = sint (rtlsdr_get_device_count b)
      in if cnt = 0 then -2 else serial_loop b serial [0..<nat cnt] junk)"

subsection \<open>Opening\<close>

text \<open>The search of \<open>rtlsdr_open\<close>, which compares the number after every device, known or not.\<close>

primrec open_loop :: "u32 \<Rightarrow> usb_device list \<Rightarrow> u32 \<Rightarrow> nat \<Rightarrow> nat option" where
  "open_loop index [] device_count i = None"
| "open_loop index (dd # ds) device_count i =
     (let device_count = (if dongle dd \<noteq> None then device_count + 1 else device_count)
      in if index = device_count - 1 then Some i else open_loop index ds device_count (i + 1))"

text \<open>The device structure after \<open>memset\<close> and the assignments that follow, with the handle libusb gives.\<close>

definition new_r82xx :: "(int \<Rightarrow> u8 \<times> u8) \<Rightarrow> r82xx_priv" where
  "new_r82xx beyond = \<lparr>r_cfg = \<lparr>c_i2c_addr = 0, c_vco_curr_min = 0xff, c_vco_curr_max = 0xff, c_vco_algo = 0, c_harmonic = 0, c_xtal = 0,
       c_rafael_chip = CHIP_R820T, c_use_predetect = False\<rparr>,
     r_regs = replicate 32 0, r_buf = replicate 33 0, r_override_data = replicate 32 0, r_override_mask = replicate 32 0, r_beyond = beyond,
     r_xtal_cap_sel = XTAL_LOW_CAP_30P, r_rf_freq = 0, r_int_freq = 0, r_if_band_center_freq = 0,
     r_fil_cal_code = 0, r_input = 0, r_last_vco_curr = 0, r_has_lock = False, r_tuner_pll_set = False,
     r_tuner_harmonic = 0, r_init_done = False, r_sideband = 0, r_disable_dither = False, r_delsys = 0,
     r_type = None, r_bw = 0, r_last_if_mode = 0, r_last_manual_gain = 0, r_last_extended_mode = 0,
     r_last_LNA_value = 0, r_last_Mixer_value = 0, r_last_VGA_value = 0\<rparr>"

definition DEF_RTL_XTAL_FREQ :: u32 where
  "DEF_RTL_XTAL_FREQ = 28800000"

definition new_dev :: "(int \<Rightarrow> u8 \<times> u8) \<Rightarrow> 'h \<Rightarrow> 'h rtlsdr_dev" where
  "new_dev beyond h = \<lparr>d_devh = h, d_rate = 0, d_rtl_xtal = DEF_RTL_XTAL_FREQ, d_fir = fir_default, d_direct_sampling = 0,
     d_rtl_vga_control = 0, d_tuner_type = RTLSDR_TUNER_UNKNOWN, d_tun_xtal = 0, d_freq = 0, d_bw = 0,
     d_offs_freq = 0, d_if_band_center_freq = 0, d_tuner_if_freq = 0, d_tuner_sideband = 0,
     d_rtl_spectrum_sideband = 0, d_corr = 0, d_ds_mode = RTLSDR_DS_IQ, d_ds_threshold = 0,
     d_biast_gpio_pin_no = 0, d_gpio_state_known = 0, d_gpio_state = 0, d_i2c_repeater_on = 0, d_rc_active = 0,
     d_e4k = \<lparr>e4k_i2c_addr = 0, e4k_cur_band = E4K_BAND_VHF2,
       e4k_vco = \<lparr>pll_fosc = 0, pll_intended_flo = 0, pll_flo = 0, pll_x = 0, pll_z = 0, pll_r = 0, pll_r_idx = 0,
         pll_threephase = 0\<rparr>, e4k_rtl_dev = ()\<rparr>,
     d_r82xx = new_r82xx beyond,
     d_agc_mode = SOFTAGC_OFF, d_agc_state = SOFTSTATE_OFF, d_agc_dead_sps = 0, d_agc_scan_sps = 0, d_cs_lock = 0\<rparr>"

text \<open>The soft AGC's and the streaming fields at that time; the AGC's worker does not run yet.\<close>

definition new_stream :: "'h rtlsdr_dev \<Rightarrow> 'h stream" where
  "new_stream d =
     \<lparr>x_agc = \<lparr>a_dev = d, a_exit_command_thread = False, a_command_newGain = 0, a_command_changeGain = False, a_scanTimeMs = 100, a_deadTimeMs = 1,
        a_remainingDeadSps = 0, a_remainingScanSps = 0, a_numInHisto = 0, a_histo = replicate 16 0, a_gainIdx = 0,
        a_worker = WORKER_EXIT, a_applied = []\<rparr>,
      x_xfer_buf_num = 0, x_xfer_buf_len = 0, x_xfer = None, x_xfer_buf = None, x_cb = None,
      x_async_status = RTLSDR_INACTIVE, x_async_cancel = False, x_use_zerocopy = False, x_dev_lost = False, x_xfer_errors = 0,
      x_pc = PC_IDLE, x_r = 0, x_next_status = RTLSDR_INACTIVE, x_live = [], x_fresh = 0, x_delivered = []\<rparr>"

text \<open>The chip identification registers, in the order of the probe; the last two after a reset by GPIO 4.\<close>

definition probe :: "'h usb_ops \<Rightarrow> u8 \<Rightarrow> u8 \<Rightarrow> u8 \<Rightarrow> u8 \<Rightarrow> ('h rtlsdr_dev, bool) state" where
  "probe usb i2c_addr reg msk val = do { v \<leftarrow> rtlsdr_i2c_read_reg usb i2c_addr reg; ret (v AND msk = val) }"

definition probe_tuner :: "'h usb_ops \<Rightarrow> u8 list \<Rightarrow> ('h rtlsdr_dev, rtlsdr_tuner) state" where
  "probe_tuner usb junk = do {
     found \<leftarrow> probe usb E4K_I2C_ADDR 0x02 0xff 0x40;
     if found then ret RTLSDR_TUNER_E4000 else do {
     found \<leftarrow> probe usb FC0013_I2C_ADDR 0x00 0xff 0xa3;
     if found then ret RTLSDR_TUNER_FC0013 else do {
     found \<leftarrow> probe usb R820T_I2C_ADDR 0x00 0xff 0x69;
     if found then ret RTLSDR_TUNER_R820T else do {
     found \<leftarrow> probe usb R828D_I2C_ADDR 0x00 0xff 0x69;
     if found then ret RTLSDR_TUNER_R828D else do {
     _ \<leftarrow> rtlsdr_set_gpio_output usb junk 4;
     _ \<leftarrow> rtlsdr_set_gpio_bit usb junk 4 1;
     _ \<leftarrow> rtlsdr_set_gpio_bit usb junk 4 0;
     found \<leftarrow> probe usb FC2580_I2C_ADDR 0x01 0x7f 0x56;
     if found then ret RTLSDR_TUNER_FC2580 else do {
     found \<leftarrow> probe usb FC0012_I2C_ADDR 0x00 0xff 0xa1;
     if found then do { _ \<leftarrow> rtlsdr_set_gpio_output usb junk 6; ret RTLSDR_TUNER_FC0012 }
     else ret RTLSDR_TUNER_UNKNOWN } } } } } }"

text \<open>Page, address, value and length of the demodulator registers set for a tuner.\<close>

definition e4000_demod_tab :: "(u8 \<times> u16 \<times> u16 \<times> nat) list" where
  "e4000_demod_tab =
    [(1, 0x12, 0x5a, 1), (1, 0x02, 0x40, 1), (1, 0x03, 0x5a, 1), (1, 0xc7, 0x30, 1), (1, 0x04, 0xd0, 1),
     (1, 0x05, 0xbe, 1), (1, 0xc8, 0x18, 1), (1, 0x06, 0x35, 1), (1, 0xc9, 0x21, 1), (1, 0xca, 0x21, 1),
     (1, 0xcb, 0x00, 1), (1, 0x07, 0x40, 1), (1, 0xcd, 0x10, 1), (1, 0xce, 0x10, 1), (0, 0x11, 0xe9d4, 2),
     (1, 0xe5, 0xf0, 1), (1, 0xd9, 0x00, 1), (1, 0xdb, 0x00, 1), (1, 0xdd, 0x14, 1), (1, 0xde, 0xec, 1),
     (1, 0xd8, 0x0c, 1), (1, 0xe6, 0x02, 1), (1, 0xd7, 0x09, 1), (0, 0x10, 0x49, 1), (0, 0x0d, 0x85, 1),
     (0, 0x13, 0x02, 1)]"

definition fc001x_demod_tab :: "(u8 \<times> u16 \<times> u16 \<times> nat) list" where
  "fc001x_demod_tab =
    [(1, 0x12, 0x5a, 1), (1, 0x02, 0x40, 1), (1, 0x03, 0x5a, 1), (1, 0xc7, 0x2c, 1), (1, 0x04, 0xcc, 1),
     (1, 0x05, 0xbe, 1), (1, 0xc8, 0x16, 1), (1, 0x06, 0x35, 1), (1, 0xc9, 0x21, 1), (1, 0xca, 0x21, 1),
     (1, 0xcb, 0x00, 1), (1, 0x07, 0x40, 1), (1, 0xcd, 0x10, 1), (1, 0xce, 0x10, 1), (0, 0x11, 0xe9bf, 2),
     (1, 0xe5, 0xf0, 1), (1, 0xd9, 0x00, 1), (1, 0xdb, 0x00, 1), (1, 0xdd, 0x11, 1), (1, 0xde, 0xef, 1),
     (1, 0xd8, 0x0c, 1), (1, 0xe6, 0x02, 1), (1, 0xd7, 0x09, 1)]"

definition r82xx_demod_tab :: "(u8 \<times> u16 \<times> u16 \<times> nat) list" where
  "r82xx_demod_tab =
    [(1, 0x12, 0x5a, 1), (1, 0x02, 0x40, 1), (1, 0x03, 0x80, 1), (1, 0xc7, 0x24, 1), (1, 0x04, 0xcc, 1),
     (1, 0x05, 0xbe, 1), (1, 0xc8, 0x14, 1), (1, 0x06, 0x35, 1), (1, 0xc9, 0x21, 1), (1, 0xca, 0x21, 1),
     (1, 0xcb, 0x00, 1), (1, 0x07, 0x40, 1), (1, 0xcd, 0x10, 1), (1, 0xce, 0x10, 1), (0, 0x11, 0xe9f4, 2)]"

definition demod_tab :: "'h usb_ops \<Rightarrow> (u8 \<times> u16 \<times> u16 \<times> nat) list \<Rightarrow> ('h rtlsdr_dev, unit) state" where
  "demod_tab usb = for_each (\<lambda>(page, addr, val, len). rtlsdr_demod_write_reg usb page addr val len)"

text \<open>The switch on the tuner type; \<open>n\<close> bounds the recursion of the centre frequency calls.\<close>

definition setup_tuner ::
    "'h usb_ops \<Rightarrow> (rtlsdr_tuner \<Rightarrow> 'h rtlsdr_dev tuner_iface) \<Rightarrow> nat \<Rightarrow> rtlsdr_tuner \<Rightarrow> ('h rtlsdr_dev, unit option) state" where
  "setup_tuner usb tn n t = (
     case t of
       RTLSDR_TUNER_FC2580 \<Rightarrow> do { _ \<leftarrow> State_Monad.update (\<lambda>d. d\<lparr>d_tun_xtal := 16384000\<rparr>); ret (Some ()) }
     | RTLSDR_TUNER_E4000 \<Rightarrow> do { _ \<leftarrow> demod_tab usb e4000_demod_tab; ret (Some ()) }
     | RTLSDR_TUNER_FC0012 \<Rightarrow> do { _ \<leftarrow> demod_tab usb fc001x_demod_tab; ret (Some ()) }
     | RTLSDR_TUNER_FC0013 \<Rightarrow> do { _ \<leftarrow> demod_tab usb fc001x_demod_tab; ret (Some ()) }
     | RTLSDR_TUNER_UNKNOWN \<Rightarrow> do { r \<leftarrow> rtlsdr_set_direct_sampling usb tn n 1; ret (map_option (\<lambda>_. ()) r) }
     | _ \<Rightarrow> do {
         _ \<leftarrow> (if t = RTLSDR_TUNER_R828D then State_Monad.update (\<lambda>d. d\<lparr>d_tun_xtal := 16000000\<rparr>) else ret ());
         _ \<leftarrow> demod_tab usb r82xx_demod_tab;
         _ \<leftarrow> rtlsdr_demod_write_reg usb 1 0xb1 0x1a 1;
         _ \<leftarrow> rtlsdr_demod_write_reg usb 0 0x08 0x4d 1;
         _ \<leftarrow> rtlsdr_set_if_freq usb 3570000;
         _ \<leftarrow> rtlsdr_demod_write_reg usb 1 0x15 0x01 1;
         ret (Some ()) })"

text \<open>\<open>rtlsdr_open\<close> from the dummy write on.\<close>

definition open_device ::
    "'h usb_ops \<Rightarrow> (rtlsdr_tuner \<Rightarrow> 'h rtlsdr_dev tuner_iface) \<Rightarrow> u8 list \<Rightarrow> nat \<Rightarrow> ('h \<Rightarrow> 'h) \<Rightarrow> ('h rtlsdr_dev, unit option) state" where
  "open_device usb tn junk n reset_device = do {
     r \<leftarrow> rtlsdr_write_reg usb USBB 0x2000 0x09 1;
     _ \<leftarrow> (if r < 0 then State_Monad.update (\<lambda>d. d\<lparr>d_devh := reset_device (d_devh d)\<rparr>) else ret ());
     _ \<leftarrow> rtlsdr_init_baseband usb;
     _ \<leftarrow> rtlsdr_set_i2c_repeater usb 1;
     t \<leftarrow> probe_tuner usb junk;
     _ \<leftarrow> State_Monad.update (\<lambda>d. d\<lparr>d_tuner_type := t, d_tun_xtal := d_rtl_xtal d\<rparr>);
     ok \<leftarrow> setup_tuner usb tn n t;
     case ok of
       None \<Rightarrow> ret None
     | Some _ \<Rightarrow> do {
         _ \<leftarrow> (case tn_init (tn t) of None \<Rightarrow> ret 0 | Some m \<Rightarrow> m);
         _ \<leftarrow> rtlsdr_set_i2c_repeater usb 0;
         ret (Some ()) } }"

text \<open>A negative code, or the device; \<open>None\<close> for a call that stops the program.\<close>

definition rtlsdr_open ::
    "'h usb_ops \<Rightarrow> (rtlsdr_tuner \<Rightarrow> 'h rtlsdr_dev tuner_iface) \<Rightarrow> u8 list \<Rightarrow> nat \<Rightarrow> (int \<Rightarrow> u8 \<times> u8) \<Rightarrow> 'h usb_bus \<Rightarrow> u32
       \<Rightarrow> (int + 'h stream) option" where
  "rtlsdr_open usb tn junk n beyond b index =
     (if \<not> b_malloc b then Some (Inl (- ENOMEM))
      else if b_init b < 0 then Some (Inl (-1))
      else case open_loop index (b_devices b) 0 0 of
        None \<Rightarrow> Some (Inl (-1))
      | Some i \<Rightarrow>
          if fst (b_open b i) < 0 then Some (Inl (fst (b_open b i)))
          else if b_claim b < 0 then Some (Inl (b_claim b))
          else case run_state (open_device usb tn junk n (b_reset b)) (new_dev beyond (snd (b_open b i))) of
                 (ok, d) \<Rightarrow> map_option (\<lambda>_. Inr (new_stream d)) ok)"

section \<open>Enumeration\<close>

text \<open>The positions of the known dongles in the list of USB devices.\<close>

definition dongles :: "usb_device list \<Rightarrow> nat list" where
  "dongles ds = filter (\<lambda>i. dongle (ds ! i) \<noteq> None) [0..<length ds]"

lemma dongles_Cons: "dongles (dd # ds) = (if dongle dd \<noteq> None then [0] else []) @ map Suc (dongles ds)"
proof -
  have "[0..<length (dd # ds)] = 0 # map Suc [0..<length ds]" by (simp add: upt_conv_Cons map_Suc_upt del: upt_Suc)
  then show ?thesis by (simp add: dongles_def filter_map o_def)
qed

lemma dongles_Nil [simp]: "dongles [] = []"
  by (simp add: dongles_def)

lemma count_devices_eq: "count_devices ds c = c + of_nat (length (dongles ds))"
  by (induction ds arbitrary: c) (simp_all add: dongles_Cons)

lemma of_nat_u32_eq: "m < 2 ^ 32 \<Longrightarrow> k < 2 ^ 32 \<Longrightarrow> (of_nat m :: u32) = of_nat k \<longleftrightarrow> m = k"
  by (simp add: word_unat_eq_iff unat_of_nat)

text \<open>The three loops find the dongle with the given number; \<open>k\<close> dongles have been passed, \<open>i\<close> devices.\<close>

lemma strings_loop_eq:
  assumes "k \<le> m" "m < 2 ^ 32" "k + length (dongles ds) < 2 ^ 32"
  shows "strings_loop (of_nat m) ds (of_nat k) i =
    (if m < k + length (dongles ds) then Some (i + dongles ds ! (m - k)) else None)"
  using assms
proof (induction ds arbitrary: k i)
  case (Cons dd ds)
  show ?case
  proof (cases "dongle dd")
    case None
    then show ?thesis using Cons.IH [of k "i + 1"] Cons.prems by (simp add: dongles_Cons)
  next
    case (Some kd)
    show ?thesis
    proof (cases "m = k")
      case True
      then show ?thesis using Some by (simp add: dongles_Cons)
    next
      case False
      then have "m - k = Suc (m - Suc k)" using Cons.prems by simp
      with False show ?thesis
        using Some Cons.IH [of "k + 1" "i + 1"] Cons.prems of_nat_u32_eq [of m k] by (simp add: dongles_Cons add.commute)
    qed
  qed
qed simp

lemma open_loop_eq:
  assumes "k \<le> m" "m + 1 < 2 ^ 32" "k + length (dongles ds) < 2 ^ 32"
  shows "open_loop (of_nat m) ds (of_nat k) i =
    (if m < k + length (dongles ds) then Some (i + dongles ds ! (m - k)) else None)"
  using assms
proof (induction ds arbitrary: k i)
  case (Cons dd ds)
  have ne: "(of_nat m :: u32) \<noteq> of_nat k - 1"
  proof
    assume "(of_nat m :: u32) = of_nat k - 1"
    then have "(of_nat (m + 1) :: u32) = of_nat k" by simp
    then show False using of_nat_u32_eq [of "m + 1" k] Cons.prems by simp
  qed
  show ?case
  proof (cases "dongle dd")
    case None
    then show ?thesis using Cons.IH [of k "i + 1"] Cons.prems ne by (simp add: dongles_Cons)
  next
    case (Some kd)
    show ?thesis
    proof (cases "m = k")
      case True
      then show ?thesis using Some by (simp add: dongles_Cons)
    next
      case False
      then have "m - k = Suc (m - Suc k)" using Cons.prems by simp
      with False show ?thesis
        using Some Cons.IH [of "k + 1" "i + 1"] Cons.prems of_nat_u32_eq [of m k] by (simp add: dongles_Cons add.commute)
    qed
  qed
qed simp

lemma name_loop_found:
  assumes "k \<le> m" "m < 2 ^ 32" "k + length (dongles ds) < 2 ^ 32" "m < k + length (dongles ds)"
  shows "name_loop (of_nat m) ds (of_nat k) dev = dongle (ds ! (dongles ds ! (m - k)))"
  using assms
proof (induction ds arbitrary: k dev)
  case (Cons dd ds)
  show ?case
  proof (cases "dongle dd")
    case None
    then show ?thesis using Cons.IH [of k None] Cons.prems by (simp add: dongles_Cons)
  next
    case (Some kd)
    show ?thesis
    proof (cases "m = k")
      case True
      then show ?thesis using Some by (simp add: dongles_Cons)
    next
      case False
      then have "m - k = Suc (m - Suc k)" using Cons.prems by simp
      with False show ?thesis
        using Some Cons.IH [of "k + 1" "Some kd"] Cons.prems of_nat_u32_eq [of m k] by (simp add: dongles_Cons add.commute)
    qed
  qed
qed simp

text \<open>The serial number of the dongle with number \<open>m\<close>, if it can be opened and read.\<close>

definition serial_of :: "'h usb_bus \<Rightarrow> nat \<Rightarrow> string option" where
  "serial_of b m =
     (let i = dongles (b_devices b) ! m
      in if fst (b_open b i) = 0 \<and> b_descriptor b i \<ge> 0 then Some (snd (snd (b_strings b i))) else None)"

lemma usb_strings_eq:
  assumes "b_init b \<ge> 0" "length (dongles (b_devices b)) < 2 ^ 32" "m < length (dongles (b_devices b))"
  shows "rtlsdr_get_device_usb_strings b (of_nat m) =
    (let i = dongles (b_devices b) ! m in if fst (b_open b i) = 0 then rtlsdr_get_usb_strings b i else (fst (b_open b i), None))"
proof -
  have "strings_loop (of_nat m) (b_devices b) 0 0 = Some (dongles (b_devices b) ! m)"
    using strings_loop_eq [of 0 m "b_devices b" 0] assms by simp
  then show ?thesis using assms(1) by (simp add: rtlsdr_get_device_usb_strings_def Let_def)
qed

lemma serial_loop_eq:
  assumes "b_init b \<ge> 0" "length (dongles (b_devices b)) < 2 ^ 32" "\<forall>m \<in> set ms. m < length (dongles (b_devices b))"
  shows "serial_loop b serial ms str =
    (case List.find (\<lambda>m. serial_of b m = Some serial) ms of None \<Rightarrow> -3 | Some m \<Rightarrow> int m)"
  using assms(3)
proof (induction ms arbitrary: str)
  case (Cons m ms)
  then show ?case
    using usb_strings_eq [OF assms(1,2), of m]
    by (auto simp: serial_of_def rtlsdr_get_usb_strings_def Let_def split_beta)
qed simp

lemma length_dongles: "length (dongles ds) \<le> length ds"
  using length_filter_le [of _ "[0..<length ds]"] by (simp add: dongles_def)

lemma unat_dongles:
  "length (b_devices b) < 2 ^ 32 \<Longrightarrow> b_init b \<ge> 0 \<Longrightarrow> unat (rtlsdr_get_device_count b) = length (dongles (b_devices b))"
  using length_dongles [of "b_devices b"]
  by (simp add: rtlsdr_get_device_count_def count_devices_eq unat_of_nat)

section \<open>Opening\<close>

text \<open>The settings without the memory of the GPIO directions.\<close>

definition core :: "'h rtlsdr_dev \<Rightarrow> 'h rtlsdr_dev" where
  "core d = (settings d)\<lparr>d_gpio_state := 0, d_gpio_state_known := 0\<rparr>"

lemma core_settings: "settings d' = settings d \<Longrightarrow> core d' = core d"
  by (simp add: core_def)

lemma keeps_core: "keeps settings m \<Longrightarrow> keeps core m"
  unfolding keeps_def by (blast intro: core_settings)

lemma core_gpio [simp]: "core (d\<lparr>d_gpio_state_known := k, d_gpio_state := g\<rparr>) = core d" "core (d\<lparr>d_devh := h\<rparr>) = core d"
  by (cases d; simp add: core_def settings_def)+

lemma keeps_core_regs:
  "keeps core (rtlsdr_write_reg usb block a v l)" "keeps core (rtlsdr_demod_write_reg usb p a v l)"
  "keeps core (rtlsdr_read_reg usb junk block a l)" "keeps core (rtlsdr_i2c_read_reg usb i2c r)"
  "keeps core (rtlsdr_set_if_freq usb f)"
  by (auto intro!: keeps_core keeps_intros)
    (simp_all add: keeps_def rtlsdr_write_reg_def rtlsdr_read_reg_def rtlsdr_i2c_read_reg_def rtlsdr_write_array_def rtlsdr_read_array_def split_beta)

lemma keeps_core_gpio:
  "keeps core (rtlsdr_set_gpio_bit usb junk g v)" "keeps core (rtlsdr_set_gpio_output usb junk g)"
  unfolding rtlsdr_set_gpio_bit_def rtlsdr_set_gpio_output_def Let_def
  by (intro keeps_intros keeps_core_regs keeps_update; simp)+

lemma keeps_core_fir: "keeps core (rtlsdr_set_fir usb)"
  unfolding rtlsdr_set_fir_def by (intro keeps_intros keeps_core_regs)

lemma keeps_core_baseband: "keeps core (rtlsdr_init_baseband usb)"
  unfolding rtlsdr_init_baseband_def
  by (intro keeps_intros keeps_core_regs keeps_core_fir keeps_update) (simp add: core_def)

lemma keeps_core_probe: "keeps core (probe_tuner usb junk)"
  unfolding probe_tuner_def probe_def by (intro keeps_intros keeps_core_regs keeps_core_gpio)

lemma keeps_core_tab: "keeps core (demod_tab usb tab)"
  unfolding demod_tab_def by (intro keeps_intros) (auto intro: keeps_core_regs)

lemma core_update:
  "core (d\<lparr>d_tuner_type := t\<rparr>) = (core d)\<lparr>d_tuner_type := t\<rparr>" "core (d\<lparr>d_tun_xtal := x\<rparr>) = (core d)\<lparr>d_tun_xtal := x\<rparr>"
  "core (d\<lparr>d_direct_sampling := i\<rparr>) = (core d)\<lparr>d_direct_sampling := i\<rparr>" "core (d\<lparr>d_freq := f\<rparr>) = (core d)\<lparr>d_freq := f\<rparr>"
  by (cases d; simp add: core_def settings_def)+

lemma core_repeater:
  "core (state_of (rtlsdr_set_i2c_repeater usb on) d) =
     (core d)\<lparr>d_i2c_repeater_on := on, d_cs_lock := d_cs_lock d + (if on \<noteq> 0 then 1 else -1)\<rparr>"
  unfolding core_def repeater_settings by simp

lemma core_sel [simp]:
  "d_rate (core d) = d_rate d" "d_rtl_xtal (core d) = d_rtl_xtal d" "d_direct_sampling (core d) = d_direct_sampling d"
  "d_tuner_type (core d) = d_tuner_type d" "d_tun_xtal (core d) = d_tun_xtal d" "d_freq (core d) = d_freq d" "d_bw (core d) = d_bw d"
  "d_offs_freq (core d) = d_offs_freq d" "d_corr (core d) = d_corr d" "d_ds_mode (core d) = d_ds_mode d"
  "d_i2c_repeater_on (core d) = d_i2c_repeater_on d" "d_cs_lock (core d) = d_cs_lock d" "d_agc_mode (core d) = d_agc_mode d"
  "d_agc_state (core d) = d_agc_state d"
  by (simp_all add: core_def settings_def)

lemma core_same:
  "(core d)\<lparr>d_freq := d_freq d\<rparr> = core d" "(core d)\<lparr>d_tun_xtal := d_tun_xtal d\<rparr> = core d"
  "(core d)\<lparr>d_direct_sampling := d_direct_sampling d\<rparr> = core d"
  "(core d)\<lparr>d_tun_xtal := x, d_direct_sampling := d_direct_sampling d\<rparr> = (core d)\<lparr>d_tun_xtal := x\<rparr>"
  "(core d)\<lparr>d_tun_xtal := d_tun_xtal d, d_direct_sampling := i\<rparr> = (core d)\<lparr>d_direct_sampling := i\<rparr>"
  by (cases d; simp add: core_def settings_def)+

lemma core_eq_sel:
  assumes "core d' = core d"
  shows "d_rtl_xtal d' = d_rtl_xtal d" "d_direct_sampling d' = d_direct_sampling d" "d_tuner_type d' = d_tuner_type d"
    "d_freq d' = d_freq d" "d_ds_mode d' = d_ds_mode d" "d_cs_lock d' = d_cs_lock d"
  using assms by (metis core_sel)+

text \<open>The clock of a tuner, given the demodulator's.\<close>

definition tuner_xtal :: "rtlsdr_tuner \<Rightarrow> u32 \<Rightarrow> u32" where
  "tuner_xtal t rtl_xtal =
     (case t of RTLSDR_TUNER_FC2580 \<Rightarrow> 16384000 | RTLSDR_TUNER_R828D \<Rightarrow> 16000000 | _ \<Rightarrow> rtl_xtal)"

lemmas core_keeps = keeps_core_regs [unfolded keeps_def, rule_format] keeps_core_tab [unfolded keeps_def, rule_format]

lemma setup_no_tuner:
  assumes "tn RTLSDR_TUNER_UNKNOWN = no_tuner" "d_tuner_type d = RTLSDR_TUNER_UNKNOWN" "d_ds_mode d = RTLSDR_DS_IQ" "d_freq d = 0"
  shows "\<exists>r d'. run_state (rtlsdr_set_direct_sampling usb tn (Suc n) 1) d = (Some r, d')
    \<and> core d' = (core d)\<lparr>d_direct_sampling := 1\<rparr>"
proof -
  define d1 where "d1 = state_of (direct_sampling_on usb tn 1) d"
  have d1: "core d1 = (core d)\<lparr>d_direct_sampling := 1\<rparr>"
    using assms(1,2) by (simp add: d1_def direct_sampling_on_def no_tuner_def core_keeps core_update)
  then have f: "d_freq d1 = 0" "d_ds_mode d1 = RTLSDR_DS_IQ" "d_direct_sampling d1 = 1"
    using assms(3,4) by (metis core_sel rtlsdr_dev.select_convs rtlsdr_dev.update_convs rtlsdr_dev.surjective)+
  define d2 where "d2 = state_of (rtlsdr_set_if_freq usb 0) d1"
  have d2: "core (d2\<lparr>d_freq := 0\<rparr>) = core d1"
    using core_same(1) [of d1] f(1) by (simp add: d2_def core_update core_keeps)
  have "run_state (rtlsdr_set_center_freq64 usb tn (Suc n) 0) d1 =
      (Some (result_of (rtlsdr_set_if_freq usb 0) d1), d2\<lparr>d_freq := 0\<rparr>)"
    using f by (simp add: after_update_ds_def ds_mode_auto_def tune_center64_def run_store_freq d2_def split_beta)
  then have "\<exists>r. run_state (rtlsdr_set_direct_sampling usb tn (Suc n) 1) d = (Some r, d2\<lparr>d_freq := 0\<rparr>)"
    using f(1) by (simp add: rtlsdr_set_direct_sampling_def direct_sampling_body_def d1_def split_beta del: rtlsdr_set_center_freq64.simps)
  then show ?thesis using d1 d2 by metis
qed

lemma setup_tuner_core:
  assumes "tn RTLSDR_TUNER_UNKNOWN = no_tuner" "d_tuner_type d = t" "d_ds_mode d = RTLSDR_DS_IQ" "d_freq d = 0"
  shows "\<exists>d'. run_state (setup_tuner usb tn (Suc n) t) d = (Some (), d')
    \<and> core d' = (core d)\<lparr>d_tun_xtal := tuner_xtal t (d_tun_xtal d), d_direct_sampling := if t = RTLSDR_TUNER_UNKNOWN then 1 else d_direct_sampling d\<rparr>"
proof (cases "t = RTLSDR_TUNER_UNKNOWN")
  case True
  then show ?thesis
    using setup_no_tuner [of tn d usb n] assms
    by (auto simp: setup_tuner_def tuner_xtal_def core_same)
next
  case False
  then show ?thesis
    by (cases t) (simp_all add: setup_tuner_def tuner_xtal_def core_keeps core_update core_same split_beta)
qed

lemma open_device_core:
  assumes tn: "tn RTLSDR_TUNER_UNKNOWN = no_tuner" "\<And>t. polite_tuner (tn t)"
    and d: "d_ds_mode d = RTLSDR_DS_IQ" "d_freq d = 0" "d_direct_sampling d = 0"
  shows "\<exists>t d'. run_state (open_device usb tn junk (Suc n) reset_device) d = (Some (), d')
    \<and> core d' = (core d)\<lparr>d_tuner_type := t, d_tun_xtal := tuner_xtal t (d_rtl_xtal d),
        d_direct_sampling := if t = RTLSDR_TUNER_UNKNOWN then 1 else 0, d_i2c_repeater_on := 0, d_cs_lock := d_cs_lock d\<rparr>"
proof -
  define d1 where "d1 = state_of (rtlsdr_write_reg usb USBB 0x2000 0x09 1) d"
  define d2 where "d2 = state_of (if result_of (rtlsdr_write_reg usb USBB 0x2000 0x09 1) d < 0
    then State_Monad.update (\<lambda>d. d\<lparr>d_devh := reset_device (d_devh d)\<rparr>) else ret ()) d1"
  define d3 where "d3 = state_of (rtlsdr_set_i2c_repeater usb 1) (state_of (rtlsdr_init_baseband usb) d2)"
  define t where "t = result_of (probe_tuner usb junk) d3"
  define d4 where "d4 = state_of (probe_tuner usb junk) d3"
  define d5 where "d5 = d4\<lparr>d_tuner_type := t, d_tun_xtal := d_rtl_xtal d4\<rparr>"
  have d2: "core d2 = core d" by (simp add: d2_def d1_def core_keeps)
  have bb: "core (state_of (rtlsdr_init_baseband usb) d2) = core d"
    using keeps_core_baseband [of usb, unfolded keeps_def, rule_format, of d2] d2 by simp
  have "core d3 = (core d)\<lparr>d_i2c_repeater_on := 1, d_cs_lock := d_cs_lock d + 1\<rparr>"
    using bb core_eq_sel(6) [OF bb] by (simp add: d3_def core_repeater)
  then have d4: "core d4 = (core d)\<lparr>d_i2c_repeater_on := 1, d_cs_lock := d_cs_lock d + 1\<rparr>"
    using keeps_core_probe [of usb junk, unfolded keeps_def] by (simp add: d4_def)
  have x4: "d_rtl_xtal d4 = d_rtl_xtal d" using arg_cong [OF d4, of d_rtl_xtal] by simp
  have c5: "core d5 = (core d)\<lparr>d_i2c_repeater_on := 1, d_cs_lock := d_cs_lock d + 1, d_tuner_type := t, d_tun_xtal := d_rtl_xtal d\<rparr>"
    using d4 x4 by (simp add: d5_def core_update)
  have s5: "d_tuner_type d5 = t" "d_ds_mode d5 = RTLSDR_DS_IQ" "d_freq d5 = 0" "d_direct_sampling d5 = 0" "d_tun_xtal d5 = d_rtl_xtal d"
    using arg_cong [OF c5, of d_ds_mode] arg_cong [OF c5, of d_freq] arg_cong [OF c5, of d_direct_sampling] d x4 by (simp_all add: d5_def)
  obtain d6 where d6: "run_state (setup_tuner usb tn (Suc n) t) d5 = (Some (), d6)"
    "core d6 = (core d5)\<lparr>d_tun_xtal := tuner_xtal t (d_rtl_xtal d), d_direct_sampling := if t = RTLSDR_TUNER_UNKNOWN then 1 else 0\<rparr>"
    using setup_tuner_core [where tn = tn and usb = usb and n = n, OF tn(1) s5(1-3)] s5(4,5) by auto
  define init where "init = (case tn_init (tn t) of None \<Rightarrow> ret 0 | Some m \<Rightarrow> m)"
  define d7 where "d7 = state_of init d6"
  have "keeps core init"
    using keeps_core [OF polite_tuner.init [OF tn(2), of t]] by (auto simp: init_def keeps_intros split: option.split)
  then have c7: "core d7 = core d6" by (simp add: d7_def keeps_def)
  have l7: "d_cs_lock d7 = d_cs_lock d + 1" using arg_cong [OF c7, of d_cs_lock] arg_cong [OF d6(2), of d_cs_lock] c5 by simp
  have "run_state (open_device usb tn junk (Suc n) reset_device) d = (Some (), state_of (rtlsdr_set_i2c_repeater usb 0) d7)"
    unfolding open_device_def run_bind run_update snd_conv d1_def [symmetric] d2_def [symmetric] d3_def [symmetric] t_def [symmetric]
      d4_def [symmetric] d5_def [symmetric] d6(1) fst_conv option.case init_def [symmetric] d7_def [symmetric]
    by simp
  moreover have "core (state_of (rtlsdr_set_i2c_repeater usb 0) d7) = (core d)\<lparr>d_tuner_type := t, d_tun_xtal := tuner_xtal t (d_rtl_xtal d),
        d_direct_sampling := if t = RTLSDR_TUNER_UNKNOWN then 1 else 0, d_i2c_repeater_on := 0, d_cs_lock := d_cs_lock d\<rparr>"
    unfolding core_repeater c7 d6(2) c5 l7 by simp
  ultimately show ?thesis by blast
qed

section \<open>Properties\<close>

text \<open>
  C20.  The calls that number the devices agree: the number of devices is that of the USB devices in the table of known dongles, and a
  number below it stands for the same USB device in the name, in the strings and in \<open>rtlsdr_open\<close>; \<open>rtlsdr_open\<close>
  refuses every other number but \<open>2^32 - 1\<close>.
\<close>

theorem rtl_enumeration:
  assumes "length (b_devices b) < 2 ^ 32" "b_init b \<ge> 0"
  shows "unat (rtlsdr_get_device_count b) = length (dongles (b_devices b))
    \<and> (\<forall>m < length (dongles (b_devices b)). let i = dongles (b_devices b) ! m in
         open_loop (of_nat m) (b_devices b) 0 0 = Some i
         \<and> rtlsdr_get_device_name b (of_nat m) = snd (snd (the (dongle (b_devices b ! i))))
         \<and> rtlsdr_get_device_usb_strings b (of_nat m) =
             (if fst (b_open b i) = 0 then rtlsdr_get_usb_strings b i else (fst (b_open b i), None)))
    \<and> (\<forall>index. length (dongles (b_devices b)) \<le> unat index \<longrightarrow> index \<noteq> -1 \<longrightarrow> b_malloc b \<longrightarrow>
         rtlsdr_open usb tn junk n beyond b index = Some (Inl (-1)))"
proof -
  define ds where "ds = b_devices b"
  have len: "length (dongles ds) < 2 ^ 32" using assms(1) length_dongles [of ds] by (simp add: ds_def)
  have "open_loop (of_nat m) ds 0 0 = Some (dongles ds ! m)" if "m < length (dongles ds)" for m
    using open_loop_eq [of 0 m ds 0] that len by simp
  moreover have "rtlsdr_get_device_name b (of_nat m) = snd (snd (the (dongle (ds ! (dongles ds ! m)))))" if "m < length (dongles ds)" for m
  proof -
    have "dongle (ds ! (dongles ds ! m)) \<noteq> None" using nth_mem [OF that] by (auto simp: dongles_def)
    then show ?thesis
      using name_loop_found [of 0 m ds None] that len assms(2)
      by (auto simp: rtlsdr_get_device_name_def ds_def [symmetric] split: prod.split)
  qed
  moreover have "rtlsdr_open usb tn junk n beyond b index = Some (Inl (-1))"
    if "length (dongles ds) \<le> unat index" "index \<noteq> -1" "b_malloc b" for index
  proof -
    have "unat index \<noteq> unat (-1 :: u32)" using that(2) by (metis word_unat_eq_iff)
    then have "unat index + 1 < 2 ^ 32" using unsigned_less [where ?'a = nat, of index] by (simp add: unsigned_minus_1_eq_mask mask_eq_exp_minus_1)
    then have "open_loop index ds 0 0 = None" using open_loop_eq [of 0 "unat index" ds 0] that(1) len by simp
    then show ?thesis using assms(2) that(3) by (simp add: rtlsdr_open_def ds_def [symmetric])
  qed
  ultimately show ?thesis
    using unat_dongles [OF assms] usb_strings_eq [OF assms(2)] len by (simp add: Let_def ds_def [symmetric])
qed

text \<open>Two dongles and two other devices on the bus; only the second dongle can be opened.\<close>

definition sim_bus :: "sim_hw usb_bus" where
  "sim_bus = \<lparr>b_malloc = True, b_init = 0, b_devices = [(0x1d6b, 0x0002), (0x0bda, 0x2838), (0x046d, 0xc077), (0x0bda, 0x2832)],
     b_open = (\<lambda>i. (if i = 3 then 0 else - 3, sim_hw0)), b_claim = 0, b_reset = (\<lambda>h. h), b_descriptor = (\<lambda>_. 0),
     b_strings = (\<lambda>i. (''Realtek'', ''RTL2838'', ''00000001''))\<rparr>"

lemma find_device_eval:
  "find_known_device 0x1d6b 0x0002 = None" "find_known_device 0x0bda 0x2838 = Some (0x0bda, 0x2838, ''Generic RTL2832U OEM'')"
  "find_known_device 0x046d 0xc077 = None" "find_known_device 0x0bda 0x2832 = Some (0x0bda, 0x2832, ''Generic RTL2832U'')"
  by (simp_all add: find_known_device_def known_devices_def)

lemma sim_dongles: "dongles (b_devices sim_bus) = [1, 3]"
  by (simp add: sim_bus_def dongles_Cons find_device_eval)

theorem rtl_enumeration_witness:
  "unat (rtlsdr_get_device_count sim_bus) = 2 \<and> rtlsdr_get_device_name sim_bus 1 = ''Generic RTL2832U''
    \<and> rtlsdr_open sim_usb sim_tuners [0, 0] 1 (\<lambda>_. (0, 0)) sim_bus 2 = Some (Inl (-1))"
proof -
  have b: "length (b_devices sim_bus) < 2 ^ 32" "b_init sim_bus \<ge> 0" "b_malloc sim_bus" "dongle (b_devices sim_bus ! 3) = Some (0x0bda, 0x2832, ''Generic RTL2832U'')"
    by (simp_all add: sim_bus_def find_device_eval)
  note en = rtl_enumeration [OF b(1,2), of sim_usb sim_tuners "[0, 0]" 1 "\<lambda>_. (0, 0)", unfolded sim_dongles]
  have "unat (rtlsdr_get_device_count sim_bus) = 2" using en by simp
  moreover have "rtlsdr_get_device_name sim_bus 1 = ''Generic RTL2832U''" using conjunct1 [OF conjunct2 [OF en], rule_format, of 1] b(4) by (simp add: Let_def)
  moreover have "rtlsdr_open sim_usb sim_tuners [0, 0] 1 (\<lambda>_. (0, 0)) sim_bus 2 = Some (Inl (-1))"
    using conjunct2 [OF conjunct2 [OF en], rule_format, of 2] b(3) by simp
  ultimately show ?thesis by simp
qed

text \<open>
  C34.  \<open>rtlsdr_get_index_by_serial\<close> returns the smallest number of a dongle with the given serial number, among those that
  can be opened and read; it returns \<open>-2\<close> without dongles and \<open>-3\<close> when none has the serial number.
\<close>

theorem rtl_index_by_serial:
  assumes "length (b_devices b) < 2 ^ 31" "b_init b \<ge> 0"
  shows "rtlsdr_get_index_by_serial b junk serial =
    (if dongles (b_devices b) = [] then -2
     else case List.find (\<lambda>m. serial_of b m = Some serial) [0..<length (dongles (b_devices b))] of None \<Rightarrow> -3 | Some m \<Rightarrow> int m)"
proof -
  have len: "length (dongles (b_devices b)) < 2 ^ 31" using length_dongles [of "b_devices b"] assms(1) by simp
  have cnt: "sint (rtlsdr_get_device_count b) = int (length (dongles (b_devices b)))"
    using assms(2) len by (simp add: rtlsdr_get_device_count_def count_devices_eq sint_uint signed_take_bit_int_eq_self unsigned_of_nat take_bit_nat_eq_self)
  show ?thesis
    using len serial_loop_eq [OF assms(2), of "[0..<length (dongles (b_devices b))]" serial junk]
    by (simp add: rtlsdr_get_index_by_serial_def cnt)
qed

theorem rtl_index_by_serial_witness:
  "rtlsdr_get_index_by_serial sim_bus [] ''00000001'' = 1"
proof -
  have "length (b_devices sim_bus) < 2 ^ 31" "b_init sim_bus \<ge> 0" by (simp_all add: sim_bus_def)
  from rtl_index_by_serial [OF this, of "[]" "''00000001''"] show ?thesis
    by (simp add: sim_dongles serial_of_def) (simp add: sim_bus_def)
qed

text \<open>
  C21.  \<open>rtlsdr_open\<close> returns a device whenever libusb opens and claims the handle, whatever the control transfers answer (a dongle
  that answers nothing included) and whatever the tuner's initialisation returns, as long as the functions of the tuners keep the settings of the device (shown of
  the E4000, FC0012, FC0013 and FC2580, assumed of the R820T and R828D).  The device is ready: nothing streams, the repeater is off and its lock free,
  the clock of the tuner found is set, and without a tuner the device samples directly.
\<close>

theorem rtl_open_state:
  assumes "b_malloc b" "b_init b \<ge> 0" "open_loop index (b_devices b) 0 0 = Some i" "fst (b_open b i) \<ge> 0" "b_claim b \<ge> 0"
    "tn RTLSDR_TUNER_UNKNOWN = no_tuner" "\<forall>t. polite_tuner (tn t)"
  shows "\<exists>s t. rtlsdr_open usb tn junk (Suc n) beyond b index = Some (Inr s) \<and> stream_idle s \<and> x_live s = []
    \<and> (let d = a_dev (x_agc s) in d_tuner_type d = t \<and> d_rtl_xtal d = 28800000 \<and> d_tun_xtal d = tuner_xtal t 28800000
        \<and> d_direct_sampling d = (if t = RTLSDR_TUNER_UNKNOWN then 1 else 0) \<and> d_i2c_repeater_on d = 0 \<and> d_cs_lock d = 0
        \<and> d_rate d = 0 \<and> d_freq d = 0 \<and> d_corr d = 0 \<and> d_offs_freq d = 0 \<and> d_agc_state d = SOFTSTATE_OFF)"
proof -
  let ?d0 = "new_dev beyond (snd (b_open b i))"
  have d0: "d_ds_mode ?d0 = RTLSDR_DS_IQ" "d_freq ?d0 = 0" "d_direct_sampling ?d0 = 0"
    by (simp_all add: new_dev_def)
  obtain t d where d: "run_state (open_device usb tn junk (Suc n) (b_reset b)) ?d0 = (Some (), d)"
    and c: "core d = (core ?d0)\<lparr>d_tuner_type := t, d_tun_xtal := tuner_xtal t (d_rtl_xtal ?d0),
        d_direct_sampling := if t = RTLSDR_TUNER_UNKNOWN then 1 else 0, d_i2c_repeater_on := 0, d_cs_lock := d_cs_lock ?d0\<rparr>"
    using open_device_core [where tn = tn and usb = usb and junk = junk and n = n and reset_device = "b_reset b", OF assms(6) _ d0] assms(7) by blast
  have sel: "f d = f ((core ?d0)\<lparr>d_tuner_type := t, d_tun_xtal := tuner_xtal t (d_rtl_xtal ?d0),
        d_direct_sampling := if t = RTLSDR_TUNER_UNKNOWN then 1 else 0, d_i2c_repeater_on := 0, d_cs_lock := d_cs_lock ?d0\<rparr>)"
    if "f (core d) = f d" for f :: "'a rtlsdr_dev \<Rightarrow> 'v"
    using c that by metis
  have "rtlsdr_open usb tn junk (Suc n) beyond b index = Some (Inr (new_stream d))"
    using assms(1-5) d by (simp add: rtlsdr_open_def)
  moreover have "stream_idle (new_stream d)" "x_live (new_stream d) = []" "a_dev (x_agc (new_stream d)) = d"
    by (simp_all add: new_stream_def stream_idle_def)
  moreover have "d_tuner_type d = t" "d_rtl_xtal d = 28800000" "d_tun_xtal d = tuner_xtal t 28800000"
    "d_direct_sampling d = (if t = RTLSDR_TUNER_UNKNOWN then 1 else 0)" "d_i2c_repeater_on d = 0" "d_cs_lock d = 0" "d_rate d = 0" "d_freq d = 0"
    "d_corr d = 0" "d_offs_freq d = 0" "d_agc_state d = SOFTSTATE_OFF"
    by (subst sel, simp, simp add: new_dev_def DEF_RTL_XTAL_FREQ_def)+
  ultimately show ?thesis by auto
qed

text \<open>A dongle that answers nothing.\<close>

definition dead_usb :: "sim_hw usb_ops" where
  "dead_usb = \<lparr>ctrl_out = (\<lambda>_ _ _. ret (- 1)), ctrl_in = (\<lambda>_ _ bs. ret (- 1, bs))\<rparr>"

definition dead_tuners :: "rtlsdr_tuner \<Rightarrow> sim_hw rtlsdr_dev tuner_iface" where
  "dead_tuners = tuners dead_usb [0, 0]
     \<lparr>pll_fosc = 0, pll_intended_flo = 0, pll_flo = 0, pll_x = 0, pll_z = 0, pll_r = 0, pll_r_idx = 0, pll_threephase = 0\<rparr> no_tuner"

lemma polite_table:
  assumes "polite_tuner r820t"
  shows "polite_tuner (tuners usb junk p0 r820t t)"
proof (cases t)
  case RTLSDR_TUNER_UNKNOWN
  then show ?thesis by (simp add: polite_tuner_def)
qed (use assms e4000_tuner.polite_tuner_axioms fc0012_tuner.polite_tuner_axioms fc0013_tuner.polite_tuner_axioms
    fc2580_tuner.polite_tuner_axioms in simp_all)

theorem rtl_open_state_witness:
  "\<exists>s. rtlsdr_open dead_usb dead_tuners [0, 0] 1 (\<lambda>_. (0, 0)) sim_bus 1 = Some (Inr s) \<and> stream_idle s"
proof -
  have bus: "b_malloc sim_bus" "b_init sim_bus \<ge> 0" "b_claim sim_bus \<ge> 0" "fst (b_open sim_bus 3) \<ge> 0"
    by (simp_all add: sim_bus_def)
  have "open_loop 1 (b_devices sim_bus) 0 0 = Some 3" by (simp add: sim_bus_def find_device_eval Let_def)
  moreover have "polite_tuner (dead_tuners t)" for t
    unfolding dead_tuners_def by (rule polite_table) (simp add: polite_tuner_def no_tuner_def)
  moreover have "dead_tuners RTLSDR_TUNER_UNKNOWN = no_tuner" by (simp add: dead_tuners_def no_tuner_def)
  ultimately show ?thesis
    using rtl_open_state [where b = sim_bus and index = 1 and i = 3 and tn = dead_tuners and usb = dead_usb
        and junk = "[0, 0]" and n = 0 and beyond = "\<lambda>_. (0, 0)"] bus by fastforce
qed

text \<open>
  Two oddities of the enumeration: the number \<open>2^32 - 1\<close> opens the first USB device when that is not a known dongle, and
  the name for a number that is too large is that of the last USB device.
\<close>

lemma open_minus_one: "dongle dd = None \<Longrightarrow> open_loop (-1) (dd # ds) 0 0 = Some 0"
  by simp

lemma name_loop_beyond:
  assumes "k + length (dongles ds) \<le> m" "m < 2 ^ 32" "ds \<noteq> []"
  shows "name_loop (of_nat m) ds (of_nat k) dev = dongle (last ds)"
  using assms
proof (induction ds arbitrary: k dev)
  case (Cons dd ds)
  show ?case
  proof (cases "dongle dd")
    case None
    then show ?thesis using Cons.IH [of k None] Cons.prems by (cases "ds = []") (simp_all add: dongles_Cons)
  next
    case (Some kd)
    then have "of_nat m \<noteq> (of_nat k :: u32)" using Cons.prems of_nat_u32_eq [of m k] by (simp add: dongles_Cons)
    then show ?thesis
      using Some Cons.IH [of "k + 1" "Some kd"] Cons.prems by (cases "ds = []") (simp_all add: dongles_Cons add.commute)
  qed
qed simp

end
