(* ===== verification/Rpc_Server.thy ===== *)
theory Rpc_Server
  imports Rpc_Msg Rtl_Open
begin

text \<open>
  The RPC server \<^verbatim>\<open>src/librtlsdr/src/rtl_rpcd.c\<close>: it receives query messages from a client, calls the library, and sends a reply
  message with the result code and values.  The calls are those of the device model.  What arrives on the socket is a sequence of events;
  \<open>None\<close> as a result stands for a call that waits for ever, leaves a buffer, or stops the program.  The two
  operations that stream samples are an argument.
\<close>

section \<open>Model\<close>

subsection \<open>Receiving\<close>

text \<open>
  What \<open>recv\<close> on the non-blocking socket finds, in order: bytes, nothing (then \<open>select\<close> waits for the next event), or the end
  of the connection, an error of \<open>recv\<close> or of \<open>select\<close>.
\<close>

datatype recv_event = GOT "u8 list" | WOULD_BLOCK | CLOSED

text \<open>
  The result code, the bytes stored, and what has not been received yet.  Asked for 0 bytes, \<open>recv\<close> returns 0, which the code
  takes for the end of the connection.
\<close>

fun recv_all :: "nat \<Rightarrow> recv_event list \<Rightarrow> ((int \<times> u8 list) \<times> recv_event list) option" where
  "recv_all sz [] = (if sz = 0 then Some ((-1, []), []) else None)"
| "recv_all sz (e # es) =
     (if sz = 0 then Some ((-1, []), e # es)
      else case e of
        GOT c \<Rightarrow>
          if length c < sz then map_option (\<lambda>((r, bs), es). ((r, c @ bs), es)) (recv_all (sz - length c) es)
          else Some ((0, take sz c), if length c = sz then es else GOT (drop sz c) # es)
      | WOULD_BLOCK \<Rightarrow> recv_all sz es
      | CLOSED \<Rightarrow> Some ((-1, []), e # es))"

text \<open>Bytes received into the buffer of a message.\<close>

definition recv_into :: "rpc_msg \<Rightarrow> nat \<Rightarrow> nat \<Rightarrow> recv_event list \<Rightarrow> (int \<times> rpc_msg \<times> recv_event list) option" where
  "recv_into m p sz es = do {
     ((r, bs), es) \<leftarrow> recv_all sz es;
     b \<leftarrow> mem_write (fmt m) p bs;
     Some (r, m\<lparr>fmt := b\<rparr>, es) }"

text \<open>The function \<open>recv_msg\<close> of the server; \<open>size - sizeof(uint32_t)\<close> is computed in \<open>size_t\<close>.\<close>

definition srv_recv_msg :: "allocator \<Rightarrow> rpc_msg \<Rightarrow> recv_event list \<Rightarrow> (int \<times> rpc_msg \<times> recv_event list) option" where
  "srv_recv_msg malloc m es = do {
     ((r, bs), es) \<leftarrow> recv_all 4 es;
     if r \<noteq> 0 then Some (-1, m, es)
     else do {
       m \<leftarrow> rtlsdr_rpc_msg_set_size m (unat (bytes_u32 bs));
       sz \<leftarrow> rtlsdr_rpc_msg_get_size m;
       (r, m) \<leftarrow> rtlsdr_rpc_msg_realloc malloc m sz;
       if r \<noteq> 0 then Some (-1, m, es)
       else do {
         (r, m, es) \<leftarrow> recv_into m 4 (size_wrap (2 ^ 64 + sz - 4)) es;
         Some (if r \<noteq> 0 then -1 else 0, m, es) } } }"

subsection \<open>State\<close>

text \<open>
  \<open>rpcd_t\<close>: the open device, if any, with its place on the USB bus, the number the client opened it by, and the messages.
  \<open>rpc_env\<close> holds what the calls of the library take as arguments.
\<close>

record 'h rpcd =
  s_dev :: "'h stream option"
  s_pos :: nat
  s_did :: u32
  s_query :: rpc_msg
  s_reply :: rpc_msg

record 'h rpc_env =
  l_usb :: "'h usb_ops"
  l_tn :: "rtlsdr_tuner \<Rightarrow> 'h rtlsdr_dev tuner_iface"
  l_junk :: "u8 list"
  l_depth :: nat
  l_beyond :: "int \<Rightarrow> u8 \<times> u8"
  l_str :: string
  l_bus :: "'h usb_bus"
  l_malloc :: allocator

text \<open>\<open>rtlsdr_rpc_op_t\<close>\<close>

definition RTLSDR_RPC_OP_GET_DEVICE_COUNT :: nat where "RTLSDR_RPC_OP_GET_DEVICE_COUNT = 0"
definition RTLSDR_RPC_OP_GET_DEVICE_NAME :: nat where "RTLSDR_RPC_OP_GET_DEVICE_NAME = 1"
definition RTLSDR_RPC_OP_GET_DEVICE_USB_STRINGS :: nat where "RTLSDR_RPC_OP_GET_DEVICE_USB_STRINGS = 2"
definition RTLSDR_RPC_OP_GET_INDEX_BY_SERIAL :: nat where "RTLSDR_RPC_OP_GET_INDEX_BY_SERIAL = 3"
definition RTLSDR_RPC_OP_OPEN :: nat where "RTLSDR_RPC_OP_OPEN = 4"
definition RTLSDR_RPC_OP_CLOSE :: nat where "RTLSDR_RPC_OP_CLOSE = 5"
definition RTLSDR_RPC_OP_SET_XTAL_FREQ :: nat where "RTLSDR_RPC_OP_SET_XTAL_FREQ = 6"
definition RTLSDR_RPC_OP_GET_XTAL_FREQ :: nat where "RTLSDR_RPC_OP_GET_XTAL_FREQ = 7"
definition RTLSDR_RPC_OP_GET_USB_STRINGS :: nat where "RTLSDR_RPC_OP_GET_USB_STRINGS = 8"
definition RTLSDR_RPC_OP_WRITE_EEPROM :: nat where "RTLSDR_RPC_OP_WRITE_EEPROM = 9"
definition RTLSDR_RPC_OP_READ_EEPROM :: nat where "RTLSDR_RPC_OP_READ_EEPROM = 10"
definition RTLSDR_RPC_OP_SET_CENTER_FREQ :: nat where "RTLSDR_RPC_OP_SET_CENTER_FREQ = 11"
definition RTLSDR_RPC_OP_GET_CENTER_FREQ :: nat where "RTLSDR_RPC_OP_GET_CENTER_FREQ = 12"
definition RTLSDR_RPC_OP_SET_FREQ_CORRECTION :: nat where "RTLSDR_RPC_OP_SET_FREQ_CORRECTION = 13"
definition RTLSDR_RPC_OP_GET_FREQ_CORRECTION :: nat where "RTLSDR_RPC_OP_GET_FREQ_CORRECTION = 14"
definition RTLSDR_RPC_OP_GET_TUNER_TYPE :: nat where "RTLSDR_RPC_OP_GET_TUNER_TYPE = 15"
definition RTLSDR_RPC_OP_GET_TUNER_GAINS :: nat where "RTLSDR_RPC_OP_GET_TUNER_GAINS = 16"
definition RTLSDR_RPC_OP_SET_TUNER_GAIN :: nat where "RTLSDR_RPC_OP_SET_TUNER_GAIN = 17"
definition RTLSDR_RPC_OP_GET_TUNER_GAIN :: nat where "RTLSDR_RPC_OP_GET_TUNER_GAIN = 18"
definition RTLSDR_RPC_OP_SET_TUNER_IF_GAIN :: nat where "RTLSDR_RPC_OP_SET_TUNER_IF_GAIN = 19"
definition RTLSDR_RPC_OP_SET_TUNER_GAIN_MODE :: nat where "RTLSDR_RPC_OP_SET_TUNER_GAIN_MODE = 20"
definition RTLSDR_RPC_OP_SET_GET_TUNER_BW :: nat where "RTLSDR_RPC_OP_SET_GET_TUNER_BW = 21"
definition RTLSDR_RPC_OP_SET_SAMPLE_RATE :: nat where "RTLSDR_RPC_OP_SET_SAMPLE_RATE = 22"
definition RTLSDR_RPC_OP_GET_SAMPLE_RATE :: nat where "RTLSDR_RPC_OP_GET_SAMPLE_RATE = 23"
definition RTLSDR_RPC_OP_SET_TESTMODE :: nat where "RTLSDR_RPC_OP_SET_TESTMODE = 24"
definition RTLSDR_RPC_OP_SET_AGC_MODE :: nat where "RTLSDR_RPC_OP_SET_AGC_MODE = 25"
definition RTLSDR_RPC_OP_SET_DIRECT_SAMPLING :: nat where "RTLSDR_RPC_OP_SET_DIRECT_SAMPLING = 26"
definition RTLSDR_RPC_OP_GET_DIRECT_SAMPLING :: nat where "RTLSDR_RPC_OP_GET_DIRECT_SAMPLING = 27"
definition RTLSDR_RPC_OP_SET_OFFSET_TUNING :: nat where "RTLSDR_RPC_OP_SET_OFFSET_TUNING = 28"
definition RTLSDR_RPC_OP_GET_OFFSET_TUNING :: nat where "RTLSDR_RPC_OP_GET_OFFSET_TUNING = 29"
definition RTLSDR_RPC_OP_RESET_BUFFER :: nat where "RTLSDR_RPC_OP_RESET_BUFFER = 30"
definition RTLSDR_RPC_OP_READ_SYNC :: nat where "RTLSDR_RPC_OP_READ_SYNC = 31"
definition RTLSDR_RPC_OP_WAIT_ASYNC :: nat where "RTLSDR_RPC_OP_WAIT_ASYNC = 32"
definition RTLSDR_RPC_OP_READ_ASYNC :: nat where "RTLSDR_RPC_OP_READ_ASYNC = 33"
definition RTLSDR_RPC_OP_CANCEL_ASYNC :: nat where "RTLSDR_RPC_OP_CANCEL_ASYNC = 34"
definition RTLSDR_RPC_OP_EVENT_STATE :: nat where "RTLSDR_RPC_OP_EVENT_STATE = 35"
definition RTLSDR_RPC_OP_INVALID :: nat where "RTLSDR_RPC_OP_INVALID = 36"

lemmas rpc_ops =
  RTLSDR_RPC_OP_GET_DEVICE_COUNT_def
  RTLSDR_RPC_OP_GET_DEVICE_NAME_def
  RTLSDR_RPC_OP_GET_DEVICE_USB_STRINGS_def
  RTLSDR_RPC_OP_GET_INDEX_BY_SERIAL_def
  RTLSDR_RPC_OP_OPEN_def
  RTLSDR_RPC_OP_CLOSE_def
  RTLSDR_RPC_OP_SET_XTAL_FREQ_def
  RTLSDR_RPC_OP_GET_XTAL_FREQ_def
  RTLSDR_RPC_OP_GET_USB_STRINGS_def
  RTLSDR_RPC_OP_WRITE_EEPROM_def
  RTLSDR_RPC_OP_READ_EEPROM_def
  RTLSDR_RPC_OP_SET_CENTER_FREQ_def
  RTLSDR_RPC_OP_GET_CENTER_FREQ_def
  RTLSDR_RPC_OP_SET_FREQ_CORRECTION_def
  RTLSDR_RPC_OP_GET_FREQ_CORRECTION_def
  RTLSDR_RPC_OP_GET_TUNER_TYPE_def
  RTLSDR_RPC_OP_GET_TUNER_GAINS_def
  RTLSDR_RPC_OP_SET_TUNER_GAIN_def
  RTLSDR_RPC_OP_GET_TUNER_GAIN_def
  RTLSDR_RPC_OP_SET_TUNER_IF_GAIN_def
  RTLSDR_RPC_OP_SET_TUNER_GAIN_MODE_def
  RTLSDR_RPC_OP_SET_GET_TUNER_BW_def
  RTLSDR_RPC_OP_SET_SAMPLE_RATE_def
  RTLSDR_RPC_OP_GET_SAMPLE_RATE_def
  RTLSDR_RPC_OP_SET_TESTMODE_def
  RTLSDR_RPC_OP_SET_AGC_MODE_def
  RTLSDR_RPC_OP_SET_DIRECT_SAMPLING_def
  RTLSDR_RPC_OP_GET_DIRECT_SAMPLING_def
  RTLSDR_RPC_OP_SET_OFFSET_TUNING_def
  RTLSDR_RPC_OP_GET_OFFSET_TUNING_def
  RTLSDR_RPC_OP_RESET_BUFFER_def
  RTLSDR_RPC_OP_READ_SYNC_def
  RTLSDR_RPC_OP_WAIT_ASYNC_def
  RTLSDR_RPC_OP_READ_ASYNC_def
  RTLSDR_RPC_OP_CANCEL_ASYNC_def
  RTLSDR_RPC_OP_EVENT_STATE_def
  RTLSDR_RPC_OP_INVALID_def

subsection \<open>Calls of the library not used before\<close>

definition rtlsdr_get_freq_correction :: "'h rtlsdr_dev \<Rightarrow> int" where
  "rtlsdr_get_freq_correction d = d_corr d"

definition tuner_code :: "rtlsdr_tuner \<Rightarrow> int" where
  "tuner_code t =
     (case t of RTLSDR_TUNER_UNKNOWN \<Rightarrow> 0 | RTLSDR_TUNER_E4000 \<Rightarrow> 1 | RTLSDR_TUNER_FC0012 \<Rightarrow> 2 | RTLSDR_TUNER_FC0013 \<Rightarrow> 3
      | RTLSDR_TUNER_FC2580 \<Rightarrow> 4 | RTLSDR_TUNER_R820T \<Rightarrow> 5 | RTLSDR_TUNER_R828D \<Rightarrow> 6)"

definition rtlsdr_get_tuner_type :: "'h rtlsdr_dev \<Rightarrow> int" where
  "rtlsdr_get_tuner_type d = tuner_code (d_tuner_type d)"

definition rtlsdr_get_sample_rate :: "'h rtlsdr_dev \<Rightarrow> u32" where
  "rtlsdr_get_sample_rate d = d_rate d"

definition rtlsdr_get_direct_sampling :: "'h rtlsdr_dev \<Rightarrow> int" where
  "rtlsdr_get_direct_sampling d = d_direct_sampling d"

text \<open>The number of gains, and the bytes written to a buffer that is not null.\<close>

definition rtlsdr_get_tuner_gains :: "'h rtlsdr_dev \<Rightarrow> int \<times> u8 list" where
  "rtlsdr_get_tuner_gains d =
     (let gains = get_tuner_gains (d_tuner_type d)
      in (int (length gains), concat (map (\<lambda>g. u32_bytes (word_of_int g)) gains)))"

subsection \<open>Handling a query\<close>

definition c_bytes :: "string \<Rightarrow> u8 list" where
  "c_bytes s = map of_char s"

definition dev_call :: "('h rtlsdr_dev, 'r option) state \<Rightarrow> 'h rpcd \<Rightarrow> ('r \<times> 'h rpcd) option" where
  "dev_call m s = do {
     st \<leftarrow> s_dev s;
     let (r, d) = run_state m (a_dev (x_agc st));
     r \<leftarrow> r;
     Some (r, s\<lparr>s_dev := Some (st\<lparr>x_agc := (x_agc st)\<lparr>a_dev := d\<rparr>\<rparr>)\<rparr>) }"

definition total :: "('s, 'r) state \<Rightarrow> ('s, 'r option) state" where
  "total m = do { r \<leftarrow> m; ret (Some r) }"

definition dev_get :: "('h rtlsdr_dev \<Rightarrow> 'r) \<Rightarrow> 'h rpcd \<Rightarrow> ('r \<times> 'h rpcd) option" where
  "dev_get f s = do { st \<leftarrow> s_dev s; Some (f (a_dev (x_agc st)), s) }"

text \<open>The arguments of a query; a failed pop ends the query with \<open>-1\<close>.\<close>

primrec pop_u32s :: "nat \<Rightarrow> rpc_msg \<Rightarrow> ((int \<times> u32 list) \<times> rpc_msg) option" where
  "pop_u32s 0 m = Some ((0, []), m)"
| "pop_u32s (Suc k) m = do {
     ((r, w), m) \<leftarrow> rtlsdr_rpc_msg_pop_uint32 m;
     if r \<noteq> 0 then Some ((-1, []), m)
     else do { ((r, ws), m) \<leftarrow> pop_u32s k m; Some ((r, w # ws), m) } }"

definition with_args ::
    "nat \<Rightarrow> (u32 list \<Rightarrow> 'h rpcd \<Rightarrow> (int \<times> 'h rpcd) option) \<Rightarrow> 'h rpcd \<Rightarrow> (int \<times> 'h rpcd) option" where
  "with_args k f s = do {
     ((r, ws), q) \<leftarrow> pop_u32s k (s_query s);
     if r \<noteq> 0 then Some (-1, s\<lparr>s_query := q\<rparr>) else f ws (s\<lparr>s_query := q\<rparr>) }"

text \<open>The device number and \<open>k\<close> further arguments, for the device that is open under this number.\<close>

definition on_device ::
    "nat \<Rightarrow> (u32 list \<Rightarrow> 'h rpcd \<Rightarrow> (int \<times> 'h rpcd) option) \<Rightarrow> 'h rpcd \<Rightarrow> (int \<times> 'h rpcd) option" where
  "on_device k f = with_args (Suc k) (\<lambda>ws s.
     if s_dev s = None \<or> s_did s \<noteq> hd ws then Some (-1, s) else f (tl ws) s)"

definition reply_with :: "allocator \<Rightarrow> rpc_item list \<Rightarrow> 'h rpcd \<Rightarrow> (int \<times> 'h rpcd) option" where
  "reply_with malloc xs s = map_option (\<lambda>(r, m). (r, s\<lparr>s_reply := m\<rparr>)) (push_all malloc (s_reply s) xs)"

definition reply_strings ::
    "allocator \<Rightarrow> int \<times> (string \<times> string \<times> string) option \<Rightarrow> 'h rpcd \<Rightarrow> (int \<times> 'h rpcd) option" where
  "reply_strings malloc res s =
     (case res of
        (err, Some (manuf, product, serial)) \<Rightarrow>
          if err \<noteq> 0 then Some (err, s)
          else reply_with malloc [Str (c_bytes manuf), Str (c_bytes product), Str (c_bytes serial)] s
      | (err, None) \<Rightarrow> Some (err, s))"

text \<open>A value of which 0 means an error.\<close>

definition reply_value :: "allocator \<Rightarrow> ('h rtlsdr_dev \<Rightarrow> u32) \<Rightarrow> 'h rpcd \<Rightarrow> (int \<times> 'h rpcd) option" where
  "reply_value malloc f s = do {
     (v, s) \<leftarrow> dev_get f s;
     if v = 0 then Some (-1, s) else reply_with malloc [U32 v] s }"

definition handle_open :: "'h rpc_env \<Rightarrow> 'h rpcd \<Rightarrow> (int \<times> 'h rpcd) option" where
  "handle_open env s =
     (if s_dev s \<noteq> None then Some (0, s)
      else with_args 1 (\<lambda>ws s. do {
        r \<leftarrow> rtlsdr_open (l_usb env) (l_tn env) (l_junk env) (l_depth env) (l_beyond env) (l_bus env) (hd ws);
        Some (case r of
            Inl err \<Rightarrow> (err, s\<lparr>s_did := hd ws\<rparr>)
          | Inr st \<Rightarrow> (0, s\<lparr>s_did := hd ws, s_dev := Some st,
                             s_pos := the (open_loop (hd ws) (b_devices (l_bus env)) 0 0)\<rparr>)) }) s)"

definition handle_close :: "'h rpc_env \<Rightarrow> 'h rpcd \<Rightarrow> (int \<times> 'h rpcd) option" where
  "handle_close env = on_device 0 (\<lambda>_ s. do {
     st \<leftarrow> s_dev s;
     (err, _) \<leftarrow> rtlsdr_close (l_usb env) (l_tn env) st;
     Some (err, s\<lparr>s_dev := None\<rparr>) })"

text \<open>The gains are written behind the place of their length, then length and bytes are taken into the message.\<close>

definition gains_case :: "'h rpc_env \<Rightarrow> u32 list \<Rightarrow> 'h rpcd \<Rightarrow> (int \<times> 'h rpcd) option" where
  "gains_case env ws s = do {
     (gains, s) \<leftarrow> dev_get rtlsdr_get_tuner_gains s;
     if ws ! 0 \<noteq> 0 then Some (fst gains, s)
     else do {
       let r = s_reply s;
       (e, r) \<leftarrow> rtlsdr_rpc_msg_realloc (l_malloc env) r (off r + 4 + unat (ws ! 1));
       if e \<noteq> 0 then Some (-1, s)
       else do {
         b \<leftarrow> mem_write (fmt r) (off r + 4) (snd gains);
         let r = r\<lparr>fmt := b\<rparr>;
         if fst gains \<le> 0 then Some (fst gains, s\<lparr>s_reply := r\<rparr>)
         else do {
           r \<leftarrow> push_uint32_safe r (ws ! 1);
           Some (fst gains, s\<lparr>s_reply := rtlsdr_rpc_msg_skip_safe r (unat (ws ! 1))\<rparr>) } } } }"

definition handle_gains :: "'h rpc_env \<Rightarrow> 'h rpcd \<Rightarrow> (int \<times> 'h rpcd) option" where
  "handle_gains env = on_device 2 (gains_case env)"

text \<open>A push that fails leaves the code 0 of the call.\<close>

definition handle_bandwidth :: "'h rpc_env \<Rightarrow> 'h rpcd \<Rightarrow> (int \<times> 'h rpcd) option" where
  "handle_bandwidth env = on_device 2 (\<lambda>ws s. do {
     ((err, applied_bw), s) \<leftarrow>
       dev_call (total (rtlsdr_set_and_get_tuner_bandwidth (l_usb env) (l_tn env) (ws ! 0) (sint (ws ! 1)))) s;
     if err \<noteq> 0 then Some (err, s)
     else do { (_, s) \<leftarrow> reply_with (l_malloc env) [U32 applied_bw] s; Some (0, s) } })"

definition handle_op ::
    "'h rpc_env \<Rightarrow> (nat \<Rightarrow> 'h rpcd \<Rightarrow> (int \<times> 'h rpcd) option) \<Rightarrow> nat \<Rightarrow> 'h rpcd \<Rightarrow> (int \<times> 'h rpcd) option" where
  "handle_op env streaming op =
     (let usb = l_usb env; tn = l_tn env; n = l_depth env; malloc = l_malloc env; bus = l_bus env
      in if op = RTLSDR_RPC_OP_GET_DEVICE_COUNT then reply_with malloc [U32 (rtlsdr_get_device_count bus)]
         else if op = RTLSDR_RPC_OP_GET_DEVICE_NAME then with_args 1 (\<lambda>ws. reply_with malloc [Str (c_bytes (rtlsdr_get_device_name bus (hd ws)))])
         else if op = RTLSDR_RPC_OP_GET_DEVICE_USB_STRINGS then with_args 1 (\<lambda>ws. reply_strings malloc (rtlsdr_get_device_usb_strings bus (hd ws)))
         else if op = RTLSDR_RPC_OP_GET_INDEX_BY_SERIAL then (\<lambda>s. do {
          ((r, serial), q) \<leftarrow> rtlsdr_rpc_msg_pop_str (s_query s);
          Some (if r \<noteq> 0 then -1 else rtlsdr_get_index_by_serial bus (l_str env) (map (\<lambda>b. char_of (unat b)) serial),
                s\<lparr>s_query := q\<rparr>) })
         else if op = RTLSDR_RPC_OP_OPEN then handle_open env
         else if op = RTLSDR_RPC_OP_CLOSE then handle_close env
         else if op = RTLSDR_RPC_OP_SET_XTAL_FREQ then on_device 2 (\<lambda>ws. dev_call (rtlsdr_set_xtal_freq usb tn n (ws ! 0) (ws ! 1)))
         else if op = RTLSDR_RPC_OP_GET_XTAL_FREQ then on_device 0 (\<lambda>_ s. do {
          (f, s) \<leftarrow> dev_get rtlsdr_get_xtal_freq s;
          reply_with malloc [U32 (fst f), U32 (snd f)] s })
         else if op = RTLSDR_RPC_OP_GET_USB_STRINGS then on_device 0 (\<lambda>_ s. reply_strings malloc (rtlsdr_get_usb_strings bus (s_pos s)) s)
         else if op = RTLSDR_RPC_OP_SET_CENTER_FREQ then on_device 1 (\<lambda>ws. dev_call (rtlsdr_set_center_freq usb tn n (ws ! 0)))
         else if op = RTLSDR_RPC_OP_GET_CENTER_FREQ then on_device 0 (\<lambda>_. reply_value malloc rtlsdr_get_center_freq)
         else if op = RTLSDR_RPC_OP_SET_FREQ_CORRECTION then on_device 1 (\<lambda>ws. dev_call (rtlsdr_set_freq_correction usb tn n (sint (ws ! 0))))
         else if op = RTLSDR_RPC_OP_GET_FREQ_CORRECTION then on_device 0 (\<lambda>_. dev_get rtlsdr_get_freq_correction)
         else if op = RTLSDR_RPC_OP_GET_TUNER_TYPE then on_device 0 (\<lambda>_. dev_get rtlsdr_get_tuner_type)
         else if op = RTLSDR_RPC_OP_GET_TUNER_GAINS then handle_gains env
         else if op = RTLSDR_RPC_OP_SET_TUNER_GAIN then on_device 1 (\<lambda>ws. dev_call (total (rtlsdr_set_tuner_gain usb tn (sint (ws ! 0)))))
         else if op = RTLSDR_RPC_OP_GET_TUNER_GAIN then on_device 0 (\<lambda>_. dev_get rtlsdr_get_tuner_gain)
         else if op = RTLSDR_RPC_OP_SET_TUNER_IF_GAIN then 
          on_device 2 (\<lambda>ws. dev_call (total (rtlsdr_set_tuner_if_gain usb tn (sint (ws ! 0)) (sint (ws ! 1)))))
         else if op = RTLSDR_RPC_OP_SET_TUNER_GAIN_MODE then on_device 1 (\<lambda>ws. dev_call (total (rtlsdr_set_tuner_gain_mode usb tn (sint (ws ! 0)))))
         else if op = RTLSDR_RPC_OP_SET_GET_TUNER_BW then handle_bandwidth env
         else if op = RTLSDR_RPC_OP_SET_SAMPLE_RATE then on_device 1 (\<lambda>ws. dev_call (rtlsdr_set_sample_rate usb tn n (ws ! 0)))
         else if op = RTLSDR_RPC_OP_GET_SAMPLE_RATE then on_device 0 (\<lambda>_. reply_value malloc rtlsdr_get_sample_rate)
         else if op = RTLSDR_RPC_OP_SET_TESTMODE then on_device 1 (\<lambda>ws. dev_call (total (rtlsdr_set_testmode usb (sint (ws ! 0)))))
         else if op = RTLSDR_RPC_OP_SET_AGC_MODE then on_device 1 (\<lambda>ws. dev_call (total (rtlsdr_set_agc_mode usb (sint (ws ! 0)))))
         else if op = RTLSDR_RPC_OP_SET_DIRECT_SAMPLING then on_device 1 (\<lambda>ws. dev_call (rtlsdr_set_direct_sampling usb tn n (sint (ws ! 0))))
         else if op = RTLSDR_RPC_OP_GET_DIRECT_SAMPLING then on_device 0 (\<lambda>_. dev_get rtlsdr_get_direct_sampling)
         else if op = RTLSDR_RPC_OP_SET_OFFSET_TUNING then on_device 1 (\<lambda>ws. dev_call (rtlsdr_set_offset_tuning usb tn n (sint (ws ! 0))))
         else if op = RTLSDR_RPC_OP_GET_OFFSET_TUNING then on_device 0 (\<lambda>_. dev_get rtlsdr_get_offset_tuning)
         else if op = RTLSDR_RPC_OP_RESET_BUFFER then on_device 0 (\<lambda>_. dev_call (total (rtlsdr_reset_buffer usb)))
         else if op = RTLSDR_RPC_OP_READ_ASYNC then streaming RTLSDR_RPC_OP_READ_ASYNC
         else if op = RTLSDR_RPC_OP_CANCEL_ASYNC then on_device 0 (\<lambda>_ s. Some (0, s))
         else if op = RTLSDR_RPC_OP_READ_SYNC then streaming RTLSDR_RPC_OP_READ_SYNC
         else (\<lambda>s. Some (-1, s)))"

text \<open>The reply is finished from the label \<open>on_error\<close> on.\<close>

definition finish_reply :: "rpc_msg \<Rightarrow> nat \<Rightarrow> int \<Rightarrow> rpc_msg \<Rightarrow> rpc_msg option" where
  "finish_reply q op err r = do {
     r \<leftarrow> rtlsdr_rpc_msg_set_size r (off r);
     r \<leftarrow> rtlsdr_rpc_msg_set_op r op;
     i \<leftarrow> rtlsdr_rpc_msg_get_id q;
     r \<leftarrow> rtlsdr_rpc_msg_set_id r i;
     rtlsdr_rpc_msg_set_err r err }"

definition handle_query ::
    "'h rpc_env \<Rightarrow> (nat \<Rightarrow> 'h rpcd \<Rightarrow> (int \<times> 'h rpcd) option) \<Rightarrow> 'h rpcd \<Rightarrow> 'h rpcd option" where
  "handle_query env streaming s = do {
     let s = s\<lparr>s_reply := rtlsdr_rpc_msg_reset (s_reply s)\<rparr>;
     op \<leftarrow> rtlsdr_rpc_msg_get_op (s_query s);
     (err, s) \<leftarrow> handle_op env streaming op s;
     r \<leftarrow> finish_reply (s_query s) op err (s_reply s);
     Some (s\<lparr>s_reply := r\<rparr>) }"

text \<open>
  The part of \<open>do_rpcd\<close> for a message from the client: the bytes of the reply, or \<open>None\<close> inside when the connection
  is closed.  The reply is sent by \<open>send_all\<close>, which sends every byte or gives up.
\<close>

definition serve_query ::
    "'h rpc_env \<Rightarrow> (nat \<Rightarrow> 'h rpcd \<Rightarrow> (int \<times> 'h rpcd) option) \<Rightarrow> 'h rpcd \<Rightarrow> recv_event list
       \<Rightarrow> (u8 list option \<times> 'h rpcd \<times> recv_event list) option" where
  "serve_query env streaming s es = do {
     (r, q, es) \<leftarrow> srv_recv_msg (l_malloc env) (rtlsdr_rpc_msg_reset (s_query s)) es;
     let s = s\<lparr>s_query := q\<rparr>;
     if r \<noteq> 0 then Some (None, s, es)
     else do {
       s \<leftarrow> handle_query env streaming s;
       bs \<leftarrow> mem_read (fmt (s_reply s)) 0 (off (s_reply s));
       Some (Some bs, s, es) } }"

text \<open>
  The callback of the operation \<open>READ_ASYNC\<close>, on the flag \<open>async_replied\<close> and the device: the bytes it sends for a block of
  samples, the reply to the query before the first block, then a header built on the stack (first \<open>junk\<close>) and the
  block.  \<open>is_recv\<close> tells whether \<open>select\<close> has found the socket readable while the block was sent: the client has sent
  something, and the stream is cancelled.
\<close>

definition read_async_cb ::
    "u8 list \<Rightarrow> u8 \<Rightarrow> u8 list \<Rightarrow> u8 list \<Rightarrow> bool \<Rightarrow> bool \<times> 'h stream \<Rightarrow> (u8 list \<times> bool \<times> 'h stream) option" where
  "read_async_cb junk async_id reply buf is_recv = (\<lambda>(async_replied, dev). do {
     let sent = (if async_replied then [] else reply);
     let msg = \<lparr>off = fmt_data_off, msize = fmt_data_off + length buf, fmt = junk\<rparr>;
     msg \<leftarrow> rtlsdr_rpc_msg_set_size msg (msize msg);
     msg \<leftarrow> rtlsdr_rpc_msg_set_op msg RTLSDR_RPC_OP_READ_ASYNC;
     msg \<leftarrow> rtlsdr_rpc_msg_set_id msg async_id;
     msg \<leftarrow> rtlsdr_rpc_msg_set_err msg 0;
     hdr \<leftarrow> mem_read (fmt msg) 0 fmt_data_off;
     let dev = (if is_recv then snd (rtlsdr_cancel_async dev) else dev);
     Some (sent @ hdr @ buf, True, dev) })"

section \<open>Receiving\<close>

text \<open>Events that bring just the bytes \<open>bs\<close>, in whatever portions.\<close>

fun arriving :: "recv_event list \<Rightarrow> u8 list" where
  "arriving [] = []"
| "arriving (GOT c # es) = c @ arriving es"
| "arriving (_ # es) = arriving es"

definition carries :: "recv_event list \<Rightarrow> u8 list \<Rightarrow> bool" where
  "carries es bs \<longleftrightarrow> CLOSED \<notin> set es \<and> arriving es = bs"

lemma carries_Nil [simp]: "carries [] bs \<longleftrightarrow> bs = []"
  by (auto simp: carries_def)

lemma arriving_append: "arriving (es @ es') = arriving es @ arriving es'"
  by (induction es rule: arriving.induct) simp_all

lemma carries_append: "carries es bs \<Longrightarrow> carries es' bs' \<Longrightarrow> carries (es @ es') (bs @ bs')"
  by (simp add: carries_def arriving_append)

text \<open>The portions do not matter: bytes that arrive are received, and the rest is left for the next call.\<close>

lemma recv_all_carries:
  assumes "carries es (bs @ rest)" "bs \<noteq> []"
  shows "\<exists>es'. recv_all (length bs) es = Some ((0, bs), es') \<and> carries es' rest"
  using assms
proof (induction es arbitrary: bs)
  case (Cons e es)
  show ?case
  proof (cases e)
    case (GOT c)
    then have b: "c @ arriving es = bs @ rest" "CLOSED \<notin> set es" using Cons.prems(1) by (auto simp: carries_def)
    show ?thesis
    proof (cases "length c < length bs")
      case True
      then obtain bs' where bs': "bs = c @ bs'" "bs' \<noteq> []" "arriving es = bs' @ rest"
        using b(1) by (auto simp: append_eq_append_conv2)
      then have "carries es (bs' @ rest)" using b(2) by (simp add: carries_def)
      then obtain es' where "recv_all (length bs') es = Some ((0, bs'), es')" "carries es' rest"
        using Cons.IH bs'(2) by blast
      then show ?thesis using GOT True bs' by auto
    next
      case False
      then obtain c' where c': "c = bs @ c'" "rest = c' @ arriving es"
        using b(1) by (auto simp: append_eq_append_conv2)
      then show ?thesis
        using GOT b(2) Cons.prems(2) by (cases "c' = []") (auto simp: carries_def)
    qed
  next
    case WOULD_BLOCK
    then show ?thesis using Cons.IH [OF _ Cons.prems(2)] Cons.prems by (auto simp: carries_def)
  next
    case CLOSED
    then show ?thesis using Cons.prems by (simp add: carries_def)
  qed
qed simp

lemma recv_into_carries:
  assumes "carries es (bs @ rest)" "bs \<noteq> []" "p + length bs \<le> length (fmt m)"
  shows "\<exists>es'. recv_into m p (length bs) es = Some (0, m\<lparr>fmt := take p (fmt m) @ bs @ drop (p + length bs) (fmt m)\<rparr>, es')
    \<and> carries es' rest"
  using recv_all_carries [OF assms(1,2)] assms(3) by (auto simp: recv_into_def)

text \<open>An allocator that always has memory.\<close>

definition roomy :: "allocator \<Rightarrow> bool" where
  "roomy malloc \<longleftrightarrow> (\<forall>n. \<exists>b. malloc n = Some b \<and> length b = n)"

lemma roomy_ok: "roomy malloc \<Longrightarrow> alloc_ok malloc" "roomy malloc \<Longrightarrow> malloc k \<noteq> None"
proof -
  assume r: "roomy malloc"
  show "alloc_ok malloc"
    unfolding alloc_ok_def using r [unfolded roomy_def] by (metis option.inject)
next
  assume "roomy malloc"
  then show "malloc k \<noteq> None" by (metis roomy_def option.distinct(1))
qed

lemma realloc_roomy:
  assumes "wf_msg m" "roomy malloc" "n < 2 ^ 63"
  shows "\<exists>m'. rtlsdr_rpc_msg_realloc malloc m n = Some (0, m') \<and> wf_msg m' \<and> off m' = off m
    \<and> n \<le> msize m' \<and> take (off m) (fmt m') = take (off m) (fmt m)"
proof (cases "n \<le> msize m")
  case True
  then show ?thesis using assms by (simp add: rtlsdr_rpc_msg_realloc_def)
next
  case False
  obtain b where "malloc n = Some b" "length b = n" using assms(2) by (auto simp: roomy_def)
  then show ?thesis
    using False assms wf_msg_bounds [OF assms(1)]
    by (auto simp: rtlsdr_rpc_msg_realloc_def move_to_def wf_msg_def)
qed

text \<open>A message on the wire: the header, and the payload behind it.\<close>

definition wire :: "u8 \<Rightarrow> u8 \<Rightarrow> u32 \<Rightarrow> u8 list \<Rightarrow> u8 list" where
  "wire op i err payload = u32_bytes (of_nat (10 + length payload)) @ [op, i] @ u32_bytes err @ payload"

lemma length_wire [simp]: "length (wire op i err payload) = 10 + length payload"
  by (simp add: wire_def)

lemma srv_recv_msg_wire:
  assumes "wf_msg m" "off m = fmt_data_off" "roomy malloc" "carries es (wire op i err payload @ rest)"
    "10 + length payload < 2 ^ 32"
  shows "\<exists>m' es'. srv_recv_msg malloc m es = Some (0, m', es') \<and> carries es' rest \<and> wf_msg m' \<and> off m' = fmt_data_off
    \<and> take (10 + length payload) (fmt m') = wire op i err payload"
proof -
  let ?n = "10 + length payload" and ?tl = "[op, i] @ u32_bytes err @ payload"
  have size: "unat (of_nat ?n :: u32) = ?n"
    using assms(5) by (simp only: unat_of_nat) simp
  have w: "wire op i err payload @ rest = u32_bytes (of_nat ?n) @ ?tl @ rest" by (simp add: wire_def)
  have len4: "length (u32_bytes (of_nat ?n)) = 4" by simp
  have "u32_bytes (of_nat ?n) \<noteq> []" using len4 by (metis list.size(3) zero_neq_numeral)
  then obtain es1 where es1: "recv_all 4 es = Some ((0, u32_bytes (of_nat ?n)), es1)" "carries es1 (?tl @ rest)"
    using recv_all_carries [of es "u32_bytes (of_nat ?n)" "?tl @ rest"] assms(4) w len4 by auto
  define m1 where "m1 = m\<lparr>fmt := u32_bytes (of_nat ?n) @ drop 4 (fmt m)\<rparr>"
  have m1: "rtlsdr_rpc_msg_set_size m ?n = Some m1" "rtlsdr_rpc_msg_get_size m1 = Some ?n" "wf_msg m1" "off m1 = 10"
    using assms(1,2) wf_msg_bounds [OF assms(1)] size
    by (simp_all add: m1_def header_defs wf_msg_def)
  obtain m2 where m2: "rtlsdr_rpc_msg_realloc malloc m1 ?n = Some (0, m2)" "wf_msg m2" "off m2 = 10" "?n \<le> msize m2"
      "take 10 (fmt m2) = take 10 (fmt m1)"
    using realloc_roomy [OF m1(3) assms(3), of ?n] m1(4) assms(5) by auto
  have h: "take 4 (fmt m2) = u32_bytes (of_nat ?n)"
    using arg_cong [OF m2(5), of "take 4"] by (simp add: m1_def min_def)
  define m3 where "m3 = m2\<lparr>fmt := take 4 (fmt m2) @ ?tl @ drop (4 + length ?tl) (fmt m2)\<rparr>"
  obtain es2 where es2: "recv_into m2 4 (length ?tl) es1 = Some (0, m3, es2)" "carries es2 rest"
    using recv_into_carries [OF es1(2), of 4 m2] m2(2,4) wf_msg_bounds [OF m2(2)] by (auto simp: m3_def)
  have "2 ^ 64 + ?n - 4 = (6 + length payload) + 2 ^ 64" by simp
  then have "size_wrap (2 ^ 64 + ?n - 4) = length ?tl"
    using assms(5) by (simp only: size_wrap_def mod_add_self2) simp
  moreover have "take ?n (fmt m3) = wire op i err payload"
  proof -
    have "fmt m3 = wire op i err payload @ drop (4 + length ?tl) (fmt m2)" by (simp add: m3_def wire_def h)
    then show ?thesis by simp
  qed
  moreover have "wf_msg m3" "off m3 = fmt_data_off"
    using m2 wf_msg_bounds [OF m2(2)] by (simp_all add: m3_def wf_msg_def fmt_offs)
  ultimately show ?thesis
    using es1(1) es2 m1 m2(1) size by (simp add: srv_recv_msg_def)
qed

section \<open>Messages on the wire\<close>

lemma id_bytes: "ucast (ucast (i :: u8) :: u16) = i" "ucast (drop_bit 8 (ucast (i :: u8) :: u16)) = (0 :: u8)"
  by (rule bit_word_eqI; auto simp: bit_simps dest: bit_imp_le_length)+

lemma u32_bytes_4: "\<exists>a b c d. u32_bytes w = [a, b, c, d]"
  by (simp add: u32_bytes_def)

lemma header_take:
  assumes "wf_msg m" "fmt m = h @ t" "length h = 10"
  shows "take (off m) (fmt m) = h @ written m"
proof -
  have "take 10 (take (off m) (fmt m)) = h" using assms wf_msg_bounds [OF assms(1)] by simp
  then show ?thesis
    using append_take_drop_id [of 10 "take (off m) (fmt m)"] by (simp add: written_def fmt_offs)
qed

lemmas header_sets = rtlsdr_rpc_msg_set_size_def rtlsdr_rpc_msg_set_op_def rtlsdr_rpc_msg_set_id_def
  rtlsdr_rpc_msg_set_err_def put_uint8_def put_uint16_def put_uint32_def mem_write_def fmt_offs

text \<open>The reply is what the wire needs.\<close>

lemma finish_reply_wire:
  assumes "wf_msg r" "rtlsdr_rpc_msg_get_id q = Some i"
  shows "\<exists>r'. finish_reply q op err r = Some r' \<and> wf_msg r' \<and> off r' = off r
    \<and> take (off r) (fmt r') = wire (of_nat op) i (word_of_int err) (written r)"
proof -
  obtain b0 b1 b2 b3 p j e0 e1 e2 e3 t where f: "fmt r = b0 # b1 # b2 # b3 # p # j # e0 # e1 # e2 # e3 # t"
    using wf_msg_header [OF assms(1)] .
  obtain s0 s1 s2 s3 where s: "u32_bytes (of_nat (off r)) = [s0, s1, s2, s3]" using u32_bytes_4 by blast
  obtain c0 c1 c2 c3 where c: "u32_bytes (word_of_int err) = [c0, c1, c2, c3]" using u32_bytes_4 by blast
  define r' where "r' = r\<lparr>fmt := s0 # s1 # s2 # s3 # of_nat op # i # c0 # c1 # c2 # c3 # t\<rparr>"
  have eq: "finish_reply q op err r = Some r'"
    using assms(2) by (simp add: finish_reply_def header_sets f s c id_bytes r'_def)
  have wf: "wf_msg r'" using assms(1) f by (simp add: r'_def wf_msg_def)
  have wr: "written r' = written r"
    by (simp add: r'_def written_def fmt_offs f drop_take)
  have len: "off r = 10 + length (written r)"
    using wf_msg_bounds [OF assms(1)] by (simp add: written_def fmt_offs)
  have "take (off r') (fmt r') = [s0, s1, s2, s3, of_nat op, i, c0, c1, c2, c3] @ written r'"
    using wf by (rule header_take) (simp_all add: r'_def)
  then have "take (off r) (fmt r') = wire (of_nat op) i (word_of_int err) (written r)"
    using s c len wr by (simp add: wire_def r'_def)
  then show ?thesis using eq wf by (simp add: r'_def)
qed

text \<open>Reading a message that came from the wire.\<close>

lemma wire_fields:
  assumes "wf_msg m" "take (10 + length payload) (fmt m) = wire op i err payload"
  shows "rtlsdr_rpc_msg_get_op m = Some (unat op)" "rtlsdr_rpc_msg_get_id m = Some i"
    "rtlsdr_rpc_msg_get_err m = Some (sint err)" "\<exists>rest. drop fmt_data_off (fmt m) = payload @ rest"
proof -
  obtain s0 s1 s2 s3 where s: "u32_bytes (of_nat (10 + length payload)) = [s0, s1, s2, s3]" using u32_bytes_4 by blast
  obtain c0 c1 c2 c3 where c: "u32_bytes err = [c0, c1, c2, c3]" using u32_bytes_4 by blast
  have "fmt m = wire op i err payload @ drop (10 + length payload) (fmt m)"
    using assms(2) append_take_drop_id by metis
  then obtain rest where f: "fmt m = s0 # s1 # s2 # s3 # op # i # c0 # c1 # c2 # c3 # payload @ rest"
    using s c by (auto simp: wire_def)
  show "rtlsdr_rpc_msg_get_op m = Some (unat op)" "rtlsdr_rpc_msg_get_id m = Some i"
    "\<exists>rest. drop fmt_data_off (fmt m) = payload @ rest"
    by (simp_all add: header_defs f)
  show "rtlsdr_rpc_msg_get_err m = Some (sint err)"
    using bytes_u32_u32_bytes [of err] by (simp add: header_defs f c)
qed

lemma pop_u32s_unread:
  assumes "wf_msg m" "unread m = concat (map u32_bytes ws) @ rest"
  shows "\<exists>m'. pop_u32s (length ws) m = Some ((0, ws), m') \<and> wf_msg m' \<and> fmt m' = fmt m \<and> msize m' = msize m
    \<and> unread m' = rest"
  using assms
proof (induction ws arbitrary: m)
  case (Cons w ws)
  then obtain m' where m': "pop_uint32 m = Some ((0, w), m')" "wf_msg m'" "unread m' = concat (map u32_bytes ws) @ rest"
      "fmt m' = fmt m" "msize m' = msize m"
    using pop_uint32_unread [OF Cons.prems(1), of w "concat (map u32_bytes ws) @ rest"] by auto
  then show ?case using Cons.IH [OF m'(2,3)] by (auto simp: rtlsdr_rpc_msg_pop_uint32_def)
qed simp

section \<open>A query and its reply\<close>

text \<open>
  The server between two queries: its messages are well formed.
\<close>

definition srv_ok :: "'h rpcd \<Rightarrow> bool" where
  "srv_ok s \<longleftrightarrow> wf_msg (s_query s) \<and> wf_msg (s_reply s)"

text \<open>
  What a query does to the server apart from its messages: the handler, given the arguments, yields a code, items for the reply, and
  a new state, which often differs in the device only.
\<close>

definition answers_to ::
    "'h rpc_env \<Rightarrow> (nat \<Rightarrow> 'h rpcd \<Rightarrow> (int \<times> 'h rpcd) option) \<Rightarrow> nat \<Rightarrow> u32 list \<Rightarrow> 'h rpcd \<Rightarrow> int \<Rightarrow> rpc_item list
       \<Rightarrow> 'h rpcd \<Rightarrow> bool" where
  "answers_to env streaming op ws s err xs t \<longleftrightarrow>
     (\<forall>q r rest. wf_msg q \<and> wf_msg r \<and> off r = fmt_data_off \<and> unread q = concat (map u32_bytes ws) @ rest \<longrightarrow>
       (\<exists>q' r'. handle_op env streaming op (s\<lparr>s_query := q, s_reply := r\<rparr>) = Some (err, t\<lparr>s_query := q', s_reply := r'\<rparr>)
          \<and> wf_msg q' \<and> fmt q' = fmt q \<and> wf_msg r' \<and> written r' = concat (map item_bytes xs)))"

definition answers ::
    "'h rpc_env \<Rightarrow> (nat \<Rightarrow> 'h rpcd \<Rightarrow> (int \<times> 'h rpcd) option) \<Rightarrow> nat \<Rightarrow> u32 list \<Rightarrow> 'h rpcd \<Rightarrow> int \<Rightarrow> rpc_item list
       \<Rightarrow> 'h stream option \<Rightarrow> bool" where
  "answers env streaming op ws s err xs dev \<longleftrightarrow> answers_to env streaming op ws s err xs (s\<lparr>s_dev := dev\<rparr>)"

lemma serve_query_answers:
  assumes "srv_ok s" "roomy (l_malloc env)" "answers_to env streaming op ws s err xs t" "op < 256"
    "carries es (wire (of_nat op) i e (concat (map u32_bytes ws)))" "10 + length (concat (map u32_bytes ws)) < 2 ^ 32"
  shows "\<exists>s' es'. serve_query env streaming s es
      = Some (Some (wire (of_nat op) i (word_of_int err) (concat (map item_bytes xs))), s', es')
    \<and> carries es' [] \<and> s_dev s' = s_dev t \<and> s_did s' = s_did t \<and> srv_ok s'"
proof -
  let ?p = "concat (map u32_bytes ws)" and ?q0 = "rtlsdr_rpc_msg_reset (s_query s)" and ?r = "rtlsdr_rpc_msg_reset (s_reply s)"
  have ok: "wf_msg ?q0" "wf_msg ?r" using assms(1) by (simp_all add: srv_ok_def wf_reset)
  have offs: "off ?q0 = fmt_data_off" "off ?r = fmt_data_off" by (simp_all add: rtlsdr_rpc_msg_reset_def)
  obtain q es' where q: "srv_recv_msg (l_malloc env) ?q0 es = Some (0, q, es')" "carries es' []" "wf_msg q"
      "off q = fmt_data_off" "take (10 + length ?p) (fmt q) = wire (of_nat op) i e ?p"
    using srv_recv_msg_wire [OF ok(1) offs(1) assms(2), of es "of_nat op" i e ?p "[]"] assms(5,6) by auto
  note f = wire_fields [OF q(3,5)]
  have op: "unat (of_nat op :: u8) = op" using assms(4) by (simp add: unat_of_nat)
  obtain rest where "unread q = ?p @ rest" using f(4) q(4) by (auto simp: unread_def)
  then obtain q' r' where h: "handle_op env streaming op (s\<lparr>s_query := q, s_reply := ?r\<rparr>)
        = Some (err, t\<lparr>s_query := q', s_reply := r'\<rparr>)"
      "wf_msg q'" "fmt q' = fmt q" "wf_msg r'" "written r' = concat (map item_bytes xs)"
    using assms(3) q(3) ok(2) offs(2) unfolding answers_to_def by blast
  have "rtlsdr_rpc_msg_get_id q' = Some i" using f(2) h(3) by (simp add: header_defs)
  then obtain r'' where r'': "finish_reply q' op err r' = Some r''" "wf_msg r''" "off r'' = off r'"
      "take (off r') (fmt r'') = wire (of_nat op) i (word_of_int err) (concat (map item_bytes xs))"
    using finish_reply_wire [OF h(4), of q' i op err] h(5) by auto
  have "handle_query env streaming (s\<lparr>s_query := q\<rparr>) = Some (t\<lparr>s_query := q', s_reply := r''\<rparr>)"
    using f(1) op h(1) r''(1) by (simp add: handle_query_def)
  then show ?thesis
    using q(1,2) h(2) r'' wf_msg_bounds [OF r''(2)] by (simp add: serve_query_def srv_ok_def)
qed

section \<open>The operations\<close>

text \<open>The arguments of an operation on the open device.\<close>

lemma on_device_args:
  assumes "wf_msg q" "unread q = concat (map u32_bytes (s_did s # ws)) @ rest" "s_dev s \<noteq> None"
  shows "\<exists>q'. on_device (length ws) f (s\<lparr>s_query := q, s_reply := r\<rparr>) = f ws (s\<lparr>s_query := q', s_reply := r\<rparr>)
    \<and> wf_msg q' \<and> fmt q' = fmt q"
proof -
  obtain q' where "pop_u32s (Suc (length ws)) q = Some ((0, s_did s # ws), q')" "wf_msg q'" "fmt q' = fmt q"
    using pop_u32s_unread [OF assms(1,2)] by (auto simp del: pop_u32s.simps)
  then show ?thesis
    using assms(3) by (intro exI [of _ q'])
      (auto simp: on_device_def with_args_def simp del: pop_u32s.simps intro!: arg_cong [of _ _ "f ws"])
qed

text \<open>A handler that leaves the messages alone, and one that also replies with items.\<close>

lemma answers_code:
  assumes "handle_op env streaming op = on_device (length ws) h" "s_dev s \<noteq> None"
    "\<And>q r. h ws (s\<lparr>s_query := q, s_reply := r\<rparr>) = Some (err, s\<lparr>s_dev := dev, s_query := q, s_reply := r\<rparr>)"
  shows "answers env streaming op (s_did s # ws) s err [] dev"
  unfolding answers_def answers_to_def
proof (intro allI impI)
  fix q r rest
  assume a: "wf_msg q \<and> wf_msg r \<and> off r = fmt_data_off \<and> unread q = concat (map u32_bytes (s_did s # ws)) @ rest"
  then obtain q' where "on_device (length ws) h (s\<lparr>s_query := q, s_reply := r\<rparr>) = h ws (s\<lparr>s_query := q', s_reply := r\<rparr>)"
      "wf_msg q'" "fmt q' = fmt q"
    using on_device_args [of q s ws rest h r] assms(2) by blast
  then show "\<exists>q' r'. handle_op env streaming op (s\<lparr>s_query := q, s_reply := r\<rparr>)
            = Some (err, s\<lparr>s_dev := dev, s_query := q', s_reply := r'\<rparr>)
          \<and> wf_msg q' \<and> fmt q' = fmt q \<and> wf_msg r' \<and> written r' = concat (map item_bytes [])"
    using assms(1,3) a by (intro exI [of _ q'] exI [of _ r]) (simp add: written_def)
qed

lemma push_all_roomy:
  assumes "wf_msg r" "off r = fmt_data_off" "roomy malloc" "total_bytes xs < 2 ^ 32"
  shows "\<exists>r'. push_all malloc r xs = Some (0, r') \<and> wf_msg r' \<and> written r' = concat (map item_bytes xs)"
proof -
  have "off r + total_bytes xs + 256 < 2 ^ 63" using assms(2,4) by (simp add: fmt_offs)
  from push_all_spec [OF assms(1) roomy_ok(1) [OF assms(3)] this] show ?thesis
    using roomy_ok(2) [OF assms(3)] assms(2) by (auto simp: written_def)
qed

lemma answers_items:
  assumes "handle_op env streaming op = on_device (length ws) h" "s_dev s \<noteq> None" "roomy (l_malloc env)" "total_bytes xs < 2 ^ 32"
    "\<And>q r r'. push_all (l_malloc env) r xs = Some (0, r') \<Longrightarrow>
       h ws (s\<lparr>s_query := q, s_reply := r\<rparr>) = Some (err, s\<lparr>s_dev := dev, s_query := q, s_reply := r'\<rparr>)"
  shows "answers env streaming op (s_did s # ws) s err xs dev"
  unfolding answers_def answers_to_def
proof (intro allI impI)
  fix q r rest
  assume a: "wf_msg q \<and> wf_msg r \<and> off r = fmt_data_off \<and> unread q = concat (map u32_bytes (s_did s # ws)) @ rest"
  then obtain q' where q': "on_device (length ws) h (s\<lparr>s_query := q, s_reply := r\<rparr>) = h ws (s\<lparr>s_query := q', s_reply := r\<rparr>)"
      "wf_msg q'" "fmt q' = fmt q"
    using on_device_args [of q s ws rest h r] assms(2) by blast
  obtain r' where r': "push_all (l_malloc env) r xs = Some (0, r')" "wf_msg r'" "written r' = concat (map item_bytes xs)"
    using push_all_roomy [of r "l_malloc env" xs] a assms(3,4) by auto
  show "\<exists>q' r'. handle_op env streaming op (s\<lparr>s_query := q, s_reply := r\<rparr>)
            = Some (err, s\<lparr>s_dev := dev, s_query := q', s_reply := r'\<rparr>)
          \<and> wf_msg q' \<and> fmt q' = fmt q \<and> wf_msg r' \<and> written r' = concat (map item_bytes xs)"
    using assms(1) assms(5) [OF r'(1), of q'] q' r'(2,3) by auto
qed

text \<open>A block of a stream is a message of its own.\<close>

lemma read_async_cb_wire:
  assumes "length junk = 10"
  shows "read_async_cb junk i reply buf is_recv (replied, dev) =
    Some ((if replied then [] else reply) @ wire (of_nat RTLSDR_RPC_OP_READ_ASYNC) i 0 buf, True,
      if is_recv then snd (rtlsdr_cancel_async dev) else dev)"
proof -
  have "length junk = Suc (Suc (Suc (Suc (Suc (Suc (Suc (Suc (Suc (Suc 0)))))))))" using assms by simp
  then obtain b0 b1 b2 b3 p j e0 e1 e2 e3 where f: "junk = [b0, b1, b2, b3, p, j, e0, e1, e2, e3]"
    by (auto simp: length_Suc_conv)
  obtain s0 s1 s2 s3 where s: "u32_bytes (of_nat (10 + length buf)) = [s0, s1, s2, s3]" using u32_bytes_4 by blast
  obtain c0 c1 c2 c3 where c: "u32_bytes (word_of_int 0) = [c0, c1, c2, c3]" using u32_bytes_4 by blast
  show ?thesis using c s by (simp add: read_async_cb_def header_sets f id_bytes wire_def mem_read_def)
qed

end
