(* ===== verification/C_String.thy ===== *)
theory C_String
  imports C_Double "HOL-Library.Sublist"
begin

text \<open>
  The string functions of the C library that the option string and the control server of the library use:
  \<open>strtok\<close>, \<open>atoi\<close>, \<open>atol\<close>, \<open>atof\<close>, and the function \<open>parseFreq\<close> of
  \<^verbatim>\<open>src/librtlsdr/src/librtlsdr.c\<close> built on them; the number formats \<open>parseNum\<close>, \<open>formatInHex\<close> and
  \<open>formatInBin\<close> of the control server.  A C string is the list of its characters without the terminator.
  \<open>long\<close> has 64 bits, \<open>int\<close> 32; a \<open>char\<close> is signed.
\<close>

section \<open>Model\<close>

subsection \<open>The C library\<close>

definition c_isspace :: "char \<Rightarrow> bool" where
  "c_isspace c \<longleftrightarrow> c = CHR '' '' \<or> (9 \<le> (of_char c :: nat) \<and> (of_char c :: nat) \<le> 13)"

definition c_isdigit :: "char \<Rightarrow> bool" where
  "c_isdigit c \<longleftrightarrow> 48 \<le> (of_char c :: nat) \<and> (of_char c :: nat) \<le> 57"

text \<open>
  The pieces that successive calls of \<open>strtok\<close> with the same delimiters return; \<open>strtok\<close> skips delimiters before it takes a
  piece, so no piece is empty.
\<close>

fun strtok :: "(char \<Rightarrow> bool) \<Rightarrow> string \<Rightarrow> string \<Rightarrow> string list" where
  "strtok delim cur [] = (if cur = [] then [] else [cur])"
| "strtok delim cur (c # s) =
     (if delim c then (if cur = [] then strtok delim [] s else cur # strtok delim [] s)
      else strtok delim (cur @ [c]) s)"

definition tokens :: "string \<Rightarrow> string \<Rightarrow> string list" where
  "tokens delims s = strtok (\<lambda>c. c \<in> set delims) [] s"

definition digits_value :: "string \<Rightarrow> int" where
  "digits_value ds = foldl (\<lambda>n c. n * 10 + (of_char c - 48)) 0 ds"

text \<open>White space and a sign; the first result tells whether the sign is negative.\<close>

definition scan_sign :: "string \<Rightarrow> bool \<times> string" where
  "scan_sign s =
     (case s of
        [] \<Rightarrow> (False, s)
      | c # r \<Rightarrow> if c = CHR ''-'' then (True, r) else if c = CHR ''+'' then (False, r) else (False, s))"

definition with_sign :: "bool \<Rightarrow> int \<Rightarrow> int" where
  "with_sign neg n = (if neg then - n else n)"

text \<open>\<open>strtol(s, NULL, 10)\<close>, which saturates.\<close>

definition atol :: "string \<Rightarrow> int" where
  "atol s =
     (let (neg, r) = scan_sign (dropWhile c_isspace s)
      in max (- (2 ^ 63)) (min (2 ^ 63 - 1) (with_sign neg (digits_value (takeWhile c_isdigit r)))))"

definition atoi :: "string \<Rightarrow> int" where
  "atoi s = sint (word_of_int (atol s) :: u32)"

definition c_tolower :: "char \<Rightarrow> char" where
  "c_tolower c = (if 65 \<le> (of_char c :: nat) \<and> (of_char c :: nat) \<le> 90 then char_of ((of_char c :: nat) + 32) else c)"

text \<open>The exponent of a decimal number, 0 if what follows is none.\<close>

definition scan_exponent :: "string \<Rightarrow> int" where
  "scan_exponent s =
     (case s of
        [] \<Rightarrow> 0
      | c # r \<Rightarrow>
          if c_tolower c = CHR ''e'' then let (neg, r) = scan_sign r in with_sign neg (digits_value (takeWhile c_isdigit r))
          else 0)"

text \<open>
  \<open>strtod\<close> on decimal numbers; \<open>None\<close> for infinities, values beyond the largest \<open>double\<close>, \<open>nan\<close> and
  hexadecimal numbers, which none of the callers document.
\<close>

definition atof :: "string \<Rightarrow> rat option" where
  "atof s =
     (let (neg, r) = scan_sign (dropWhile c_isspace s);
          low = map c_tolower (take 3 r);
          whole = takeWhile c_isdigit r; r1 = dropWhile c_isdigit r;
          (frac, r2) = (case r1 of
              [] \<Rightarrow> ([], [])
            | c # t \<Rightarrow> if c = CHR ''.'' then (takeWhile c_isdigit t, dropWhile c_isdigit t) else ([], r1))
      in if low = ''inf'' \<or> low = ''nan'' \<or> take 2 low = ''0x'' then None
         else if whole = [] \<and> frac = [] then Some 0
         else let v = dbl (of_int (with_sign neg (digits_value (whole @ frac))) * 10 powi (scan_exponent r2 - int (length frac)))
              in if \<bar>v\<bar> < 2 ^ 1024 then Some v else None)"

subsection \<open>Frequencies\<close>

text \<open>
  The function cuts the string before the last character that is no space, and restores it.  With an empty string it
  overwrites and restores the byte before the string instead.
\<close>

definition parseFreq :: "string \<Rightarrow> rat option" where
  "parseFreq s =
     (let t = rev (dropWhile c_isspace (rev (tl s)));
          len = (if s = [] then 0 else Suc (length t));
          suffix = (if s = [] then 0 else
            let c = s ! (len - 1)
            in if c \<in> set ''gG'' then 1000000000 else if c \<in> set ''mM'' then 1000000 else if c \<in> set ''kK'' then 1000 else (0 :: rat))
      in if suffix = 0 then atof s
         else map_option (\<lambda>x. dbl (suffix * x)) (atof (take (len - 1) s)))"

text \<open>Conversions; \<open>None\<close> for a value that does not fit, which C leaves undefined.\<close>

definition to_u64 :: "rat \<Rightarrow> u64 option" where
  "to_u64 q = (let n = dbl_trunc q in if 0 \<le> n \<and> n < 2 ^ 64 then Some (word_of_int n) else None)"

definition to_u32 :: "rat \<Rightarrow> u32 option" where
  "to_u32 q = (let n = dbl_trunc q in if 0 \<le> n \<and> n < 2 ^ 32 then Some (word_of_int n) else None)"

definition to_i32 :: "rat \<Rightarrow> int option" where
  "to_i32 q = (let n = dbl_trunc q in if - (2 ^ 31) \<le> n \<and> n < 2 ^ 31 then Some n else None)"

subsection \<open>Numbers of the control server\<close>

definition char_int :: "char \<Rightarrow> int" where
  "char_int c = (if (of_char c :: int) < 128 then of_char c else of_char c - 256)"

text \<open>Every character that is no decimal digit and no capital hexadecimal digit counts from \<open>'a'\<close>.\<close>

definition digit_value :: "char \<Rightarrow> int" where
  "digit_value c =
     (if 48 \<le> char_int c \<and> char_int c \<le> 57 then char_int c - 48
      else if 65 \<le> char_int c \<and> char_int c \<le> 70 then char_int c + 10 - 65
      else char_int c + 10 - 97)"

text \<open>\<open>None\<close> when \<open>val * numBase + digitValue\<close> is no \<open>int\<close>.\<close>

fun num_loop :: "int \<Rightarrow> int \<Rightarrow> string \<Rightarrow> int option" where
  "num_loop numBase val [] = Some val"
| "num_loop numBase val (c # pac) =
     (if 0 \<le> digit_value c \<and> digit_value c < numBase then
        (if val * numBase + digit_value c < 2 ^ 31 then num_loop numBase (val * numBase + digit_value c) pac else None)
      else if c = CHR 0x27 \<or> c = CHR ''.'' \<or> c = CHR ''_'' then num_loop numBase val pac
      else Some val)"

definition parseNum :: "string \<Rightarrow> int option" where
  "parseNum pacNum =
     (case pacNum of
        [] \<Rightarrow> Some 0
      | c # r \<Rightarrow>
          let (numBase, pac) =
                (if c = CHR ''d'' then (10, r) else if c = CHR ''x'' then (16, r)
                 else if c = CHR ''b'' then (2, r) else (10, pacNum));
              (sgn, pac) = (case pac of [] \<Rightarrow> (1, pac) | c # r \<Rightarrow> if c = CHR ''-'' then (- 1, r) else (1, pac))
          in map_option (\<lambda>val. val * sgn) (num_loop numBase 0 pac))"

text \<open>The digits of \<open>w\<close> bits each from number \<open>n - 1\<close> down to 0, with a mark before every fourth.\<close>

fun format_loop :: "nat \<Rightarrow> string \<Rightarrow> u32 \<Rightarrow> nat \<Rightarrow> nat \<Rightarrow> string" where
  "format_loop w tab v num_digits 0 = []"
| "format_loop w tab v num_digits (Suc n) =
     (if n mod 4 = 3 \<and> n \<noteq> num_digits - 1 then [CHR 0x27] else [])
       @ tab ! unat (drop_bit (n * w) v AND mask w) # format_loop w tab v num_digits n"

definition formatInHex :: "int \<Rightarrow> nat \<Rightarrow> string" where
  "formatInHex v num_digits =
     CHR ''x'' # format_loop 4 ''0123456789ABCDEF'' (word_of_int v) num_digits num_digits"

definition formatInBin :: "int \<Rightarrow> nat \<Rightarrow> string" where
  "formatInBin v num_digits = CHR ''b'' # format_loop 1 ''01'' (word_of_int v) num_digits num_digits"


section \<open>Tokens\<close>

lemma strtok_word:
  "list_all (\<lambda>c. \<not> delim c) w \<Longrightarrow> strtok delim cur (w @ s) = strtok delim (cur @ w) s"
  by (induction w arbitrary: cur) simp_all

lemma tokens_joined:
  assumes "list_all (\<lambda>w. w \<noteq> [] \<and> list_all (\<lambda>c. c \<notin> set delims) w) ws" "d \<in> set delims"
  shows "tokens delims (concat (map (\<lambda>w. w @ [d]) ws)) = ws"
  using assms(1)
proof (induction ws)
  case Nil
  show ?case by (simp add: tokens_def)
next
  case (Cons w ws)
  then show ?case
    using strtok_word [of "\<lambda>c. c \<in> set delims" w "[]"] assms(2) by (simp add: tokens_def)
qed

section \<open>Decimal numbers\<close>

text \<open>The usual way to write a number.\<close>

fun show_nat :: "nat \<Rightarrow> string" where
  "show_nat n = (if n < 10 then [char_of (n + 48)] else show_nat (n div 10) @ [char_of (n mod 10 + 48)])"

declare show_nat.simps [simp del]

definition show_int :: "int \<Rightarrow> string" where
  "show_int n = (if n < 0 then CHR ''-'' # show_nat (nat (- n)) else show_nat (nat n))"

lemma digit_char:
  assumes "k < 10"
  shows "c_isdigit (char_of (k + 48))" "(of_char (char_of (k + 48) :: char) :: int) = int k + 48"
    "(of_char (char_of (k + 48) :: char) :: nat) = k + 48"
proof -
  show n: "(of_char (char_of (k + 48) :: char) :: nat) = k + 48" using assms by simp
  then show "c_isdigit (char_of (k + 48))" using assms by (simp add: c_isdigit_def)
  have "(of_char (char_of (k + 48) :: char) :: int) = int (of_char (char_of (k + 48) :: char))"
    by (rule of_nat_of_char [symmetric])
  then show "(of_char (char_of (k + 48) :: char) :: int) = int k + 48" by (simp only: n)
qed

lemma digits_value_snoc: "digits_value (ds @ [c]) = digits_value ds * 10 + (of_char c - 48)"
  by (simp add: digits_value_def)

lemma show_nat_digits: "list_all c_isdigit (show_nat n) \<and> show_nat n \<noteq> [] \<and> digits_value (show_nat n) = int n"
proof (induction n rule: show_nat.induct)
  case (1 n)
  show ?case
  proof (cases "n < 10")
    case True
    then show ?thesis
      using digit_char [of n] by (simp add: show_nat.simps [of n] digits_value_def)
  next
    case False
    then show ?thesis
      using 1 digit_char [of "n mod 10"]
      by (simp add: show_nat.simps [of n] digits_value_snoc) (simp add: zdiv_int zmod_int)
  qed
qed

text \<open>Digits are no white space, no sign and none of the letters that matter.\<close>

lemma digit_not:
  assumes "c_isdigit c"
  shows "\<not> c_isspace c" "c \<noteq> CHR ''-''" "c \<noteq> CHR ''+''" "c \<noteq> CHR ''.''" "c \<noteq> CHR '':''" "c \<noteq> CHR '',''"
    "c_tolower c = c" "c \<noteq> CHR ''i''" "c \<noteq> CHR ''n''" "c \<noteq> CHR ''x''" "c \<noteq> CHR ''e''"
    "c \<notin> set ''gG''" "c \<notin> set ''mM''" "c \<notin> set ''kK''"
  using assms by (auto simp: c_isdigit_def c_isspace_def c_tolower_def)

lemma takeWhile_digits:
  assumes "list_all c_isdigit ds" "s = [] \<or> \<not> c_isdigit (hd s)"
  shows "takeWhile c_isdigit (ds @ s) = ds" "dropWhile c_isdigit (ds @ s) = s"
  using assms by (induction ds) (auto simp: list_all_iff takeWhile_eq_Nil_iff dropWhile_eq_self_iff)

lemma scan_number:
  assumes "list_all c_isdigit ds" "ds \<noteq> []"
  shows "scan_sign (dropWhile c_isspace (ds @ s)) = (False, ds @ s)"
    "scan_sign (dropWhile c_isspace (CHR ''-'' # ds @ s)) = (True, ds @ s)"
  using assms digit_not by (cases ds; simp add: scan_sign_def; simp add: c_isspace_def)+

lemma atol_show_int:
  assumes "- (2 ^ 63) \<le> n" "n < 2 ^ 63" "s = [] \<or> \<not> c_isdigit (hd s)"
  shows "atol (show_int n @ s) = n"
proof -
  note sn = show_nat_digits [of "nat (- n)"] show_nat_digits [of "nat n"]
  then show ?thesis
    using assms scan_number [of "show_nat (nat (- n))" s] scan_number [of "show_nat (nat n)" s]
      takeWhile_digits(1) [of "show_nat (nat (- n))" s] takeWhile_digits(1) [of "show_nat (nat n)" s]
    by (auto simp: atol_def show_int_def with_sign_def)
qed

lemma atoi_show_int:
  assumes "- (2 ^ 31) \<le> n" "n < 2 ^ 31" "s = [] \<or> \<not> c_isdigit (hd s)"
  shows "atoi (show_int n @ s) = n"
  using assms atol_show_int [of n s] by (simp add: atoi_def sint_sbintrunc' signed_take_bit_int_eq_self)

lemma atof_digits:
  assumes "list_all c_isdigit ds" "ds \<noteq> []" "\<bar>digits_value ds\<bar> < 2 ^ 53"
  shows "atof ds = Some (of_int (digits_value ds))"
    and "atof (CHR ''-'' # ds) = Some (of_int (- digits_value ds))"
proof -
  have low: "map c_tolower (take 3 ds) \<noteq> ''inf''" "map c_tolower (take 3 ds) \<noteq> ''nan''"
    "take 2 (map c_tolower (take 3 ds)) \<noteq> ''0x''"
  proof -
    obtain c r where ds: "ds = c # r" using assms(2) by (cases ds) auto
    then have "c_isdigit c" using assms(1) by simp
    then show "map c_tolower (take 3 ds) \<noteq> ''inf''" "map c_tolower (take 3 ds) \<noteq> ''nan''"
      using digit_not [of c] by (auto simp: ds)
    show "take 2 (map c_tolower (take 3 ds)) \<noteq> ''0x''"
      using assms(1) digit_not by (cases r) (auto simp: ds list_all_iff)
  qed
  have small: "\<bar>of_int (digits_value ds) :: rat\<bar> < 2 ^ 1024"
  proof -
    have "\<bar>digits_value ds\<bar> < 2 ^ 1024"
      using assms(3) power_strict_increasing [of 53 1024 "2 :: int"] by linarith
    then have "of_int \<bar>digits_value ds\<bar> < (of_int (2 ^ 1024) :: rat)" by (simp only: of_int_less_iff)
    then show ?thesis by simp
  qed
  have tw: "takeWhile c_isdigit ds = ds" "dropWhile c_isdigit ds = []"
    using takeWhile_digits [OF assms(1), of "[]"] by simp_all
  have sc: "scan_sign (dropWhile c_isspace ds) = (False, ds)"
    "scan_sign (dropWhile c_isspace (CHR ''-'' # ds)) = (True, ds)"
    using scan_number [OF assms(1,2), of "[]"] by simp_all
  have dv: "dbl (of_int (digits_value ds)) = of_int (digits_value ds)"
    "dbl (- of_int (digits_value ds)) = - of_int (digits_value ds)"
    using assms(3) by (simp_all add: dbl_minus)
  show "atof ds = Some (of_int (digits_value ds))"
    unfolding atof_def Let_def sc prod.case tw
    using low assms(2) small by (simp add: with_sign_def scan_exponent_def dv)
  show "atof (CHR ''-'' # ds) = Some (of_int (- digits_value ds))"
    unfolding atof_def Let_def sc prod.case tw
    using low assms(2) small by (simp add: with_sign_def scan_exponent_def dv)
qed

lemma atof_show_int:
  assumes "\<bar>n\<bar> < 2 ^ 53"
  shows "atof (show_int n) = Some (of_int n)"
  using assms atof_digits [of "show_nat (nat (- n))"] atof_digits [of "show_nat (nat n)"]
    show_nat_digits [of "nat (- n)"] show_nat_digits [of "nat n"]
  by (auto simp: show_int_def)

text \<open>Frequencies with and without a suffix.\<close>

lemma show_int_last:
  obtains ini c where "show_int n = ini @ [c]" "c_isdigit c"
proof -
  have "show_int n \<noteq> []" "c_isdigit (last (show_int n))"
    using show_nat_digits [of "nat n"] show_nat_digits [of "nat (- n)"]
    by (auto simp: show_int_def list_all_iff)
  then show ?thesis
    using that [of "butlast (show_int n)" "last (show_int n)"] by simp
qed

lemma parseFreq_snoc:
  assumes "\<not> c_isspace c"
  shows "parseFreq (s @ [c]) =
    (if c \<in> set ''gG'' then map_option (\<lambda>x. dbl (1000000000 * x)) (atof s)
     else if c \<in> set ''mM'' then map_option (\<lambda>x. dbl (1000000 * x)) (atof s)
     else if c \<in> set ''kK'' then map_option (\<lambda>x. dbl (1000 * x)) (atof s)
     else atof (s @ [c]))"
proof -
  have "Suc (length (rev (dropWhile c_isspace (rev (tl (s @ [c])))))) = Suc (length s)"
    using assms by (cases s) simp_all
  then show ?thesis
    unfolding parseFreq_def Let_def by (simp add: nth_append)
qed

lemma parseFreq_show_int:
  assumes "\<bar>n\<bar> < 2 ^ 53"
  shows "parseFreq (show_int n) = Some (of_int n)"
proof -
  obtain ini c where s: "show_int n = ini @ [c]" "c_isdigit c" by (rule show_int_last)
  then show ?thesis
    using parseFreq_snoc [of c ini] digit_not [OF s(2)] atof_show_int [OF assms] by simp
qed

section \<open>Numbers of the control server\<close>

lemma num_loop_format:
  assumes "\<And>i. i < 2 ^ w \<Longrightarrow> digit_value (tab ! i) = int i" "0 \<le> acc" "n * w \<le> 32"
    "acc * 2 ^ (n * w) + uint v mod 2 ^ (n * w) < 2 ^ 31"
  shows "num_loop (2 ^ w) acc (format_loop w tab v num n) = Some (acc * 2 ^ (n * w) + uint v mod 2 ^ (n * w))"
  using assms(2-)
proof (induction n arbitrary: acc)
  case 0
  then show ?case by simp
next
  case (Suc n)
  define x where "x = uint v div 2 ^ (n * w) mod 2 ^ w"
  define y where "y = uint v mod 2 ^ (n * w)"
  have split: "uint v mod 2 ^ (Suc n * w) = x * 2 ^ (n * w) + y"
    using zmod_zmult2_eq [of "2 ^ w" "uint v" "2 ^ (n * w)"]
    by (simp add: x_def y_def power_add mult.commute [of "2 ^ w"])
  have x: "0 \<le> x" "x < 2 ^ w" and y: "0 \<le> y" by (simp_all add: x_def y_def)
  have dig: "digit_value (tab ! unat (drop_bit (n * w) v AND mask w)) = x"
  proof -
    have "take_bit 32 (uint v) = uint v" by (rule take_bit_int_eq_self) simp_all
    then have "uint (drop_bit (n * w) v AND mask w) = take_bit w (drop_bit (n * w) (uint v))"
      by (simp add: unsigned_drop_bit_eq unsigned_take_bit_eq flip: take_bit_eq_mask)
    also have "\<dots> = x" by (simp add: x_def drop_bit_eq_div take_bit_eq_mod)
    finally have "int (unat (drop_bit (n * w) v AND mask w)) = x" by simp
    moreover from this have "unat (drop_bit (n * w) v AND mask w) < 2 ^ w"
      using x(2) by (metis of_nat_less_iff of_nat_numeral of_nat_power)
    ultimately show ?thesis using assms(1) by simp
  qed
  have tot: "acc * 2 ^ (Suc n * w) + uint v mod 2 ^ (Suc n * w) = (acc * 2 ^ w + x) * 2 ^ (n * w) + y"
    unfolding split by (simp add: power_add algebra_simps)
  have "acc * 2 ^ w + x \<le> (acc * 2 ^ w + x) * 2 ^ (n * w)"
    using mult_left_mono [of 1 "2 ^ (n * w)" "acc * 2 ^ w + x"] x(1) Suc.prems(1) by simp
  then have "acc * 2 ^ w + x < 2 ^ 31" using tot Suc.prems(3) y by linarith
  moreover have "num_loop (2 ^ w) (acc * 2 ^ w + x) (format_loop w tab v num n) = Some ((acc * 2 ^ w + x) * 2 ^ (n * w) + y)"
    using Suc.IH [of "acc * 2 ^ w + x"] Suc.prems x(1) tot by (simp add: y_def)
  moreover have "digit_value (CHR 0x27) < 0" by (simp add: digit_value_def char_int_def)
  ultimately show ?case using x tot dig by simp
qed


lemma hex_tab: "i < 16 \<Longrightarrow> digit_value (''0123456789ABCDEF'' ! i) = int i"
proof -
  have "list_all (\<lambda>i. digit_value (''0123456789ABCDEF'' ! i) = int i) [0..<16]" by code_simp
  then show "i < 16 \<Longrightarrow> digit_value (''0123456789ABCDEF'' ! i) = int i" by (simp add: list_all_iff)
qed

lemma bin_tab: "i < 2 \<Longrightarrow> digit_value (''01'' ! i) = int i"
  by (cases "i = 0") (auto simp: less_2_cases_iff digit_value_def char_int_def)

lemma format_length: "length (format_loop w tab v num n) \<le> n + n div 4"
  by (induction n) (auto simp: div_Suc mod_Suc)

lemma format_no_sign:
  assumes "length tab = 2 ^ w" "CHR ''-'' \<notin> set tab"
  shows "CHR ''-'' \<notin> set (format_loop w tab v num n)"
proof -
  have "unat (drop_bit (k * w) v AND mask w) < length tab" for k
  proof -
    have "unat (take_bit w (drop_bit (k * w) v)) < 2 ^ w"
      by (simp add: unsigned_take_bit_eq take_bit_nat_less_exp)
    then show ?thesis by (simp add: assms(1) flip: take_bit_eq_mask)
  qed
  then have "CHR ''-'' \<noteq> tab ! unat (drop_bit (k * w) v AND mask w)" for k
    using assms(2) nth_mem by metis
  then show ?thesis by (induction n) simp_all
qed

lemma parseNum_base:
  assumes "CHR ''-'' \<notin> set s"
  shows "parseNum (CHR ''x'' # s) = num_loop 16 0 s" "parseNum (CHR ''b'' # s) = num_loop 2 0 s"
  using assms by (cases s; auto simp: parseNum_def map_option.identity [unfolded id_def])+

text \<open>
  What the control server prints it can read: a value of at most \<open>n\<close> hexadecimal or binary digits, printed with
  \<open>n\<close> digits and the marks between groups of four, is parsed back to itself, and the text with its terminator
  fits the buffers of 16 and 64 bytes the server prints into.
\<close>

theorem udp_number_roundtrip:
  assumes "0 \<le> v" "v < 2 ^ 31"
  shows "(n \<le> 8 \<and> v < 16 ^ n \<longrightarrow> parseNum (formatInHex v n) = Some v \<and> length (formatInHex v n) < 16)
    \<and> (n \<le> 32 \<and> v < 2 ^ n \<longrightarrow> parseNum (formatInBin v n) = Some v \<and> length (formatInBin v n) < 64)"
proof (intro conjI impI)
  have v: "uint (word_of_int v :: u32) = v" using assms by (simp add: uint_word_of_int)
  note len = format_length [of _ _ "word_of_int v" n n]
  show "length (formatInHex v n) < 16" if "n \<le> 8 \<and> v < 16 ^ n"
    using that len [of 4 "''0123456789ABCDEF''"] div_le_mono [of n 8 4] by (simp add: formatInHex_def)
  show "length (formatInBin v n) < 64" if "n \<le> 32 \<and> v < 2 ^ n"
    using that len [of 1 "''01''"] div_le_mono [of n 32 4] by (simp add: formatInBin_def)
  show "parseNum (formatInHex v n) = Some v" if n: "n \<le> 8 \<and> v < 16 ^ n"
  proof -
    have "v mod 2 ^ (n * 4) = v" using n assms by (simp add: power_mult mult.commute [of n])
    then show ?thesis
      using num_loop_format [of 4 "''0123456789ABCDEF''" 0 n "word_of_int v" n] hex_tab n v assms
        format_no_sign [of "''0123456789ABCDEF''" 4]
      by (simp add: formatInHex_def parseNum_base)
  qed
  show "parseNum (formatInBin v n) = Some v" if n: "n \<le> 32 \<and> v < 2 ^ n"
    using num_loop_format [of 1 "''01''" 0 n "word_of_int v" n] bin_tab n v assms format_no_sign [of "''01''" 1]
    by (simp add: formatInBin_def parseNum_base)
qed

theorem udp_number_roundtrip_witness:
  "parseNum (formatInHex 0x12ABC 5) = Some 0x12ABC \<and> parseNum (formatInBin 0x2A 6) = Some 0x2A"
  using udp_number_roundtrip [of "0x12ABC" 5] udp_number_roundtrip [of "0x2A" 6] by simp

text \<open>
  The underscore, meant to be skipped, counts as the digit 8 in decimal numbers, and some other characters
  before \<open>'a'\<close> count as digits as well.
\<close>

lemma parseNum_underscore: "parseNum ''1_000'' = Some 18000" "parseNum ''1.000'' = Some 1000" "parseNum ''Z'' = Some 3"
  by (simp_all add: parseNum_def digit_value_def char_int_def)

end
