(* ===== verification/Rpc_Client.thy ===== *)
theory Rpc_Client
  imports Rpc_Server C_String
begin

text \<open>
  The RPC client \<^verbatim>\<open>src/librtlsdr/src/rtlsdr_rpc.c\<close>: for every call of the library a function that sends a query and waits
  for its reply.  Up to 32 threads can have a query on its way; they share the socket, and a thread that receives the reply to another
  query puts it where its owner finds it.  The socket with everything behind it is the argument \<open>net\<close>.
\<close>

section \<open>Model\<close>

text \<open>
  \<open>rtlsdr_rpc_cli_t\<close>; \<open>c_inp\<close> is what will arrive on the socket, \<open>c_net\<close> the state of what is at its other end.  \<open>c_init\<close> is
  \<open>is_init\<close>.
\<close>

record 'n rpc_cli =
  c_init :: bool
  c_mask :: u32
  c_box :: u32
  c_query :: "rpc_msg list"
  c_reply :: "rpc_msg list"
  c_async_cancel :: bool
  c_inp :: "recv_event list"
  c_net :: 'n

text \<open>What sending some bytes results in: the code of \<open>send_all\<close>, and what arrives because of it.\<close>

type_synonym 'n net = "u8 list \<Rightarrow> ('n, int \<times> recv_event list) state"

record rpc_dev =
  r_index :: u32
  r_gain_count :: nat

definition QR_COUNT :: nat where "QR_COUNT = 32"

abbreviation set_query :: "nat \<Rightarrow> rpc_msg \<Rightarrow> 'n rpc_cli \<Rightarrow> 'n rpc_cli" where
  "set_query i q c \<equiv> c\<lparr>c_query := (c_query c)[i := q]\<rparr>"

abbreviation set_reply :: "nat \<Rightarrow> rpc_msg \<Rightarrow> 'n rpc_cli \<Rightarrow> 'n rpc_cli" where
  "set_reply i r c \<equiv> c\<lparr>c_reply := (c_reply c)[i := r]\<rparr>"

subsection \<open>Connecting\<close>

text \<open>
  \<open>connects\<close> tells whether the address is found and the socket connected.  When memory is short the messages are freed again and
  the next call starts afresh.
\<close>

definition init_cli :: "allocator \<Rightarrow> bool \<Rightarrow> 'n rpc_cli \<Rightarrow> int \<times> 'n rpc_cli" where
  "init_cli malloc connects c =
     (if c_init c then (0, c)
      else if \<not> connects then (-1, c)
      else let qs = map (\<lambda>m. rtlsdr_rpc_msg_init malloc m 0) (c_query c); rs = map (\<lambda>m. rtlsdr_rpc_msg_init malloc m 0) (c_reply c)
           in if list_ex (\<lambda>(r, _). r \<noteq> 0) (qs @ rs) then (-1, c)
              else (0, c\<lparr>c_init := True, c_query := map snd qs, c_reply := map snd rs, c_mask := 0, c_box := 0\<rparr>))"

subsection \<open>Slots\<close>

definition alloc_qr :: "'n rpc_cli \<Rightarrow> (nat option \<times> 'n rpc_cli) option" where
  "alloc_qr c =
     (case List.find (\<lambda>i. \<not> bit (c_mask c) i) [0..<QR_COUNT] of
        None \<Rightarrow> Some (None, c)
      | Some i \<Rightarrow> do {
          q \<leftarrow> rtlsdr_rpc_msg_set_id (rtlsdr_rpc_msg_reset (c_query c ! i)) (of_nat i);
          Some (Some i, set_query i q (c\<lparr>c_mask := Bit_Operations.set_bit i (c_mask c)\<rparr>)) })"

text \<open>The slot is the identifier in the query.\<close>

definition free_qr :: "nat \<Rightarrow> 'n rpc_cli \<Rightarrow> 'n rpc_cli option" where
  "free_qr i c = do {
     k \<leftarrow> rtlsdr_rpc_msg_get_id (c_query c ! i);
     Some (c\<lparr>c_mask := unset_bit (unat k) (c_mask c)\<rparr>) }"

subsection \<open>Receiving\<close>

text \<open>
  The body of the loop of \<open>recv_msg\<close> for the slot \<open>i\<close>: a message, which goes to the slot of its identifier.  The second result
  is that slot.
\<close>

definition recv_one :: "allocator \<Rightarrow> nat \<Rightarrow> 'n rpc_cli \<Rightarrow> ((int \<times> nat) \<times> 'n rpc_cli) option" where
  "recv_one malloc i c = do {
     (r, m, es) \<leftarrow> recv_into (c_reply c ! i) 0 fmt_data_off (c_inp c);
     let c = set_reply i m (c\<lparr>c_inp := es\<rparr>);
     if r \<noteq> 0 then Some ((-1, i), c)
     else do {
       k \<leftarrow> rtlsdr_rpc_msg_get_id m;
       let to_id = unat k;
       if to_id \<ge> QR_COUNT then Some ((-1, i), c)
       else do {
         hdr \<leftarrow> mem_read (fmt m) 0 fmt_data_off;
         b \<leftarrow> mem_write (fmt (c_reply c ! to_id)) 0 hdr;
         let to_m = (c_reply c ! to_id)\<lparr>fmt := b\<rparr>;
         sz \<leftarrow> rtlsdr_rpc_msg_get_size to_m;
         if sz < fmt_data_off then Some ((-1, i), set_reply to_id to_m c)
         else do {
           (r, to_m) \<leftarrow> rtlsdr_rpc_msg_realloc malloc to_m sz;
           if r \<noteq> 0 then Some ((-1, i), set_reply to_id to_m c)
           else if sz = fmt_data_off then Some ((0, to_id), set_reply to_id to_m c)
           else do {
             (r, to_m, es) \<leftarrow> recv_into to_m fmt_data_off (sz - fmt_data_off) (c_inp c);
             let c = set_reply to_id to_m (c\<lparr>c_inp := es\<rparr>);
             Some ((if r \<noteq> 0 then -1 else 0, to_id), c) } } } } }"

text \<open>The loop waits for ever, \<open>None\<close>, when nothing more arrives.\<close>

partial_function (option) recv_loop :: "allocator \<Rightarrow> nat \<Rightarrow> 'n rpc_cli \<Rightarrow> (int \<times> 'n rpc_cli) option" where
  "recv_loop malloc i c = do {
     ((r, to_id), c) \<leftarrow> recv_one malloc i c;
     if r \<noteq> 0 then Some (-1, c)
     else if to_id = i then Some (0, c)
     else recv_loop malloc i (c\<lparr>c_box := Bit_Operations.set_bit to_id (c_box c)\<rparr>) }"

definition cli_recv_msg :: "allocator \<Rightarrow> nat \<Rightarrow> 'n rpc_cli \<Rightarrow> (int \<times> 'n rpc_cli) option" where
  "cli_recv_msg malloc i c =
     (if bit (c_box c) i then Some (0, c\<lparr>c_box := unset_bit i (c_box c)\<rparr>) else recv_loop malloc i c)"

definition cli_send_msg :: "'n net \<Rightarrow> nat \<Rightarrow> 'n rpc_cli \<Rightarrow> (int \<times> 'n rpc_cli) option" where
  "cli_send_msg net i c = do {
     let q = c_query c ! i;
     q \<leftarrow> rtlsdr_rpc_msg_set_size q (off q);
     bs \<leftarrow> mem_read (fmt q) 0 (off q);
     let ((r, es), n) = run_state (net bs) (c_net c);
     Some (r, set_query i q (c\<lparr>c_inp := c_inp c @ es, c_net := n\<rparr>)) }"

definition send_recv_msg :: "allocator \<Rightarrow> 'n net \<Rightarrow> nat \<Rightarrow> 'n rpc_cli \<Rightarrow> (int \<times> 'n rpc_cli) option" where
  "send_recv_msg malloc net i c = do {
     k \<leftarrow> rtlsdr_rpc_msg_get_id (c_query c ! i);
     (r, c) \<leftarrow> cli_send_msg net i c;
     if r \<noteq> 0 then Some (-1, c)
     else do {
       (r, c) \<leftarrow> cli_recv_msg malloc (unat k) c;
       if r \<noteq> 0 then Some (-1, c)
       else Some (0, set_reply i (rtlsdr_rpc_msg_reset (c_reply c ! i)) c) } }"

subsection \<open>Calls\<close>

text \<open>
  The frame all calls share: a slot, the operation and its arguments, the exchange.  The slot is kept when there is a reply.  Then \<open>k\<close> reads the
  reply; \<open>dflt\<close> is the result when something before fails.
\<close>

definition rpc_query ::
    "allocator \<Rightarrow> 'n net \<Rightarrow> nat \<Rightarrow> rpc_item list \<Rightarrow> 'n rpc_cli \<Rightarrow> (nat option \<times> 'n rpc_cli) option" where
  "rpc_query malloc net op args c = do {
     (slot, c) \<leftarrow> alloc_qr c;
     case slot of
       None \<Rightarrow> Some (None, c)
     | Some i \<Rightarrow> do {
         q \<leftarrow> rtlsdr_rpc_msg_set_op (c_query c ! i) op;
         (r, q) \<leftarrow> push_all malloc q args;
         let c = set_query i q c;
         if r \<noteq> 0 then do { c \<leftarrow> free_qr i c; Some (None, c) }
         else do {
           (r, c) \<leftarrow> send_recv_msg malloc net i c;
           if r \<noteq> 0 then do { c \<leftarrow> free_qr i c; Some (None, c) } else Some (Some i, c) } } }"

definition rpc_call ::
    "allocator \<Rightarrow> 'n net \<Rightarrow> nat \<Rightarrow> rpc_item list \<Rightarrow> 'a \<Rightarrow> (rpc_msg \<Rightarrow> ('a \<times> rpc_msg) option) \<Rightarrow> 'n rpc_cli
       \<Rightarrow> ('a \<times> 'n rpc_cli) option" where
  "rpc_call malloc net op args dflt k c = do {
     (slot, c) \<leftarrow> rpc_query malloc net op args c;
     case slot of
       None \<Rightarrow> Some (dflt, c)
     | Some i \<Rightarrow> do {
         (a, m) \<leftarrow> k (c_reply c ! i);
         c \<leftarrow> free_qr i (set_reply i m c);
         Some (a, c) } }"

definition read_code :: "rpc_msg \<Rightarrow> (int \<times> rpc_msg) option" where
  "read_code r = do { err \<leftarrow> rtlsdr_rpc_msg_get_err r; Some (err, r) }"

text \<open>A value behind a code, 0 for an error.\<close>

definition read_value :: "rpc_msg \<Rightarrow> (u32 \<times> rpc_msg) option" where
  "read_value r = do {
     err \<leftarrow> rtlsdr_rpc_msg_get_err r;
     if err \<noteq> 0 then Some (0, r)
     else do { ((e, v), r) \<leftarrow> rtlsdr_rpc_msg_pop_uint32 r; Some (if e \<noteq> 0 then 0 else v, r) } }"

definition rpc_code :: "allocator \<Rightarrow> 'n net \<Rightarrow> nat \<Rightarrow> rpc_item list \<Rightarrow> 'n rpc_cli \<Rightarrow> (int \<times> 'n rpc_cli) option" where
  "rpc_code malloc net op args = rpc_call malloc net op args (-1) read_code"

definition rpc_value :: "allocator \<Rightarrow> 'n net \<Rightarrow> nat \<Rightarrow> rpc_item list \<Rightarrow> 'n rpc_cli \<Rightarrow> (u32 \<times> 'n rpc_cli) option" where
  "rpc_value malloc net op args = rpc_call malloc net op args 0 read_value"

text \<open>Up to three strings; the code stays 0 when one is missing, and the buffers that are not reached keep their content.\<close>

primrec read_strings :: "nat \<Rightarrow> rpc_msg \<Rightarrow> (u8 list list \<times> rpc_msg) option" where
  "read_strings 0 r = Some ([], r)"
| "read_strings (Suc k) r = do {
     ((e, s), r) \<leftarrow> rtlsdr_rpc_msg_pop_str r;
     if e \<noteq> 0 then Some ([], r)
     else do { (ss, r) \<leftarrow> read_strings k r; Some (s # ss, r) } }"

definition read_usb_strings :: "rpc_msg \<Rightarrow> ((int \<times> u8 list list) \<times> rpc_msg) option" where
  "read_usb_strings r = do {
     err \<leftarrow> rtlsdr_rpc_msg_get_err r;
     if err \<noteq> 0 then Some ((err, []), r)
     else do { (ss, r) \<leftarrow> read_strings 3 r; Some ((0, ss), r) } }"

definition rtlsdr_rpc_get_device_count :: "allocator \<Rightarrow> 'n net \<Rightarrow> bool \<Rightarrow> 'n rpc_cli \<Rightarrow> (u32 \<times> 'n rpc_cli) option" where
  "rtlsdr_rpc_get_device_count malloc net connects c =
     (let (e, c) = init_cli malloc connects c
      in if e \<noteq> 0 then Some (0, c)
      else rpc_call malloc net RTLSDR_RPC_OP_GET_DEVICE_COUNT [] 0 (\<lambda>r. do {
        ((e, n), r) \<leftarrow> rtlsdr_rpc_msg_pop_uint32 r;
        Some (if e \<noteq> 0 then 0 else n, r) }) c)"

definition rtlsdr_rpc_get_device_name ::
    "allocator \<Rightarrow> 'n net \<Rightarrow> bool \<Rightarrow> u32 \<Rightarrow> 'n rpc_cli \<Rightarrow> (u8 list option \<times> 'n rpc_cli) option" where
  "rtlsdr_rpc_get_device_name malloc net connects index c =
     (let (e, c) = init_cli malloc connects c
      in if e \<noteq> 0 then Some (None, c)
      else rpc_call malloc net RTLSDR_RPC_OP_GET_DEVICE_NAME [U32 index] None (\<lambda>r. do {
        ((e, s), r) \<leftarrow> rtlsdr_rpc_msg_pop_str r;
        Some (if e \<noteq> 0 then None else Some s, r) }) c)"

definition rtlsdr_rpc_get_device_usb_strings ::
    "allocator \<Rightarrow> 'n net \<Rightarrow> bool \<Rightarrow> u32 \<Rightarrow> 'n rpc_cli \<Rightarrow> ((int \<times> u8 list list) \<times> 'n rpc_cli) option" where
  "rtlsdr_rpc_get_device_usb_strings malloc net connects index c =
     (let (e, c) = init_cli malloc connects c
      in if e \<noteq> 0 then Some ((-1, []), c)
      else rpc_call malloc net RTLSDR_RPC_OP_GET_DEVICE_USB_STRINGS [U32 index] (-1, []) read_usb_strings c)"

definition rtlsdr_rpc_get_index_by_serial ::
    "allocator \<Rightarrow> 'n net \<Rightarrow> bool \<Rightarrow> u8 list \<Rightarrow> 'n rpc_cli \<Rightarrow> (int \<times> 'n rpc_cli) option" where
  "rtlsdr_rpc_get_index_by_serial malloc net connects serial c =
     (let (e, c) = init_cli malloc connects c
      in if e \<noteq> 0 then Some (-1, c)
      else rpc_code malloc net RTLSDR_RPC_OP_GET_INDEX_BY_SERIAL [Str serial] c)"

text \<open>
  \<open>env\<close> is \<open>getenv("RTLSDR_RPC_DEVICE_INDEX")\<close>, which replaces the argument; without the variable \<open>atoi\<close> reads the null
  pointer.  \<open>got\<close> tells whether \<open>malloc\<close> has memory for the device.
\<close>

definition rtlsdr_rpc_open ::
    "allocator \<Rightarrow> 'n net \<Rightarrow> bool \<Rightarrow> string option \<Rightarrow> bool \<Rightarrow> u32 \<Rightarrow> 'n rpc_cli \<Rightarrow> ((int \<times> rpc_dev option) \<times> 'n rpc_cli) option" where
  "rtlsdr_rpc_open malloc net connects env got index c = do {
     e \<leftarrow> env;
     let index = word_of_int (atoi e);
     let (r, c) = init_cli malloc connects c;
     if r \<noteq> 0 \<or> \<not> got then Some ((-1, None), c)
     else do {
       (err, c) \<leftarrow> rpc_code malloc net RTLSDR_RPC_OP_OPEN [U32 index] c;
       Some ((err, if err \<noteq> 0 then None else Some \<lparr>r_index = index, r_gain_count = 32\<rparr>), c) } }"

definition rtlsdr_rpc_close :: "allocator \<Rightarrow> 'n net \<Rightarrow> rpc_dev \<Rightarrow> 'n rpc_cli \<Rightarrow> (int \<times> 'n rpc_cli) option" where
  "rtlsdr_rpc_close malloc net dev = rpc_code malloc net RTLSDR_RPC_OP_CLOSE [U32 (r_index dev)]"

definition rtlsdr_rpc_set_xtal_freq ::
    "allocator \<Rightarrow> 'n net \<Rightarrow> rpc_dev \<Rightarrow> u32 \<Rightarrow> u32 \<Rightarrow> 'n rpc_cli \<Rightarrow> (int \<times> 'n rpc_cli) option" where
  "rtlsdr_rpc_set_xtal_freq malloc net dev rtl_freq tuner_freq =
     rpc_code malloc net RTLSDR_RPC_OP_SET_XTAL_FREQ [U32 (r_index dev), U32 rtl_freq, U32 tuner_freq]"

definition rtlsdr_rpc_get_xtal_freq ::
    "allocator \<Rightarrow> 'n net \<Rightarrow> rpc_dev \<Rightarrow> 'n rpc_cli \<Rightarrow> ((int \<times> u32 list) \<times> 'n rpc_cli) option" where
  "rtlsdr_rpc_get_xtal_freq malloc net dev =
     rpc_call malloc net RTLSDR_RPC_OP_GET_XTAL_FREQ [U32 (r_index dev)] (-1, []) (\<lambda>r. do {
       err \<leftarrow> rtlsdr_rpc_msg_get_err r;
       if err \<noteq> 0 then Some ((err, []), r) else pop_u32s 2 r })"

definition rtlsdr_rpc_get_usb_strings ::
    "allocator \<Rightarrow> 'n net \<Rightarrow> bool \<Rightarrow> rpc_dev \<Rightarrow> 'n rpc_cli \<Rightarrow> ((int \<times> u8 list list) \<times> 'n rpc_cli) option" where
  "rtlsdr_rpc_get_usb_strings malloc net connects dev c =
     (let (e, c) = init_cli malloc connects c
      in if e \<noteq> 0 then Some ((-1, []), c)
      else rpc_call malloc net RTLSDR_RPC_OP_GET_USB_STRINGS [U32 (r_index dev)] (-1, []) read_usb_strings c)"

definition rtlsdr_rpc_write_eeprom :: int where "rtlsdr_rpc_write_eeprom = -1"

definition rtlsdr_rpc_read_eeprom :: int where "rtlsdr_rpc_read_eeprom = -1"

definition rtlsdr_rpc_set_center_freq ::
    "allocator \<Rightarrow> 'n net \<Rightarrow> rpc_dev \<Rightarrow> u32 \<Rightarrow> 'n rpc_cli \<Rightarrow> (int \<times> 'n rpc_cli) option" where
  "rtlsdr_rpc_set_center_freq malloc net dev freq =
     rpc_code malloc net RTLSDR_RPC_OP_SET_CENTER_FREQ [U32 (r_index dev), U32 freq]"

definition rtlsdr_rpc_get_center_freq ::
    "allocator \<Rightarrow> 'n net \<Rightarrow> rpc_dev \<Rightarrow> 'n rpc_cli \<Rightarrow> (u32 \<times> 'n rpc_cli) option" where
  "rtlsdr_rpc_get_center_freq malloc net dev = rpc_value malloc net RTLSDR_RPC_OP_GET_CENTER_FREQ [U32 (r_index dev)]"

definition rtlsdr_rpc_set_freq_correction ::
    "allocator \<Rightarrow> 'n net \<Rightarrow> rpc_dev \<Rightarrow> int \<Rightarrow> 'n rpc_cli \<Rightarrow> (int \<times> 'n rpc_cli) option" where
  "rtlsdr_rpc_set_freq_correction malloc net dev ppm =
     rpc_code malloc net RTLSDR_RPC_OP_SET_FREQ_CORRECTION [U32 (r_index dev), U32 (word_of_int ppm)]"

definition rtlsdr_rpc_get_freq_correction ::
    "allocator \<Rightarrow> 'n net \<Rightarrow> rpc_dev \<Rightarrow> 'n rpc_cli \<Rightarrow> (int \<times> 'n rpc_cli) option" where
  "rtlsdr_rpc_get_freq_correction malloc net dev =
     rpc_code malloc net RTLSDR_RPC_OP_GET_FREQ_CORRECTION [U32 (r_index dev)]"

definition rtlsdr_rpc_get_tuner_type :: "allocator \<Rightarrow> 'n net \<Rightarrow> rpc_dev \<Rightarrow> 'n rpc_cli \<Rightarrow> (int \<times> 'n rpc_cli) option" where
  "rtlsdr_rpc_get_tuner_type malloc net dev = rpc_code malloc net RTLSDR_RPC_OP_GET_TUNER_TYPE [U32 (r_index dev)]"

text \<open>The second result is what \<open>memcpy\<close> writes to the buffer of the caller, the third the device with its count of gains.\<close>

definition rtlsdr_rpc_get_tuner_gains ::
    "allocator \<Rightarrow> 'n net \<Rightarrow> rpc_dev \<Rightarrow> bool \<Rightarrow> 'n rpc_cli \<Rightarrow> ((int \<times> u8 list \<times> rpc_dev) \<times> 'n rpc_cli) option" where
  "rtlsdr_rpc_get_tuner_gains malloc net dev is_null =
     rpc_call malloc net RTLSDR_RPC_OP_GET_TUNER_GAINS
       [U32 (r_index dev), U32 (if is_null then 1 else 0), U32 (of_nat (r_gain_count dev * 4))] (0, [], dev) (\<lambda>r. do {
         err \<leftarrow> rtlsdr_rpc_msg_get_err r;
         if err \<le> 0 then Some ((err, [], dev), r)
         else let dev = dev\<lparr>r_gain_count := nat err\<rparr>
              in if is_null then Some ((err, [], dev), r)
                 else do {
                   ((e, b), r) \<leftarrow> rtlsdr_rpc_msg_pop_buf r;
                   Some ((if e \<noteq> 0 then 0 else err, b, dev), r) } })"

definition rtlsdr_rpc_set_tuner_gain ::
    "allocator \<Rightarrow> 'n net \<Rightarrow> rpc_dev \<Rightarrow> int \<Rightarrow> 'n rpc_cli \<Rightarrow> (int \<times> 'n rpc_cli) option" where
  "rtlsdr_rpc_set_tuner_gain malloc net dev gain =
     rpc_code malloc net RTLSDR_RPC_OP_SET_TUNER_GAIN [U32 (r_index dev), U32 (word_of_int gain)]"

text \<open>The result code is never assigned.\<close>

definition rtlsdr_rpc_set_and_get_tuner_bandwidth ::
    "allocator \<Rightarrow> 'n net \<Rightarrow> rpc_dev \<Rightarrow> u32 \<Rightarrow> int \<Rightarrow> 'n rpc_cli \<Rightarrow> ((int \<times> u32 option) \<times> 'n rpc_cli) option" where
  "rtlsdr_rpc_set_and_get_tuner_bandwidth malloc net dev bw apply_bw =
     rpc_call malloc net RTLSDR_RPC_OP_SET_GET_TUNER_BW [U32 (r_index dev), U32 bw, I32 apply_bw] (-1, None) (\<lambda>r. do {
       err \<leftarrow> rtlsdr_rpc_msg_get_err r;
       if err \<noteq> 0 then Some ((-1, None), r)
       else do {
         ((e, w), r) \<leftarrow> rtlsdr_rpc_msg_pop_uint32 r;
         Some ((-1, if e \<noteq> 0 then None else Some w), r) } })"

definition rtlsdr_rpc_get_tuner_gain :: "allocator \<Rightarrow> 'n net \<Rightarrow> rpc_dev \<Rightarrow> 'n rpc_cli \<Rightarrow> (int \<times> 'n rpc_cli) option" where
  "rtlsdr_rpc_get_tuner_gain malloc net dev = rpc_code malloc net RTLSDR_RPC_OP_GET_TUNER_GAIN [U32 (r_index dev)]"

definition rtlsdr_rpc_set_tuner_if_gain ::
    "allocator \<Rightarrow> 'n net \<Rightarrow> rpc_dev \<Rightarrow> int \<Rightarrow> int \<Rightarrow> 'n rpc_cli \<Rightarrow> (int \<times> 'n rpc_cli) option" where
  "rtlsdr_rpc_set_tuner_if_gain malloc net dev stage gain =
     rpc_code malloc net RTLSDR_RPC_OP_SET_TUNER_IF_GAIN [U32 (r_index dev), U32 (word_of_int stage), U32 (word_of_int gain)]"

definition rtlsdr_rpc_set_tuner_gain_mode ::
    "allocator \<Rightarrow> 'n net \<Rightarrow> rpc_dev \<Rightarrow> int \<Rightarrow> 'n rpc_cli \<Rightarrow> (int \<times> 'n rpc_cli) option" where
  "rtlsdr_rpc_set_tuner_gain_mode malloc net dev manual =
     rpc_code malloc net RTLSDR_RPC_OP_SET_TUNER_GAIN_MODE [U32 (r_index dev), U32 (word_of_int manual)]"

definition rtlsdr_rpc_set_sample_rate ::
    "allocator \<Rightarrow> 'n net \<Rightarrow> rpc_dev \<Rightarrow> u32 \<Rightarrow> 'n rpc_cli \<Rightarrow> (int \<times> 'n rpc_cli) option" where
  "rtlsdr_rpc_set_sample_rate malloc net dev rate =
     rpc_code malloc net RTLSDR_RPC_OP_SET_SAMPLE_RATE [U32 (r_index dev), U32 rate]"

definition rtlsdr_rpc_get_sample_rate ::
    "allocator \<Rightarrow> 'n net \<Rightarrow> rpc_dev \<Rightarrow> 'n rpc_cli \<Rightarrow> (u32 \<times> 'n rpc_cli) option" where
  "rtlsdr_rpc_get_sample_rate malloc net dev = rpc_value malloc net RTLSDR_RPC_OP_GET_SAMPLE_RATE [U32 (r_index dev)]"

definition rtlsdr_rpc_set_testmode ::
    "allocator \<Rightarrow> 'n net \<Rightarrow> rpc_dev \<Rightarrow> int \<Rightarrow> 'n rpc_cli \<Rightarrow> (int \<times> 'n rpc_cli) option" where
  "rtlsdr_rpc_set_testmode malloc net dev on =
     rpc_code malloc net RTLSDR_RPC_OP_SET_TESTMODE [U32 (r_index dev), U32 (word_of_int on)]"

definition rtlsdr_rpc_set_agc_mode ::
    "allocator \<Rightarrow> 'n net \<Rightarrow> rpc_dev \<Rightarrow> int \<Rightarrow> 'n rpc_cli \<Rightarrow> (int \<times> 'n rpc_cli) option" where
  "rtlsdr_rpc_set_agc_mode malloc net dev on =
     rpc_code malloc net RTLSDR_RPC_OP_SET_AGC_MODE [U32 (r_index dev), U32 (word_of_int on)]"

definition rtlsdr_rpc_set_direct_sampling ::
    "allocator \<Rightarrow> 'n net \<Rightarrow> rpc_dev \<Rightarrow> int \<Rightarrow> 'n rpc_cli \<Rightarrow> (int \<times> 'n rpc_cli) option" where
  "rtlsdr_rpc_set_direct_sampling malloc net dev on =
     rpc_code malloc net RTLSDR_RPC_OP_SET_DIRECT_SAMPLING [U32 (r_index dev), U32 (word_of_int on)]"

definition rtlsdr_rpc_get_direct_sampling ::
    "allocator \<Rightarrow> 'n net \<Rightarrow> rpc_dev \<Rightarrow> 'n rpc_cli \<Rightarrow> (int \<times> 'n rpc_cli) option" where
  "rtlsdr_rpc_get_direct_sampling malloc net dev = rpc_code malloc net RTLSDR_RPC_OP_GET_DIRECT_SAMPLING [U32 (r_index dev)]"

definition rtlsdr_rpc_set_offset_tuning ::
    "allocator \<Rightarrow> 'n net \<Rightarrow> rpc_dev \<Rightarrow> int \<Rightarrow> 'n rpc_cli \<Rightarrow> (int \<times> 'n rpc_cli) option" where
  "rtlsdr_rpc_set_offset_tuning malloc net dev on =
     rpc_code malloc net RTLSDR_RPC_OP_SET_OFFSET_TUNING [U32 (r_index dev), U32 (word_of_int on)]"

definition rtlsdr_rpc_get_offset_tuning ::
    "allocator \<Rightarrow> 'n net \<Rightarrow> rpc_dev \<Rightarrow> 'n rpc_cli \<Rightarrow> (int \<times> 'n rpc_cli) option" where
  "rtlsdr_rpc_get_offset_tuning malloc net dev = rpc_code malloc net RTLSDR_RPC_OP_GET_OFFSET_TUNING [U32 (r_index dev)]"

definition rtlsdr_rpc_reset_buffer :: "allocator \<Rightarrow> 'n net \<Rightarrow> rpc_dev \<Rightarrow> 'n rpc_cli \<Rightarrow> (int \<times> 'n rpc_cli) option" where
  "rtlsdr_rpc_reset_buffer malloc net dev = rpc_code malloc net RTLSDR_RPC_OP_RESET_BUFFER [U32 (r_index dev)]"

text \<open>The second result is what is copied to the buffer; its length is \<open>*n_read\<close>.\<close>

definition rtlsdr_rpc_read_sync ::
    "allocator \<Rightarrow> 'n net \<Rightarrow> rpc_dev \<Rightarrow> nat \<Rightarrow> 'n rpc_cli \<Rightarrow> ((int \<times> u8 list) \<times> 'n rpc_cli) option" where
  "rtlsdr_rpc_read_sync malloc net dev len =
     rpc_call malloc net RTLSDR_RPC_OP_READ_SYNC [U32 (r_index dev), U32 (of_nat len)] (-1, []) (\<lambda>r. do {
       err \<leftarrow> rtlsdr_rpc_msg_get_err r;
       if err \<noteq> 0 then Some ((err, []), r)
       else do {
         ((e, b), r) \<leftarrow> rtlsdr_rpc_msg_pop_buf r;
         Some (if e \<noteq> 0 then (-1, []) else (0, take len b), r) } })"

text \<open>
  The loop of \<open>rtlsdr_rpc_read_async\<close> hands the payload of every message for its slot to the callback.  The blocks handed over so far are \<open>bs\<close>;
  \<open>cancels bs\<close> tells whether \<open>rtlsdr_rpc_cancel_async\<close> is called before the next turn.
\<close>

partial_function (option) async_loop ::
    "allocator \<Rightarrow> nat \<Rightarrow> (u8 list list \<Rightarrow> bool) \<Rightarrow> u8 list list \<Rightarrow> 'n rpc_cli \<Rightarrow> ((int \<times> u8 list list) \<times> 'n rpc_cli) option" where
  "async_loop malloc i cancels bs c =
     (if c_async_cancel c then Some ((0, bs), c)
      else do {
        (r, c) \<leftarrow> cli_recv_msg malloc i c;
        if r \<noteq> 0 then Some ((-1, bs), c)
        else do {
          sz \<leftarrow> rtlsdr_rpc_msg_get_size (c_reply c ! i);
          b \<leftarrow> mem_read (fmt (c_reply c ! i)) fmt_data_off (sz - fmt_data_off);
          async_loop malloc i cancels (bs @ [b]) (c\<lparr>c_async_cancel := c_async_cancel c \<or> cancels (bs @ [b])\<rparr>) } })"

text \<open>After the query nothing is read as messages: what arrives until nothing comes for 200 ms is thrown away.\<close>

fun flush_events :: "recv_event list \<Rightarrow> recv_event list" where
  "flush_events (GOT _ # es) = flush_events es"
| "flush_events (WOULD_BLOCK # es) = es"
| "flush_events es = es"

definition send_flush_msgs :: "'n net \<Rightarrow> nat \<Rightarrow> 'n rpc_cli \<Rightarrow> (int \<times> 'n rpc_cli) option" where
  "send_flush_msgs net i c = do {
     (r, c) \<leftarrow> cli_send_msg net i c;
     Some (if r \<noteq> 0 then (-1, c) else (0, c\<lparr>c_inp := flush_events (c_inp c)\<rparr>)) }"

definition rtlsdr_rpc_read_async ::
    "allocator \<Rightarrow> 'n net \<Rightarrow> rpc_dev \<Rightarrow> (u8 list list \<Rightarrow> bool) \<Rightarrow> u32 \<Rightarrow> u32 \<Rightarrow> 'n rpc_cli
       \<Rightarrow> ((int \<times> u8 list list) \<times> 'n rpc_cli) option" where
  "rtlsdr_rpc_read_async malloc net dev cancels buf_num buf_len c = do {
     (slot, c) \<leftarrow> rpc_query malloc net RTLSDR_RPC_OP_READ_ASYNC [U32 (r_index dev), U32 buf_num, U32 buf_len] c;
     case slot of
       None \<Rightarrow> Some ((-1, []), c)
     | Some i \<Rightarrow> do {
         k \<leftarrow> rtlsdr_rpc_msg_get_id (c_query c ! i);
         err \<leftarrow> rtlsdr_rpc_msg_get_err (c_reply c ! i);
         if err \<noteq> 0 then do { c \<leftarrow> free_qr i c; Some ((err, []), c) }
         else do {
           ((err, bs), c) \<leftarrow> async_loop malloc (unat k) cancels [] (c\<lparr>c_async_cancel := cancels []\<rparr>);
           if err \<noteq> 0 then do { c \<leftarrow> free_qr i c; Some ((err, bs), c) }
           else do {
             q \<leftarrow> rtlsdr_rpc_msg_set_id (rtlsdr_rpc_msg_reset (c_query c ! i)) k;
             q \<leftarrow> rtlsdr_rpc_msg_set_op q RTLSDR_RPC_OP_CANCEL_ASYNC;
             (_, q) \<leftarrow> push_all malloc q [U32 (r_index dev)];
             (_, c) \<leftarrow> send_flush_msgs net i (set_query i q c);
             c \<leftarrow> free_qr i c;
             Some ((0, bs), c) } } } }"

definition rtlsdr_rpc_wait_async ::
    "allocator \<Rightarrow> 'n net \<Rightarrow> rpc_dev \<Rightarrow> (u8 list list \<Rightarrow> bool) \<Rightarrow> 'n rpc_cli \<Rightarrow> ((int \<times> u8 list list) \<times> 'n rpc_cli) option" where
  "rtlsdr_rpc_wait_async malloc net dev cancels = rtlsdr_rpc_read_async malloc net dev cancels 0 0"

definition rtlsdr_rpc_cancel_async :: "'n rpc_cli \<Rightarrow> int \<times> 'n rpc_cli" where
  "rtlsdr_rpc_cancel_async c = (0, c\<lparr>c_async_cancel := True\<rparr>)"

section \<open>The client between two calls\<close>

definition msgs_ok :: "rpc_msg list \<Rightarrow> bool" where
  "msgs_ok ms \<longleftrightarrow> length ms = QR_COUNT \<and> list_all wf_msg ms"

lemma msgs_ok_nth: "msgs_ok ms \<Longrightarrow> i < 32 \<Longrightarrow> wf_msg (ms ! i)"
  by (simp add: msgs_ok_def QR_COUNT_def list_all_length)

lemma msgs_ok_update: "msgs_ok ms \<Longrightarrow> wf_msg m \<Longrightarrow> msgs_ok (ms[i := m])"
  by (auto simp: msgs_ok_def list_all_iff dest: set_update_subset_insert [THEN subsetD])

lemma msgs_ok_length: "msgs_ok ms \<Longrightarrow> length ms = 32"
  by (simp add: msgs_ok_def QR_COUNT_def)

text \<open>Nothing is on its way, no reply is waiting, and a slot is free.\<close>

definition cli_ready :: "'n rpc_cli \<Rightarrow> bool" where
  "cli_ready c \<longleftrightarrow> msgs_ok (c_query c) \<and> msgs_ok (c_reply c) \<and> c_box c = 0 \<and> carries (c_inp c) []
     \<and> (\<exists>i < 32. \<not> bit (c_mask c) i)"

text \<open>So it is after connecting.\<close>

lemma init_cli_ready:
  assumes "roomy malloc" "\<not> c_init c" "length (c_query c) = QR_COUNT" "length (c_reply c) = QR_COUNT" "carries (c_inp c) []"
  shows "\<exists>c'. init_cli malloc True c = (0, c') \<and> cli_ready c' \<and> c_init c' \<and> c_net c' = c_net c"
proof -
  obtain b where b: "malloc 74 = Some b" "length b = 74" using assms(1) by (auto simp: roomy_def)
  have i: "rtlsdr_rpc_msg_init malloc m 0 = (0, m\<lparr>fmt := b, off := fmt_data_off, msize := 74\<rparr>)" for m
    using b(1) by (simp add: rtlsdr_rpc_msg_init_def size_wrap_def fmt_offs)
  have w: "wf_msg (m\<lparr>fmt := b, off := fmt_data_off, msize := 74\<rparr>)" for m
    using b(2) by (simp add: wf_msg_def fmt_offs)
  have "\<exists>i. i < (32 :: nat)" by (rule exI [of _ 0]) simp
  then show ?thesis
    using assms(2-5) w by (auto simp: init_cli_def Let_def i list_ex_iff comp_def cli_ready_def msgs_ok_def list_all_iff)
qed

lemma find_free:
  assumes "\<exists>i < 32. \<not> bit (w :: u32) i"
  shows "\<exists>i < 32. List.find (\<lambda>i. \<not> bit w i) [0..<QR_COUNT] = Some i \<and> \<not> bit w i"
proof -
  have "List.find (\<lambda>i. \<not> bit w i) [0..<QR_COUNT] \<noteq> None"
    using assms by (auto simp: find_None_iff QR_COUNT_def)
  then obtain i where i: "List.find (\<lambda>i. \<not> bit w i) [0..<QR_COUNT] = Some i" by blast
  then have "i < 32 \<and> \<not> bit w i" by (auto simp: find_Some_iff QR_COUNT_def)
  then show ?thesis using i by blast
qed

lemma u32_bytes_bytes_u32: "u32_bytes (bytes_u32 [a, b, c, d]) = [a, b, c, d]"
  by (auto simp: u32_bytes_def bytes_u32_def intro!: bit_word_eqI) (auto simp: bit_simps dest: bit_imp_le_length)

text \<open>The query of a slot, from its allocation to the bytes that are sent.\<close>

definition query_of :: "u8 \<Rightarrow> u8 \<Rightarrow> rpc_msg \<Rightarrow> bool" where
  "query_of op i q \<longleftrightarrow> (\<exists>h0 h1 h2 h3 e0 e1 e2 e3. take 10 (fmt q) = [h0, h1, h2, h3, op, i, e0, e1, e2, e3])"

lemma new_query:
  assumes "wf_msg q"
  shows "\<exists>q1 q2. rtlsdr_rpc_msg_set_id (rtlsdr_rpc_msg_reset q) i = Some q1 \<and> rtlsdr_rpc_msg_set_op q1 op = Some q2
    \<and> wf_msg q1 \<and> wf_msg q2 \<and> off q2 = fmt_data_off \<and> query_of (of_nat op) i q2"
proof -
  obtain b0 b1 b2 b3 p j e0 e1 e2 e3 t where f: "fmt q = b0 # b1 # b2 # b3 # p # j # e0 # e1 # e2 # e3 # t"
    using wf_msg_header [OF assms] .
  then show ?thesis
    using assms by (simp add: header_sets rtlsdr_rpc_msg_reset_def id_bytes wf_msg_def query_of_def)
qed

lemma query_of_id: "wf_msg q \<Longrightarrow> query_of op i q \<Longrightarrow> rtlsdr_rpc_msg_get_id q = Some i"
proof -
  assume q: "wf_msg q" "query_of op i q"
  then obtain h0 h1 h2 h3 e0 e1 e2 e3 where h: "take 10 (fmt q) = [h0, h1, h2, h3, op, i, e0, e1, e2, e3]"
    by (auto simp: query_of_def)
  then have "fmt q = [h0, h1, h2, h3, op, i, e0, e1, e2, e3] @ drop 10 (fmt q)"
    using append_take_drop_id by metis
  then obtain t where "fmt q = [h0, h1, h2, h3, op, i, e0, e1, e2, e3] @ t" by blast
  then show ?thesis by (simp add: header_defs)
qed

lemma send_query:
  assumes "wf_msg q" "query_of op i q"
  shows "\<exists>q' e. rtlsdr_rpc_msg_set_size q (off q) = Some q' \<and> wf_msg q' \<and> off q' = off q \<and> query_of op i q'
    \<and> mem_read (fmt q') 0 (off q) = Some (wire op i e (written q))"
proof -
  obtain h0 h1 h2 h3 e0 e1 e2 e3 where h: "take 10 (fmt q) = [h0, h1, h2, h3, op, i, e0, e1, e2, e3]"
    using assms(2) by (auto simp: query_of_def)
  then have "fmt q = [h0, h1, h2, h3, op, i, e0, e1, e2, e3] @ drop 10 (fmt q)"
    using append_take_drop_id by metis
  then obtain t where f: "fmt q = [h0, h1, h2, h3, op, i, e0, e1, e2, e3] @ t" by blast
  obtain s0 s1 s2 s3 where s: "u32_bytes (of_nat (off q)) = [s0, s1, s2, s3]" using u32_bytes_4 by blast
  define q' where "q' = q\<lparr>fmt := [s0, s1, s2, s3, op, i, e0, e1, e2, e3] @ t\<rparr>"
  have "rtlsdr_rpc_msg_set_size q (off q) = Some q'" by (simp add: header_sets f s q'_def)
  moreover have wf: "wf_msg q'" using assms(1) f by (simp add: q'_def wf_msg_def)
  moreover have "written q' = written q" by (simp add: q'_def written_def fmt_offs f drop_take)
  moreover have "off q = 10 + length (written q)"
    using wf_msg_bounds [OF assms(1)] by (simp add: written_def fmt_offs)
  moreover have "take (off q') (fmt q') = [s0, s1, s2, s3, op, i, e0, e1, e2, e3] @ written q'"
    using wf by (rule header_take) (simp_all add: q'_def)
  ultimately have "mem_read (fmt q') 0 (off q) = Some (wire op i (bytes_u32 [e0, e1, e2, e3]) (written q))"
    using wf_msg_bounds [OF wf] s by (simp add: wire_def u32_bytes_bytes_u32 q'_def)
  then show ?thesis
    using \<open>rtlsdr_rpc_msg_set_size q (off q) = Some q'\<close> wf by (auto simp: q'_def query_of_def)
qed

text \<open>A message for any slot, received while waiting for slot \<open>i\<close>, ends in its own slot.\<close>

lemma recv_one_wire:
  assumes "msgs_ok (c_reply c)" "roomy malloc" "i < 32" "unat k < 32" "10 + length payload < 2 ^ 32"
    "carries (c_inp c) (wire op k err payload @ rest)"
  shows "\<exists>es ms. recv_one malloc i c = Some ((0, unat k), c\<lparr>c_inp := es, c_reply := ms\<rparr>) \<and> carries es rest \<and> msgs_ok ms
    \<and> take (10 + length payload) (fmt (ms ! unat k)) = wire op k err payload
    \<and> (\<forall>j. j \<noteq> i \<and> j \<noteq> unat k \<longrightarrow> ms ! j = c_reply c ! j)"
proof -
  define hdr where "hdr = u32_bytes (of_nat (10 + length payload)) @ [op, k] @ u32_bytes err"
  have hdr: "length hdr = 10" "wire op k err payload = hdr @ payload" "hdr \<noteq> []"
    by (simp_all add: hdr_def wire_def)
  have len: "length (c_reply c) = 32" using assms(1) by (rule msgs_ok_length)
  let ?ri = "c_reply c ! i"
  have wi: "wf_msg ?ri" using msgs_ok_nth [OF assms(1,3)] .
  define m where "m = ?ri\<lparr>fmt := hdr @ drop 10 (fmt ?ri)\<rparr>"
  have wm: "wf_msg m" using wi wf_msg_bounds [OF wi] hdr(1) by (simp add: m_def wf_msg_def fmt_offs)
  obtain es1 where es1: "recv_into ?ri 0 fmt_data_off (c_inp c) = Some (0, m, es1)" "carries es1 (payload @ rest)"
    using recv_into_carries [of "c_inp c" hdr "payload @ rest" 0 ?ri] assms(6) hdr wf_msg_bounds [OF wi]
    by (auto simp: m_def fmt_offs)
  have idm: "rtlsdr_rpc_msg_get_id m = Some k" by (simp add: m_def hdr_def header_defs u32_bytes_def)
  have hdm: "mem_read (fmt m) 0 fmt_data_off = Some hdr" using hdr(1) by (simp add: m_def fmt_offs)
  define ms1 where "ms1 = (c_reply c)[i := m]"
  have ms1: "msgs_ok ms1" using assms(1) wm by (simp add: ms1_def msgs_ok_update)
  let ?rk = "ms1 ! unat k"
  have wk: "wf_msg ?rk" using msgs_ok_nth [OF ms1 assms(4)] .
  define m2 where "m2 = ?rk\<lparr>fmt := hdr @ drop 10 (fmt ?rk)\<rparr>"
  have wm2: "wf_msg m2" using wk wf_msg_bounds [OF wk] hdr(1) by (simp add: m2_def wf_msg_def fmt_offs)
  have wr2: "mem_write (fmt ?rk) 0 hdr = Some (fmt m2)"
    using wf_msg_bounds [OF wk] hdr(1) by (simp add: m2_def)
  have up2: "?rk\<lparr>fmt := fmt m2\<rparr> = m2" by (simp add: m2_def)
  have "unat (of_nat (10 + length payload) :: u32) = 10 + length payload"
    using assms(5) by (simp only: unat_of_nat) simp
  then have sz: "rtlsdr_rpc_msg_get_size m2 = Some (10 + length payload)"
    using bytes_u32_u32_bytes [of "of_nat (10 + length payload)"] by (simp add: m2_def hdr_def header_defs)
  obtain m3 where m3: "rtlsdr_rpc_msg_realloc malloc m2 (10 + length payload) = Some (0, m3)" "wf_msg m3" "off m3 = off m2"
      "10 + length payload \<le> msize m3" "take (off m2) (fmt m3) = take (off m2) (fmt m2)"
    using realloc_roomy [OF wm2 assms(2), of "10 + length payload"] assms(5) by auto
  have t3: "take 10 (fmt m3) = hdr"
    using arg_cong [OF m3(5), of "take 10"] wf_msg_bounds(2) [OF wm2] hdr(1) by (simp add: m2_def min_def)
  show ?thesis
  proof (cases "payload = []")
    case True
    have "recv_one malloc i c = Some ((0, unat k), c\<lparr>c_inp := es1, c_reply := ms1[unat k := m3]\<rparr>)"
      unfolding recv_one_def using es1(1) idm hdm wr2 sz m3(1) assms(4) True
      by (simp add: ms1_def [symmetric] up2 QR_COUNT_def fmt_offs Let_def)
    then show ?thesis
      using es1(2) msgs_ok_update [OF ms1 m3(2)] t3 True hdr len assms(4)
      by (intro exI [of _ es1] exI [of _ "ms1[unat k := m3]"]) (simp add: ms1_def)
  next
    case False
    define m4 where "m4 = m3\<lparr>fmt := take 10 (fmt m3) @ payload @ drop (10 + length payload) (fmt m3)\<rparr>"
    obtain es2 where es2: "recv_into m3 10 (length payload) es1 = Some (0, m4, es2)" "carries es2 rest"
      using recv_into_carries [OF es1(2) False, of 10 m3] m3(4) wf_msg_bounds [OF m3(2)] by (auto simp: m4_def)
    have w4: "wf_msg m4" using m3(2,4) wf_msg_bounds [OF m3(2)] by (simp add: m4_def wf_msg_def fmt_offs)
    have t4: "take (10 + length payload) (fmt m4) = wire op k err payload"
      using t3 hdr by (simp add: m4_def)
    have "recv_one malloc i c = Some ((0, unat k), c\<lparr>c_inp := es2, c_reply := ms1[unat k := m4]\<rparr>)"
      unfolding recv_one_def using es1(1) idm hdm wr2 sz m3(1) assms(4) False es2(1)
      by (simp add: ms1_def [symmetric] up2 QR_COUNT_def fmt_offs Let_def)
    then show ?thesis
      using es2(2) msgs_ok_update [OF ms1 w4] t4 len assms(4)
      by (intro exI [of _ es2] exI [of _ "ms1[unat k := m4]"]) (simp add: ms1_def)
  qed
qed

text \<open>A query from the message of its slot to the bytes that are sent.\<close>

lemma query_built:
  assumes "wf_msg q" "roomy malloc" "total_bytes args < 2 ^ 32"
  shows "\<exists>q1 q2 q3 q4 e. rtlsdr_rpc_msg_set_id (rtlsdr_rpc_msg_reset q) i = Some q1 \<and> rtlsdr_rpc_msg_set_op q1 op = Some q2
    \<and> push_all malloc q2 args = Some (0, q3) \<and> rtlsdr_rpc_msg_get_id q3 = Some i
    \<and> rtlsdr_rpc_msg_set_size q3 (off q3) = Some q4 \<and> wf_msg q4 \<and> off q4 = off q3 \<and> rtlsdr_rpc_msg_get_id q4 = Some i
    \<and> mem_read (fmt q4) 0 (off q3) = Some (wire (of_nat op) i e (concat (map item_bytes args)))"
proof -
  obtain q1 q2 where q: "rtlsdr_rpc_msg_set_id (rtlsdr_rpc_msg_reset q) i = Some q1"
      "rtlsdr_rpc_msg_set_op q1 op = Some q2" "wf_msg q2" "off q2 = fmt_data_off" "query_of (of_nat op) i q2"
    using new_query [OF assms(1), of i op] by auto
  have "off q2 + total_bytes args + 256 < 2 ^ 63" using q(4) assms(3) by (simp add: fmt_offs)
  then obtain q3 where q3: "push_all malloc q2 args = Some (0, q3)" "wf_msg q3" "written q3 = concat (map item_bytes args)"
      "take 10 (fmt q3) = take 10 (fmt q2)"
    using push_all_spec [OF q(3) roomy_ok(1) [OF assms(2)]] roomy_ok(2) [OF assms(2)] q(4) by (auto simp: written_def)
  have q3q: "query_of (of_nat op) i q3" using q(5) q3(4) by (simp add: query_of_def)
  obtain q4 e where q4: "rtlsdr_rpc_msg_set_size q3 (off q3) = Some q4" "wf_msg q4" "query_of (of_nat op) i q4"
      "mem_read (fmt q4) 0 (off q3) = Some (wire (of_nat op) i e (concat (map item_bytes args)))" "off q4 = off q3"
    using send_query [OF q3(2) q3q] q3(3) by auto
  show ?thesis
    using q(1,2) q3(1) query_of_id [OF q3(2) q3q] q4 query_of_id [OF q4(2,3)] by blast
qed

lemma wire_reply:
  assumes "wf_msg m" "take (10 + length payload) (fmt m) = wire op i err payload"
  shows "rtlsdr_rpc_msg_get_err (rtlsdr_rpc_msg_reset m) = Some (sint err)"
    "\<exists>rest. unread (rtlsdr_rpc_msg_reset m) = payload @ rest"
  using wire_fields [OF assms] by (simp_all add: rtlsdr_rpc_msg_reset_def unread_def header_defs)

text \<open>What a peer sends after a query for some operation, by the slot of the query; often one reply.\<close>

definition sends :: "'n net \<Rightarrow> 'n \<Rightarrow> nat \<Rightarrow> u8 list \<Rightarrow> (u8 \<Rightarrow> u8 list) \<Rightarrow> ('n \<Rightarrow> bool) \<Rightarrow> bool" where
  "sends net n op query answer P \<longleftrightarrow>
     (\<forall>i e. i < 32 \<longrightarrow> (\<exists>es n'. run_state (net (wire (of_nat op) (of_nat i) e query)) n = ((0, es), n')
        \<and> carries es (answer (of_nat i)) \<and> P n'))"

definition replies :: "'n net \<Rightarrow> 'n \<Rightarrow> nat \<Rightarrow> u8 list \<Rightarrow> int \<Rightarrow> u8 list \<Rightarrow> ('n \<Rightarrow> bool) \<Rightarrow> bool" where
  "replies net n op query err payload = sends net n op query (\<lambda>i. wire (of_nat op) i (word_of_int err) payload)"

lemma set_unset_bit: "\<not> bit (w :: u32) i \<Longrightarrow> unset_bit i (Bit_Operations.set_bit i w) = w"
  by (rule bit_word_eqI) (auto simp: bit_simps)

text \<open>The client with the reply to its query in slot \<open>i\<close>, and more to receive.\<close>

definition answered :: "nat \<Rightarrow> int \<Rightarrow> u8 list \<Rightarrow> u8 list \<Rightarrow> 'n rpc_cli \<Rightarrow> 'n rpc_cli \<Rightarrow> bool" where
  "answered i err payload later c c' \<longleftrightarrow> i < 32 \<and> \<not> bit (c_mask c) i \<and> c_mask c' = Bit_Operations.set_bit i (c_mask c) \<and> c_init c' = c_init c
     \<and> msgs_ok (c_query c') \<and> rtlsdr_rpc_msg_get_id (c_query c' ! i) = Some (of_nat i)
     \<and> msgs_ok (c_reply c') \<and> rtlsdr_rpc_msg_get_err (c_reply c' ! i) = Some (sint (word_of_int err :: u32))
     \<and> (\<exists>rest. unread (c_reply c' ! i) = payload @ rest) \<and> c_box c' = 0 \<and> carries (c_inp c') later"

lemma rpc_query_answered:
  assumes c: "cli_ready c" and malloc: "roomy malloc" and "total_bytes args < 2 ^ 32" "10 + length payload < 2 ^ 32"
    and net: "sends net (c_net c) op (concat (map item_bytes args)) (\<lambda>i. wire (of_nat op) i (word_of_int err) payload @ later i) P"
  shows "\<exists>i c'. rpc_query malloc net op args c = Some (Some i, c') \<and> answered i err payload (later (of_nat i)) c c' \<and> P (c_net c')"
proof -
  have ok: "msgs_ok (c_query c)" "msgs_ok (c_reply c)" "c_box c = 0" "carries (c_inp c) []"
    using c by (simp_all add: cli_ready_def)
  note lens = msgs_ok_length [OF ok(1)] msgs_ok_length [OF ok(2)]
  obtain i where i: "i < 32" "List.find (\<lambda>i. \<not> bit (c_mask c) i) [0..<QR_COUNT] = Some i" "\<not> bit (c_mask c) i"
    using find_free c by (auto simp: cli_ready_def)
  have ui: "unat (of_nat i :: u8) = i" using i(1) by (simp add: unat_of_nat)
  obtain q1 q2 q3 q4 e where q: "rtlsdr_rpc_msg_set_id (rtlsdr_rpc_msg_reset (c_query c ! i)) (of_nat i) = Some q1"
      "rtlsdr_rpc_msg_set_op q1 op = Some q2" "push_all malloc q2 args = Some (0, q3)" "rtlsdr_rpc_msg_get_id q3 = Some (of_nat i)"
      "rtlsdr_rpc_msg_set_size q3 (off q3) = Some q4" "wf_msg q4" "off q4 = off q3" "rtlsdr_rpc_msg_get_id q4 = Some (of_nat i)"
      "mem_read (fmt q4) 0 (off q3) = Some (wire (of_nat op) (of_nat i) e (concat (map item_bytes args)))"
    using query_built [OF msgs_ok_nth [OF ok(1) i(1)] malloc assms(3)] by blast
  obtain es n' where n: "run_state (net (wire (of_nat op) (of_nat i) e (concat (map item_bytes args)))) (c_net c) = ((0, es), n')"
      "carries es (wire (of_nat op) (of_nat i) (word_of_int err) payload @ later (of_nat i))" "P n'"
    using net [unfolded sends_def, rule_format, OF i(1), of e] by blast
  define c0 where "c0 = c\<lparr>c_mask := Bit_Operations.set_bit i (c_mask c), c_query := (c_query c)[i := q3]\<rparr>"
  define c1 where "c1 = c\<lparr>c_mask := Bit_Operations.set_bit i (c_mask c), c_query := (c_query c)[i := q4], c_inp := c_inp c @ es, c_net := n'\<rparr>"
  have "carries (c_inp c1) (wire (of_nat op) (of_nat i) (word_of_int err) payload @ later (of_nat i))"
    using carries_append [OF ok(4) n(2)] by (simp add: c1_def)
  then obtain es' ms where r: "recv_one malloc i c1 = Some ((0, i), c1\<lparr>c_inp := es', c_reply := ms\<rparr>)" "carries es' (later (of_nat i))" "msgs_ok ms"
      "take (10 + length payload) (fmt (ms ! i)) = wire (of_nat op) (of_nat i) (word_of_int err) payload"
    using recv_one_wire [of c1 malloc i "of_nat i" payload "of_nat op" "word_of_int err" "later (of_nat i)"] ok(2) malloc i(1) ui assms(4)
    by (auto simp: c1_def)
  have loop: "cli_recv_msg malloc i c1 = Some (0, c1\<lparr>c_inp := es', c_reply := ms\<rparr>)"
    using r(1) ok(3) by (simp add: cli_recv_msg_def c1_def recv_loop.simps)
  let ?r = "rtlsdr_rpc_msg_reset (ms ! i)"
  define c2 where "c2 = c1\<lparr>c_inp := es', c_reply := ms[i := ?r]\<rparr>"
  have send: "cli_send_msg net i c0 = Some (0, c1)"
    using q(5,7,9) n(1) i(1) lens by (simp add: cli_send_msg_def c0_def c1_def)
  have id0: "rtlsdr_rpc_msg_get_id (c_query c0 ! i) = Some (of_nat i)"
    using q(4) i(1) lens by (simp add: c0_def)
  have "send_recv_msg malloc net i c0 = Some (0, c2)"
    using id0 send loop ui by (simp add: send_recv_msg_def c2_def)
  moreover have "alloc_qr c = Some (Some i, c\<lparr>c_mask := Bit_Operations.set_bit i (c_mask c), c_query := (c_query c)[i := q1]\<rparr>)"
    using i(2) q(1) by (simp add: alloc_qr_def)
  ultimately have "rpc_query malloc net op args c = Some (Some i, c2)"
    using q(2,3) i(1) lens by (simp add: rpc_query_def c0_def [symmetric])
  moreover have "answered i err payload (later (of_nat i)) c c2"
    using i(1,3) r(2) ok(3) lens msgs_ok_length [OF r(3)] msgs_ok_update [OF ok(1) q(6)] q(8)
      msgs_ok_update [OF r(3) wf_reset [OF msgs_ok_nth [OF r(3) i(1)]]] wire_reply [OF msgs_ok_nth [OF r(3) i(1)] r(4)]
    by (simp add: answered_def c2_def c1_def)
  ultimately show ?thesis using n(3) by (auto simp: c2_def c1_def)
qed

lemma rpc_call_exchange:
  assumes c: "cli_ready c" and malloc: "roomy malloc" and "total_bytes args < 2 ^ 32" "10 + length payload < 2 ^ 32"
    and net: "replies net (c_net c) op (concat (map item_bytes args)) err payload P"
    and k: "\<And>r rest. wf_msg r \<Longrightarrow> rtlsdr_rpc_msg_get_err r = Some (sint (word_of_int err :: u32)) \<Longrightarrow>
       unread r = payload @ rest \<Longrightarrow> \<exists>m. k r = Some (a, m) \<and> wf_msg m"
  shows "\<exists>c'. rpc_call malloc net op args dflt k c = Some (a, c') \<and> cli_ready c' \<and> c_init c' = c_init c \<and> P (c_net c')"
proof -
  obtain i c1 where q: "rpc_query malloc net op args c = Some (Some i, c1)" "answered i err payload [] c c1" "P (c_net c1)"
    using rpc_query_answered [OF assms(1-4), where later = "\<lambda>_. []" and net = net and op = op and err = err and P = P] net
    by (auto simp: replies_def)
  then have a: "i < 32" "\<not> bit (c_mask c) i" "c_mask c1 = Bit_Operations.set_bit i (c_mask c)" "c_init c1 = c_init c" "msgs_ok (c_query c1)"
      "rtlsdr_rpc_msg_get_id (c_query c1 ! i) = Some (of_nat i)" "msgs_ok (c_reply c1)" "c_box c1 = 0" "carries (c_inp c1) []"
    by (simp_all add: answered_def)
  have ui: "unat (of_nat i :: u8) = i" using a(1) by (simp add: unat_of_nat)
  obtain m where m: "k (c_reply c1 ! i) = Some (a, m)" "wf_msg m"
    using k [OF msgs_ok_nth [OF a(7,1)]] q(2) by (auto simp: answered_def)
  define c2 where "c2 = c1\<lparr>c_mask := c_mask c, c_reply := (c_reply c1)[i := m]\<rparr>"
  have "free_qr i (set_reply i m c1) = Some c2"
    using a(2,3,6) ui by (simp add: free_qr_def c2_def set_unset_bit)
  then have "rpc_call malloc net op args dflt k c = Some (a, c2)" using q(1) m(1) by (simp add: rpc_call_def)
  moreover have "cli_ready c2"
    using c a msgs_ok_update [OF a(7) m(2)] by (simp add: cli_ready_def c2_def)
  ultimately show ?thesis using q(3) a(4) by (auto simp: c2_def)
qed
section \<open>Replies to other threads\<close>

text \<open>A message as it is sent, with its slot; what is left in a reply is the last message for its slot.\<close>

type_synonym rpc_packet = "u8 \<times> u8 \<times> u32 \<times> u8 list"

fun packet_bytes :: "rpc_packet \<Rightarrow> u8 list" where
  "packet_bytes (op, k, err, payload) = wire op k err payload"

definition packet_slot :: "rpc_packet \<Rightarrow> nat" where
  "packet_slot p = unat (fst (snd p))"

definition holds_packet :: "rpc_msg \<Rightarrow> rpc_packet \<Rightarrow> bool" where
  "holds_packet m p \<longleftrightarrow> take (length (packet_bytes p)) (fmt m) = packet_bytes p"

definition packet_ok :: "rpc_packet \<Rightarrow> bool" where
  "packet_ok p \<longleftrightarrow> packet_slot p < 32 \<and> length (packet_bytes p) < 2 ^ 32"

primrec last_for_slot :: "rpc_packet \<Rightarrow> rpc_packet list \<Rightarrow> bool" where
  "last_for_slot p [] = False"
| "last_for_slot p (q # ps) = (last_for_slot p ps \<or> p = q \<and> packet_slot p \<notin> packet_slot ` set ps)"

lemma recv_one_packet:
  assumes "msgs_ok (c_reply c)" "roomy malloc" "i < 32" "packet_ok p" "carries (c_inp c) (packet_bytes p @ rest)"
  shows "\<exists>es ms. recv_one malloc i c = Some ((0, packet_slot p), c\<lparr>c_inp := es, c_reply := ms\<rparr>) \<and> carries es rest \<and> msgs_ok ms
    \<and> holds_packet (ms ! packet_slot p) p \<and> (\<forall>j. j \<noteq> i \<and> j \<noteq> packet_slot p \<longrightarrow> ms ! j = c_reply c ! j)"
  using assms recv_one_wire [OF assms(1-3)]
  by (cases p) (simp add: packet_ok_def packet_slot_def holds_packet_def)

text \<open>Messages for other slots, in any order and number, before the one for this slot.\<close>

lemma recv_loop_routes:
  assumes "msgs_ok (c_reply c)" "roomy malloc" "i < 32" "packet_ok p" "packet_slot p = i" "\<forall>q \<in> set ps. packet_ok q \<and> packet_slot q \<noteq> i"
    "carries (c_inp c) (concat (map packet_bytes ps) @ packet_bytes p @ rest)"
  shows "\<exists>es ms box. recv_loop malloc i c = Some (0, c\<lparr>c_inp := es, c_reply := ms, c_box := box\<rparr>) \<and> carries es rest \<and> msgs_ok ms
    \<and> holds_packet (ms ! i) p \<and> (\<forall>j. j \<noteq> i \<and> j \<notin> packet_slot ` set ps \<longrightarrow> ms ! j = c_reply c ! j)
    \<and> (\<forall>q. last_for_slot q ps \<longrightarrow> bit box (packet_slot q) \<and> holds_packet (ms ! packet_slot q) q)
    \<and> (\<forall>j. bit (c_box c) j \<longrightarrow> bit box j)"
  using assms(1,6,7)
proof (induction ps arbitrary: c)
  case Nil
  then have "carries (c_inp c) (packet_bytes p @ rest)" by simp
  then obtain es ms where "recv_one malloc i c = Some ((0, i), c\<lparr>c_inp := es, c_reply := ms\<rparr>)" "carries es rest" "msgs_ok ms"
      "holds_packet (ms ! i) p" "\<forall>j. j \<noteq> i \<longrightarrow> ms ! j = c_reply c ! j"
    using recv_one_packet [OF Nil.prems(1) assms(2,3,4), of rest] assms(5) by auto
  then show ?case
    by (intro exI [of _ es] exI [of _ ms] exI [of _ "c_box c"]) (simp add: recv_loop.simps)
next
  case (Cons q ps)
  have q: "packet_ok q" "packet_slot q \<noteq> i" "packet_slot q < 32" using Cons.prems(2) by (auto simp: packet_ok_def)
  obtain es ms where 1: "recv_one malloc i c = Some ((0, packet_slot q), c\<lparr>c_inp := es, c_reply := ms\<rparr>)"
      "carries es (concat (map packet_bytes ps) @ packet_bytes p @ rest)" "msgs_ok ms" "holds_packet (ms ! packet_slot q) q"
      "\<forall>j. j \<noteq> i \<and> j \<noteq> packet_slot q \<longrightarrow> ms ! j = c_reply c ! j"
    using recv_one_packet [OF Cons.prems(1) assms(2,3) q(1), of "concat (map packet_bytes ps) @ packet_bytes p @ rest"] Cons.prems(3)
    by auto
  let ?c = "c\<lparr>c_inp := es, c_reply := ms, c_box := Bit_Operations.set_bit (packet_slot q) (c_box c)\<rparr>"
  obtain es' ms' box where 2: "recv_loop malloc i ?c = Some (0, ?c\<lparr>c_inp := es', c_reply := ms', c_box := box\<rparr>)" "carries es' rest" "msgs_ok ms'"
      "holds_packet (ms' ! i) p" "\<forall>j. j \<noteq> i \<and> j \<notin> packet_slot ` set ps \<longrightarrow> ms' ! j = ms ! j"
      "\<forall>q. last_for_slot q ps \<longrightarrow> bit box (packet_slot q) \<and> holds_packet (ms' ! packet_slot q) q"
      "\<forall>j. bit (Bit_Operations.set_bit (packet_slot q) (c_box c)) j \<longrightarrow> bit box j"
    using Cons.IH [of ?c] Cons.prems(2) 1(2,3) by auto
  have "recv_loop malloc i c = Some (0, c\<lparr>c_inp := es', c_reply := ms', c_box := box\<rparr>)"
    using 1(1) 2(1) q(2) by (simp add: recv_loop.simps [of _ _ c])
  moreover have "bit box (packet_slot q)" using 2(7) q(3) by (simp add: bit_simps)
  moreover have "\<forall>j. bit (c_box c) j \<longrightarrow> bit box j" using 2(7) by (simp add: bit_simps)
  ultimately show ?case
    using 1(4,5) 2(2-6) q(2)
    by (intro exI [of _ es'] exI [of _ ms'] exI [of _ box]) auto
qed

text \<open>
  C15.  Threads of a program that share the connection: while one waits for the reply to its query, replies to others may come first, in any
  order.  It gets its own, and afterwards the thread of each other slot finds the message for it without waiting for the socket;
  of several messages for one slot, the last.
\<close>

theorem rpc_routing:
  assumes "msgs_ok (c_reply c)" "roomy malloc" "packet_ok p" "\<not> bit (c_box c) (packet_slot p)"
    "\<forall>q \<in> set ps. packet_ok q \<and> packet_slot q \<noteq> packet_slot p"
    "carries (c_inp c) (concat (map packet_bytes ps) @ packet_bytes p @ rest)"
  shows "\<exists>c'. cli_recv_msg malloc (packet_slot p) c = Some (0, c') \<and> holds_packet (c_reply c' ! packet_slot p) p \<and> carries (c_inp c') rest
    \<and> (\<forall>q. last_for_slot q ps \<longrightarrow> (\<exists>c''. cli_recv_msg malloc (packet_slot q) c' = Some (0, c'')
          \<and> holds_packet (c_reply c'' ! packet_slot q) q \<and> c_inp c'' = c_inp c'))"
proof -
  have "packet_slot p < 32" using assms(3) by (simp add: packet_ok_def)
  from recv_loop_routes [OF assms(1,2) this assms(3) refl assms(5,6)] show ?thesis
    using assms(4) by (auto simp: cli_recv_msg_def)
qed

text \<open>Two blocks for slot 3 and a reply for slot 7 arrive before the reply for slot 0; the first block for slot 3 is lost.\<close>

definition sim_receiver :: "unit rpc_cli" where
  "sim_receiver =
     (let m = \<lparr>off = 10, msize = 74, fmt = replicate 74 0\<rparr>
      in \<lparr>c_init = True, c_mask = 137, c_box = 0, c_query = replicate 32 m, c_reply = replicate 32 m, c_async_cancel = False,
          c_inp = [GOT (wire 33 3 0 [5] @ wire 12 7 0 []), WOULD_BLOCK, GOT (wire 33 3 0 [6] @ wire 31 0 0 [1, 2])], c_net = ()\<rparr>)"

theorem rpc_routing_witness:
  "\<exists>c' c''. cli_recv_msg (\<lambda>n. Some (replicate n 0)) 0 sim_receiver = Some (0, c') \<and> holds_packet (c_reply c' ! 0) (31, 0, 0, [1, 2])
    \<and> cli_recv_msg (\<lambda>n. Some (replicate n 0)) 3 c' = Some (0, c'') \<and> holds_packet (c_reply c'' ! 3) (33, 3, 0, [6])"
proof -
  let ?p = "(31, 0, 0, [1, 2]) :: rpc_packet" and ?ps = "[(33, 3, 0, [5]), (12, 7, 0, []), (33, 3, 0, [6])] :: rpc_packet list"
  have "msgs_ok (c_reply sim_receiver)" "\<not> bit (c_box sim_receiver) (packet_slot ?p)"
      "carries (c_inp sim_receiver) (concat (map packet_bytes ?ps) @ packet_bytes ?p @ [])"
    by (simp_all add: sim_receiver_def Let_def msgs_ok_def QR_COUNT_def list_all_iff wf_msg_def fmt_offs carries_def)
  moreover have "packet_ok ?p" "\<forall>q \<in> set ?ps. packet_ok q \<and> packet_slot q \<noteq> packet_slot ?p" "last_for_slot (33, 3, 0, [6]) ?ps"
    by (simp_all add: packet_ok_def packet_slot_def)
  moreover have "roomy (\<lambda>n. Some (replicate n 0))" by (simp add: roomy_def)
  ultimately show ?thesis
    using rpc_routing [of sim_receiver "\<lambda>n. Some (replicate n 0)" ?p ?ps "[]"] by (fastforce simp: packet_slot_def)
qed

end
