(* ===== verification/Rpc_Runs.thy ===== *)
theory Rpc_Runs
  imports Rpc_Client
begin

text \<open>
  The RPC client and the RPC server together: what a program sees of a device behind the two, compared with the same device used through the
  library.
\<close>

section \<open>The connection\<close>

text \<open>
  The server at the other end of the socket.  \<open>up\<close> and \<open>down\<close> are the portions in which the bytes of a query and of a reply arrive; a
  server that does not answer leaves the client waiting.
\<close>

definition srv_net ::
    "'h rpc_env \<Rightarrow> (nat \<Rightarrow> 'h rpcd \<Rightarrow> (int \<times> 'h rpcd) option) \<Rightarrow> (u8 list \<Rightarrow> recv_event list) \<Rightarrow> (u8 list \<Rightarrow> recv_event list)
       \<Rightarrow> 'h rpcd net" where
  "srv_net env streaming up down query = State (\<lambda>s.
     case serve_query env streaming s (up query) of
       Some (Some reply, s', _) \<Rightarrow> ((0, down reply), s')
     | Some (None, s', _) \<Rightarrow> ((0, [CLOSED]), s')
     | None \<Rightarrow> ((0, []), s))"

definition faithful :: "(u8 list \<Rightarrow> recv_event list) \<Rightarrow> bool" where
  "faithful link \<longleftrightarrow> (\<forall>bs. carries (link bs) bs)"

section \<open>Calls\<close>

text \<open>Calls of the library that set or get something of an open device and return just a number.\<close>

datatype dev_op =
  SET_XTAL u32 u32 | SET_FREQ u32 | SET_PPM int | SET_GAIN int | SET_IF_GAIN int int | SET_GAIN_MODE int | SET_RATE u32
| SET_TESTMODE int | SET_AGC int | SET_DIRECT int | SET_OFFSET int | RESET_BUFFER
| GET_FREQ | GET_RATE | GET_PPM | GET_TUNER | GET_GAIN | GET_DIRECT | GET_OFFSET

fun local_call :: "'h rpc_env \<Rightarrow> dev_op \<Rightarrow> ('h rtlsdr_dev, int option) state" where
  "local_call env (SET_XTAL f g) = rtlsdr_set_xtal_freq (l_usb env) (l_tn env) (l_depth env) f g"
| "local_call env (SET_FREQ f) = rtlsdr_set_center_freq (l_usb env) (l_tn env) (l_depth env) f"
| "local_call env (SET_PPM k) = rtlsdr_set_freq_correction (l_usb env) (l_tn env) (l_depth env) k"
| "local_call env (SET_GAIN k) = total (rtlsdr_set_tuner_gain (l_usb env) (l_tn env) k)"
| "local_call env (SET_IF_GAIN j k) = total (rtlsdr_set_tuner_if_gain (l_usb env) (l_tn env) j k)"
| "local_call env (SET_GAIN_MODE k) = total (rtlsdr_set_tuner_gain_mode (l_usb env) (l_tn env) k)"
| "local_call env (SET_RATE f) = rtlsdr_set_sample_rate (l_usb env) (l_tn env) (l_depth env) f"
| "local_call env (SET_TESTMODE k) = total (rtlsdr_set_testmode (l_usb env) k)"
| "local_call env (SET_AGC k) = total (rtlsdr_set_agc_mode (l_usb env) k)"
| "local_call env (SET_DIRECT k) = rtlsdr_set_direct_sampling (l_usb env) (l_tn env) (l_depth env) k"
| "local_call env (SET_OFFSET k) = rtlsdr_set_offset_tuning (l_usb env) (l_tn env) (l_depth env) k"
| "local_call env RESET_BUFFER = total (rtlsdr_reset_buffer (l_usb env))"
| "local_call env GET_FREQ = State (\<lambda>d. (Some (uint (rtlsdr_get_center_freq d)), d))"
| "local_call env GET_RATE = State (\<lambda>d. (Some (uint (rtlsdr_get_sample_rate d)), d))"
| "local_call env GET_PPM = State (\<lambda>d. (Some (rtlsdr_get_freq_correction d), d))"
| "local_call env GET_TUNER = State (\<lambda>d. (Some (rtlsdr_get_tuner_type d), d))"
| "local_call env GET_GAIN = State (\<lambda>d. (Some (rtlsdr_get_tuner_gain d), d))"
| "local_call env GET_DIRECT = State (\<lambda>d. (Some (rtlsdr_get_direct_sampling d), d))"
| "local_call env GET_OFFSET = State (\<lambda>d. (Some (rtlsdr_get_offset_tuning d), d))"

fun remote_call :: "allocator \<Rightarrow> 'n net \<Rightarrow> rpc_dev \<Rightarrow> dev_op \<Rightarrow> 'n rpc_cli \<Rightarrow> (int \<times> 'n rpc_cli) option" where
  "remote_call malloc net dev (SET_XTAL f g) = rtlsdr_rpc_set_xtal_freq malloc net dev f g"
| "remote_call malloc net dev (SET_FREQ f) = rtlsdr_rpc_set_center_freq malloc net dev f"
| "remote_call malloc net dev (SET_PPM k) = rtlsdr_rpc_set_freq_correction malloc net dev k"
| "remote_call malloc net dev (SET_GAIN k) = rtlsdr_rpc_set_tuner_gain malloc net dev k"
| "remote_call malloc net dev (SET_IF_GAIN j k) = rtlsdr_rpc_set_tuner_if_gain malloc net dev j k"
| "remote_call malloc net dev (SET_GAIN_MODE k) = rtlsdr_rpc_set_tuner_gain_mode malloc net dev k"
| "remote_call malloc net dev (SET_RATE f) = rtlsdr_rpc_set_sample_rate malloc net dev f"
| "remote_call malloc net dev (SET_TESTMODE k) = rtlsdr_rpc_set_testmode malloc net dev k"
| "remote_call malloc net dev (SET_AGC k) = rtlsdr_rpc_set_agc_mode malloc net dev k"
| "remote_call malloc net dev (SET_DIRECT k) = rtlsdr_rpc_set_direct_sampling malloc net dev k"
| "remote_call malloc net dev (SET_OFFSET k) = rtlsdr_rpc_set_offset_tuning malloc net dev k"
| "remote_call malloc net dev RESET_BUFFER = rtlsdr_rpc_reset_buffer malloc net dev"
| "remote_call malloc net dev GET_FREQ = (\<lambda>c. map_option (map_prod uint id) (rtlsdr_rpc_get_center_freq malloc net dev c))"
| "remote_call malloc net dev GET_RATE = (\<lambda>c. map_option (map_prod uint id) (rtlsdr_rpc_get_sample_rate malloc net dev c))"
| "remote_call malloc net dev GET_PPM = rtlsdr_rpc_get_freq_correction malloc net dev"
| "remote_call malloc net dev GET_TUNER = rtlsdr_rpc_get_tuner_type malloc net dev"
| "remote_call malloc net dev GET_GAIN = rtlsdr_rpc_get_tuner_gain malloc net dev"
| "remote_call malloc net dev GET_DIRECT = rtlsdr_rpc_get_direct_sampling malloc net dev"
| "remote_call malloc net dev GET_OFFSET = rtlsdr_rpc_get_offset_tuning malloc net dev"

fun int_args :: "dev_op \<Rightarrow> int list" where
  "int_args (SET_PPM k) = [k]"
| "int_args (SET_GAIN k) = [k]"
| "int_args (SET_IF_GAIN j k) = [j, k]"
| "int_args (SET_GAIN_MODE k) = [k]"
| "int_args (SET_TESTMODE k) = [k]"
| "int_args (SET_AGC k) = [k]"
| "int_args (SET_DIRECT k) = [k]"
| "int_args (SET_OFFSET k) = [k]"
| "int_args _ = []"

text \<open>A number in the return type of a call: \<open>uint32_t\<close> for two of them, \<open>int\<close> for the others.\<close>

definition c_return :: "dev_op \<Rightarrow> int \<Rightarrow> int" where
  "c_return p r = (if p = GET_FREQ \<or> p = GET_RATE then uint (word_of_int r :: u32) else sint (word_of_int r :: u32))"

text \<open>Calls one after the other, in the library and through the client.\<close>

primrec local_calls :: "'h rpc_env \<Rightarrow> dev_op list \<Rightarrow> 'h rtlsdr_dev \<Rightarrow> (int list \<times> 'h rtlsdr_dev) option" where
  "local_calls env [] d = Some ([], d)"
| "local_calls env (p # ps) d =
     (case run_state (local_call env p) d of
        (None, _) \<Rightarrow> None
      | (Some r, d) \<Rightarrow> map_option (\<lambda>(rs, d). (c_return p r # rs, d)) (local_calls env ps d))"

primrec remote_calls ::
    "allocator \<Rightarrow> 'n net \<Rightarrow> rpc_dev \<Rightarrow> dev_op list \<Rightarrow> 'n rpc_cli \<Rightarrow> (int list \<times> 'n rpc_cli) option" where
  "remote_calls malloc net dev [] c = Some ([], c)"
| "remote_calls malloc net dev (p # ps) c = do {
     (r, c) \<leftarrow> remote_call malloc net dev p c;
     (rs, c) \<leftarrow> remote_calls malloc net dev ps c;
     Some (r # rs, c) }"

section \<open>One call\<close>

text \<open>The server serves the device \<open>st\<close> to a client that holds \<open>dev\<close>, and the client is between two calls.\<close>

definition attached :: "rpc_dev \<Rightarrow> 'h stream \<Rightarrow> 'h rpcd rpc_cli \<Rightarrow> bool" where
  "attached dev st c \<longleftrightarrow> cli_ready c \<and> srv_ok (c_net c) \<and> s_dev (c_net c) = Some st \<and> s_did (c_net c) = r_index dev"

definition set_dev :: "'h rtlsdr_dev \<Rightarrow> 'h stream \<Rightarrow> 'h stream" where
  "set_dev d st = st\<lparr>x_agc := (x_agc st)\<lparr>a_dev := d\<rparr>\<rparr>"

lemma set_dev_simps [simp]:
  "a_dev (x_agc (set_dev d st)) = d" "set_dev d (set_dev d' st) = set_dev d st" "set_dev (a_dev (x_agc st)) st = st"
  by (simp_all add: set_dev_def)

lemma dev_call_run:
  assumes "run_state m (a_dev (x_agc st)) = (Some r, d)" "s_dev s = Some st"
  shows "dev_call m (s\<lparr>s_query := q, s_reply := p\<rparr>) = Some (r, s\<lparr>s_dev := Some (set_dev d st), s_query := q, s_reply := p\<rparr>)"
  using assms by (simp add: dev_call_def set_dev_def)

lemma dev_get_run:
  assumes "s_dev s = Some st"
  shows "dev_get f (s\<lparr>s_query := q, s_reply := p\<rparr>)
    = Some (f (a_dev (x_agc st)), s\<lparr>s_dev := Some st, s_query := q, s_reply := p\<rparr>)"
  using assms by (simp add: dev_get_def)

lemma item_bytes_U32s: "concat (map item_bytes (map U32 ws)) = concat (map u32_bytes ws)"
  by (induction ws) simp_all

lemma total_bytes_U32s: "total_bytes (map U32 ws) = 4 * length ws"
  by (induction ws) (simp_all add: total_bytes_def)

lemma sint_fits_int: "fits_int k \<Longrightarrow> sint (word_of_int k :: u32) = k"
  by (simp add: fits_int_def sint_sbintrunc' signed_take_bit_int_eq_self)

text \<open>The cases of \<open>handle_query\<close> for these calls.\<close>

lemma setter_ops:
  shows "handle_op env streaming RTLSDR_RPC_OP_SET_XTAL_FREQ
     = on_device 2 (\<lambda>ws. dev_call (rtlsdr_set_xtal_freq (l_usb env) (l_tn env) (l_depth env) (ws ! 0) (ws ! 1)))"
  "handle_op env streaming RTLSDR_RPC_OP_SET_CENTER_FREQ
     = on_device 1 (\<lambda>ws. dev_call (rtlsdr_set_center_freq (l_usb env) (l_tn env) (l_depth env) (ws ! 0)))"
  "handle_op env streaming RTLSDR_RPC_OP_SET_FREQ_CORRECTION
     = on_device 1 (\<lambda>ws. dev_call (rtlsdr_set_freq_correction (l_usb env) (l_tn env) (l_depth env) (sint (ws ! 0))))"
  "handle_op env streaming RTLSDR_RPC_OP_SET_TUNER_GAIN
     = on_device 1 (\<lambda>ws. dev_call (total (rtlsdr_set_tuner_gain (l_usb env) (l_tn env) (sint (ws ! 0)))))"
  "handle_op env streaming RTLSDR_RPC_OP_SET_TUNER_IF_GAIN
     = on_device 2 (\<lambda>ws. dev_call (total (rtlsdr_set_tuner_if_gain (l_usb env) (l_tn env) (sint (ws ! 0)) (sint (ws ! 1)))))"
  "handle_op env streaming RTLSDR_RPC_OP_SET_TUNER_GAIN_MODE
     = on_device 1 (\<lambda>ws. dev_call (total (rtlsdr_set_tuner_gain_mode (l_usb env) (l_tn env) (sint (ws ! 0)))))"
  "handle_op env streaming RTLSDR_RPC_OP_SET_SAMPLE_RATE
     = on_device 1 (\<lambda>ws. dev_call (rtlsdr_set_sample_rate (l_usb env) (l_tn env) (l_depth env) (ws ! 0)))"
  "handle_op env streaming RTLSDR_RPC_OP_SET_TESTMODE
     = on_device 1 (\<lambda>ws. dev_call (total (rtlsdr_set_testmode (l_usb env) (sint (ws ! 0)))))"
  "handle_op env streaming RTLSDR_RPC_OP_SET_AGC_MODE
     = on_device 1 (\<lambda>ws. dev_call (total (rtlsdr_set_agc_mode (l_usb env) (sint (ws ! 0)))))"
  "handle_op env streaming RTLSDR_RPC_OP_SET_DIRECT_SAMPLING
     = on_device 1 (\<lambda>ws. dev_call (rtlsdr_set_direct_sampling (l_usb env) (l_tn env) (l_depth env) (sint (ws ! 0))))"
  "handle_op env streaming RTLSDR_RPC_OP_SET_OFFSET_TUNING
     = on_device 1 (\<lambda>ws. dev_call (rtlsdr_set_offset_tuning (l_usb env) (l_tn env) (l_depth env) (sint (ws ! 0))))"
  "handle_op env streaming RTLSDR_RPC_OP_RESET_BUFFER
     = on_device 0 (\<lambda>_. dev_call (total (rtlsdr_reset_buffer (l_usb env))))"
  by (simp_all add: handle_op_def rpc_ops Let_def)

lemma getter_ops:
  shows "handle_op env streaming RTLSDR_RPC_OP_GET_FREQ_CORRECTION = on_device 0 (\<lambda>_. dev_get rtlsdr_get_freq_correction)"
  "handle_op env streaming RTLSDR_RPC_OP_GET_TUNER_TYPE = on_device 0 (\<lambda>_. dev_get rtlsdr_get_tuner_type)"
  "handle_op env streaming RTLSDR_RPC_OP_GET_TUNER_GAIN = on_device 0 (\<lambda>_. dev_get rtlsdr_get_tuner_gain)"
  "handle_op env streaming RTLSDR_RPC_OP_GET_DIRECT_SAMPLING = on_device 0 (\<lambda>_. dev_get rtlsdr_get_direct_sampling)"
  "handle_op env streaming RTLSDR_RPC_OP_GET_OFFSET_TUNING = on_device 0 (\<lambda>_. dev_get rtlsdr_get_offset_tuning)"
  "handle_op env streaming RTLSDR_RPC_OP_GET_CENTER_FREQ = on_device 0 (\<lambda>_. reply_value (l_malloc env) rtlsdr_get_center_freq)"
  "handle_op env streaming RTLSDR_RPC_OP_GET_SAMPLE_RATE = on_device 0 (\<lambda>_. reply_value (l_malloc env) rtlsdr_get_sample_rate)"
  by (simp_all add: handle_op_def rpc_ops Let_def)

section \<open>Calls through the connection\<close>

text \<open>
  What the two ends rely on: memory, and a connection that brings every byte.  The calls of the client are then those of the
  library.
\<close>

locale rpc_link =
  fixes malloc :: allocator and env :: "'h rpc_env" and up down :: "u8 list \<Rightarrow> recv_event list"
  assumes client_memory: "roomy malloc" and server_memory: "roomy (l_malloc env)"
    and uplink: "faithful up" and downlink: "faithful down"
begin

lemma srv_net_replies_to:
  assumes "srv_ok s" "answers_to env streaming op ws s err xs t" "op < 256" "length ws < 100"
  shows "replies (srv_net env streaming up down) s op (concat (map u32_bytes ws)) err (concat (map item_bytes xs))
    (\<lambda>s'. srv_ok s' \<and> s_dev s' = s_dev t \<and> s_did s' = s_did t)"
  unfolding replies_def sends_def
proof (intro allI impI)
  fix i e
  have len: "10 + length (concat (map u32_bytes ws)) < 2 ^ 32"
    using assms(4) by (simp add: length_concat comp_def sum_list_triv)
  obtain s' es' where "serve_query env streaming s (up (wire (of_nat op) (of_nat i) e (concat (map u32_bytes ws))))
      = Some (Some (wire (of_nat op) (of_nat i) (word_of_int err) (concat (map item_bytes xs))), s', es')"
    "s_dev s' = s_dev t" "s_did s' = s_did t" "srv_ok s'"
    using serve_query_answers [OF assms(1) server_memory assms(2,3) uplink [unfolded faithful_def, rule_format] len] by blast
  then show "\<exists>es n'. run_state (srv_net env streaming up down (wire (of_nat op) (of_nat i) e (concat (map u32_bytes ws)))) s = ((0, es), n')
      \<and> carries es (wire (of_nat op) (of_nat i) (word_of_int err) (concat (map item_bytes xs)))
      \<and> srv_ok n' \<and> s_dev n' = s_dev t \<and> s_did n' = s_did t"
    using downlink by (simp add: srv_net_def faithful_def)
qed

lemma srv_net_replies:
  assumes "srv_ok s" "answers env streaming op ws s err xs dev" "op < 256" "length ws < 100"
  shows "replies (srv_net env streaming up down) s op (concat (map u32_bytes ws)) err (concat (map item_bytes xs))
    (\<lambda>s'. srv_ok s' \<and> s_dev s' = dev \<and> s_did s' = s_did s)"
  using srv_net_replies_to [OF assms(1) assms(2) [unfolded answers_def] assms(3,4)] by simp

text \<open>A call whose result is the code of the reply.\<close>

lemma rpc_code_answers:
  assumes "attached dev st c" "answers env streaming op (r_index dev # ws) (c_net c) err [] (Some st')" "op < 256" "length ws < 99"
  shows "\<exists>c'. rpc_code malloc (srv_net env streaming up down) op (map U32 (r_index dev # ws)) c
      = Some (sint (word_of_int err :: u32), c') \<and> attached dev st' c'"
proof -
  let ?net = "srv_net env streaming up down" and ?args = "map U32 (r_index dev # ws)"
  have c: "cli_ready c" "srv_ok (c_net c)" "s_did (c_net c) = r_index dev" using assms(1) by (simp_all add: attached_def)
  have "replies ?net (c_net c) op (concat (map item_bytes ?args)) err [] (\<lambda>s'. srv_ok s' \<and> s_dev s' = Some st' \<and> s_did s' = r_index dev)"
    using srv_net_replies [OF c(2) assms(2,3)] assms(4) c(3) unfolding item_bytes_U32s by simp
  moreover have "total_bytes ?args < 2 ^ 32" using assms(4) unfolding total_bytes_U32s by simp
  moreover have "\<exists>m. read_code r = Some (sint (word_of_int err :: u32), m) \<and> wf_msg m"
    if "wf_msg r" "rtlsdr_rpc_msg_get_err r = Some (sint (word_of_int err :: u32))" for r
    using that by (simp add: read_code_def)
  ultimately have "\<exists>c'. rpc_call malloc ?net op ?args (-1) read_code c = Some (sint (word_of_int err :: u32), c') \<and> cli_ready c'
      \<and> c_init c' = c_init c \<and> (srv_ok (c_net c') \<and> s_dev (c_net c') = Some st' \<and> s_did (c_net c') = r_index dev)"
    by (intro rpc_call_exchange [OF c(1) client_memory, where payload = "[]"]) (assumption | simp)+
  then show ?thesis by (auto simp: rpc_code_def attached_def)
qed

text \<open>A call whose result is the value in the reply, 0 for an error.\<close>

lemma rpc_value_answers:
  assumes "attached dev st c"
    "answers env streaming op [r_index dev] (c_net c) (if v = 0 then -1 else 0) (if v = 0 then [] else [U32 v]) (Some st)" "op < 256"
  shows "\<exists>c'. rpc_value malloc (srv_net env streaming up down) op [U32 (r_index dev)] c = Some (v, c') \<and> attached dev st c'"
proof -
  let ?net = "srv_net env streaming up down"
  have c: "cli_ready c" "srv_ok (c_net c)" "s_did (c_net c) = r_index dev" using assms(1) by (simp_all add: attached_def)
  have net: "replies ?net (c_net c) op (concat (map item_bytes [U32 (r_index dev)])) (if v = 0 then -1 else 0)
      (if v = 0 then [] else u32_bytes v) (\<lambda>s'. srv_ok s' \<and> s_dev s' = Some st \<and> s_did s' = r_index dev)"
    using srv_net_replies [OF c(2) assms(2,3)] c(3) by (simp split: if_splits)
  have "\<exists>c'. rpc_call malloc ?net op [U32 (r_index dev)] 0 read_value c = Some (v, c') \<and> cli_ready c'
      \<and> c_init c' = c_init c \<and> (srv_ok (c_net c') \<and> s_dev (c_net c') = Some st \<and> s_did (c_net c') = r_index dev)"
  proof (rule rpc_call_exchange [OF c(1) client_memory _ _ net])
    fix r rest
    assume r: "wf_msg r" "rtlsdr_rpc_msg_get_err r = Some (sint (word_of_int (if v = 0 then -1 else 0) :: u32))"
      "unread r = (if v = 0 then [] else u32_bytes v) @ rest"
    show "\<exists>m. read_value r = Some (v, m) \<and> wf_msg m"
      using r pop_uint32_unread [OF r(1), of v rest]
      by (cases "v = 0") (auto simp: read_value_def rtlsdr_rpc_msg_pop_uint32_def)
  qed (simp_all add: total_bytes_def)
  then show ?thesis by (auto simp: rpc_value_def attached_def)
qed

text \<open>The operations that return a code, by their calls of the library.\<close>

lemma rpc_code_setter:
  assumes "handle_op env streaming op = on_device k (\<lambda>ws. dev_call (f ws))" "length ws = k" "op < 256" "k < 99"
    "attached dev st c" "run_state (f ws) (a_dev (x_agc st)) = (Some r, d)"
  shows "\<exists>c'. rpc_code malloc (srv_net env streaming up down) op (map U32 (r_index dev # ws)) c
      = Some (sint (word_of_int r :: u32), c') \<and> attached dev (set_dev d st) c'"
proof (rule rpc_code_answers [OF assms(5) _ assms(3)])
  have s: "s_dev (c_net c) = Some st" "s_did (c_net c) = r_index dev" using assms(5) by (simp_all add: attached_def)
  show "answers env streaming op (r_index dev # ws) (c_net c) r [] (Some (set_dev d st))"
    using answers_code [OF assms(1) [folded assms(2)], of "c_net c", OF _ dev_call_run [OF assms(6) s(1)]] s by simp
  show "length ws < 99" using assms(2,4) by simp
qed

lemma rpc_code_getter:
  assumes "handle_op env streaming op = on_device 0 (\<lambda>_. dev_get f)" "op < 256"
    "attached dev st c"
  shows "\<exists>c'. rpc_code malloc (srv_net env streaming up down) op [U32 (r_index dev)] c
      = Some (sint (word_of_int (f (a_dev (x_agc st))) :: u32), c') \<and> attached dev st c'"
proof -
  have s: "s_dev (c_net c) = Some st" "s_did (c_net c) = r_index dev" using assms(3) by (simp_all add: attached_def)
  have "answers env streaming op [r_index dev] (c_net c) (f (a_dev (x_agc st))) [] (Some st)"
    using answers_code [of env streaming op "[]" "\<lambda>_. dev_get f" "c_net c", OF _ _ dev_get_run [OF s(1)]] assms(1) s by simp
  then show ?thesis using rpc_code_answers [OF assms(3), of streaming op "[]"] assms(2) by simp
qed

lemma rpc_value_getter:
  assumes "handle_op env streaming op = on_device 0 (\<lambda>_. reply_value (l_malloc env) f)" "op < 256"
    "attached dev st c"
  shows "\<exists>c'. rpc_value malloc (srv_net env streaming up down) op [U32 (r_index dev)] c
      = Some (f (a_dev (x_agc st)), c') \<and> attached dev st c'"
proof (rule rpc_value_answers [OF assms(3) _ assms(2)])
  let ?v = "f (a_dev (x_agc st))" and ?xs = "\<lambda>v :: u32. if v = 0 then [] else [U32 v]"
  have s: "s_dev (c_net c) = Some st" "s_did (c_net c) = r_index dev" using assms(3) by (simp_all add: attached_def)
  have "reply_value (l_malloc env) f ((c_net c)\<lparr>s_query := q, s_reply := r\<rparr>)
      = Some (if ?v = 0 then -1 else 0, (c_net c)\<lparr>s_dev := Some st, s_query := q, s_reply := r'\<rparr>)"
    if "push_all (l_malloc env) r (?xs ?v) = Some (0, r')" for q r r'
    using that s by (auto simp: reply_value_def dev_get_def reply_with_def split: if_splits)
  then have "answers env streaming op (s_did (c_net c) # []) (c_net c) (if ?v = 0 then -1 else 0) (?xs ?v) (Some st)"
    using assms(1) server_memory s by (intro answers_items) (auto simp: total_bytes_def)
  then show "answers env streaming op [r_index dev] (c_net c) (if ?v = 0 then -1 else 0) (?xs ?v) (Some st)" using s by simp
qed

lemma remote_call_ok:
  assumes "attached dev st c" "list_all fits_int (int_args p)"
    "run_state (local_call env p) (a_dev (x_agc st)) = (Some r, d)"
  shows "\<exists>c'. remote_call malloc (srv_net env streaming up down) dev p c = Some (c_return p r, c') \<and> attached dev (set_dev d st) c'"
proof -
  note setter = rpc_code_setter [OF _ _ _ _ assms(1), where streaming = streaming and r = r and d = d]
    and getter = rpc_code_getter [OF _ _ assms(1), where streaming = streaming]
    and val = rpc_value_getter [OF _ _ assms(1), where streaming = streaming]
    and facts = rpc_ops sint_fits_int c_return_def
  show ?thesis
  proof (cases p)
    case (SET_XTAL f g)
    then show ?thesis using setter [OF setter_ops(1), of "[f, g]"] assms(2,3) by (simp add: facts rtlsdr_rpc_set_xtal_freq_def)
  next
    case (SET_FREQ f)
    then show ?thesis using setter [OF setter_ops(2), of "[f]"] assms(2,3) by (simp add: facts rtlsdr_rpc_set_center_freq_def)
  next
    case (SET_PPM k)
    then show ?thesis using setter [OF setter_ops(3), of "[word_of_int k]"] assms(2,3) by (simp add: facts rtlsdr_rpc_set_freq_correction_def)
  next
    case (SET_GAIN k)
    then show ?thesis using setter [OF setter_ops(4), of "[word_of_int k]"] assms(2,3) by (simp add: facts rtlsdr_rpc_set_tuner_gain_def)
  next
    case (SET_IF_GAIN j k)
    then show ?thesis using setter [OF setter_ops(5), of "[word_of_int j, word_of_int k]"] assms(2,3) by (simp add: facts rtlsdr_rpc_set_tuner_if_gain_def)
  next
    case (SET_GAIN_MODE k)
    then show ?thesis using setter [OF setter_ops(6), of "[word_of_int k]"] assms(2,3) by (simp add: facts rtlsdr_rpc_set_tuner_gain_mode_def)
  next
    case (SET_RATE f)
    then show ?thesis using setter [OF setter_ops(7), of "[f]"] assms(2,3) by (simp add: facts rtlsdr_rpc_set_sample_rate_def)
  next
    case (SET_TESTMODE k)
    then show ?thesis using setter [OF setter_ops(8), of "[word_of_int k]"] assms(2,3) by (simp add: facts rtlsdr_rpc_set_testmode_def)
  next
    case (SET_AGC k)
    then show ?thesis using setter [OF setter_ops(9), of "[word_of_int k]"] assms(2,3) by (simp add: facts rtlsdr_rpc_set_agc_mode_def)
  next
    case (SET_DIRECT k)
    then show ?thesis using setter [OF setter_ops(10), of "[word_of_int k]"] assms(2,3) by (simp add: facts rtlsdr_rpc_set_direct_sampling_def)
  next
    case (SET_OFFSET k)
    then show ?thesis using setter [OF setter_ops(11), of "[word_of_int k]"] assms(2,3) by (simp add: facts rtlsdr_rpc_set_offset_tuning_def)
  next
    case RESET_BUFFER
    then show ?thesis using setter [OF setter_ops(12), of "[]"] assms(2,3) by (simp add: facts rtlsdr_rpc_reset_buffer_def)
  next
    case GET_PPM
    then show ?thesis using getter [OF getter_ops(1)] assms(3) by (auto simp: facts rtlsdr_rpc_get_freq_correction_def)
  next
    case GET_TUNER
    then show ?thesis using getter [OF getter_ops(2)] assms(3) by (auto simp: facts rtlsdr_rpc_get_tuner_type_def)
  next
    case GET_GAIN
    then show ?thesis using getter [OF getter_ops(3)] assms(3) by (auto simp: facts rtlsdr_rpc_get_tuner_gain_def)
  next
    case GET_DIRECT
    then show ?thesis using getter [OF getter_ops(4)] assms(3) by (auto simp: facts rtlsdr_rpc_get_direct_sampling_def)
  next
    case GET_OFFSET
    then show ?thesis using getter [OF getter_ops(5)] assms(3) by (auto simp: facts rtlsdr_rpc_get_offset_tuning_def)
  next
    case GET_FREQ
    then show ?thesis using val [OF getter_ops(6)] assms(3) by (auto simp: facts rtlsdr_rpc_get_center_freq_def)
  next
    case GET_RATE
    then show ?thesis using val [OF getter_ops(7)] assms(3) by (auto simp: facts rtlsdr_rpc_get_sample_rate_def)
  qed
qed

text \<open>Calls one after the other.\<close>

lemma remote_calls_ok:
  assumes "attached dev st c" "\<forall>p \<in> set ps. list_all fits_int (int_args p)" "local_calls env ps (a_dev (x_agc st)) = Some (rs, d)"
  shows "\<exists>c'. remote_calls malloc (srv_net env streaming up down) dev ps c = Some (rs, c') \<and> attached dev (set_dev d st) c'"
  using assms
proof (induction ps arbitrary: c st rs)
  case (Cons p ps)
  obtain r d1 rs' where r: "run_state (local_call env p) (a_dev (x_agc st)) = (Some r, d1)" "local_calls env ps d1 = Some (rs', d)"
      "rs = c_return p r # rs'"
    using Cons.prems(3) by (auto split: prod.splits option.splits)
  obtain c1 where c1: "remote_call malloc (srv_net env streaming up down) dev p c = Some (c_return p r, c1)"
      "attached dev (set_dev d1 st) c1"
    using remote_call_ok [OF Cons.prems(1) _ r(1)] Cons.prems(2) by auto
  then show ?case using Cons.IH [OF c1(2), of rs'] Cons.prems(2) r by auto
qed auto

end

section \<open>Remote is local\<close>

text \<open>
  C9.  A device behind client and server is the device itself, for the calls of \<open>dev_op\<close> (setting the crystals, centre frequency, frequency correction, tuner gain, IF gain,
  gain mode, sample rate, test mode, AGC, direct sampling and offset tuning, resetting the buffer; getting the centre frequency, sample
  rate, frequency correction, tuner type, tuner gain, direct sampling and offset tuning; the calls for the bandwidth, which
  does not behave alike, and for getting the crystal frequencies, the gain table, the EEPROM and the strings are not among them): any sequence of these calls returns through the client
  the same numbers, in the same order, and leaves the device in the same state, as the same sequence in the library; in
  whatever portions the socket delivers the messages, every call returns and no buffer is left.  The calls of the library
  return, arguments of type \<open>int\<close> fit an \<open>int\<close>, and both ends have memory.
\<close>

theorem rpc_transparent:
  assumes "attached dev st c" "roomy malloc" "roomy (l_malloc env)" "faithful up" "faithful down"
    "\<forall>p \<in> set ps. list_all fits_int (int_args p)" "local_calls env ps (a_dev (x_agc st)) = Some (rs, d)"
  shows "\<exists>c'. remote_calls malloc (srv_net env streaming up down) dev ps c = Some (rs, c') \<and> attached dev (set_dev d st) c'"
  using rpc_link.remote_calls_ok [OF rpc_link.intro [OF assms(2-5)] assms(1,6,7)] .

text \<open>For the witnesses: a client with two slots in use, a server with the simulated dongle, and a socket that brings a byte at a time.\<close>

definition sim_msg :: rpc_msg where
  "sim_msg = \<lparr>off = 10, msize = 74, fmt = replicate 74 0\<rparr>"

definition sim_client :: "sim_hw rpcd rpc_cli" where
  "sim_client =
     \<lparr>c_init = True, c_mask = 5, c_box = 0, c_query = replicate 32 sim_msg, c_reply = replicate 32 sim_msg, c_async_cancel = False,
      c_inp = [], c_net = \<lparr>s_dev = Some (new_stream sim_dev0), s_pos = 0, s_did = 1, s_query = sim_msg, s_reply = sim_msg\<rparr>\<rparr>"

definition sim_env :: "sim_hw rpc_env" where
  "sim_env = \<lparr>l_usb = sim_usb, l_tn = sim_tuners, l_junk = [0, 0], l_depth = 3, l_beyond = (\<lambda>_. (0, 0)), l_str = [], l_bus = sim_bus,
     l_malloc = (\<lambda>n. Some (replicate n 0))\<rparr>"

definition bytewise :: "u8 list \<Rightarrow> recv_event list" where
  "bytewise bs = concat (map (\<lambda>b. [WOULD_BLOCK, GOT [b]]) bs)"

lemma faithful_bytewise: "faithful bytewise"
proof -
  have "carries (bytewise bs) bs" for bs
    by (induction bs) (auto simp: bytewise_def carries_def)
  then show ?thesis by (simp add: faithful_def)
qed

lemma sim_attached: "attached \<lparr>r_index = 1, r_gain_count = 32\<rparr> (new_stream sim_dev0) sim_client"
proof -
  have "\<exists>i < 32. \<not> bit (5 :: u32) i" by (rule exI [of _ 1]) simp
  moreover have m: "wf_msg sim_msg" by (simp add: sim_msg_def wf_msg_def fmt_offs)
  ultimately show ?thesis
    by (simp add: attached_def cli_ready_def sim_client_def msgs_ok_def QR_COUNT_def srv_ok_def list_all_iff)
qed

lemma sim_roomy: "roomy (\<lambda>n. Some (replicate n 0))" "roomy (l_malloc sim_env)"
  by (simp_all add: roomy_def sim_env_def)

interpretation sim_link: rpc_link "\<lambda>n. Some (replicate n 0)" sim_env bytewise bytewise
  by unfold_locales (simp_all only: sim_roomy faithful_bytewise)

lemma run_total: "run_state (total m) d = (Some (fst (run_state m d)), snd (run_state m d))"
  by (simp add: total_def split_beta)

theorem rpc_transparent_witness:
  "\<exists>c'. remote_calls (\<lambda>n. Some (replicate n 0)) (srv_net sim_env (\<lambda>_ _. None) bytewise bytewise) \<lparr>r_index = 1, r_gain_count = 32\<rparr>
     [SET_TESTMODE 1, GET_TUNER, SET_PPM 0, GET_FREQ] sim_client = Some ([0, 2, -2, 0], c')"
proof -
  have "\<exists>d. local_calls sim_env [SET_TESTMODE 1, GET_TUNER, SET_PPM 0, GET_FREQ] (a_dev (x_agc (new_stream sim_dev0))) = Some ([0, 2, -2, 0], d)"
    by (simp add: sim_env_def new_stream_def run_total rtlsdr_set_testmode_def sim_usb_def sim_ctrl_out_def index_values val_bytes_def
        rtlsdr_set_freq_correction_def rtlsdr_get_tuner_type_def tuner_code_def rtlsdr_get_center_freq_def c_return_def sim_dev_fields)
  then obtain d where d: "local_calls sim_env [SET_TESTMODE 1, GET_TUNER, SET_PPM 0, GET_FREQ] (a_dev (x_agc (new_stream sim_dev0)))
      = Some ([0, 2, -2, 0], d)" by blast
  have "\<forall>p \<in> set [SET_TESTMODE 1, GET_TUNER, SET_PPM 0, GET_FREQ]. list_all fits_int (int_args p)" by (simp add: fits_int_def)
  from rpc_transparent [OF sim_attached sim_roomy faithful_bytewise faithful_bytewise this d] show ?thesis by blast
qed

section \<open>Opening\<close>

lemma open_answers:
  assumes "s_dev s = None"
    "rtlsdr_open (l_usb env) (l_tn env) (l_junk env) (l_depth env) (l_beyond env) (l_bus env) w = Some (Inr st)"
  shows "answers_to env streaming RTLSDR_RPC_OP_OPEN [w] s 0 []
    (s\<lparr>s_did := w, s_dev := Some st, s_pos := the (open_loop w (b_devices (l_bus env)) 0 0)\<rparr>)"
  unfolding answers_to_def
proof (intro allI impI)
  fix q r rest
  assume a: "wf_msg q \<and> wf_msg r \<and> off r = fmt_data_off \<and> unread q = concat (map u32_bytes [w]) @ rest"
  then obtain q' where q': "pop_u32s (length [w]) q = Some ((0, [w]), q')" "wf_msg q'" "fmt q' = fmt q"
    using pop_u32s_unread [of q "[w]" rest] by blast
  have "handle_op env streaming RTLSDR_RPC_OP_OPEN = handle_open env" by (simp add: handle_op_def rpc_ops Let_def)
  then show "\<exists>q' r'. handle_op env streaming RTLSDR_RPC_OP_OPEN (s\<lparr>s_query := q, s_reply := r\<rparr>)
      = Some (0, s\<lparr>s_did := w, s_dev := Some st, s_pos := the (open_loop w (b_devices (l_bus env)) 0 0), s_query := q', s_reply := r'\<rparr>)
      \<and> wf_msg q' \<and> fmt q' = fmt q \<and> wf_msg r' \<and> written r' = concat (map item_bytes [])"
    using assms a q' by (intro exI [of _ q'] exI [of _ r])
      (simp add: handle_open_def with_args_def written_def del: pop_u32s.simps)
qed

text \<open>Opening a device through the client, connecting first, gives what the theorems above start from.\<close>

theorem rpc_open_attaches:
  assumes "\<not> c_init c" "length (c_query c) = QR_COUNT" "length (c_reply c) = QR_COUNT" "carries (c_inp c) []" "srv_ok (c_net c)"
    "s_dev (c_net c) = None" "roomy malloc" "roomy (l_malloc env)" "faithful up" "faithful down"
    "rtlsdr_open (l_usb env) (l_tn env) (l_junk env) (l_depth env) (l_beyond env) (l_bus env) (word_of_int (atoi var)) = Some (Inr st)"
  shows "\<exists>dev c'. rtlsdr_rpc_open malloc (srv_net env streaming up down) True (Some var) True index c = Some ((0, Some dev), c')
    \<and> r_index dev = word_of_int (atoi var) \<and> attached dev st c'"
proof -
  let ?net = "srv_net env streaming up down" and ?w = "word_of_int (atoi var) :: u32"
  obtain c1 where c1: "init_cli malloc True c = (0, c1)" "cli_ready c1" "c_net c1 = c_net c"
    using init_cli_ready [OF assms(7,1-4)] by blast
  have "replies ?net (c_net c1) RTLSDR_RPC_OP_OPEN (concat (map item_bytes [U32 ?w])) 0 []
      (\<lambda>s'. srv_ok s' \<and> s_dev s' = Some st \<and> s_did s' = ?w)"
    using rpc_link.srv_net_replies_to [OF rpc_link.intro [OF assms(7-10)] assms(5) open_answers [OF assms(6,11)]] c1(3)
    by (simp add: rpc_ops)
  from rpc_call_exchange [OF c1(2) assms(7) _ _ this, where k = read_code and a = 0 and dflt = "-1"]
  obtain c2 where "rpc_code malloc ?net RTLSDR_RPC_OP_OPEN [U32 ?w] c1 = Some (0, c2)" "cli_ready c2"
      "srv_ok (c_net c2)" "s_dev (c_net c2) = Some st" "s_did (c_net c2) = ?w"
    by (auto simp: read_code_def rpc_code_def total_bytes_def)
  then show ?thesis using c1(1) by (simp add: rtlsdr_rpc_open_def attached_def)
qed

section \<open>The bandwidth\<close>

text \<open>
  C32.  The one setting the client gets wrong: \<open>rtlsdr_rpc_set_and_get_tuner_bandwidth\<close> returns -1, the code of a failure, although the
  server has set the bandwidth, told the client so, and the applied bandwidth is stored where the caller wants it.
\<close>

theorem rpc_bandwidth:
  assumes "attached dev st c" "roomy malloc" "roomy (l_malloc env)" "faithful up" "faithful down" "fits_int apply_bw"
    "run_state (rtlsdr_set_and_get_tuner_bandwidth (l_usb env) (l_tn env) bw apply_bw) (a_dev (x_agc st)) = ((0, applied), d)"
  shows "\<exists>c'. rtlsdr_rpc_set_and_get_tuner_bandwidth malloc (srv_net env streaming up down) dev bw apply_bw c
      = Some ((-1, Some applied), c') \<and> attached dev (set_dev d st) c'"
proof -
  let ?net = "srv_net env streaming up down" and ?ws = "[bw, word_of_int apply_bw :: u32]"
  let ?args = "[U32 (r_index dev), U32 bw, I32 apply_bw]" and ?op = RTLSDR_RPC_OP_SET_GET_TUNER_BW
  let ?P = "\<lambda>s'. srv_ok s' \<and> s_dev s' = Some (set_dev d st) \<and> s_did s' = r_index dev"
  have c: "cli_ready c" "srv_ok (c_net c)" "s_did (c_net c) = r_index dev" "s_dev (c_net c) = Some st"
    using assms(1) by (simp_all add: attached_def)
  have run: "run_state (total (rtlsdr_set_and_get_tuner_bandwidth (l_usb env) (l_tn env) bw apply_bw)) (a_dev (x_agc st))
      = (Some (0, applied), d)"
    using assms(7) by (simp add: run_total)
  have "answers env streaming ?op (s_did (c_net c) # ?ws) (c_net c) 0 [U32 applied] (Some (set_dev d st))"
  proof (rule answers_items)
    show "handle_op env streaming ?op = on_device (length ?ws) (\<lambda>ws s. do {
       ((err, applied_bw), s) \<leftarrow>
         dev_call (total (rtlsdr_set_and_get_tuner_bandwidth (l_usb env) (l_tn env) (ws ! 0) (sint (ws ! 1)))) s;
       if err \<noteq> 0 then Some (err, s)
       else do { (_, s) \<leftarrow> reply_with (l_malloc env) [U32 applied_bw] s; Some (0, s) } })"
      by (simp add: handle_op_def rpc_ops handle_bandwidth_def Let_def numeral_2_eq_2)
  qed (use c(4) assms(3) dev_call_run [OF run c(4)] sint_fits_int [OF assms(6)] in
      \<open>simp_all add: reply_with_def total_bytes_def\<close>)
  then have net: "replies ?net (c_net c) ?op (concat (map item_bytes ?args)) 0 (u32_bytes applied) ?P"
    using rpc_link.srv_net_replies [OF rpc_link.intro [OF assms(2-5)] c(2), of streaming ?op "r_index dev # ?ws" 0 "[U32 applied]"] c(3)
    by (simp add: rpc_ops)
  have "\<exists>c'. rtlsdr_rpc_set_and_get_tuner_bandwidth malloc ?net dev bw apply_bw c = Some ((-1, Some applied), c')
      \<and> cli_ready c' \<and> c_init c' = c_init c \<and> ?P (c_net c')"
    unfolding rtlsdr_rpc_set_and_get_tuner_bandwidth_def
  proof (rule rpc_call_exchange [OF c(1) assms(2) _ _ net])
    fix r rest
    assume r: "wf_msg r" "rtlsdr_rpc_msg_get_err r = Some (sint (word_of_int 0 :: u32))" "unread r = u32_bytes applied @ rest"
    then show "\<exists>m. Option.bind (rtlsdr_rpc_msg_get_err r) (\<lambda>err. if err \<noteq> 0 then Some ((-1, None), r)
        else Option.bind (rtlsdr_rpc_msg_pop_uint32 r) (\<lambda>((e, w), r). Some ((-1, if e \<noteq> 0 then None else Some w), r)))
        = Some ((-1, Some applied), m) \<and> wf_msg m"
      using pop_uint32_unread [OF r(1), of applied rest] by (auto simp: rtlsdr_rpc_msg_pop_uint32_def)
  qed (simp_all add: total_bytes_def)
  then show ?thesis by (auto simp: attached_def)
qed

theorem rpc_bandwidth_witness:
  "\<exists>c' applied. rtlsdr_rpc_set_and_get_tuner_bandwidth (\<lambda>n. Some (replicate n 0)) (srv_net sim_env (\<lambda>_ _. None) bytewise bytewise)
     \<lparr>r_index = 1, r_gain_count = 32\<rparr> 6000000 1 sim_client = Some ((-1, Some applied), c')"
proof -
  obtain applied d where "run_state (rtlsdr_set_and_get_tuner_bandwidth (l_usb sim_env) (l_tn sim_env) 6000000 1)
      (a_dev (x_agc (new_stream sim_dev0))) = ((0, applied), d)"
    by (simp add: sim_env_def new_stream_def rtlsdr_set_and_get_tuner_bandwidth_def sim_tuners_def sim_dev_fields
        with_repeater_def reactivate_softagc_def)
  from rpc_bandwidth [OF sim_attached sim_roomy faithful_bytewise faithful_bytewise _ this] show ?thesis
    by (fastforce simp: fits_int_def)
qed

section \<open>The gains\<close>

lemma gains_bytes:
  "length (snd (rtlsdr_get_tuner_gains d)) = 4 * nat (fst (rtlsdr_get_tuner_gains d))" "fst (rtlsdr_get_tuner_gains d) \<in> {1..29}"
  by (cases "d_tuner_type d"; simp add: rtlsdr_get_tuner_gains_def get_tuner_gains_def)+

text \<open>The handler of the gains, asked for their number, and for the gains with room for all of them.\<close>

lemma gains_op: "handle_op env streaming RTLSDR_RPC_OP_GET_TUNER_GAINS = on_device (length [v, w :: u32]) (gains_case env)"
  by (simp add: handle_op_def rpc_ops Let_def handle_gains_def numeral_2_eq_2)

lemma gains_count_answers:
  assumes "s_dev s = Some st"
  shows "answers env streaming RTLSDR_RPC_OP_GET_TUNER_GAINS [s_did s, 1, w] s (fst (rtlsdr_get_tuner_gains (a_dev (x_agc st)))) [] (Some st)"
  by (rule answers_code [OF gains_op]) (use assms in \<open>simp_all add: gains_case_def dev_get_run\<close>)

lemma gains_reply:
  assumes "wf_msg r" "off r = fmt_data_off" "roomy malloc" "length b < 2 ^ 31"
  shows "\<exists>r1 f r2. rtlsdr_rpc_msg_realloc malloc r (off r + 4 + length b) = Some (0, r1) \<and> mem_write (fmt r1) (off r1 + 4) b = Some f
    \<and> push_uint32_safe (r1\<lparr>fmt := f\<rparr>) (of_nat (length b)) = Some r2 \<and> wf_msg (rtlsdr_rpc_msg_skip_safe r2 (length b))
    \<and> written (rtlsdr_rpc_msg_skip_safe r2 (length b)) = u32_bytes (of_nat (length b)) @ b"
proof -
  obtain r1 where r1: "rtlsdr_rpc_msg_realloc malloc r (off r + 4 + length b) = Some (0, r1)" "wf_msg r1" "off r1 = 10"
      "14 + length b \<le> msize r1"
    using realloc_roomy [OF assms(1,3), of "off r + 4 + length b"] assms(2,4) by (auto simp: fmt_offs)
  note bd = wf_msg_bounds [OF r1(2)]
  define f where "f = take 14 (fmt r1) @ b @ drop (14 + length b) (fmt r1)"
  define r2 where "r2 = r1\<lparr>fmt := take 10 f @ u32_bytes (of_nat (length b)) @ drop 14 f, off := 14\<rparr>"
  have len: "length f = msize r1" using r1(4) bd by (simp add: f_def)
  have "mem_write (fmt r1) (off r1 + 4) b = Some f" using r1(3,4) bd by (simp add: f_def)
  moreover have "push_uint32_safe (r1\<lparr>fmt := f\<rparr>) (of_nat (length b)) = Some r2"
    using r1(3,4) len by (simp add: push_uint32_safe_def push_mem_safe_def r2_def size_wrap_def)
  moreover have "size_wrap (14 + length b) = 14 + length b" using assms(4) by (simp add: size_wrap_def)
  then have "wf_msg (rtlsdr_rpc_msg_skip_safe r2 (length b))"
      "written (rtlsdr_rpc_msg_skip_safe r2 (length b)) = u32_bytes (of_nat (length b)) @ b"
    using r1(4) bd len by (simp_all add: rtlsdr_rpc_msg_skip_safe_def r2_def wf_msg_def written_def fmt_offs f_def)
  ultimately show ?thesis using r1(1) by blast
qed

lemma gains_list_answers:
  assumes "s_dev s = Some st" "roomy (l_malloc env)" "rtlsdr_get_tuner_gains (a_dev (x_agc st)) = (n, b)"
  shows "answers env streaming RTLSDR_RPC_OP_GET_TUNER_GAINS [s_did s, 0, of_nat (length b)] s n [Buf b] (Some st)"
  unfolding answers_def answers_to_def
proof (intro allI impI)
  fix q r rest
  let ?ws = "[0, of_nat (length b)] :: u32 list"
  assume a: "wf_msg q \<and> wf_msg r \<and> off r = fmt_data_off \<and> unread q = concat (map u32_bytes [s_did s, 0, of_nat (length b)]) @ rest"
  have n: "n > 0" "length b \<le> 116" using gains_bytes [of "a_dev (x_agc st)"] assms(3) by auto
  have w: "unat (of_nat (length b) :: u32) = length b" using n(2) by (simp add: unat_of_nat)
  obtain r1 f r2 where r: "rtlsdr_rpc_msg_realloc (l_malloc env) r (off r + 4 + length b) = Some (0, r1)"
      "mem_write (fmt r1) (off r1 + 4) b = Some f" "push_uint32_safe (r1\<lparr>fmt := f\<rparr>) (of_nat (length b)) = Some r2"
      "wf_msg (rtlsdr_rpc_msg_skip_safe r2 (length b))"
      "written (rtlsdr_rpc_msg_skip_safe r2 (length b)) = u32_bytes (of_nat (length b)) @ b"
    using gains_reply [of r "l_malloc env" b] a assms(2) n(2) by auto
  obtain q' where q': "on_device (length ?ws) (gains_case env) (s\<lparr>s_query := q, s_reply := r\<rparr>)
      = gains_case env ?ws (s\<lparr>s_query := q', s_reply := r\<rparr>)" "wf_msg q'" "fmt q' = fmt q"
    using on_device_args [of q s ?ws rest "gains_case env" r] a assms(1) by blast
  moreover have "gains_case env ?ws (s\<lparr>s_query := q', s_reply := r\<rparr>)
      = Some (n, s\<lparr>s_dev := Some st, s_query := q', s_reply := rtlsdr_rpc_msg_skip_safe r2 (length b)\<rparr>)"
    using assms(1,3) r(1-3) n(1) w by (simp add: gains_case_def dev_get_run)
  ultimately show "\<exists>q' r'. handle_op env streaming RTLSDR_RPC_OP_GET_TUNER_GAINS (s\<lparr>s_query := q, s_reply := r\<rparr>)
      = Some (n, s\<lparr>s_dev := Some st, s_query := q', s_reply := r'\<rparr>)
      \<and> wf_msg q' \<and> fmt q' = fmt q \<and> wf_msg r' \<and> written r' = concat (map item_bytes [Buf b])"
    using gains_op [of env streaming 0 "of_nat (length b)"] r(4,5) by (intro exI [of _ q'] exI [of _ "rtlsdr_rpc_msg_skip_safe r2 (length b)"]) simp
qed

lemma pop_buf_unread:
  assumes "wf_msg m" "length b < 2 ^ 32" "unread m = u32_bytes (of_nat (length b)) @ b @ rest"
  shows "\<exists>m'. rtlsdr_rpc_msg_pop_buf m = Some ((0, b), m') \<and> wf_msg m'"
  using pop_like_unread [OF assms(1), of "Buf b" rest] assms(2,3) by auto

text \<open>
  C31.  The gains through the client, asked for as the library documents it, first without and then with a buffer: the first call
  returns their number, the second the number and exactly the gains, so a buffer for that many is large enough.
\<close>

theorem rpc_gains:
  assumes "attached dev st c" "roomy malloc" "roomy (l_malloc env)" "faithful up" "faithful down"
    "rtlsdr_get_tuner_gains (a_dev (x_agc st)) = (n, b)"
  shows "\<exists>dev' c1 c2. rtlsdr_rpc_get_tuner_gains malloc (srv_net env streaming up down) dev True c = Some ((n, [], dev'), c1)
    \<and> rtlsdr_rpc_get_tuner_gains malloc (srv_net env streaming up down) dev' False c1 = Some ((n, b, dev'), c2)
    \<and> attached dev' st c2 \<and> r_index dev' = r_index dev"
proof -
  let ?net = "srv_net env streaming up down" and ?op = RTLSDR_RPC_OP_GET_TUNER_GAINS
  let ?P = "\<lambda>s'. srv_ok s' \<and> s_dev s' = Some st \<and> s_did s' = r_index dev"
  define dev' where "dev' = dev\<lparr>r_gain_count := nat n\<rparr>"
  have n: "n \<in> {1..29}" "length b = 4 * nat n" using gains_bytes [of "a_dev (x_agc st)"] assms(6) by auto
  then have len: "length b \<le> 116" by auto
  have idx: "r_index dev' = r_index dev" "r_gain_count dev' = nat n" by (simp_all add: dev'_def)
  have sn: "sint (word_of_int n :: u32) = n" using n(1) by (intro sint_fits_int) (simp add: fits_int_def)
  have c: "cli_ready c" "srv_ok (c_net c)" "s_did (c_net c) = r_index dev" "s_dev (c_net c) = Some st"
    using assms(1) by (simp_all add: attached_def)
  have "answers env streaming ?op [r_index dev, 1, w] (c_net c) n [] (Some st)" for w
    using gains_count_answers [OF c(4), of env streaming w] c(3) assms(6) by simp
  then have net1: "replies ?net (c_net c) ?op (concat (map item_bytes [U32 (r_index dev), U32 1, U32 w])) n [] ?P" for w
    using rpc_link.srv_net_replies [OF rpc_link.intro [OF assms(2-5)] c(2)] c(3) by (fastforce simp: rpc_ops)
  have "\<exists>c1. rtlsdr_rpc_get_tuner_gains malloc ?net dev True c = Some ((n, [], dev'), c1)
      \<and> cli_ready c1 \<and> c_init c1 = c_init c \<and> ?P (c_net c1)"
    unfolding rtlsdr_rpc_get_tuner_gains_def if_True
    by (rule rpc_call_exchange [OF c(1) assms(2) _ _ net1]) (use sn n in \<open>simp_all add: total_bytes_def dev'_def\<close>)
  then obtain c1 where c1: "rtlsdr_rpc_get_tuner_gains malloc ?net dev True c = Some ((n, [], dev'), c1)" "cli_ready c1" "?P (c_net c1)"
    by blast
  have "answers env streaming ?op [r_index dev, 0, of_nat (nat n * 4)] (c_net c1) n [Buf b] (Some st)"
    using gains_list_answers [of "c_net c1", OF _ assms(3,6)] c1(3) n(2) by (simp add: mult.commute)
  then have net2: "replies ?net (c_net c1) ?op (concat (map item_bytes [U32 (r_index dev), U32 0, U32 (of_nat (nat n * 4))])) n
      (item_bytes (Buf b)) ?P"
    using rpc_link.srv_net_replies [OF rpc_link.intro [OF assms(2-5)], of "c_net c1"] c1(3) by (fastforce simp: rpc_ops)
  have "\<exists>c2. rtlsdr_rpc_get_tuner_gains malloc ?net dev' False c1 = Some ((n, b, dev'), c2)
      \<and> cli_ready c2 \<and> c_init c2 = c_init c1 \<and> ?P (c_net c2)"
    unfolding rtlsdr_rpc_get_tuner_gains_def if_False idx
  proof (rule rpc_call_exchange [OF c1(2) assms(2) _ _ net2])
    fix r rest
    assume r: "wf_msg r" "rtlsdr_rpc_msg_get_err r = Some (sint (word_of_int n :: u32))" "unread r = item_bytes (Buf b) @ rest"
    then obtain m where "rtlsdr_rpc_msg_pop_buf r = Some ((0, b), m)" "wf_msg m"
      using pop_buf_unread [of r b rest] len by auto
    then show "\<exists>m. Option.bind (rtlsdr_rpc_msg_get_err r) (\<lambda>err. if err \<le> 0 then Some ((err, [], dev'), r)
        else let dev = dev'\<lparr>r_gain_count := nat err\<rparr>
             in Option.bind (rtlsdr_rpc_msg_pop_buf r) (\<lambda>((e, b), r). Some ((if e \<noteq> 0 then 0 else err, b, dev), r)))
        = Some ((n, b, dev'), m) \<and> wf_msg m"
      using r(2) sn n(1) by (simp add: dev'_def)
  qed (use len in \<open>simp_all add: total_bytes_def\<close>)
  then show ?thesis using c1 by (auto simp: attached_def dev'_def)
qed

theorem rpc_gains_witness:
  "\<exists>dev' c1 c2. rtlsdr_rpc_get_tuner_gains (\<lambda>n. Some (replicate n 0)) (srv_net sim_env (\<lambda>_ _. None) bytewise bytewise)
     \<lparr>r_index = 1, r_gain_count = 32\<rparr> True sim_client = Some ((5, [], dev'), c1)
   \<and> rtlsdr_rpc_get_tuner_gains (\<lambda>n. Some (replicate n 0)) (srv_net sim_env (\<lambda>_ _. None) bytewise bytewise) dev' False c1
     = Some ((5, concat (map u32_bytes [-99, -40, 71, 179, 192]), dev'), c2)"
proof -
  have "rtlsdr_get_tuner_gains (a_dev (x_agc (new_stream sim_dev0))) = (5, concat (map u32_bytes [-99, -40, 71, 179, 192]))"
    by (simp add: new_stream_def rtlsdr_get_tuner_gains_def get_tuner_gains_def sim_dev_fields)
  from rpc_gains [OF sim_attached sim_roomy faithful_bytewise faithful_bytewise this] show ?thesis by blast
qed

text \<open>
  C33.  The size the client names in its query is not checked against the number of gains: a query for the gains of a device with more of them than
  the size allows, and a reply buffer between the two sizes, make the server write behind its buffer, whatever the rest of its state.
\<close>

theorem rpc_gains_overflow:
  assumes "srv_ok s" "roomy (l_malloc env)" "s_dev s = Some st" "rtlsdr_get_tuner_gains (a_dev (x_agc st)) = (n, b)"
    "14 + unat w \<le> msize (s_reply s)" "msize (s_reply s) < 14 + length b"
    "carries es (wire (of_nat RTLSDR_RPC_OP_GET_TUNER_GAINS) i e (concat (map u32_bytes [s_did s, 0, w])))"
  shows "serve_query env streaming s es = None"
proof -
  let ?p = "concat (map u32_bytes [s_did s, 0, w])" and ?q0 = "rtlsdr_rpc_msg_reset (s_query s)" and ?r = "rtlsdr_rpc_msg_reset (s_reply s)"
  have ok: "wf_msg ?q0" "off ?q0 = fmt_data_off" using assms(1) by (simp_all add: srv_ok_def wf_reset) (simp add: rtlsdr_rpc_msg_reset_def)
  obtain q es' where q: "srv_recv_msg (l_malloc env) ?q0 es = Some (0, q, es')" "wf_msg q" "off q = fmt_data_off"
      "take (10 + length ?p) (fmt q) = wire (of_nat RTLSDR_RPC_OP_GET_TUNER_GAINS) i e ?p"
    using srv_recv_msg_wire [OF ok assms(2), of es "of_nat RTLSDR_RPC_OP_GET_TUNER_GAINS" i e ?p "[]"] assms(7) by auto
  note f = wire_fields [OF q(2,4)]
  obtain rest where "unread q = ?p @ rest" using f(4) q(3) by (auto simp: unread_def)
  then obtain q' where "on_device (length [0, w]) (gains_case env) (s\<lparr>s_query := q, s_reply := ?r\<rparr>)
      = gains_case env [0, w] (s\<lparr>s_query := q', s_reply := ?r\<rparr>)"
    using on_device_args [of q s "[0, w]" rest "gains_case env" ?r] q(2) assms(3) by auto
  moreover have "gains_case env [0, w] (s\<lparr>s_query := q', s_reply := ?r\<rparr>) = None"
    using assms(1,3-6) by (simp add: gains_case_def dev_get_def rtlsdr_rpc_msg_reset_def fmt_offs rtlsdr_rpc_msg_realloc_def
        mem_write_def srv_ok_def wf_msg_def)
  ultimately have "handle_query env streaming (s\<lparr>s_query := q\<rparr>) = None"
    using f(1) gains_op [of env streaming 0 w] by (simp add: handle_query_def rpc_ops)
  then show ?thesis using q(1) by (simp add: serve_query_def)
qed

text \<open>A server whose messages are as \<open>init_rpcd\<close> leaves them, with an R820T, and a query that names room for one gain.\<close>

theorem rpc_gains_overflow_witness:
  "serve_query sim_env (\<lambda>_ _. None)
     \<lparr>s_dev = Some (new_stream (sim_dev0\<lparr>d_tuner_type := RTLSDR_TUNER_R820T\<rparr>)), s_pos = 0, s_did = 1, s_query = sim_msg, s_reply = sim_msg\<rparr>
     (bytewise (wire (of_nat RTLSDR_RPC_OP_GET_TUNER_GAINS) 0 0 (concat (map u32_bytes [1, 0, 4])))) = None"
proof -
  let ?s = "\<lparr>s_dev = Some (new_stream (sim_dev0\<lparr>d_tuner_type := RTLSDR_TUNER_R820T\<rparr>)), s_pos = 0, s_did = 1, s_query = sim_msg, s_reply = sim_msg\<rparr>"
  let ?st = "new_stream (sim_dev0\<lparr>d_tuner_type := RTLSDR_TUNER_R820T\<rparr>)"
  have ok: "srv_ok ?s" by (simp add: srv_ok_def sim_msg_def wf_msg_def fmt_offs)
  have "fst (rtlsdr_get_tuner_gains (a_dev (x_agc ?st))) = 29"
    by (simp add: new_stream_def rtlsdr_get_tuner_gains_def get_tuner_gains_def)
  then have "length (snd (rtlsdr_get_tuner_gains (a_dev (x_agc ?st)))) = 116"
    using gains_bytes(1) [of "a_dev (x_agc ?st)"] by simp
  then show ?thesis
    using rpc_gains_overflow [OF ok sim_roomy(2), of ?st _ _ 4 _ 0 0] faithful_bytewise
    by (simp add: sim_msg_def faithful_def prod_eq_iff)
qed

section \<open>Samples over the connection\<close>

text \<open>
  The callback of the server for a sequence of blocks, each with what \<open>select\<close> says of the socket meanwhile: the bytes sent, and the
  device at the end.
\<close>

primrec streamed :: "u8 list \<Rightarrow> u8 \<Rightarrow> (u8 list \<times> bool) list \<Rightarrow> bool \<times> 'h stream \<Rightarrow> (u8 list \<times> bool \<times> 'h stream) option" where
  "streamed junk i [] s = Some ([], s)"
| "streamed junk i (b # bs) s = do {
     (x, s) \<leftarrow> read_async_cb junk i (wire (of_nat RTLSDR_RPC_OP_READ_ASYNC) i 0 []) (fst b) (snd b) s;
     (y, s) \<leftarrow> streamed junk i bs s;
     Some (x @ y, s) }"

definition block_bytes :: "u8 \<Rightarrow> u8 list list \<Rightarrow> u8 list" where
  "block_bytes i bks = concat (map (wire (of_nat RTLSDR_RPC_OP_READ_ASYNC) i 0) bks)"

text \<open>The device after that: \<open>rtlsdr_cancel_async\<close> was called if the socket was readable once.\<close>

definition cancelled_by :: "bool list \<Rightarrow> 'h stream \<Rightarrow> 'h stream" where
  "cancelled_by recv dev = (if list_ex id recv then snd (rtlsdr_cancel_async dev) else dev)"

lemma cancel_async_twice: "snd (rtlsdr_cancel_async (snd (rtlsdr_cancel_async dev))) = snd (rtlsdr_cancel_async dev)"
  by (simp add: rtlsdr_cancel_async_def)

lemma streamed_replied:
  assumes "length junk = 10"
  shows "streamed junk i cbs (True, dev) = Some (block_bytes i (map fst cbs), True, cancelled_by (map snd cbs) dev)"
proof (induction cbs arbitrary: dev)
  case (Cons b bs)
  then show ?case
    by (auto simp: read_async_cb_wire [OF assms] block_bytes_def cancelled_by_def cancel_async_twice)
qed (simp add: block_bytes_def cancelled_by_def)

lemma streamed_blocks:
  assumes "length junk = 10" "cbs \<noteq> []"
  shows "streamed junk i cbs (False, dev) = Some (wire (of_nat RTLSDR_RPC_OP_READ_ASYNC) i 0 [] @ block_bytes i (map fst cbs), True,
    cancelled_by (map snd cbs) dev)"
  using assms(2)
  by (cases cbs) (auto simp: read_async_cb_wire [OF assms(1)] streamed_replied [OF assms(1)] block_bytes_def cancelled_by_def cancel_async_twice)

lemma wire_payload:
  assumes "wf_msg m" "take (10 + length payload) (fmt m) = wire op i err payload" "10 + length payload < 2 ^ 32"
  shows "rtlsdr_rpc_msg_get_size m = Some (10 + length payload)" "mem_read (fmt m) fmt_data_off (length payload) = Some payload"
proof -
  obtain s0 s1 s2 s3 where s: "u32_bytes (of_nat (10 + length payload)) = [s0, s1, s2, s3]" using u32_bytes_4 by blast
  obtain c0 c1 c2 c3 where c: "u32_bytes err = [c0, c1, c2, c3]" using u32_bytes_4 by blast
  have u: "unat (of_nat (10 + length payload) :: u32) = 10 + length payload" using assms(3) by (simp only: unat_of_nat) simp
  have "fmt m = wire op i err payload @ drop (10 + length payload) (fmt m)"
    using assms(2) append_take_drop_id by metis
  then obtain rest where f: "fmt m = s0 # s1 # s2 # s3 # op # i # c0 # c1 # c2 # c3 # payload @ rest"
    using s c by (auto simp: wire_def)
  have "unat (bytes_u32 [s0, s1, s2, s3]) = 10 + length payload"
    using bytes_u32_u32_bytes [of "of_nat (10 + length payload)"] u by (simp only: s)
  then show "rtlsdr_rpc_msg_get_size m = Some (10 + length payload)" by (simp add: header_defs f)
  show "mem_read (fmt m) fmt_data_off (length payload) = Some payload" by (simp add: f mem_read_def fmt_offs)
qed

text \<open>The loop of the client, until it is cancelled.\<close>

lemma async_loop_blocks:
  assumes "msgs_ok (c_reply c)" "roomy malloc" "i < 32" "c_box c = 0" "\<not> c_async_cancel c" "bks \<noteq> []"
    "\<forall>b \<in> set bks. 10 + length b < 2 ^ 32" "carries (c_inp c) (block_bytes (of_nat i) bks @ rest)"
    "\<And>k. 0 < k \<Longrightarrow> k < length bks \<Longrightarrow> \<not> cancels (bs @ take k bks)" "cancels (bs @ bks)"
  shows "\<exists>es ms. async_loop malloc i cancels bs c = Some ((0, bs @ bks), c\<lparr>c_inp := es, c_reply := ms, c_async_cancel := True\<rparr>)
    \<and> carries es rest \<and> msgs_ok ms"
  using assms(1,4-10)
proof (induction bks arbitrary: bs c)
  case (Cons b bks)
  have ui: "unat (of_nat i :: u8) = i" using assms(3) by (simp add: unat_of_nat)
  have b: "10 + length b < 2 ^ 32" using Cons.prems(5) by simp
  obtain es ms where r: "recv_one malloc i c = Some ((0, i), c\<lparr>c_inp := es, c_reply := ms\<rparr>)"
      "carries es (block_bytes (of_nat i) bks @ rest)" "msgs_ok ms"
      "take (10 + length b) (fmt (ms ! i)) = wire (of_nat RTLSDR_RPC_OP_READ_ASYNC) (of_nat i) 0 b"
    using recv_one_wire [OF Cons.prems(1) assms(2,3), of "of_nat i" b "of_nat RTLSDR_RPC_OP_READ_ASYNC" 0 "block_bytes (of_nat i) bks @ rest"]
      ui assms(3) b Cons.prems(6) by (auto simp: block_bytes_def)
  have "cli_recv_msg malloc i c = Some (0, c\<lparr>c_inp := es, c_reply := ms\<rparr>)"
    using r(1) Cons.prems(2) by (simp add: cli_recv_msg_def recv_loop.simps)
  then have step: "async_loop malloc i cancels bs c
      = async_loop malloc i cancels (bs @ [b]) (c\<lparr>c_inp := es, c_reply := ms, c_async_cancel := cancels (bs @ [b])\<rparr>)"
    using Cons.prems(3) wire_payload [OF msgs_ok_nth [OF r(3) assms(3)] r(4) b]
    by (simp add: async_loop.simps [of _ _ _ bs c] fmt_offs)
  show ?case
  proof (cases "bks = []")
    case True
    then show ?thesis using step r(2,3) Cons.prems(8) by (auto simp: async_loop.simps [of _ _ _ "bs @ [b]"] block_bytes_def)
  next
    case False
    have nc: "\<not> cancels (bs @ [b])" using Cons.prems(7) [of 1] False by simp
    have "\<not> cancels ((bs @ [b]) @ take k bks)" if "0 < k" "k < length bks" for k
      using Cons.prems(7) [of "Suc k"] that by simp
    then show ?thesis
      using Cons.IH [of "c\<lparr>c_inp := es, c_reply := ms, c_async_cancel := False\<rparr>" "bs @ [b]"] Cons.prems(2,5,8) r(2,3) step nc False by auto
  qed
qed simp

text \<open>
  C16.  Streaming over the connection: the blocks of samples the server's callback sends, in whatever portions they arrive,
  reach the callback of the client's program unchanged, all and in order, until it cancels; then \<open>rtlsdr_rpc_read_async\<close>
  returns 0 and its slot is free again.  The server's callback cancels the stream of a running device exactly when it finds the socket readable
  while it sends a block.  What arrives is the reply to the query, a success, which the callback sends before its first block, and
  the blocks, with no message for another slot in between.
\<close>

theorem rpc_streams:
  assumes "cli_ready c" "roomy malloc" "length junk = 10" "cbs \<noteq> []" "bks = map fst cbs" "\<forall>b \<in> set bks. 10 + length b < 2 ^ 32"
    "sends net (c_net c) RTLSDR_RPC_OP_READ_ASYNC (concat (map u32_bytes [r_index dev, buf_num, buf_len]))
       (\<lambda>i. fst (the (streamed junk i cbs (False, st))) @ later i) P"
    "\<forall>k < length bks. \<not> cancels (take k bks)" "cancels bks"
  shows "(\<exists>c'. rtlsdr_rpc_read_async malloc net dev cancels buf_num buf_len c = Some ((0, bks), c') \<and> c_mask c' = c_mask c)
    \<and> (\<forall>i. x_async_status st = RTLSDR_RUNNING \<longrightarrow>
         x_async_status (snd (snd (the (streamed junk i cbs (False, st))))) = (if list_ex snd cbs then RTLSDR_CANCELING else RTLSDR_RUNNING))"
proof -
  let ?op = RTLSDR_RPC_OP_READ_ASYNC and ?args = "[U32 (r_index dev), U32 buf_num, U32 buf_len]"
  have "sends net (c_net c) ?op (concat (map item_bytes ?args))
      (\<lambda>i. wire (of_nat ?op) i (word_of_int 0) [] @ (block_bytes i bks @ later i)) P"
    using assms(7) by (simp add: streamed_blocks [OF assms(3,4)] assms(5))
  from rpc_query_answered [OF assms(1,2) _ _ this]
  obtain i c1 where q: "rpc_query malloc net ?op ?args c = Some (Some i, c1)"
      "answered i 0 [] (block_bytes (of_nat i) bks @ later (of_nat i)) c c1"
    by (auto simp: total_bytes_def)
  then have a: "i < 32" "\<not> bit (c_mask c) i" "c_mask c1 = Bit_Operations.set_bit i (c_mask c)" "msgs_ok (c_query c1)"
      "rtlsdr_rpc_msg_get_id (c_query c1 ! i) = Some (of_nat i)" "msgs_ok (c_reply c1)" "c_box c1 = 0"
      "rtlsdr_rpc_msg_get_err (c_reply c1 ! i) = Some 0" "carries (c_inp c1) (block_bytes (of_nat i) bks @ later (of_nat i))"
    by (simp_all add: answered_def)
  have ui: "unat (of_nat i :: u8) = i" using a(1) by (simp add: unat_of_nat)
  have bks: "bks \<noteq> []" using assms(4,5) by simp
  then have nc: "\<not> cancels []" using assms(8) by (auto dest: spec [of _ 0])
  obtain es ms where l: "async_loop malloc i cancels [] (c1\<lparr>c_async_cancel := False\<rparr>)
      = Some ((0, bks), c1\<lparr>c_inp := es, c_reply := ms, c_async_cancel := True\<rparr>)"
    using async_loop_blocks [of "c1\<lparr>c_async_cancel := False\<rparr>" malloc i bks "later (of_nat i)" cancels "[]"] a bks assms by auto
  obtain q1 q2 q3 q4 e where q': "rtlsdr_rpc_msg_set_id (rtlsdr_rpc_msg_reset (c_query c1 ! i)) (of_nat i) = Some q1"
      "rtlsdr_rpc_msg_set_op q1 RTLSDR_RPC_OP_CANCEL_ASYNC = Some q2" "push_all malloc q2 [U32 (r_index dev)] = Some (0, q3)"
      "rtlsdr_rpc_msg_set_size q3 (off q3) = Some q4" "off q4 = off q3" "rtlsdr_rpc_msg_get_id q4 = Some (of_nat i)"
      "mem_read (fmt q4) 0 (off q3) = Some (wire (of_nat RTLSDR_RPC_OP_CANCEL_ASYNC) (of_nat i) e (concat (map item_bytes [U32 (r_index dev)])))"
    using query_built [OF msgs_ok_nth [OF a(4,1)] assms(2), of "[U32 (r_index dev)]" "of_nat i" RTLSDR_RPC_OP_CANCEL_ASYNC]
    by (fastforce simp: total_bytes_def)
  let ?c2 = "c1\<lparr>c_inp := es, c_reply := ms, c_async_cancel := True, c_query := (c_query c1)[i := q3]\<rparr>"
  have "\<exists>r c3. send_flush_msgs net i ?c2 = Some (r, c3) \<and> c_query c3 ! i = q4 \<and> c_mask c3 = c_mask c1"
    using q'(4,5,7) a(1) msgs_ok_length [OF a(4)] by (auto simp: send_flush_msgs_def cli_send_msg_def split: prod.splits)
  then obtain r c3 where "send_flush_msgs net i ?c2 = Some (r, c3)" "c_query c3 ! i = q4" "c_mask c3 = c_mask c1" by blast
  moreover from this have "free_qr i c3 = Some (c3\<lparr>c_mask := c_mask c\<rparr>)"
    using q'(6) ui a(2,3) by (simp add: free_qr_def set_unset_bit)
  ultimately have "rtlsdr_rpc_read_async malloc net dev cancels buf_num buf_len c = Some ((0, bks), c3\<lparr>c_mask := c_mask c\<rparr>)"
    using q(1) a(5,8) ui nc l q'(1-3) by (simp add: rtlsdr_rpc_read_async_def del: push_all.simps)
  moreover have "list_ex id (map snd cbs) = list_ex snd cbs" by (induction cbs) simp_all
  ultimately show ?thesis
    by (auto simp: streamed_blocks [OF assms(3,4)] cancelled_by_def rtlsdr_cancel_async_def)
qed

text \<open>A server that streams two blocks, byte by byte, and a program that cancels when it has both.\<close>

theorem rpc_streams_witness:
  "\<exists>c'. rtlsdr_rpc_read_async (\<lambda>n. Some (replicate n 0)) (\<lambda>q. ret (0, bytewise (fst (the (streamed (replicate 10 7) (q ! 5) [([1, 2], False), ([3], True)] (False, new_stream sim_dev0))))))
     \<lparr>r_index = 1, r_gain_count = 32\<rparr> (\<lambda>bs. length bs = 2) 0 0 sim_client = Some ((0, [[1, 2], [3]]), c')"
proof -
  let ?net = "\<lambda>q. ret (0, bytewise (fst (the (streamed (replicate 10 7) (q ! 5) [([1, 2], False), ([3], True)] (False, new_stream sim_dev0))))) :: (sim_hw rpcd, int \<times> recv_event list) state"
  have slot: "wire op i e p ! 5 = i" for op i e p
    by (simp add: wire_def u32_bytes_def)
  let ?dev = "\<lparr>r_index = 1, r_gain_count = 32\<rparr>" and ?bks = "[[1, 2], [3]] :: u8 list list" and ?cbs = "[([1, 2], False), ([3], True)] :: (u8 list \<times> bool) list"
  have s: "sends ?net (c_net sim_client) RTLSDR_RPC_OP_READ_ASYNC (concat (map u32_bytes [r_index ?dev, 0, 0]))
      (\<lambda>i. fst (the (streamed (replicate 10 7) i ?cbs (False, new_stream sim_dev0))) @ []) (\<lambda>_. True)"
    using faithful_bytewise by (simp add: sends_def faithful_def slot del: streamed.simps)
  have "cli_ready sim_client" using sim_attached by (simp add: attached_def)
  moreover have "\<forall>k < length ?bks. length (take k ?bks) \<noteq> 2" "\<forall>b \<in> set ?bks. 10 + length b < 2 ^ 32" by auto
  ultimately show ?thesis using rpc_streams [OF _ sim_roomy(1) _ _ _ _ s, of ?bks "\<lambda>bs. length bs = 2"] by auto
qed

end
