(* ===== verification/Rtl_Rate.thy ===== *)
theory Rtl_Rate
  imports Rtl_Api
begin

text \<open>
  The sample rate of \<^verbatim>\<open>src/librtlsdr/src/librtlsdr.c\<close> (\<open>rtlsdr_set_sample_rate\<close>, modelled in \<open>Rtl_Api\<close>):
  the resampler ratio, its copied high bit, the rate it stands for, and the registers that hold it.
\<close>

section \<open>Sample rate\<close>

lemma bit_mask_28: "bit (0x0ffffffc :: u32) n \<longleftrightarrow> 2 \<le> n \<and> n < 28"
proof -
  have "(0x0ffffffc :: u32) = mask 28 AND NOT (mask 2)" by (simp add: mask_eq_exp_minus_1)
  then show ?thesis by (simp only: bit_simps) auto
qed

lemma bit_27: "bit (0x08000000 :: u32) n \<longleftrightarrow> n = 27"
proof -
  have "(0x08000000 :: u32) = push_bit 27 1" by simp
  then show ?thesis by (simp only: bit_simps) auto
qed

text \<open>The masked quotient and the copied bit restore the quotient when its bits 27 and 28 agree.\<close>

lemma real_rsamp_ratio_restores:
  fixes q :: u32
  assumes "bit q 27 = bit q 28" "\<And>n. 29 \<le> n \<Longrightarrow> \<not> bit q n"
  shows "real_rsamp_ratio (q AND 0x0ffffffc) = q AND NOT 3"
proof (rule bit_word_eqI)
  fix n assume n: "n < LENGTH(32)"
  have 3: "bit (3 :: u32) n \<longleftrightarrow> n < 2"
  proof -
    have "(3 :: u32) = mask 2" by (simp add: mask_eq_exp_minus_1)
    then show ?thesis by (simp only: bit_mask_iff) (use n in simp)
  qed
  show "bit (real_rsamp_ratio (q AND 0x0ffffffc)) n \<longleftrightarrow> bit (q AND NOT 3) n"
  proof -
    have "bit q n \<Longrightarrow> n < 29" using assms(2) [of n] by (cases "n < 29") auto
    moreover have "1 \<le> n \<and> n - 1 = 27 \<longleftrightarrow> n = 28" by auto
    ultimately show ?thesis
      using assms(1) n unfolding real_rsamp_ratio_def by (simp only: bit_simps bit_mask_28 bit_27 3) (auto simp: less_Suc_eq_le le_less)
  qed
qed

lemma uint_low_clear: "uint (q AND NOT 3 :: u32) = uint q - uint q mod 4"
proof -
  have 3: "(3 :: u32) = mask 2" by (simp add: mask_eq_exp_minus_1)
  have "q AND NOT 3 = push_bit 2 (drop_bit 2 q)"
    unfolding 3
  proof (rule bit_word_eqI)
    fix n assume "n < LENGTH(32)"
    moreover have "\<not> n < 2 \<Longrightarrow> Suc (Suc (n - 2)) = n" by simp
    ultimately show "bit (q AND NOT (mask 2)) n = bit (push_bit 2 (drop_bit 2 q)) n"
      by (cases "n < 2") (simp_all only: bit_simps, auto)
  qed
  moreover have "take_bit 32 (uint q) = uint q" using uint_less_u32 [of q] by (intro take_bit_int_eq_self) simp_all
  ultimately have "uint (q AND NOT 3 :: u32) = take_bit 32 (uint q div 4 * 4)"
    by (simp only: unsigned_push_bit_eq unsigned_drop_bit_eq) (simp add: push_bit_eq_mult drop_bit_eq_div)
  also have "\<dots> = uint q div 4 * 4"
  proof (rule take_bit_int_eq_self)
    have "uint q div 4 * 4 \<le> uint q" using div_mult_mod_eq [of "uint q" 4] pos_mod_sign [of 4 "uint q"] by linarith
    then show "uint q div 4 * 4 < 2 ^ 32" by (rule le_less_trans) simp
  qed (simp add: pos_imp_zdiv_nonneg_iff)
  finally show ?thesis by (simp add: minus_mod_eq_div_mult)
qed

lemma high_bits_agree:
  assumes "uint (q :: u32) < 2 ^ 27 \<or> (3 * 2 ^ 27 \<le> uint q \<and> uint q < 2 ^ 29)"
  shows "bit q 27 = bit q 28" "29 \<le> n \<Longrightarrow> \<not> bit q n"
proof -
  have q: "0 \<le> uint q" by simp
  have b: "bit q n \<longleftrightarrow> odd (uint q div 2 ^ n)" if "n < 32" for n
    using bit_uint_iff [of q n] bit_iff_odd [of "uint q" n] that by simp
  show "bit q 27 = bit q 28"
  proof (cases "uint q < 2 ^ 27")
    case True
    then have "uint q div 2 ^ 27 = 0" "uint q div 2 ^ 28 = 0" using q by simp_all
    then show ?thesis using b [of 27] b [of 28] by simp
  next
    case False
    then have "uint q div 2 ^ 27 = 3" "uint q div 2 ^ 28 = 1"
      using assms zle_div_iff [of "2 ^ 27" 3 "uint q"] zdiv_less_iff [of "2 ^ 27" "uint q" 4]
        zle_div_iff [of "2 ^ 28" 1 "uint q"] zdiv_less_iff [of "2 ^ 28" "uint q" 2] by simp_all
    then show ?thesis using b [of 27] b [of 28] by simp
  qed
  show "\<not> bit q n" if "29 \<le> n"
  proof (cases "n < 32")
    case True
    have "(2 :: int) ^ 29 \<le> 2 ^ n" using that by (intro power_increasing) simp_all
    moreover have "uint q < 2 ^ 29" using assms by auto
    ultimately have "uint q div 2 ^ n = 0" using q by (intro div_pos_pos_trivial) linarith+
    then show ?thesis using b [OF True] by simp
  next
    case False
    then show ?thesis by (auto dest: bit_imp_le_length)
  qed
qed

text \<open>The resampler ratio the chip uses and the rate that gives.\<close>

lemma rsamp_ratio_real:
  fixes xtal s :: u32
  assumes x: "uint xtal < 2 ^ 31" and s: "0 < uint s"
    and q: "q = uint xtal * 2 ^ 22 div uint s" and range: "q < 2 ^ 27 \<or> (3 * 2 ^ 27 \<le> q \<and> q < 2 ^ 29)"
  shows "uint (real_rsamp_ratio (rsamp_ratio xtal s)) = q - q mod 4"
proof -
  define w where "w = dbl_u32 (dbl (of_int (uint xtal * 2 ^ 22) / of_int (uint s)))"
  have "uint w = q"
    unfolding w_def q using x s range q by (intro dbl_u32_quotient) auto
  then show ?thesis
    using real_rsamp_ratio_restores [OF high_bits_agree, of w] uint_low_clear [of w] range
    unfolding rsamp_ratio_def w_def [symmetric] by simp
qed

lemma real_rate_exact:
  fixes xtal s :: u32
  assumes x: "uint xtal < 2 ^ 31" and s: "0 < uint s"
    and q: "q = uint xtal * 2 ^ 22 div uint s" and range: "q < 2 ^ 27 \<or> (3 * 2 ^ 27 \<le> q \<and> q < 2 ^ 29)"
    and fine: "uint s * (4 * uint s + 3) \<le> uint xtal * 2 ^ 22"
  shows "real_rate xtal (rsamp_ratio xtal s) = s"
proof -
  define A S R where "A = uint xtal * 2 ^ 22" and "S = uint s" and "R = q - q mod 4"
  have S: "0 < S" "S < 2 ^ 32" using s uint_less_u32 [of s] by (simp_all add: S_def)
  have ratio: "uint (real_rsamp_ratio (rsamp_ratio xtal s)) = R"
    unfolding R_def by (rule rsamp_ratio_real [OF x s q range])
  have qs: "q * S \<le> A" "A < (q + 1) * S" "4 * S + 3 \<le> q"
    using zle_div_iff [OF S(1), of q A] zdiv_less_iff [OF S(1), of A "q + 1"] zle_div_iff [OF S(1), of "4 * S + 3" A] q fine
    by (simp_all add: A_def S_def mult.commute)
  have R: "q - 3 \<le> R" "R \<le> q"
    using pos_mod_bound [of 4 q] pos_mod_sign [of 4 q] by (simp_all add: R_def)
  have "R * S \<le> q * S" "(q - 3) * S \<le> R * S" using R S(1) by (auto intro!: mult_right_mono)
  then have lo: "S * R \<le> A" using qs(1) by (simp add: mult.commute)
  have hi: "A < (S + 1) * R"
    using qs R \<open>(q - 3) * S \<le> R * S\<close> by (simp add: algebra_simps)
  have "0 < R" using R qs(3) S(1) by linarith
  then have "A div R = S"
    using zle_div_iff [of R S A] zdiv_less_iff [of R A "S + 1"] lo hi by linarith
  moreover have "uint (real_rate xtal (rsamp_ratio xtal s)) = A div R"
    unfolding real_rate_def ratio A_def [symmetric]
    using x \<open>0 < R\<close> \<open>A div R = S\<close> S by (intro dbl_u32_quotient) (simp_all add: A_def)
  ultimately show ?thesis by (simp add: S_def word_uint_eq_iff)
qed

text \<open>At the nominal crystal every supported rate is in the good range.\<close>

lemma nominal_rate:
  assumes "rate_supported s" "q = 28800000 * 2 ^ 22 div uint s"
  shows "q < 2 ^ 27 \<or> (3 * 2 ^ 27 \<le> q \<and> q < 2 ^ 29)" "uint s * (4 * uint s + 3) \<le> 28800000 * 2 ^ 22" "0 < uint s"
proof -
  have s: "225000 < uint s" "uint s \<le> 3200000" "uint s \<le> 300000 \<or> 900000 < uint s"
    using assms(1) by (auto simp: rate_supported_def word_le_def word_less_def)
  then show "0 < uint s" by simp
  have "uint s * (4 * uint s + 3) \<le> 3200000 * (4 * 3200000 + 3)"
    using s(2) by (intro mult_mono) simp_all
  then show "uint s * (4 * uint s + 3) \<le> 28800000 * 2 ^ 22" by simp
  show "q < 2 ^ 27 \<or> (3 * 2 ^ 27 \<le> q \<and> q < 2 ^ 29)"
    using s zle_div_iff [of "uint s" "3 * 2 ^ 27" "28800000 * 2 ^ 22"]
      zdiv_less_iff [of "uint s" "28800000 * 2 ^ 22" "2 ^ 29"] zdiv_less_iff [of "uint s" "28800000 * 2 ^ 22" "2 ^ 27"]
    unfolding assms(2) by auto
qed

text \<open>A tuner whose bandwidth function works over a bus that leaves the demodulator alive.\<close>

locale bw_tuner = zero_if_tuner tn for tn :: "'h rtlsdr_dev tuner_iface" +
  fixes live :: "'h \<Rightarrow> bool"
  assumes set_bw_live: "tn_set_bw tn = Some b \<Longrightarrow> keeps (\<lambda>d. live (d_devh d)) (b bw a apply)"

text \<open>A chip on which I2C traffic does not stop the demodulator provides it for every tuner.\<close>

lemma keeping_live_bus:
  assumes "\<And>h a bs. live (state_of (ctrl_out usb a (write_index IICB) bs) h) = live h"
    and "\<And>h a bs. live (state_of (ctrl_in usb a (read_index IICB) bs) h) = live h"
  shows "keeping_bus (rtl_io usb) (\<lambda>d. live (d_devh d))"
  using assms by unfold_locales (simp_all add: keeps_def rtl_io_def rtlsdr_i2c_write_fn_def rtlsdr_i2c_read_fn_def
      rtlsdr_i2c_write_def rtlsdr_i2c_read_def rtlsdr_write_array_def rtlsdr_read_array_def Let_def split_beta)

lemma bw_tuners:
  assumes "keeping_bus (rtl_io usb) (\<lambda>d. live (d_devh d))" "t \<in> {RTLSDR_TUNER_E4000, RTLSDR_TUNER_FC0012, RTLSDR_TUNER_FC0013, RTLSDR_TUNER_FC2580}"
  shows "bw_tuner (tuners usb junk p0 r820t t) live"
proof -
  have e: "keeps (\<lambda>d. live (d_devh d)) (on_e4k m)" if "keeps (\<lambda>e. live (d_devh (e4k_rtl_dev e))) m" for m :: "('a rtlsdr_dev e4k_state, int) state"
    using that by (simp add: keeps_def on_e4k_def Let_def split_beta)
  have z: "zero_if_tuner (tuners usb junk p0 r820t t)"
    using assms(2) e4000_tuner.zero_if_tuner_axioms fc0012_tuner.zero_if_tuner_axioms fc0013_tuner.zero_if_tuner_axioms
      fc2580_tuner.zero_if_tuner_axioms by (auto simp del: tuners.simps)
  show ?thesis
  proof (intro bw_tuner.intro z, unfold_locales)
    fix b bw a ap
    assume "tn_set_bw (tuners usb junk p0 r820t t) = Some b"
    then show "keeps (\<lambda>d. live (d_devh d)) (b bw a ap)"
      using assms(2) by (auto simp: e4000_set_bw_def fc2580_set_bw_def intro!: keeps_intros e
          keeping_bus.keeps_e4k_settings [OF assms(1)] keeping_bus.keeps_fc2580 [OF assms(1)])
  qed
qed

interpretation e4000_bw: bw_tuner "tuners sim_usb junk p0 r820t RTLSDR_TUNER_E4000" "\<lambda>_. True" for junk p0 r820t
  by (rule bw_tuners [OF keeping_live_bus]) simp_all

interpretation fc0012_bw: bw_tuner "tuners sim_usb junk p0 r820t RTLSDR_TUNER_FC0012" "\<lambda>_. True" for junk p0 r820t
  by (rule bw_tuners [OF keeping_live_bus]) simp_all

interpretation fc0013_bw: bw_tuner "tuners sim_usb junk p0 r820t RTLSDR_TUNER_FC0013" "\<lambda>_. True" for junk p0 r820t
  by (rule bw_tuners [OF keeping_live_bus]) simp_all

interpretation fc2580_bw: bw_tuner "tuners sim_usb junk p0 r820t RTLSDR_TUNER_FC2580" "\<lambda>_. True" for junk p0 r820t
  by (rule bw_tuners [OF keeping_live_bus]) simp_all

context rtl2832
begin

lemma repeater_live:
  fixes d :: "'h rtlsdr_dev"
  assumes "live (d_devh d)"
  shows "live (d_devh (state_of (rtlsdr_set_i2c_repeater usb on) d))"
  using assms by (simp add: rtlsdr_set_i2c_repeater_def demod_simps)

lemma tuner_set_bw_live:
  fixes d :: "'h rtlsdr_dev"
  assumes "bw_tuner (tn (d_tuner_type d)) live" "live (d_devh d)" "idle d"
  shows "live (d_devh (state_of (tuner_set_bw usb tn bw) d)) \<and> settings (state_of (tuner_set_bw usb tn bw) d) = settings d"
proof (cases "tn_set_bw (tn (d_tuner_type d))")
  case None
  then show ?thesis using assms(2) by (simp add: tuner_set_bw_def)
next
  case (Some b)
  have z: "zero_if_tuner (tn (d_tuner_type d))" using assms(1) by (rule bw_tuner.axioms)
  have l: "live (d_devh (state_of (b bw 0 1) d1)) = live (d_devh d1)" for d1
    using bw_tuner.set_bw_live [OF assms(1) Some] by (simp add: keeps_def)
  have "live (d_devh (state_of (with_repeater usb (b bw 0 1)) d))"
    using assms(2) by (simp add: with_repeater_def repeater_live l)
  then show ?thesis
    using Some with_repeater_keeps [OF zero_if_tuner.set_bw [OF z Some] assms(3)] by (simp add: tuner_set_bw_def)
qed

end

lemma u32_halves: "uint (ucast (drop_bit 16 w) :: u16) * 65536 + uint (ucast (w AND 0xffff) :: u16) = uint (w :: u32)"
proof -
  have m: "(0xffff :: u32) = mask 16" by (simp add: mask_eq_exp_minus_1)
  have "ucast (w AND 0xffff) = (ucast w :: u16)" unfolding m by (rule bit_word_eqI) (simp add: bit_simps)
  then have "uint (ucast (w AND 0xffff) :: u16) = uint w mod 65536"
    by (simp add: unsigned_ucast_eq take_bit_eq_mod)
  moreover have "uint w div 65536 < 65536" using uint_less_u32 [of w] by (simp add: zdiv_less_iff)
  then have "uint (ucast (drop_bit 16 w) :: u16) = uint w div 65536"
    using drop_bit_eq_div [of 16 "uint w"]
    by (simp add: unsigned_ucast_eq unsigned_drop_bit_eq take_bit_int_eq_self pos_imp_zdiv_nonneg_iff)
  ultimately show ?thesis by simp
qed

text \<open>The rate, the bandwidth and the registers, up to the optional offset tuning.\<close>

definition ratio_of_regs :: "(u16 \<Rightarrow> u8) \<Rightarrow> int" where
  "ratio_of_regs r = uint (r 0x9f) * 2 ^ 24 + uint (r 0xa0) * 2 ^ 16 + uint (r 0xa1) * 2 ^ 8 + uint (r 0xa2)"

text \<open>
  C17.  Sample rate: with the nominal 28.8 MHz crystal, on a live chip and without offset tuning, every
  supported rate is accepted with code 0, is kept exactly, and registers 0x9f to 0xa2 hold a ratio that the
  chip reads as \<open>2 ^ 22\<close> times the crystal over the rate, rounded down to a multiple of four; any other
  rate is refused with \<open>-EINVAL\<close> and nothing changes.
\<close>

theorem rtl_sample_rate_exact:
  assumes chip: "rtl2832 usb live dreg sreg" and live: "live (d_devh d)" and tn: "bw_tuner (tn (d_tuner_type d)) live"
    and d: "idle d" "d_rtl_xtal d = 28800000" "d_offs_freq d = 0"
    and run: "run_state (rtlsdr_set_sample_rate usb tn n samp_rate) d = (res, d')"
  shows "if rate_supported samp_rate
    then res = Some 0 \<and> d_rate d' = samp_rate
      \<and> (let q = 28800000 * 2 ^ 22 div uint samp_rate; ratio = word_of_int (ratio_of_regs (dreg (d_devh d') 1))
         in ratio_of_regs (dreg (d_devh d') 1) < 2 ^ 32 \<and> uint (real_rsamp_ratio ratio) = q - q mod 4)
    else res = Some (-22) \<and> d' = d"
proof (cases "rate_supported samp_rate")
  case False
  then show ?thesis using run by (simp add: rtlsdr_set_sample_rate_def)
next
  case True
  define ratio where "ratio = rsamp_ratio 28800000 samp_rate"
  have x: "uint (28800000 :: u32) = 28800000" by simp
  note nom = nominal_rate [OF True refl]
  have rate: "real_rate 28800000 ratio = samp_rate"
    unfolding ratio_def by (rule real_rate_exact [OF _ nom(3) refl]) (use nom in \<open>simp_all add: x\<close>)
  have real: "uint (real_rsamp_ratio ratio) = 28800000 * 2 ^ 22 div uint samp_rate - 28800000 * 2 ^ 22 div uint samp_rate mod 4"
    unfolding ratio_def by (rule rsamp_ratio_real [OF _ nom(3)]) (use nom in \<open>simp_all add: x\<close>)
  define d1 where "d1 = d\<lparr>d_rate := samp_rate\<rparr>"
  define bw where "bw = sint (if d_bw d > 0 then d_bw d else samp_rate)"
  define d2 where "d2 = state_of (tuner_set_bw usb tn bw) d1"
  have d2: "live (d_devh d2)" "settings d2 = settings d1"
    using rtl2832.tuner_set_bw_live [OF chip, of tn d1 bw] tn live d(1) by (simp_all add: d1_def d2_def)
  note f2 = settings_fields [OF d2(2)]
  note regs = rtl2832.demod2_simps [OF chip] rtl2832.demod_simps [OF chip]
  define h where "h = hw_demod usb 1 0xa1 (ucast (ratio AND 0xffff)) 2 (hw_demod usb 1 0x9f (ucast (drop_bit 16 ratio)) 2 (d_devh d2))"
  have h: "live h" "dreg h = (dreg (d_devh d2))(1 := (dreg (d_devh d2) 1)(
      0x9f := ucast (drop_bit 8 (ucast (drop_bit 16 ratio) :: u16)), 0xa0 := ucast (ucast (drop_bit 16 ratio) :: u16),
      0xa1 := ucast (drop_bit 8 (ucast (ratio AND 0xffff) :: u16)), 0xa2 := ucast (ucast (ratio AND 0xffff) :: u16)))"
    using d2(1) by (simp_all add: h_def regs)
  define d3 where "d3 = d2\<lparr>d_devh := h\<rparr>"
  define d4 where "d4 = state_of (rtlsdr_set_sample_freq_correction usb (d_corr d)) d3"
  have "live (d_devh d3)" using h(1) by (simp add: d3_def)
  note c = rtl2832.set_sample_freq_correction_regs [OF chip this, of "d_corr d", folded d4_def]
  have d4: "d4 = d3\<lparr>d_devh := d_devh d4\<rparr>" using c(2) by (simp add: only_hw_def flip: d4_def)
  define h5 where "h5 = hw_demod usb 1 0x01 0x10 (Suc 0) (hw_demod usb 1 0x01 0x14 (Suc 0) (d_devh d4))"
  define d5 where "d5 = d4\<lparr>d_devh := h5\<rparr>"
  have d5: "d_rate d5 = samp_rate" "d_offs_freq d5 = 0" "d_devh d5 = h5"
    unfolding d5_def by (subst d4; simp add: d3_def f2 d1_def d(3))+
  have steps: "run_state (tuner_set_bw usb tn bw) d1 = ((), d2)"
    "run_state (rtlsdr_demod_write_reg usb 1 0x9f (ucast (drop_bit 16 ratio)) 2) d2 =
      (0, d2\<lparr>d_devh := hw_demod usb 1 0x9f (ucast (drop_bit 16 ratio)) 2 (d_devh d2)\<rparr>)"
    "run_state (rtlsdr_demod_write_reg usb 1 0xa1 (ucast (ratio AND 0xffff)) 2)
       (d2\<lparr>d_devh := hw_demod usb 1 0x9f (ucast (drop_bit 16 ratio)) 2 (d_devh d2)\<rparr>) = (0, d3)"
    "run_state (rtlsdr_set_sample_freq_correction usb (d_corr d)) d3 = (0, d4)"
    "run_state (rtlsdr_demod_write_reg usb 1 0x01 0x14 (Suc 0)) d4 = (0, d4\<lparr>d_devh := hw_demod usb 1 0x01 0x14 (Suc 0) (d_devh d4)\<rparr>)"
    "run_state (rtlsdr_demod_write_reg usb 1 0x01 0x10 (Suc 0)) (d4\<lparr>d_devh := hw_demod usb 1 0x01 0x14 (Suc 0) (d_devh d4)\<rparr>) = (0, d5)"
    using d2(1) c(1,3) by (simp_all add: d2_def d3_def d4_def d5_def h_def h5_def regs prod_eq_iff)
  have d'': "run_state (rtlsdr_set_sample_rate usb tn n samp_rate) d =
      (Some 0, state_of (do { a \<leftarrow> reactivate_softagc SOFTSTATE_RESET;
         if a \<noteq> 0 then State_Monad.update (\<lambda>d. d\<lparr>d_agc_dead_sps := 0, d_agc_scan_sps := 0\<rparr>) else ret () }) d5)"
    using True d5(2) unfolding rtlsdr_set_sample_rate_def Let_def
    by (simp del: run_demod_write split del: if_split add: steps d(2) rate cong: if_cong flip: ratio_def d1_def bw_def)
  have "d_devh d' = h5" "d_rate d' = samp_rate" "res = Some 0"
    using run d5 unfolding d'' by (auto simp: reactivate_softagc_def)
  moreover have "ratio_of_regs (dreg h5 1) = uint ratio"
  proof -
    have "dreg h5 1 a = dreg h 1 a" if "a \<in> {0x9f, 0xa0, 0xa1, 0xa2}" for a
      using that c(3,5) by (auto simp: h5_def regs d3_def)
    then have "ratio_of_regs (dreg h5 1) = (256 * uint (ucast (drop_bit 8 (ucast (drop_bit 16 ratio) :: u16)) :: u8) + uint (ucast (ucast (drop_bit 16 ratio) :: u16) :: u8)) * 65536
      + (256 * uint (ucast (drop_bit 8 (ucast (ratio AND 0xffff) :: u16)) :: u8) + uint (ucast (ucast (ratio AND 0xffff) :: u16) :: u8))"
      by (simp add: ratio_of_regs_def h(2))
    then show ?thesis unfolding u16_bytes u32_halves .
  qed
  ultimately show ?thesis using True real uint_less_u32 [of ratio] by (simp add: Let_def)
qed

theorem rtl_sample_rate_exact_witness:
  "\<exists>d'. run_state (rtlsdr_set_sample_rate sim_usb sim_tuners 3 2400000) sim_dev0 = (Some 0, d') \<and> d_rate d' = 2400000"
proof -
  obtain res d' where run: "run_state (rtlsdr_set_sample_rate sim_usb sim_tuners 3 2400000) sim_dev0 = (res, d')" by fastforce
  have tn: "bw_tuner (sim_tuners (d_tuner_type sim_dev0)) (\<lambda>_. True)"
    unfolding sim_tuners_def sim_dev_fields by (rule fc0012_bw.bw_tuner_axioms)
  have d: "idle sim_dev0" "d_rtl_xtal sim_dev0 = 28800000" "d_offs_freq sim_dev0 = 0" by (simp_all add: sim_dev0_def)
  have "rate_supported 2400000" by (simp add: rate_supported_def)
  then show ?thesis
    using rtl_sample_rate_exact [OF sim_rtl.rtl2832_axioms TrueI tn d run] run by simp
qed

text \<open>
  With another crystal the edges of the supported ranges are misread: at 28.799 MHz the rate 300000 Hz,
  and at 28.801 MHz the rate 900001 Hz, are accepted but program the chip for about three times and a third
  of the rate.
\<close>

theorem rtl_sample_rate_edges:
  "rate_supported 300000 \<and> real_rate 28799000 (rsamp_ratio 28799000 300000) = 900062
   \<and> rate_supported 900001 \<and> real_rate 28801000 (rsamp_ratio 28801000 900001) = 300007"
proof -
  have r: "real_rate x (word_of_int q AND 0x0ffffffc) = word_of_int y"
    if "uint x * 2 ^ 22 < 2 ^ 53" "0 < uint (real_rsamp_ratio (word_of_int q AND 0x0ffffffc))"
      "uint x * 2 ^ 22 div uint (real_rsamp_ratio (word_of_int q AND 0x0ffffffc)) = y" "0 \<le> y" "y < 2 ^ 32" for x q y
    using dbl_u32_quotient [of "uint x * 2 ^ 22" "uint (real_rsamp_ratio (word_of_int q AND 0x0ffffffc))"] that
    by (simp add: real_rate_def word_uint_eq_iff uint_word_of_int)
  have q: "rsamp_ratio x s = word_of_int q AND 0x0ffffffc"
    if "uint x * 2 ^ 22 < 2 ^ 53" "0 < uint s" "uint x * 2 ^ 22 div uint s = q" "q < 2 ^ 32" for x s q
    using dbl_u32_quotient [of "uint x * 2 ^ 22" "uint s"] that
    by (simp add: rsamp_ratio_def flip: that(3)) (metis word_of_int_uint)
  have "rsamp_ratio 28799000 300000 = word_of_int 402639202 AND 0x0ffffffc"
    "rsamp_ratio 28801000 900001 = word_of_int 134222239 AND 0x0ffffffc"
    by (rule q; simp)+
  moreover have "real_rate 28799000 (word_of_int 402639202 AND 0x0ffffffc) = word_of_int 900062"
    "real_rate 28801000 (word_of_int 134222239 AND 0x0ffffffc) = word_of_int 300007"
    by (rule r; simp add: real_rsamp_ratio_def)+
  ultimately show ?thesis by (simp add: rate_supported_def)
qed

end
