(* ===== verification/Rtl_Options.thy ===== *)
theory Rtl_Options
  imports Rtl_R820t Soft_Agc C_String
begin

text \<open>
  The option string of \<^verbatim>\<open>src/librtlsdr/src/librtlsdr.c\<close>, which the command line tools pass on from their switch \<open>-O\<close> and
  which the library reads from the environment when it starts to stream: a list of settings separated by colons or commas.
  Each is one call of the library or one field of the device.  Shown: a string written as documented carries out its settings in
  order; what becomes of the result codes; a documented setting that changes the wrong field.
\<close>

section \<open>Model\<close>

text \<open>
  The fields of \<open>struct rtlsdr_dev\<close> that only the option string uses, and \<open>o_arg_verbose\<close>, the argument \<open>verbose\<close> of
  the running call, which the option \<open>verbose\<close> overwrites.  \<open>o_worker_threads\<close> counts the threads \<open>softagc_init\<close> has created; the
  model of the soft AGC in \<open>o_agc\<close> follows the latest.
\<close>

record 'h opt_dev =
  o_agc :: "'h softagc_state"
  o_worker_threads :: nat
  o_called_set_opt :: int
  o_verbose :: int
  o_softagc_verbose :: int
  o_r82xx_verbose :: int
  o_arg_verbose :: int

abbreviation on_dev :: "('h rtlsdr_dev, 'a) state \<Rightarrow> ('h opt_dev, 'a) state" where
  "on_dev \<equiv> zoom (\<lambda>s. a_dev (o_agc s)) (\<lambda>d s. s\<lparr>o_agc := (o_agc s)\<lparr>a_dev := d\<rparr>\<rparr>)"

definition change_dev :: "('h rtlsdr_dev \<Rightarrow> 'h rtlsdr_dev) \<Rightarrow> ('h opt_dev, int option) state" where
  "change_dev f = do { _ \<leftarrow> on_dev (State_Monad.update f); ret (Some 0) }"

definition change_agc :: "('h softagc_state \<Rightarrow> 'h softagc_state) \<Rightarrow> ('h opt_dev, int option) state" where
  "change_agc f = do { _ \<leftarrow> State_Monad.update (\<lambda>s. s\<lparr>o_agc := f (o_agc s)\<rparr>); ret (Some 0) }"

definition call_dev :: "('h rtlsdr_dev, int) state \<Rightarrow> ('h opt_dev, int option) state" where
  "call_dev m = do { r \<leftarrow> on_dev m; ret (Some r) }"

text \<open>A value that exists, or undefined behaviour.\<close>

definition with_value :: "'v option \<Rightarrow> ('v \<Rightarrow> ('s, int option) state) \<Rightarrow> ('s, int option) state" where
  "with_value v k = (case v of None \<Rightarrow> ret None | Some x \<Rightarrow> k x)"

text \<open>The modes of the soft AGC; the code stores any number, the model follows it for the four modes there are.\<close>

definition agc_mode_of :: "int \<Rightarrow> softagc_mode option" where
  "agc_mode_of n =
     (if n = 0 then Some SOFTAGC_OFF else if n = 1 then Some SOFTAGC_ON_CHANGE else if n = 2 then Some SOFTAGC_AUTO_ATTEN
      else if n = 3 then Some SOFTAGC_AUTO else None)"

definition ds_mode_of :: "u32 \<Rightarrow> rtlsdr_ds_mode" where
  "ds_mode_of n =
     (if n = 0 then RTLSDR_DS_IQ else if n = 1 then RTLSDR_DS_I else if n = 2 then RTLSDR_DS_Q
      else if n = 3 then RTLSDR_DS_I_BELOW else RTLSDR_DS_Q_BELOW)"

definition opt_sideband :: "string \<Rightarrow> int" where
  "opt_sideband v =
     (if v = ''L'' \<or> v = ''l'' \<or> v = ''0'' then 0 else if v = ''U'' \<or> v = ''u'' \<or> v = ''1'' then 1 else atoi v)"

definition opt_verbose :: "('h opt_dev, int option) state" where
  "opt_verbose = do {
     _ \<leftarrow> State_Monad.update (\<lambda>s.
       s\<lparr>o_verbose := o_verbose s + 1, o_arg_verbose := o_verbose s + 1, o_r82xx_verbose := o_verbose s + 1\<rparr>);
     ret (Some 0) }"

definition opt_ds_mode ::
    "'h usb_ops \<Rightarrow> (rtlsdr_tuner \<Rightarrow> 'h rtlsdr_dev tuner_iface) \<Rightarrow> nat \<Rightarrow> u32 \<Rightarrow> ('h rtlsdr_dev, int option) state" where
  "opt_ds_mode usb tn n dm = do {
     _ \<leftarrow> State_Monad.update (\<lambda>d. if dm \<le> 4 then d\<lparr>d_ds_mode := ds_mode_of dm\<rparr> else d\<lparr>d_ds_threshold := dm\<rparr>);
     d \<leftarrow> State_Monad.get;
     rtlsdr_set_ds_mode usb tn n (d_ds_mode d) (d_ds_threshold d) }"

text \<open>A change of the tuner's configuration for a value in range; the code 1 for others, and only in verbose mode.\<close>

definition opt_cfg :: "int \<Rightarrow> int \<Rightarrow> (r82xx_config \<Rightarrow> r82xx_config) \<Rightarrow> ('h opt_dev, int option) state" where
  "opt_cfg v hi f =
     (if 0 \<le> v \<and> v \<le> hi then change_dev (\<lambda>d. d\<lparr>d_r82xx := (d_r82xx d)\<lparr>r_cfg := f (r_cfg (d_r82xx d))\<rparr>\<rparr>)
      else do { s \<leftarrow> State_Monad.get; ret (Some (if o_arg_verbose s \<noteq> 0 then 1 else 0)) })"

definition opt_soft_agc :: "int \<Rightarrow> ('h opt_dev, int option) state" where
  "opt_soft_agc on = with_value (agc_mode_of on) (\<lambda>m.
     change_dev (\<lambda>d. d\<lparr>d_agc_mode := m, d_agc_state := if on \<noteq> 0 then SOFTSTATE_INIT else SOFTSTATE_OFF\<rparr>))"

text \<open>One option, in the order of the tests.\<close>

definition apply_option ::
    "'h usb_ops \<Rightarrow> (rtlsdr_tuner \<Rightarrow> 'h rtlsdr_dev tuner_iface) \<Rightarrow> u8 list \<Rightarrow> nat \<Rightarrow> string \<Rightarrow> ('h opt_dev, int option) state" where
  "apply_option usb tn junk n optPart =
     (if optPart = ''verbose'' \<or> optPart = ''v'' then opt_verbose
      else if prefix ''f='' optPart then
        with_value (Option.bind (parseFreq (drop 2 optPart)) (\<lambda>x. to_u64 (dbl (x + 1 / 2)))) (\<lambda>freq.
          on_dev (rtlsdr_set_center_freq64 usb tn n freq))
      else if prefix ''bw='' optPart then
        (let bw = atol (drop 3 optPart) * 1000
         in if - (2 ^ 63) \<le> bw \<and> bw < 2 ^ 63 then call_dev (rtlsdr_set_tuner_bandwidth usb tn (word_of_int bw)) else ret None)
      else if prefix ''bc='' optPart then
        with_value (Option.bind (parseFreq (drop 3 optPart)) (\<lambda>x. to_i32 (dbl (x + 1 / 2)))) (\<lambda>freq.
          on_dev (rtlsdr_set_tuner_band_center usb (rtlsdr_set_center_freq64 usb tn n) freq))
      else if prefix ''sb='' optPart then
        on_dev (rtlsdr_set_tuner_sideband usb (rtlsdr_set_center_freq64 usb tn n) (opt_sideband (drop 3 optPart)))
      else if prefix ''agc='' optPart then
        (let manual = 1 - atoi (drop 4 optPart)
         in if manual < 2 ^ 31 then call_dev (rtlsdr_set_tuner_gain_mode usb tn manual) else ret None)
      else if prefix ''gain='' optPart then call_dev (rtlsdr_set_tuner_gain usb tn (atoi (drop 5 optPart)))
      else if prefix ''agcv='' optPart then call_dev (rtlsdr_set_tuner_if_mode usb (max 0 (atoi (drop 5 optPart))))
      else if prefix ''ifm='' optPart then call_dev (rtlsdr_set_tuner_if_mode usb (atoi (drop 4 optPart)))
      else if prefix ''dagc='' optPart then call_dev (rtlsdr_set_agc_mode usb (atoi (drop 5 optPart)))
      else if prefix ''ds='' optPart then on_dev (rtlsdr_set_direct_sampling usb tn n (atoi (drop 3 optPart)))
      else if prefix ''dm='' optPart then
        with_value (Option.bind (parseFreq (drop 3 optPart)) to_u32) (\<lambda>dm. on_dev (opt_ds_mode usb tn n dm))
      else if prefix ''harm='' optPart then
        (let v = atoi (drop 5 optPart) in opt_cfg v 16 (\<lambda>c. c\<lparr>c_harmonic := v\<rparr>))
      else if prefix ''vcocmin='' optPart then
        (let v = atoi (drop 8 optPart) in opt_cfg v 7 (\<lambda>c. c\<lparr>c_vco_curr_min := word_of_int (7 - v)\<rparr>))
      else if prefix ''vcocmax='' optPart then
        (let v = atoi (drop 8 optPart) in opt_cfg v 7 (\<lambda>c. c\<lparr>c_vco_curr_max := word_of_int (7 - v)\<rparr>))
      else if prefix ''vcoalgo='' optPart then
        (let v = atoi (drop 8 optPart) in opt_cfg v 2 (\<lambda>c. c\<lparr>c_vco_curr_max := word_of_int v\<rparr>))
      else if prefix ''tp='' optPart \<or> prefix ''Tp='' optPart \<or> prefix ''TP='' optPart then
        change_dev (\<lambda>d. d\<lparr>d_biast_gpio_pin_no := atoi (drop 3 optPart)\<rparr>)
      else if prefix ''t='' optPart \<or> prefix ''T='' optPart then
        call_dev (rtlsdr_set_bias_tee usb junk (atoi (drop 2 optPart)))
      else if prefix ''softagc='' optPart then opt_soft_agc (atoi (drop 8 optPart))
      else if prefix ''softscantime='' optPart then
        with_value (atof (drop 13 optPart)) (\<lambda>x. change_agc (\<lambda>a. a\<lparr>a_scanTimeMs := sgl x\<rparr>))
      else if prefix ''softdeadtime='' optPart then
        with_value (atof (drop 13 optPart)) (\<lambda>x. change_agc (\<lambda>a. a\<lparr>a_deadTimeMs := sgl x\<rparr>))
      else if optPart = ''softverbose'' then do { _ \<leftarrow> State_Monad.update (\<lambda>s. s\<lparr>o_softagc_verbose := 1\<rparr>); ret (Some 0) }
      else if optPart \<noteq> [] then ret (Some (-1))
      else ret (Some 0))"

primrec option_loop ::
    "(string \<Rightarrow> ('h opt_dev, int option) state) \<Rightarrow> string list \<Rightarrow> int \<Rightarrow> ('h opt_dev, int option) state" where
  "option_loop f [] retAll = ret (Some retAll)"
| "option_loop f (p # ps) retAll = returning (f p) (\<lambda>r. option_loop f ps (if r < 0 then r else retAll))"

definition opt_defaults :: "int \<Rightarrow> 'h opt_dev \<Rightarrow> 'h opt_dev" where
  "opt_defaults verbose s =
     s\<lparr>o_called_set_opt := 1, o_arg_verbose := verbose, o_agc := (o_agc s)\<lparr>a_deadTimeMs := 100, a_scanTimeMs := 100\<rparr>\<rparr>"

definition opt_start_agc ::
    "'h usb_ops \<Rightarrow> (rtlsdr_tuner \<Rightarrow> 'h rtlsdr_dev tuner_iface) \<Rightarrow> 'h opt_dev \<Rightarrow> 'h opt_dev" where
  "opt_start_agc usb tn s =
     (if agc_state (o_agc s) \<noteq> SOFTSTATE_OFF
      then s\<lparr>o_agc := softagc_init usb tn (o_agc s), o_worker_threads := Suc (o_worker_threads s)\<rparr> else s)"

text \<open>\<open>dup\<close> tells whether \<open>strdup\<close> gets its memory.\<close>

definition rtlsdr_set_opt_string ::
    "'h usb_ops \<Rightarrow> (rtlsdr_tuner \<Rightarrow> 'h rtlsdr_dev tuner_iface) \<Rightarrow> u8 list \<Rightarrow> nat \<Rightarrow> bool \<Rightarrow> string \<Rightarrow> int
       \<Rightarrow> ('h opt_dev, int option) state" where
  "rtlsdr_set_opt_string usb tn junk n dup opts verbose = do {
     _ \<leftarrow> State_Monad.update (opt_defaults verbose);
     if \<not> dup then ret (Some (-1))
     else returning (option_loop (apply_option usb tn junk n) (tokens '':,'' opts) 0) (\<lambda>retAll. do {
       _ \<leftarrow> State_Monad.update (opt_start_agc usb tn);
       ret (Some retAll) }) }"

text \<open>\<open>env\<close> is \<open>getenv("LIBRTLSDR_OPT")\<close>.\<close>

definition rtlsdr_process_env_opts ::
    "'h usb_ops \<Rightarrow> (rtlsdr_tuner \<Rightarrow> 'h rtlsdr_dev tuner_iface) \<Rightarrow> u8 list \<Rightarrow> nat \<Rightarrow> bool \<Rightarrow> string option
       \<Rightarrow> ('h opt_dev, int option) state" where
  "rtlsdr_process_env_opts usb tn junk n dup env =
     returning (case env of None \<Rightarrow> ret (Some 0) | Some opts \<Rightarrow> rtlsdr_set_opt_string usb tn junk n dup opts 1) (\<lambda>_. do {
       _ \<leftarrow> State_Monad.update (\<lambda>s. s\<lparr>o_called_set_opt := 1\<rparr>);
       ret (Some 0) })"

text \<open>\<open>bulk\<close> is the transfer of libusb, with the requested length.\<close>

definition rtlsdr_read_sync ::
    "'h usb_ops \<Rightarrow> (rtlsdr_tuner \<Rightarrow> 'h rtlsdr_dev tuner_iface) \<Rightarrow> u8 list \<Rightarrow> nat \<Rightarrow> bool \<Rightarrow> string option
       \<Rightarrow> (int \<Rightarrow> ('h, int) state) \<Rightarrow> int \<Rightarrow> ('h opt_dev, int option) state" where
  "rtlsdr_read_sync usb tn junk n dup env bulk len = do {
     s \<leftarrow> State_Monad.get;
     returning (if o_called_set_opt s = 0 then rtlsdr_process_env_opts usb tn junk n dup env else ret (Some 0)) (\<lambda>_.
       call_dev (on_usb (bulk len))) }"

section \<open>Options as documented\<close>

text \<open>
  The settings of the help text, with the values it allows, and how they are written; \<open>OTHER\<close> is anything that is no option.
\<close>

datatype opt_item =
  OPT_VERBOSE | FREQ int | BW int | CENTER int | SIDEBAND bool | TUNER_AGC bool | GAIN int | IF_MODE int | RTL_AGC int
| DIRECT int | DS_MODE rtlsdr_ds_mode | DS_THRESHOLD u32 | HARMONIC int | VCO_MIN int | VCO_MAX int | VCO_ALGO int | BIAS_PIN int
| BIAS_TEE int | SOFT_AGC softagc_mode | SOFT_SCAN int | SOFT_DEAD int | SOFT_VERBOSE | OTHER string

definition agc_mode_code :: "softagc_mode \<Rightarrow> int" where
  "agc_mode_code m = (case m of SOFTAGC_OFF \<Rightarrow> 0 | SOFTAGC_ON_CHANGE \<Rightarrow> 1 | SOFTAGC_AUTO_ATTEN \<Rightarrow> 2 | SOFTAGC_AUTO \<Rightarrow> 3)"

fun show_item :: "opt_item \<Rightarrow> string" where
  "show_item OPT_VERBOSE = ''verbose''"
| "show_item (FREQ f) = ''f='' @ show_int f"
| "show_item (BW k) = ''bw='' @ show_int k"
| "show_item (CENTER f) = ''bc='' @ show_int f"
| "show_item (SIDEBAND u) = ''sb='' @ (if u then ''U'' else ''L'')"
| "show_item (TUNER_AGC on) = ''agc='' @ (if on then ''1'' else ''0'')"
| "show_item (GAIN g) = ''gain='' @ show_int g"
| "show_item (IF_MODE m) = ''ifm='' @ show_int m"
| "show_item (RTL_AGC on) = ''dagc='' @ show_int on"
| "show_item (DIRECT on) = ''ds='' @ show_int on"
| "show_item (DS_MODE m) = ''dm='' @ show_int (ds_mode_code m)"
| "show_item (DS_THRESHOLD f) = ''dm='' @ show_int (uint f)"
| "show_item (HARMONIC h) = ''harm='' @ show_int h"
| "show_item (VCO_MIN c) = ''vcocmin='' @ show_int c"
| "show_item (VCO_MAX c) = ''vcocmax='' @ show_int c"
| "show_item (VCO_ALGO a) = ''vcoalgo='' @ show_int a"
| "show_item (BIAS_PIN p) = ''Tp='' @ show_int p"
| "show_item (BIAS_TEE on) = ''T='' @ show_int on"
| "show_item (SOFT_AGC m) = ''softagc='' @ show_int (agc_mode_code m)"
| "show_item (SOFT_SCAN ms) = ''softscantime='' @ show_int ms"
| "show_item (SOFT_DEAD ms) = ''softdeadtime='' @ show_int ms"
| "show_item SOFT_VERBOSE = ''softverbose''"
| "show_item (OTHER w) = w"

definition option_names :: "string list" where
  "option_names =
     [''f='', ''bw='', ''bc='', ''sb='', ''agc='', ''gain='', ''agcv='', ''ifm='', ''dagc='', ''ds='', ''dm='', ''harm='', ''vcocmin='',
      ''vcocmax='', ''vcoalgo='', ''tp='', ''Tp='', ''TP='', ''t='', ''T='', ''softagc='', ''softscantime='', ''softdeadtime='']"

fun valid_item :: "opt_item \<Rightarrow> bool" where
  "valid_item (FREQ f) \<longleftrightarrow> 0 \<le> f \<and> f < 2 ^ 52"
| "valid_item (BW k) \<longleftrightarrow> 0 \<le> k \<and> k < 2 ^ 31"
| "valid_item (CENTER f) \<longleftrightarrow> fits_int f"
| "valid_item (GAIN g) \<longleftrightarrow> fits_int g"
| "valid_item (IF_MODE m) \<longleftrightarrow> fits_int m"
| "valid_item (RTL_AGC on) \<longleftrightarrow> fits_int on"
| "valid_item (DIRECT on) \<longleftrightarrow> fits_int on"
| "valid_item (DS_THRESHOLD f) \<longleftrightarrow> 4 < f"
| "valid_item (HARMONIC h) \<longleftrightarrow> 0 \<le> h \<and> h \<le> 16"
| "valid_item (VCO_MIN c) \<longleftrightarrow> 0 \<le> c \<and> c \<le> 7"
| "valid_item (VCO_MAX c) \<longleftrightarrow> 0 \<le> c \<and> c \<le> 7"
| "valid_item (VCO_ALGO a) \<longleftrightarrow> 0 \<le> a \<and> a \<le> 2"
| "valid_item (BIAS_PIN p) \<longleftrightarrow> fits_int p"
| "valid_item (BIAS_TEE on) \<longleftrightarrow> fits_int on"
| "valid_item (SOFT_SCAN ms) \<longleftrightarrow> 0 \<le> ms \<and> ms < 2 ^ 24"
| "valid_item (SOFT_DEAD ms) \<longleftrightarrow> 0 \<le> ms \<and> ms < 2 ^ 24"
| "valid_item (OTHER w) \<longleftrightarrow> w \<noteq> [] \<and> w \<notin> {''verbose'', ''v'', ''softverbose''} \<and> list_all (\<lambda>p. \<not> prefix p w) option_names
     \<and> list_all (\<lambda>c. c \<notin> set '':,'') w"
| "valid_item _ \<longleftrightarrow> True"

text \<open>
  What a setting does.  For two of them this is not what the help text says: a negative band centre loses 1 Hz, as the code rounds by
  adding one half and cutting off, and the algorithm of the VCO is stored as the largest VCO current.
\<close>

fun run_item ::
    "'h usb_ops \<Rightarrow> (rtlsdr_tuner \<Rightarrow> 'h rtlsdr_dev tuner_iface) \<Rightarrow> u8 list \<Rightarrow> nat \<Rightarrow> opt_item \<Rightarrow> ('h opt_dev, int option) state" where
  "run_item usb tn junk n OPT_VERBOSE = opt_verbose"
| "run_item usb tn junk n (FREQ f) = on_dev (rtlsdr_set_center_freq64 usb tn n (word_of_int f))"
| "run_item usb tn junk n (BW k) = call_dev (rtlsdr_set_tuner_bandwidth usb tn (word_of_int (k * 1000)))"
| "run_item usb tn junk n (CENTER f) = on_dev (rtlsdr_set_tuner_band_center usb (rtlsdr_set_center_freq64 usb tn n) (if f < 0 then f + 1 else f))"
| "run_item usb tn junk n (SIDEBAND u) =
     on_dev (rtlsdr_set_tuner_sideband usb (rtlsdr_set_center_freq64 usb tn n) (if u then 1 else 0))"
| "run_item usb tn junk n (TUNER_AGC on) = call_dev (rtlsdr_set_tuner_gain_mode usb tn (if on then 0 else 1))"
| "run_item usb tn junk n (GAIN g) = call_dev (rtlsdr_set_tuner_gain usb tn g)"
| "run_item usb tn junk n (IF_MODE m) = call_dev (rtlsdr_set_tuner_if_mode usb m)"
| "run_item usb tn junk n (RTL_AGC on) = call_dev (rtlsdr_set_agc_mode usb on)"
| "run_item usb tn junk n (DIRECT on) = on_dev (rtlsdr_set_direct_sampling usb tn n on)"
| "run_item usb tn junk n (DS_MODE m) = on_dev (do {
     _ \<leftarrow> State_Monad.update (\<lambda>d. d\<lparr>d_ds_mode := m\<rparr>);
     d \<leftarrow> State_Monad.get;
     rtlsdr_set_ds_mode usb tn n m (d_ds_threshold d) })"
| "run_item usb tn junk n (DS_THRESHOLD f) = on_dev (do {
     _ \<leftarrow> State_Monad.update (\<lambda>d. d\<lparr>d_ds_threshold := f\<rparr>);
     d \<leftarrow> State_Monad.get;
     rtlsdr_set_ds_mode usb tn n (d_ds_mode d) f })"
| "run_item usb tn junk n (HARMONIC h) =
     change_dev (\<lambda>d. d\<lparr>d_r82xx := (d_r82xx d)\<lparr>r_cfg := (r_cfg (d_r82xx d))\<lparr>c_harmonic := h\<rparr>\<rparr>\<rparr>)"
| "run_item usb tn junk n (VCO_MIN c) =
     change_dev (\<lambda>d. d\<lparr>d_r82xx := (d_r82xx d)\<lparr>r_cfg := (r_cfg (d_r82xx d))\<lparr>c_vco_curr_min := word_of_int (7 - c)\<rparr>\<rparr>\<rparr>)"
| "run_item usb tn junk n (VCO_MAX c) =
     change_dev (\<lambda>d. d\<lparr>d_r82xx := (d_r82xx d)\<lparr>r_cfg := (r_cfg (d_r82xx d))\<lparr>c_vco_curr_max := word_of_int (7 - c)\<rparr>\<rparr>\<rparr>)"
| "run_item usb tn junk n (VCO_ALGO a) =
     change_dev (\<lambda>d. d\<lparr>d_r82xx := (d_r82xx d)\<lparr>r_cfg := (r_cfg (d_r82xx d))\<lparr>c_vco_curr_max := word_of_int a\<rparr>\<rparr>\<rparr>)"
| "run_item usb tn junk n (BIAS_PIN p) = change_dev (\<lambda>d. d\<lparr>d_biast_gpio_pin_no := p\<rparr>)"
| "run_item usb tn junk n (BIAS_TEE on) = call_dev (rtlsdr_set_bias_tee usb junk on)"
| "run_item usb tn junk n (SOFT_AGC m) =
     change_dev (\<lambda>d. d\<lparr>d_agc_mode := m, d_agc_state := if m = SOFTAGC_OFF then SOFTSTATE_OFF else SOFTSTATE_INIT\<rparr>)"
| "run_item usb tn junk n (SOFT_SCAN ms) = change_agc (\<lambda>a. a\<lparr>a_scanTimeMs := of_int ms\<rparr>)"
| "run_item usb tn junk n (SOFT_DEAD ms) = change_agc (\<lambda>a. a\<lparr>a_deadTimeMs := of_int ms\<rparr>)"
| "run_item usb tn junk n SOFT_VERBOSE = do { _ \<leftarrow> State_Monad.update (\<lambda>s. s\<lparr>o_softagc_verbose := 1\<rparr>); ret (Some 0) }"
| "run_item usb tn junk n (OTHER w) = ret (Some (-1))"

text \<open>The settings one after the other; the result is the last code below 0, or 0.\<close>

primrec run_items :: "('i \<Rightarrow> ('s, int option) state) \<Rightarrow> 'i list \<Rightarrow> int \<Rightarrow> ('s, int option) state" where
  "run_items f [] r = ret (Some r)"
| "run_items f (i # is) r = returning (f i) (\<lambda>r'. run_items f is (if r' < 0 then r' else r))"

fun join :: "string list \<Rightarrow> string" where
  "join [] = []"
| "join [w] = w"
| "join (w # ws) = w @ '':'' @ join ws"

subsection \<open>Options are read as they are written\<close>

lemma with_value_Some [simp]: "with_value (Some x) k = k x"
  by (simp add: with_value_def)

lemma dbl_half:
  assumes "- (2 ^ 52) \<le> n" "n < 2 ^ 52"
  shows "dbl (of_int n + 1 / 2) = of_int n + 1 / 2" "dbl_trunc (of_int n + 1 / 2) = (if n < 0 then n + 1 else n)"
proof -
  define q :: rat where "q = of_int n + 1 / 2"
  define e where "e = dbl_exp \<bar>q\<bar> - 52"
  have cases: "q \<ge> 1 / 2 \<and> 0 \<le> n \<or> q \<le> - (1 / 2) \<and> n < 0"
    unfolding q_def by (cases "0 \<le> n") auto
  then have q: "0 < \<bar>q\<bar>" "q \<noteq> 0" by auto
  have "of_int n \<le> (of_int (2 ^ 52 - 1) :: rat)" "(of_int (- (2 ^ 52)) :: rat) \<le> of_int n"
    using assms by (simp_all only: of_int_le_iff)
  then have "\<bar>q\<bar> < 2 powi 52" by (simp add: q_def abs_less_iff)
  then have "2 powi dbl_exp \<bar>q\<bar> < (2 :: rat) powi 52"
    using dbl_exp_bounds(1) [of "\<bar>q\<bar>"] q by simp
  then have "dbl_exp \<bar>q\<bar> < 52"
    using power_int_increasing [of 52 "dbl_exp \<bar>q\<bar>" "2 :: rat"] by force
  then have "e \<le> - 1" by (simp add: e_def)
  then have u: "(2 :: rat) powi e = 1 / of_int (2 * 2 ^ nat (- e - 1))"
    by (simp add: power_int_def nat_diff_distrib power_diff field_simps)
  have "dbl q = of_int (round_even (q / 2 powi e)) * 2 powi e"
    using q by (simp add: dbl_def Let_def e_def)
  also have "q / 2 powi e = of_int ((2 * n + 1) * 2 ^ nat (- e - 1))"
    unfolding u q_def by (simp add: field_simps)
  also have "of_int (round_even (of_int ((2 * n + 1) * 2 ^ nat (- e - 1)))) * 2 powi e = q"
    unfolding u q_def round_even_of_int by (simp add: field_simps)
  finally show "dbl (of_int n + 1 / 2) = of_int n + 1 / 2" by (simp add: q_def)
  show "dbl_trunc (of_int n + 1 / 2) = (if n < 0 then n + 1 else n)"
    using cases by (auto simp: dbl_trunc_def q_def) linarith+
qed

lemma sgl_of_int:
  assumes "0 \<le> n" "n < 2 ^ 24"
  shows "sgl (of_int n) = of_int n"
proof (cases "n = 0")
  case True
  then show ?thesis by (simp add: sgl_def)
next
  case False
  define e where "e = dbl_exp \<bar>of_int n\<bar> - 23"
  have "(of_int n :: rat) < of_int (2 ^ 24)" using assms by (simp only: of_int_less_iff)
  then have "2 powi dbl_exp \<bar>of_int n\<bar> < (2 :: rat) powi 24"
    using dbl_exp_bounds(1) [of "of_int n"] False assms by simp
  then have "e \<le> 0"
    using power_int_increasing [of 24 "dbl_exp \<bar>of_int n\<bar>" "2 :: rat"] by (force simp: e_def)
  then have u: "(2 :: rat) powi e = 1 / of_int (2 ^ nat (- e))"
    by (simp add: power_int_def field_simps)
  have "sgl (of_int n) = of_int (round_even (of_int n / 2 powi e)) * 2 powi e"
    using False by (simp add: sgl_def Let_def e_def)
  also have "(of_int n :: rat) / 2 powi e = of_int (n * 2 ^ nat (- e))"
    unfolding u by simp
  also have "of_int (round_even (of_int (n * 2 ^ nat (- e)) :: rat)) * 2 powi e = (of_int n :: rat)"
    unfolding u round_even_of_int by simp
  finally show ?thesis .
qed

text \<open>The values as they come out of the string.\<close>

lemma dbl_trunc_of_int: "dbl_trunc (of_int n) = n"
  by (simp add: dbl_trunc_def)

lemma read_values:
  shows "- (2 ^ 31) \<le> i \<Longrightarrow> i < 2 ^ 31 \<Longrightarrow> atoi (show_int i) = i"
    and "0 \<le> k \<Longrightarrow> k < 2 ^ 31 \<Longrightarrow> atol (show_int k) = k"
    and "0 \<le> f \<Longrightarrow> f < 2 ^ 52 \<Longrightarrow> Option.bind (parseFreq (show_int f)) (\<lambda>x. to_u64 (dbl (x + 1 / 2))) = Some (word_of_int f)"
    and "fits_int c \<Longrightarrow> Option.bind (parseFreq (show_int c)) (\<lambda>x. to_i32 (dbl (x + 1 / 2))) = Some (if c < 0 then c + 1 else c)"
  using atoi_show_int [of i "[]"] atol_show_int [of k "[]"] parseFreq_show_int [of f] parseFreq_show_int [of c]
    dbl_half [of f] dbl_half [of c]
  by (simp_all add: to_u64_def to_i32_def fits_int_def)

lemma read_u32: "Option.bind (parseFreq (show_int (uint w))) to_u32 = Some w"
proof -
  have "uint w < 9007199254740992" using uint_less_u32 [of w] by linarith
  then have "parseFreq (show_int (uint w)) = Some (of_int (uint w))"
    by (intro parseFreq_show_int) simp
  then show ?thesis
    using uint_less_u32 [of w] by (simp only: bind.bind_lunit to_u32_def Let_def dbl_trunc_of_int) simp
qed

lemma ds_mode_value: "Option.bind (parseFreq (show_int (ds_mode_code m))) to_u32 = Some (word_of_int (ds_mode_code m))"
  "ds_mode_of (word_of_int (ds_mode_code m)) = m" "word_of_int (ds_mode_code m) \<le> (4 :: u32)"
  using read_u32 [of "word_of_int (ds_mode_code m)"]
  by (cases m; simp add: ds_mode_code_def ds_mode_of_def)+

lemma agc_mode_value: "atoi (show_int (agc_mode_code m)) = agc_mode_code m" "agc_mode_of (agc_mode_code m) = Some m"
  "agc_mode_code m = 0 \<longleftrightarrow> m = SOFTAGC_OFF"
  by (cases m; simp add: agc_mode_code_def agc_mode_of_def read_values)+

lemma time_value:
  assumes "0 \<le> ms" "ms < 2 ^ 24"
  shows "atof (show_int ms) = Some (of_int ms)" "sgl (of_int ms) = of_int ms"
  using assms atof_show_int [of ms] sgl_of_int [OF assms] by simp_all

lemma fits_int_value: "fits_int i \<Longrightarrow> atoi (show_int i) = i"
  by (simp add: fits_int_def read_values)

lemma atoi_flags: "atoi ''1'' = 1" "atoi ''0'' = 0"
  by (simp_all add: atoi_def atol_def scan_sign_def with_sign_def digits_value_def c_isdigit_def c_isspace_def)

lemma opt_ds_mode_value:
  "opt_ds_mode usb tn n (word_of_int (ds_mode_code m)) = do {
     _ \<leftarrow> State_Monad.update (\<lambda>d. d\<lparr>d_ds_mode := m\<rparr>);
     d \<leftarrow> State_Monad.get;
     rtlsdr_set_ds_mode usb tn n m (d_ds_threshold d) }"
  "4 < f \<Longrightarrow> opt_ds_mode usb tn n f = do {
     _ \<leftarrow> State_Monad.update (\<lambda>d. d\<lparr>d_ds_threshold := f\<rparr>);
     d \<leftarrow> State_Monad.get;
     rtlsdr_set_ds_mode usb tn n (d_ds_mode d) f }"
  by (rule state.expand, simp add: opt_ds_mode_def ds_mode_value fun_eq_iff; auto dest: leD)+

text \<open>Every setting is recognised, and nothing else is.\<close>

lemma apply_show_item:
  assumes "valid_item i"
  shows "apply_option usb tn junk n (show_item i) = run_item usb tn junk n i"
proof (cases i)
  case (OTHER w)
  then show ?thesis using assms by (simp add: apply_option_def option_names_def)
qed (use assms in \<open>simp_all add: apply_option_def read_values read_u32 ds_mode_value agc_mode_value time_value
       fits_int_value atoi_flags opt_sideband_def opt_ds_mode_value opt_cfg_def opt_soft_agc_def\<close>)

lemma show_item_word:
  assumes "valid_item i"
  shows "show_item i \<noteq> [] \<and> list_all (\<lambda>c. c \<notin> set '':,'') (show_item i)"
proof -
  have "list_all (\<lambda>c. c \<noteq> CHR '':'' \<and> c \<noteq> CHR '','') (show_int x)" for x
    using show_nat_digits [of "nat x"] show_nat_digits [of "nat (- x)"] digit_not
    by (auto simp: show_int_def list_all_iff)
  then show ?thesis using assms by (cases i) simp_all
qed

lemma tokens_join:
  assumes "list_all (\<lambda>w. w \<noteq> [] \<and> list_all (\<lambda>c. c \<notin> set '':,'') w) ws"
  shows "tokens '':,'' (join ws) = ws"
  using assms
proof (induction ws rule: join.induct)
  case (2 w)
  then show ?case using strtok_word [of "\<lambda>c. c \<in> set '':,''" w "[]" "[]"] by (simp add: tokens_def)
next
  case (3 w v ws)
  then show ?case
    using strtok_word [of "\<lambda>c. c \<in> set '':,''" w "[]" "CHR '':'' # join (v # ws)"] by (simp add: tokens_def)
qed (simp add: tokens_def)

lemma option_loop_items:
  assumes "list_all valid_item is"
  shows "option_loop (apply_option usb tn junk n) (map show_item is) r = run_items (run_item usb tn junk n) is r"
  using assms
proof (induction "is" arbitrary: r)
  case (Cons i "is")
  then show ?case by (simp add: apply_show_item)
qed simp

text \<open>
  C22. An option string does what it says.  A list of settings with values in their documented ranges, written one after
  the other with colons in between, their numbers as plain decimals and the sideband as L or U, makes the library carry out just these settings, in this order, each with the value
  that was written (a frequency with its exact number of Hz), with two exceptions: a negative band centre \<open>bc=\<close> is set 1 Hz too
  high, and \<open>vcoalgo=\<close> sets the largest VCO current instead of the algorithm; words that are no options are skipped.  The soft AGC is
  started at the end if a setting turned it on.  The result is the last negative code of a setting, \<open>-1\<close> for an unknown word, or 0
  if there is none; no setting is left out because of an earlier failure.
\<close>

theorem opt_string_runs:
  assumes "list_all valid_item is"
  shows "rtlsdr_set_opt_string usb tn junk n True (join (map show_item is)) verbose = do {
     _ \<leftarrow> State_Monad.update (opt_defaults verbose);
     returning (run_items (run_item usb tn junk n) is 0) (\<lambda>r. do {
       _ \<leftarrow> State_Monad.update (opt_start_agc usb tn);
       ret (Some r) }) }"
proof -
  have "tokens '':,'' (join (map show_item is)) = map show_item is"
    using assms show_item_word by (intro tokens_join) (auto simp: list_all_iff)
  then show ?thesis
    by (simp add: rtlsdr_set_opt_string_def option_loop_items [OF assms])
qed

theorem opt_string_runs_witness:
  "\<forall>(usb :: sim_hw usb_ops) tn junk n.
     rtlsdr_set_opt_string usb tn junk n True ''f=100000000:biast:bc=-30000'' 0 = do {
       _ \<leftarrow> State_Monad.update (opt_defaults 0);
       returning (run_items (run_item usb tn junk n) [FREQ 100000000, OTHER ''biast'', CENTER (- 30000)] 0) (\<lambda>r. do {
         _ \<leftarrow> State_Monad.update (opt_start_agc usb tn);
         ret (Some r) }) }"
proof (intro allI)
  fix usb :: "sim_hw usb_ops" and tn junk n
  have "join (map show_item [FREQ 100000000, OTHER ''biast'', CENTER (- 30000)]) = ''f=100000000:biast:bc=-30000''"
    by (simp add: show_int_def show_nat.simps [of "_ :: nat"] char_of_def bit_0)
  moreover have "list_all valid_item [FREQ 100000000, OTHER ''biast'', CENTER (- 30000)]"
    by (simp add: option_names_def fits_int_def)
  ultimately show "rtlsdr_set_opt_string usb tn junk n True ''f=100000000:biast:bc=-30000'' 0 = do {
       _ \<leftarrow> State_Monad.update (opt_defaults 0);
       returning (run_items (run_item usb tn junk n) [FREQ 100000000, OTHER ''biast'', CENTER (- 30000)] 0) (\<lambda>r. do {
         _ \<leftarrow> State_Monad.update (opt_start_agc usb tn);
         ret (Some r) }) }"
    using opt_string_runs [of "[FREQ 100000000, OTHER ''biast'', CENTER (- 30000)]" usb tn junk n 0] by simp
qed

text \<open>A device for the examples: the R820T dongle of \<open>Rtl_R820t\<close>, with the soft AGC off.\<close>

definition sim_opt :: "sim_hw opt_dev" where
  "sim_opt =
     \<lparr>o_agc = \<lparr>a_dev = sim_dev_r820t, a_exit_command_thread = False, a_command_newGain = 0, a_command_changeGain = False,
                a_scanTimeMs = 100, a_deadTimeMs = 1, a_remainingDeadSps = 0, a_remainingScanSps = 0, a_numInHisto = 0,
                a_histo = replicate 16 0, a_gainIdx = 0, a_worker = WORKER_EXIT, a_applied = []\<rparr>,
      o_worker_threads = 0, o_called_set_opt = 0, o_verbose = 0, o_softagc_verbose = 0, o_r82xx_verbose = 0, o_arg_verbose = 0\<rparr>"

subsection \<open>The VCO algorithm\<close>

text \<open>
  The documented option \<open>vcoalgo\<close> does not set the algorithm.  With a documented value it stores that value as the largest VCO
  current, where 0 to 7 is the inverse of the current to use, so it also undoes the option \<open>vcocmax\<close>; the
  algorithm stays what it was, and the call reports success.
\<close>

theorem opt_vcoalgo_misdirected:
  assumes "0 \<le> a" "a \<le> 2" "agc_state (o_agc s) = SOFTSTATE_OFF"
  shows "let (r, s') = run_state (rtlsdr_set_opt_string usb tn junk n True (''vcoalgo='' @ show_int a) verbose) s;
             c = r_cfg (d_r82xx (a_dev (o_agc s))); c' = r_cfg (d_r82xx (a_dev (o_agc s')))
         in r = Some 0 \<and> c' = c\<lparr>c_vco_curr_max := word_of_int a\<rparr> \<and> c_vco_algo c' = c_vco_algo c"
proof -
  have "list_all (\<lambda>c. c \<notin> set '':,'') (show_int a)"
    using show_item_word [of "SOFT_SCAN a"] assms(1,2) by simp
  then have "tokens '':,'' (''vcoalgo='' @ show_int a) = [''vcoalgo='' @ show_int a]"
    using tokens_join [of "[''vcoalgo='' @ show_int a]"] by simp
  moreover have "atoi (show_int a) = a" using assms by (simp add: read_values)
  ultimately show ?thesis
    using assms by (simp add: rtlsdr_set_opt_string_def apply_option_def opt_cfg_def change_dev_def opt_start_agc_def
        opt_defaults_def)
qed

theorem opt_vcoalgo_misdirected_witness:
  "\<forall>(usb :: sim_hw usb_ops) tn junk n.
     (let (r, s') = run_state (rtlsdr_set_opt_string usb tn junk n True (''vcoalgo='' @ show_int 2) 1) sim_opt;
          c = r_cfg (d_r82xx (a_dev (o_agc sim_opt))); c' = r_cfg (d_r82xx (a_dev (o_agc s')))
      in r = Some 0 \<and> c' = c\<lparr>c_vco_curr_max := word_of_int 2\<rparr> \<and> c_vco_algo c' = c_vco_algo c)"
proof (intro allI)
  fix usb :: "sim_hw usb_ops" and tn junk n
  have "agc_state (o_agc sim_opt) = SOFTSTATE_OFF"
    by (simp add: sim_opt_def sim_dev_r820t_def sim_dev0_def)
  then show "let (r, s') = run_state (rtlsdr_set_opt_string usb tn junk n True (''vcoalgo='' @ show_int 2) 1) sim_opt;
          c = r_cfg (d_r82xx (a_dev (o_agc sim_opt))); c' = r_cfg (d_r82xx (a_dev (o_agc s')))
      in r = Some 0 \<and> c' = c\<lparr>c_vco_curr_max := word_of_int 2\<rparr> \<and> c_vco_algo c' = c_vco_algo c"
    using opt_vcoalgo_misdirected [of 2 sim_opt usb tn junk n 1] by simp
qed

text \<open>Every call with a running soft AGC creates another worker thread, and nothing ends the one before.\<close>

lemma opt_second_worker:
  "agc_state (o_agc s) \<noteq> SOFTSTATE_OFF \<Longrightarrow>
     o_worker_threads (state_of (rtlsdr_set_opt_string usb tn junk n True [] verbose) s) = Suc (o_worker_threads s)"
  by (simp add: rtlsdr_set_opt_string_def tokens_def opt_defaults_def opt_start_agc_def)

end
