(* ===== verification/Spec2Isabelle.thy ===== *)
theory Spec2Isabelle
  imports Rpc_Runs Rtl_Rate Rtl_R820t Soft_Agc_Runs Rtl_Stream_Runs Rtl_Open Rtl_Options
begin

text \<open>
  Verification of the RTL-SDR driver library \<^verbatim>\<open>src/librtlsdr\<close>, the C core of the Soapy distribution: it drives
  USB dongles with a Realtek RTL2832U demodulator and one of several tuner chips.

  \<^bold>\<open>The program.\<close>  \<^verbatim>\<open>src/librtlsdr.c\<close> exchanges registers with the RTL2832U by USB control transfers and
  offers the calls of \<^verbatim>\<open>include/rtl-sdr.h\<close> (centre frequency, sample rate, gain, direct sampling and so on).  A table
  of function pointers connects it to the tuner drivers \<^verbatim>\<open>tuner_e4k.c\<close>, \<^verbatim>\<open>tuner_fc0012.c\<close>,
  \<^verbatim>\<open>tuner_fc0013.c\<close>, \<^verbatim>\<open>tuner_fc2580.c\<close> and \<^verbatim>\<open>tuner_r82xx.c\<close>, which reach their chip through
  the I2C port of the RTL2832U.  A remote variant of the library sends its calls to a server:
  \<^verbatim>\<open>rtlsdr_rpc_msg.c\<close> is the message format, \<^verbatim>\<open>rtlsdr_rpc.c\<close> the client and \<^verbatim>\<open>rtl_rpcd.c\<close>
  the server.  The library itself is modelled in the configuration its build files select, which does not call the client.

  \<^bold>\<open>The theories.\<close>
  \<^item> \<open>Prelude\<close>: the C integer types as words, or as integers with \<open>wrap32\<close> and relatives where the source
    computes in \<open>int\<close>; the state monad the drivers are written in; the error idioms of the sources (chains of
    \<open>if (!ret)\<close>, accumulated \<open>ret |= ...\<close>, loops that stop at an error); the predicates \<open>keeps\<close> and
    \<open>preserves\<close> for what a program leaves alone, with their introduction rules.
  \<^item> \<open>C_Double\<close>: rounding to 53 bits, for the few computations in \<open>double\<close>.
  \<^item> \<open>Rpc_Msg\<close> (\<^verbatim>\<open>rtlsdr_rpc_msg.c\<close>): the message as a byte buffer with cursor and capacity.  The allocator is
    an argument.  Shown: pushed items come back unchanged and in order, pushes and pops stay in the buffer whatever it
    holds, the header fields.
  \<^item> \<open>I2c_Bus\<close>: the two functions \<open>rtlsdr_i2c_write_fn\<close> and \<open>rtlsdr_i2c_read_fn\<close> the drivers call, as a
    record of programs, and the contract of a chip that answers (locales \<open>i2c_chip\<close>, \<open>reg_file\<close>).
  \<^item> \<open>Fc0012\<close>, \<open>Fc0013\<close>, \<open>Fc2580\<close>, \<open>E4k\<close>: one theory per driver, with a locale for its chip
    and a simulated chip that interprets it.  Shown: the frequency the divider registers stand for, the filters, gains and
    initial registers, and the inputs that are refused.
  \<^item> \<open>R82xx\<close>, \<open>R82xx_Tune\<close> (\<^verbatim>\<open>tuner_r82xx.c\<close>): the first theory holds the driver and the
    invariant that its shadow registers agree with the chip up to the overrides, over all sequences of calls (an inductive
    step relation); the second what tuning, gain and bandwidth calls achieve.
  \<^item> \<open>Rtl_Usb\<close>, \<open>Rtl_Chip\<close> (\<^verbatim>\<open>librtlsdr.c\<close>): the device record, the register layer, GPIO, EEPROM, FIR
    filter, IF frequency, crystals, infrared receiver; and what these calls leave on a chip that answers (locales
    \<open>rtl2832\<close>, \<open>serial_eeprom\<close>, \<open>usb_i2c_chip\<close>, the last a sublocale of \<open>i2c_chip\<close>, which connects the driver theories to
    the library).
  \<^item> \<open>Rtl_Tuners\<close>: the table \<open>tuners\<close> with its glue functions, and the contracts the library relies on
    (locales \<open>polite_tuner\<close>, \<open>zero_if_tuner\<close>, \<open>tuning_tuner\<close>), discharged for the E4000, FC0012, FC0013
    and FC2580.
  \<^item> \<open>Rtl_Api\<close>, \<open>Rtl_Rate\<close>: centre frequency with automatic direct sampling, offset tuning, crystal and
    ppm settings, gains, bandwidth, switches; the sample rate.
  \<^item> \<open>Rtl_R820t\<close>: the R820T/R828D entries of the table and the calls only these tuners have.
  \<^item> \<open>Soft_Agc\<close>, \<open>Soft_Agc_Runs\<close>: the soft AGC, a callback and a worker thread that share
    \<open>struct softagc_state\<close>, as interleaved steps.  Shown: all interleavings refine an abstract gain search, the search ends when the
    worker is scheduled, a signal can be lost, the counters overflow in the automatic modes.
  \<^item> \<open>Rtl_Stream\<close>, \<open>Rtl_Stream_Runs\<close>: streaming, a state machine over the answers of libusb, completed transfers
    and calls from other threads, with the buffers in an explicit store.  Shown: no misuse of memory and no leak in well-behaved runs, but for
    transfers freed at the return while libusb is still cancelling them; the
    blocks delivered are those the soft AGC lets through, a cancelled stream ends within a bounded number of calls, however late libusb finishes its cancellations; and
    four ways in which it fails.
  \<^item> \<open>Rtl_Open\<close>: the table of known dongles, enumeration, \<open>rtlsdr_open\<close> with the probe for the tuner.  Shown: the numbers,
    names and serial numbers agree, the state of an opened device.
  \<^item> \<open>C_String\<close>, \<open>Rtl_Options\<close>: the string functions of the C library the sources use, and the option string.  Shown: settings
    written as documented are carried out as written, and two that are not.
  \<^item> \<open>Rpc_Server\<close> (\<^verbatim>\<open>rtl_rpcd.c\<close>), \<open>Rpc_Client\<close> (\<^verbatim>\<open>rtlsdr_rpc.c\<close>): receiving from a
    socket, which is a sequence of events, the handling of a query as calls of the device model, and the functions of the
    client with its slots for the queries of 32 threads.  Shown: the portions in which bytes arrive do not matter, and replies that
    overtake each other reach their owners (of several for one slot, the last).
  \<^item> \<open>Rpc_Runs\<close>: client and server together (locale \<open>rpc_link\<close>: memory at both ends, and a connection that loses
    nothing).  Shown: a device is opened through the client; sequences of remote calls return what the same local calls return and leave the same device, samples
    arrive in order; the bandwidth call reports an error after a success, and a query can make the server write behind a
    buffer.

  \<^bold>\<open>State and results.\<close>  \<open>struct rtlsdr_dev\<close> is the record \<open>rtlsdr_dev\<close>; its USB handle is an abstract
  value that the control transfers of \<open>usb_ops\<close> change.  Operations are values of the state monad and return the C
  code; \<open>None\<close> as a result stands for a call that does not return or stops the program (a division by zero, an
  access outside an array, recursion that exceeds the given depth).  Messages to \<open>stderr\<close> are left out, null device
  pointers as well.

  \<^bold>\<open>Parameters.\<close>  libusb is the argument \<open>usb\<close>, the I2C functions are the argument \<open>io\<close>: nothing is
  assumed of them unless a theorem says so through a locale.  What libusb may answer to the asynchronous calls is stated by
  \<open>libusb_allows\<close>, and for well-behaved runs by \<open>orderly\<close> and \<open>settling\<close>, after the documentation of libusb (of each transfer the model
  also keeps whether libusb has accepted to cancel it); which allocations succeed is the record \<open>mem_answers\<close>;
  the USB devices and their strings are the record \<open>usb_bus\<close>.  Bytes of uninitialised locals that a function hands on are the argument
  \<open>junk\<close>.  \<open>tuners\<close> takes the R820T entry as an argument, and the glue of that tuner takes
  \<open>rtlsdr_set_center_freq64\<close> as the argument \<open>recenter\<close>, which cuts the mutual recursion of the two.

  \<^bold>\<open>Bounds.\<close>  \<open>rtlsdr_set_center_freq64\<close> calls itself through the direct sampling switch; it takes a depth, and three
  levels are shown to be enough for every input.  Every other loop of the sources is structural or has a termination proof.
  The loops of the RPC client that wait for messages are partial functions, \<open>None\<close> when nothing arrives; the theorems show that they
  return when the messages do arrive.  Streaming has no fuel: its loop is unfolded into the events of a run, and theorems speak about all finite runs.
  The \<open>override\<close> arrays of the R820T driver are read beyond their end by the source; the bytes there are the field
  \<open>r_beyond\<close>.

  \<^bold>\<open>Not modelled.\<close>  The UDP server of \<^verbatim>\<open>librtlsdr.c\<close>, which the default build leaves out (its number formats are in
  \<open>C_String\<close>); in \<^verbatim>\<open>rtl_rpcd.c\<close> the operations \<open>READ_SYNC\<close> and \<open>READ_ASYNC\<close> of a query, which are the
  argument \<open>streaming\<close> (they interleave the socket with the USB stream; of the second, the callback is
  modelled: what it sends, and when it cancels the stream), the infrared port and the set-up of the sockets; the command line tools; the C++ modules of the other devices.
\<close>

end
